(* ===== verification/GC_Prelude.thy ===== *)
theory GC_Prelude
  imports Main "HOL-Library.List_Lexorder" "HOL-Library.Char_ord" "HOL-Library.Multiset"
begin

text \<open>
  Shared material of the Gas City development: the fact collections the
  component theories add to, the Go library routines the sources call
  (\<open>strconv.Itoa\<close>, \<open>strconv.Atoi\<close>, \<open>strings.SplitN\<close>, \<open>strings.LastIndex\<close>, \<open>sort.Slice\<close>,
  reading a Go map), and the contract of a comparison function handed to
  \<open>sort.Slice\<close> (locale \<open>slice_order\<close>).

  A Go string is a sequence of bytes and an Isabelle \<open>string\<close> a list of 8-bit characters, so
  equality, prefixes and the lexicographic order agree.  A Go \<open>time.Time\<close> is the number of
  nanoseconds since the zero time, 1 January of year 1, 00:00:00 UTC.
\<close>

named_theorems store_defs \<open>unfolding rules of store operations\<close>
named_theorems bead_simps \<open>facts about single beads\<close>

type_synonym gtime = int
type_synonym strmap = "string \<rightharpoonup> string"
type_synonym kvs = "(string \<times> string) list"

definition zero_time :: gtime where
  "zero_time = 0"

definition IsZero :: "gtime \<Rightarrow> bool" where
  "IsZero t \<longleftrightarrow> t = zero_time"

text \<open>Reading a key of a Go map of strings: an absent key (and a nil map) reads as the empty
  string.  A range loop that assigns every entry of a literal map is a fold over its entries.\<close>

definition mget :: "strmap \<Rightarrow> string \<Rightarrow> string" where
  "mget m k = (case m k of None \<Rightarrow> [] | Some v \<Rightarrow> v)"

fun mput_all :: "strmap \<Rightarrow> kvs \<Rightarrow> strmap" where
  "mput_all m [] = m"
| "mput_all m ((k, v) # kvs) = mput_all (m(k \<mapsto> v)) kvs"

lemma mget_empty [simp]: "mget Map.empty k = []"
  by (simp add: mget_def)

lemma mget_upd [simp]: "mget (m(k \<mapsto> v)) k' = (if k' = k then v else mget m k')"
  by (simp add: mget_def)

lemma mput_all_other: "k \<notin> fst ` set kvs \<Longrightarrow> mput_all m kvs k = m k"
  by (induction m kvs rule: mput_all.induct) auto

lemma mput_all_in:
  "distinct (map fst kvs) \<Longrightarrow> (k, v) \<in> set kvs \<Longrightarrow> mput_all m kvs k = Some v"
proof (induction kvs arbitrary: m)
  case (Cons e kvs)
  obtain k' v' where e: "e = (k', v')" by (cases e)
  show ?case
  proof (cases "k' = k")
    case True
    with Cons.prems e have "k \<notin> fst ` set kvs" "v' = v" by (auto simp: image_iff)
    with True e show ?thesis by (simp add: mput_all_other)
  next
    case False
    with Cons e show ?thesis by auto
  qed
qed simp

text \<open>A Go map has one entry per key and no order: any two listings of the same entries with
  distinct keys assign the same map, so the order of the range loop is not observable.\<close>

lemma mput_all_perm:
  assumes "distinct (map fst kvs)" and "distinct (map fst kvs')" and "set kvs = set kvs'"
  shows "mput_all m kvs = mput_all m kvs'"
proof
  fix k
  show "mput_all m kvs k = mput_all m kvs' k"
  proof (cases "k \<in> fst ` set kvs")
    case True
    then obtain v where "(k, v) \<in> set kvs" by auto
    with assms show ?thesis by (simp add: mput_all_in)
  next
    case False
    with assms(3) show ?thesis by (simp add: mput_all_other)
  qed
qed

section \<open>Decimal printing and parsing\<close>

definition digit_char :: "nat \<Rightarrow> char" where
  "digit_char d = char_of (48 + d)"

definition digit_val :: "char \<Rightarrow> nat" where
  "digit_val c = of_char c - 48"

definition is_digit :: "char \<Rightarrow> bool" where
  "is_digit c \<longleftrightarrow> 48 \<le> (of_char c :: nat) \<and> (of_char c :: nat) \<le> 57"

fun show_nat :: "nat \<Rightarrow> string" where
  "show_nat n = (if n < 10 then [digit_char n] else show_nat (n div 10) @ [digit_char (n mod 10)])"

declare show_nat.simps [simp del]

definition itoa :: "int \<Rightarrow> string" where
  "itoa i = (if i < 0 then CHR ''-'' # show_nat (nat (- i)) else show_nat (nat i))"

definition digits_val :: "string \<Rightarrow> nat" where
  "digits_val s = foldl (\<lambda>a c. 10 * a + digit_val c) 0 s"

definition atoi_abs :: "string \<Rightarrow> nat option" where
  "atoi_abs s = (if s \<noteq> [] \<and> list_all is_digit s then Some (digits_val s) else None)"

definition in_int64 :: "int \<Rightarrow> bool" where
  "in_int64 i \<longleftrightarrow> - (2 ^ 63) \<le> i \<and> i < 2 ^ 63"

text \<open>Signed 64-bit arithmetic wraps around.\<close>

definition wrap64 :: "int \<Rightarrow> int" where
  "wrap64 i = (i + 2 ^ 63) mod 2 ^ 64 - 2 ^ 63"

lemma wrap64_id: "in_int64 i \<Longrightarrow> wrap64 i = i"
  by (simp add: wrap64_def in_int64_def)

lemma wrap64_in_int64: "in_int64 (wrap64 i)"
  by (simp add: wrap64_def in_int64_def)

text \<open>\<open>strconv.Atoi\<close>: an optional sign, at least one decimal digit, and a value within int64.\<close>

definition atoi :: "string \<Rightarrow> int option" where
  "atoi s =
     (let (neg, ds) =
        (case s of [] \<Rightarrow> (False, [])
         | c # cs \<Rightarrow> if c = CHR ''-'' then (True, cs) else if c = CHR ''+'' then (False, cs) else (False, s))
      in case atoi_abs ds of None \<Rightarrow> None
         | Some n \<Rightarrow> (let i = (if neg then - int n else int n) in if in_int64 i then Some i else None))"

lemma digit_char_eval [simp]:
  "digit_char 0 = CHR ''0''"
  "digit_char (Suc 0) = CHR ''1''"
  "digit_char 1 = CHR ''1''"
  "digit_char 2 = CHR ''2''"
  "digit_char 3 = CHR ''3''"
  "digit_char 4 = CHR ''4''"
  "digit_char 5 = CHR ''5''"
  "digit_char 6 = CHR ''6''"
  "digit_char 7 = CHR ''7''"
  "digit_char 8 = CHR ''8''"
  "digit_char 9 = CHR ''9''"
  by code_simp+

lemma digit_char_val [simp]: "d < 10 \<Longrightarrow> digit_val (digit_char d) = d"
  by (simp add: digit_val_def digit_char_def)

lemma digit_char_is_digit [simp]: "d < 10 \<Longrightarrow> is_digit (digit_char d)"
  by (simp add: is_digit_def digit_char_def)

lemma show_nat_not_Nil [simp]: "show_nat n \<noteq> []"
  by (subst show_nat.simps) simp

lemma show_nat_all_digits: "list_all is_digit (show_nat n)"
proof (induction n rule: show_nat.induct)
  case (1 n)
  then show ?case by (subst show_nat.simps) simp
qed

lemma digits_val_show_nat: "digits_val (show_nat n) = n"
proof (induction n rule: show_nat.induct)
  case (1 n)
  show ?case
  proof (cases "n < 10")
    case True
    then show ?thesis by (subst show_nat.simps) (simp add: digits_val_def)
  next
    case False
    with "1.IH" show ?thesis by (subst show_nat.simps) (simp add: digits_val_def)
  qed
qed

lemma show_nat_inj [simp]: "show_nat m = show_nat n \<longleftrightarrow> m = n"
  by (metis digits_val_show_nat)

lemma is_digit_not_sign: "is_digit c \<Longrightarrow> c \<noteq> CHR ''-'' \<and> c \<noteq> CHR ''+''"
  by (auto simp: is_digit_def)

lemma atoi_abs_show_nat [simp]: "atoi_abs (show_nat n) = Some n"
  by (simp add: atoi_abs_def show_nat_all_digits digits_val_show_nat)

text \<open>Printing and parsing back every 64-bit integer is the identity; printing is injective.\<close>

lemma atoi_itoa: "in_int64 i \<Longrightarrow> atoi (itoa i) = Some i"
proof (cases "i < 0")
  case True
  assume "in_int64 i"
  with True show ?thesis by (simp add: atoi_def itoa_def)
next
  case False
  assume i: "in_int64 i"
  obtain c cs where s: "show_nat (nat i) = c # cs" by (cases "show_nat (nat i)") auto
  with show_nat_all_digits [of "nat i"] have "is_digit c" by simp
  then have "c \<noteq> CHR ''-''" "c \<noteq> CHR ''+''" by (auto dest: is_digit_not_sign)
  moreover have "atoi_abs (c # cs) = Some (nat i)" using s [symmetric] by simp
  ultimately show ?thesis using False i by (simp add: atoi_def itoa_def s)
qed

lemma show_nat_no_minus: "show_nat n \<noteq> CHR ''-'' # s"
proof
  assume "show_nat n = CHR ''-'' # s"
  with show_nat_all_digits [of n] have "is_digit (CHR ''-'')" by simp
  then show False by (simp add: is_digit_def)
qed

lemma itoa_inj [simp]: "itoa i = itoa j \<longleftrightarrow> i = j"
  by (auto simp: itoa_def show_nat_no_minus show_nat_no_minus [symmetric] split: if_splits)

section \<open>String routines\<close>

text \<open>\<open>strings.Contains(s, ":")\<close> and \<open>strings.SplitN(s, ":", 2)\<close>: the text before and after the
  first separator byte.\<close>

definition contains_byte :: "char \<Rightarrow> string \<Rightarrow> bool" where
  "contains_byte c s \<longleftrightarrow> c \<in> set s"

definition split_first :: "char \<Rightarrow> string \<Rightarrow> string \<times> string" where
  "split_first c s = (takeWhile (\<lambda>x. x \<noteq> c) s, tl (dropWhile (\<lambda>x. x \<noteq> c) s))"

lemma split_first_append:
  assumes "c \<notin> set a"
  shows "split_first c (a @ c # b) = (a, b)"
proof -
  have "takeWhile (\<lambda>x. x \<noteq> c) (a @ c # b) = a" "dropWhile (\<lambda>x. x \<noteq> c) (a @ c # b) = c # b"
    using assms by (induction a) auto
  then show ?thesis by (simp add: split_first_def)
qed

definition has_prefix :: "string \<Rightarrow> string \<Rightarrow> bool" where
  "has_prefix p s \<longleftrightarrow> take (length p) s = p"

lemma has_prefix_append [simp]: "has_prefix p (p @ s)"
  by (simp add: has_prefix_def)

text \<open>The text after the last occurrence of a marker: \<open>s[strings.LastIndex(s, m)+len(m):]\<close>,
  or None when the marker does not occur (LastIndex < 0).\<close>

fun after_last :: "string \<Rightarrow> string \<Rightarrow> string option" where
  "after_last m [] = (if m = [] then Some [] else None)"
| "after_last m (c # cs) =
     (case after_last m cs of Some r \<Rightarrow> Some r
      | None \<Rightarrow> if has_prefix m (c # cs) then Some (drop (length m) (c # cs)) else None)"

lemma after_last_append:
  assumes "after_last m s = Some r"
  shows "after_last m (p @ s) = Some r"
  using assms by (induction p) auto

section \<open>sort.Slice\<close>

text \<open>
  \<open>sort.Slice(xs, less)\<close> permutes the slice so that it is ordered by \<open>lt\<close>; which of the
  ordered permutations is left open.  The model inserts every element in turn.  Under the laws
  of the locale there is only one ordered permutation of a slice whose keys are distinct, so
  the choice is not observable there (\<open>sort_slice_unique\<close>).
\<close>

fun insert_by :: "('a \<Rightarrow> 'a \<Rightarrow> bool) \<Rightarrow> 'a \<Rightarrow> 'a list \<Rightarrow> 'a list" where
  "insert_by lt x [] = [x]"
| "insert_by lt x (y # ys) = (if lt y x then y # insert_by lt x ys else x # y # ys)"

definition sort_slice :: "('a \<Rightarrow> 'a \<Rightarrow> bool) \<Rightarrow> 'a list \<Rightarrow> 'a list" where
  "sort_slice lt xs = foldr (insert_by lt) xs []"

lemma mset_insert_by [simp]: "mset (insert_by lt x ys) = add_mset x (mset ys)"
  by (induction ys) auto

lemma sort_slice_simps [simp]:
  "sort_slice lt [] = []"
  "sort_slice lt (x # xs) = insert_by lt x (sort_slice lt xs)"
  by (simp_all add: sort_slice_def)

lemma mset_sort_slice [simp]: "mset (sort_slice lt xs) = mset xs"
  by (induction xs) simp_all

lemma set_sort_slice [simp]: "set (sort_slice lt xs) = set xs"
  by (metis mset_sort_slice set_mset_mset)

lemma length_sort_slice [simp]: "length (sort_slice lt xs) = length xs"
  by (metis mset_sort_slice size_mset)

lemma distinct_map_mset: "mset xs = mset ys \<Longrightarrow> distinct (map f xs) = distinct (map f ys)"
  by (metis mset_map mset_eq_imp_distinct_iff)

locale slice_order =
  fixes lt :: "'a \<Rightarrow> 'a \<Rightarrow> bool" and key :: "'a \<Rightarrow> 'k"
  assumes irrefl: "\<not> lt x x"
    and trans: "lt x y \<Longrightarrow> lt y z \<Longrightarrow> lt x z"
    and total: "key x \<noteq> key y \<Longrightarrow> lt x y \<or> lt y x"
begin

lemma asym: "lt x y \<Longrightarrow> \<not> lt y x"
  using irrefl trans by blast

lemma sorted_insert_by:
  assumes "sorted_wrt lt ys" and "key x \<notin> key ` set ys"
  shows "sorted_wrt lt (insert_by lt x ys)"
  using assms
proof (induction ys)
  case (Cons y ys)
  have set_ins: "set (insert_by lt x ys) = insert x (set ys)"
    by (metis mset_insert_by set_mset_add_mset_insert set_mset_mset)
  show ?case
  proof (cases "lt y x")
    case True
    with Cons set_ins show ?thesis by auto
  next
    case False
    with Cons.prems total [of x y] have "lt x y" by auto
    with Cons.prems False trans show ?thesis by auto
  qed
qed simp

lemma sorted_sort_slice: "distinct (map key xs) \<Longrightarrow> sorted_wrt lt (sort_slice lt xs)"
  by (induction xs) (auto intro: sorted_insert_by)

lemma sorted_perm_unique:
  assumes "sorted_wrt lt xs" and "sorted_wrt lt ys" and "mset xs = mset ys"
  shows "xs = ys"
  using assms
proof (induction xs arbitrary: ys)
  case (Cons x xs)
  then obtain y ys' where ys: "ys = y # ys'" by (cases ys) auto
  have "x = y"
  proof (rule ccontr)
    assume ne: "x \<noteq> y"
    from Cons.prems(3) ys have "x \<in> set ys" "y \<in> set (x # xs)"
      by (metis list.set_intros(1) set_mset_mset)+
    with ne ys have "x \<in> set ys'" "y \<in> set xs" by auto
    with Cons.prems(1,2) ys have "lt x y" "lt y x" by auto
    with asym show False by blast
  qed
  with Cons ys show ?case by simp
qed simp

lemma sort_slice_unique:
  assumes "distinct (map key xs)" and "mset ys = mset xs" and "sorted_wrt lt ys"
  shows "sort_slice lt xs = ys"
  using assms sorted_sort_slice by (intro sorted_perm_unique) simp_all

lemma sort_slice_perm:
  assumes "distinct (map key xs)" and "mset xs = mset ys"
  shows "sort_slice lt xs = sort_slice lt ys"
proof (rule sort_slice_unique [OF assms(1)])
  show "mset (sort_slice lt ys) = mset xs" using assms by simp
  show "sorted_wrt lt (sort_slice lt ys)"
    using assms by (intro sorted_sort_slice) (metis distinct_map_mset)
qed

lemma sort_slice_id: "distinct (map key xs) \<Longrightarrow> sorted_wrt lt xs \<Longrightarrow> sort_slice lt xs = xs"
  by (rule sort_slice_unique) simp_all

lemma sort_slice_filter:
  assumes "distinct (map key xs)"
  shows "sort_slice lt (filter P xs) = filter P (sort_slice lt xs)"
proof (rule sort_slice_unique)
  show "distinct (map key (filter P xs))" using assms by (rule distinct_map_filter)
  show "mset (filter P (sort_slice lt xs)) = mset (filter P xs)" by simp
  show "sorted_wrt lt (filter P (sort_slice lt xs))"
    using sorted_sort_slice [OF assms] by (rule sorted_wrt_filter)
qed

text \<open>Keeping the elements strictly after the element at index \<open>i\<close> of an ordered slice keeps
  the rest of the slice: nothing is skipped and nothing repeated.\<close>

lemma filter_after_nth:
  assumes "sorted_wrt lt xs" and "i < length xs"
  shows "filter (\<lambda>y. lt (xs ! i) y) xs = drop (Suc i) xs"
proof -
  let ?b = "xs ! i"
  have split: "xs = take i xs @ ?b # drop (Suc i) xs"
    using assms(2) by (simp add: id_take_nth_drop)
  have s: "sorted_wrt lt (take i xs @ ?b # drop (Suc i) xs)"
    using assms(1) split by simp
  have "filter (\<lambda>y. lt ?b y) (take i xs) = []"
    using s asym by (auto simp: sorted_wrt_append filter_empty_conv)
  moreover have "filter (\<lambda>y. lt ?b y) (drop (Suc i) xs) = drop (Suc i) xs"
    using s by (auto simp: sorted_wrt_append filter_id_conv)
  moreover have "\<not> lt ?b ?b" by (rule irrefl)
  ultimately have "filter (\<lambda>y. lt ?b y) (take i xs @ ?b # drop (Suc i) xs) = drop (Suc i) xs"
    by simp
  with split show ?thesis by simp
qed

end

section \<open>Finding and updating the first matching element\<close>

text \<open>The store loops \<open>for i := range m.beads { if m.beads[i].ID == id \<dots> return }\<close>.\<close>

fun update_first :: "('a \<Rightarrow> bool) \<Rightarrow> ('a \<Rightarrow> 'a) \<Rightarrow> 'a list \<Rightarrow> 'a list" where
  "update_first P f [] = []"
| "update_first P f (x # xs) = (if P x then f x # xs else x # update_first P f xs)"

fun remove_first :: "('a \<Rightarrow> bool) \<Rightarrow> 'a list \<Rightarrow> 'a list" where
  "remove_first P [] = []"
| "remove_first P (x # xs) = (if P x then xs else x # remove_first P xs)"

lemma length_update_first [simp]: "length (update_first P f xs) = length xs"
  by (induction xs) auto

lemma map_update_first: "(\<And>x. g (f x) = g x) \<Longrightarrow> map g (update_first P f xs) = map g xs"
  by (induction xs) auto

lemma find_update_first_same:
  "(\<And>x. P x \<Longrightarrow> P (f x)) \<Longrightarrow> find P (update_first P f xs) = map_option f (find P xs)"
  by (induction xs) auto

lemma find_update_first_other:
  "(\<And>x. P x \<Longrightarrow> \<not> Q x \<and> \<not> Q (f x)) \<Longrightarrow> find Q (update_first P f xs) = find Q xs"
  by (induction xs) auto

lemma set_update_first: "x \<in> set (update_first P f xs) \<Longrightarrow> x \<in> set xs \<or> (\<exists>y \<in> set xs. P y \<and> x = f y)"
  by (induction xs) (auto split: if_splits)

lemma update_first_none: "find P xs = None \<Longrightarrow> update_first P f xs = xs"
  by (induction xs) (auto split: if_splits)

lemma set_remove_first: "set (remove_first P xs) \<subseteq> set xs"
  by (induction xs) auto

lemma find_remove_first_other:
  "(\<And>x. P x \<Longrightarrow> \<not> Q x) \<Longrightarrow> find Q (remove_first P xs) = find Q xs"
  by (induction xs) auto

lemma remove_first_key:
  assumes "distinct (map key xs)"
  shows "remove_first (\<lambda>x. key x = k) xs = filter (\<lambda>x. key x \<noteq> k) xs"
  using assms
proof (induction xs)
  case (Cons x xs)
  show ?case
  proof (cases "key x = k")
    case True
    with Cons.prems have "filter (\<lambda>x. key x \<noteq> k) xs = xs"
      by (intro filter_True) (auto, metis image_eqI)
    with True show ?thesis by simp
  next
    case False
    with Cons show ?thesis by simp
  qed
qed simp

lemma find_Some_set: "find P xs = Some x \<Longrightarrow> x \<in> set xs \<and> P x"
  by (induction xs) (auto split: if_splits)

lemma find_key_iff:
  assumes "distinct (map key xs)"
  shows "find (\<lambda>x. key x = k) xs = Some x \<longleftrightarrow> x \<in> set xs \<and> key x = k"
  using assms by (induction xs) (auto dest: find_Some_set)

lemma find_None_key: "find (\<lambda>x. key x = k) xs = None \<longleftrightarrow> k \<notin> key ` set xs"
  by (auto simp: find_None_iff)

lemma distinct_map_remove_first: "distinct (map key xs) \<Longrightarrow> distinct (map key (remove_first P xs))"
proof (induction xs)
  case (Cons x xs)
  then show ?case using set_remove_first [of P xs] by auto
qed simp

lemma case_SomeE: "(case x of None \<Rightarrow> False | Some y \<Rightarrow> P y) \<Longrightarrow> (\<And>y. x = Some y \<Longrightarrow> P y \<Longrightarrow> thesis) \<Longrightarrow> thesis"
  by (cases x) simp_all

end
