(* ===== verification/Bead_Types.thy ===== *)
theory Bead_Types
  imports GC_Prelude
begin

text \<open>
  The bead data model of \<^verbatim>\<open>src/internal/beads/beads.go\<close>: the \<open>Bead\<close>, \<open>Dep\<close> and \<open>UpdateOpts\<close>
  structs, the typed errors, and the store-independent predicates that decide which beads are
  ready for work.  A pointer field is an option, a slice a list.  \<open>Metadata\<close> is a map
  (nil and empty read alike); the \<open>Metadata\<close> argument of an update is the list of its entries.
\<close>

section \<open>Structs\<close>

record Dep =
  IssueID :: string
  DependsOnID :: string
  DepType :: string

record Bead =
  ID :: string
  Title :: string
  Status :: string
  Type :: string
  Priority :: "int option"
  CreatedAt :: gtime
  UpdatedAt :: gtime
  Assignee :: string
  From :: string
  ParentID :: string
  Ref :: string
  Needs :: "string list"
  Description :: string
  Labels :: "string list"
  Metadata :: strmap
  Dependencies :: "Dep list"
  Ephemeral :: bool
  NoHistory :: bool
  DeferUntil :: "gtime option"
  IsBlocked :: "bool option"
  Revision :: int
  ClaimFence :: int

record UpdateOpts =
  uTitle :: "string option"
  uStatus :: "string option"
  uType :: "string option"
  uPriority :: "int option"
  uDescription :: "string option"
  uParentID :: "string option"
  uAssignee :: "string option"
  uLabels :: "string list"
  uRemoveLabels :: "string list"
  uMetadata :: kvs

text \<open>The sentinel errors and the precondition failure, with the bead id each message carries.\<close>

datatype StoreError =
    ErrNotFound string
  | ErrQueryRequiresScan
  | ErrConditionalWriteUnsupported
  | ErrEmptyConditionalUpdate string
  | PreconditionFailedError string int int
  | ErrTxNilCallback
  | ErrContextCancelled
  | ErrDisk string

type_synonym 'a result = "StoreError + 'a"

definition zero_Bead :: Bead where
  "zero_Bead = \<lparr>ID = [], Title = [], Status = [], Type = [], Priority = None, CreatedAt = zero_time,
     UpdatedAt = zero_time, Assignee = [], From = [], ParentID = [], Ref = [], Needs = [],
     Description = [], Labels = [], Metadata = Map.empty, Dependencies = [], Ephemeral = False,
     NoHistory = False, DeferUntil = None, IsBlocked = None, Revision = 0, ClaimFence = 0\<rparr>"

definition zero_UpdateOpts :: UpdateOpts where
  "zero_UpdateOpts = \<lparr>uTitle = None, uStatus = None, uType = None, uPriority = None,
     uDescription = None, uParentID = None, uAssignee = None, uLabels = [], uRemoveLabels = [],
     uMetadata = []\<rparr>"

definition isEmptyUpdateOpts :: "UpdateOpts \<Rightarrow> bool" where
  "isEmptyUpdateOpts u \<longleftrightarrow>
     uTitle u = None \<and> uStatus u = None \<and> uType u = None \<and> uPriority u = None \<and>
     uDescription u = None \<and> uParentID u = None \<and> uAssignee u = None \<and>
     length (uLabels u) = 0 \<and> length (uRemoveLabels u) = 0 \<and> length (uMetadata u) = 0"

definition IsPreconditionFailed :: "StoreError \<Rightarrow> bool" where
  "IsPreconditionFailed e \<longleftrightarrow> (case e of PreconditionFailedError _ _ _ \<Rightarrow> True | _ \<Rightarrow> False)"

section \<open>Bead kinds\<close>

definition containerTypes :: "string list" where
  "containerTypes = [''convoy'']"

definition IsContainerType :: "string \<Rightarrow> bool" where
  "IsContainerType t \<longleftrightarrow> t \<in> set containerTypes"

definition moleculeTypes :: "string list" where
  "moleculeTypes = [''molecule'', ''wisp'']"

definition IsMoleculeType :: "string \<Rightarrow> bool" where
  "IsMoleculeType t \<longleftrightarrow> t \<in> set moleculeTypes"

definition readyExcludeTypes :: "string list" where
  "readyExcludeTypes = [''merge-request'', ''gate'', ''molecule'', ''step'', ''convoy'', ''message'',
     ''session'', ''agent'', ''role'', ''rig'']"

definition readyBlockingDependencyTypes :: "string list" where
  "readyBlockingDependencyTypes = [''blocks'', ''waits-for'', ''conditional-blocks'']"

definition IsReadyBlockingDependencyType :: "string \<Rightarrow> bool" where
  "IsReadyBlockingDependencyType t \<longleftrightarrow> t \<in> set readyBlockingDependencyTypes"

definition IsReadyExcludedType :: "string \<Rightarrow> bool" where
  "IsReadyExcludedType t \<longleftrightarrow> t \<in> set readyExcludeTypes"

section \<open>Readiness\<close>

definition OutcomeMetadataKey :: string where "OutcomeMetadataKey = ''gc.outcome''"
definition OutcomeFail :: string where "OutcomeFail = ''fail''"
definition KindMetadataKey :: string where "KindMetadataKey = ''gc.kind''"
definition KindCleanup :: string where "KindCleanup = ''cleanup''"
definition KindWorkflowFinalize :: string where "KindWorkflowFinalize = ''workflow-finalize''"

definition IsReadyBlockingDependencySatisfied :: "Bead \<Rightarrow> bool" where
  "IsReadyBlockingDependencySatisfied blocker \<longleftrightarrow>
     Status blocker = ''closed'' \<and> mget (Metadata blocker) OutcomeMetadataKey \<noteq> OutcomeFail"

definition isReadyTerminalizer :: "Bead \<Rightarrow> bool" where
  "isReadyTerminalizer b \<longleftrightarrow>
     mget (Metadata b) KindMetadataKey = KindCleanup \<or>
     mget (Metadata b) KindMetadataKey = KindWorkflowFinalize"

definition IsReadyBlockingDependencySatisfiedFor :: "Bead \<Rightarrow> Bead \<Rightarrow> bool" where
  "IsReadyBlockingDependencySatisfiedFor dependent blocker =
     (if Status blocker \<noteq> ''closed'' then False
      else if isReadyTerminalizer dependent then True
      else IsReadyBlockingDependencySatisfied blocker)"

fun HasReadyExcludedLabel_loop :: "string list \<Rightarrow> bool" where
  "HasReadyExcludedLabel_loop [] = False"
| "HasReadyExcludedLabel_loop (label # rest) =
     (if label = ''gc:session'' \<or> label = ''gc:order-tracking'' \<or> label = ''order-tracking''
      then True else HasReadyExcludedLabel_loop rest)"

definition HasReadyExcludedLabel :: "Bead \<Rightarrow> bool" where
  "HasReadyExcludedLabel b = HasReadyExcludedLabel_loop (Labels b)"

definition IsReadyExcludedBead :: "Bead \<Rightarrow> bool" where
  "IsReadyExcludedBead b \<longleftrightarrow> IsReadyExcludedType (Type b) \<or> HasReadyExcludedLabel b"

definition IsDeferred :: "Bead \<Rightarrow> gtime \<Rightarrow> bool" where
  "IsDeferred b now = (case DeferUntil b of None \<Rightarrow> False | Some t \<Rightarrow> t > now)"

datatype TierMode = TierIssues | TierWisps | TierBoth

definition IsReadyCandidateForTier :: "Bead \<Rightarrow> gtime \<Rightarrow> TierMode \<Rightarrow> bool" where
  "IsReadyCandidateForTier b now tier =
     (let pass = Status b = ''open'' \<and> \<not> IsReadyExcludedBead b \<and> \<not> IsDeferred b now in
      case tier of
        TierWisps \<Rightarrow> if \<not> Ephemeral b \<and> \<not> NoHistory b then False else pass
      | TierBoth \<Rightarrow> pass
      | TierIssues \<Rightarrow> if Ephemeral b then False else pass)"

definition IsReadyCandidate :: "Bead \<Rightarrow> gtime \<Rightarrow> bool" where
  "IsReadyCandidate b now = IsReadyCandidateForTier b now TierIssues"

section \<open>Reading the blockers of one bead through a store\<close>

text \<open>
  \<open>UnsatisfiedReadyBlockingDependencies(store, dependent)\<close>, over the store's \<open>DepList\<close> and \<open>Get\<close>:
  the blockers that keep a bead from being ready, in the order of its dependency edges; the
  first failing read is the result.
\<close>

fun unsatisfied_loop ::
    "(string \<Rightarrow> Bead result) \<Rightarrow> Bead \<Rightarrow> Dep list \<Rightarrow> Bead list \<Rightarrow> Bead list result" where
  "unsatisfied_loop get dependent [] blockers = Inr blockers"
| "unsatisfied_loop get dependent (dep # deps) blockers =
     (if \<not> IsReadyBlockingDependencyType (DepType dep)
      then unsatisfied_loop get dependent deps blockers
      else case get (DependsOnID dep) of
             Inl e \<Rightarrow> Inl e
           | Inr blocker \<Rightarrow>
               if \<not> IsReadyBlockingDependencySatisfiedFor dependent blocker
               then unsatisfied_loop get dependent deps (blockers @ [blocker])
               else unsatisfied_loop get dependent deps blockers)"

definition UnsatisfiedReadyBlockingDependencies ::
    "(string \<Rightarrow> string \<Rightarrow> Dep list result) \<Rightarrow> (string \<Rightarrow> Bead result) \<Rightarrow> Bead \<Rightarrow> Bead list result" where
  "UnsatisfiedReadyBlockingDependencies depList get dependent =
     (case depList (ID dependent) ''down'' of
        Inl e \<Rightarrow> Inl e
      | Inr deps \<Rightarrow> unsatisfied_loop get dependent deps [])"

definition ReadyBlockingDependenciesSatisfied ::
    "(string \<Rightarrow> string \<Rightarrow> Dep list result) \<Rightarrow> (string \<Rightarrow> Bead result) \<Rightarrow> Bead \<Rightarrow> bool result" where
  "ReadyBlockingDependenciesSatisfied depList get dependent =
     (case UnsatisfiedReadyBlockingDependencies depList get dependent of
        Inl e \<Rightarrow> Inl e
      | Inr blockers \<Rightarrow> Inr (length blockers = 0))"

section \<open>Facts about single beads\<close>

lemma HasReadyExcludedLabel_loop_iff [bead_simps]:
  "HasReadyExcludedLabel_loop ls \<longleftrightarrow>
     (\<exists>l \<in> set ls. l \<in> {''gc:session'', ''gc:order-tracking'', ''order-tracking''})"
  by (induction ls) auto

lemma IsReadyBlockingDependencySatisfiedFor_closed [bead_simps]:
  "IsReadyBlockingDependencySatisfiedFor d b \<Longrightarrow> Status b = ''closed''"
  by (auto simp: IsReadyBlockingDependencySatisfiedFor_def split: if_splits)

lemma IsReadyCandidateForTier_open:
  "IsReadyCandidateForTier b now tier \<Longrightarrow>
     Status b = ''open'' \<and> \<not> IsReadyExcludedBead b \<and> \<not> IsDeferred b now"
  by (auto simp: IsReadyCandidateForTier_def Let_def split: TierMode.splits if_splits)

lemma unsatisfied_loop_acc:
  "unsatisfied_loop get d deps acc = map_sum id (\<lambda>bs. acc @ bs) (unsatisfied_loop get d deps [])"
proof (induction deps arbitrary: acc)
  case (Cons dep deps)
  show ?case
  proof (cases "IsReadyBlockingDependencyType (DepType dep)")
    case False
    with Cons.IH [of acc] show ?thesis by simp
  next
    case True
    show ?thesis
    proof (cases "get (DependsOnID dep)")
      case (Inr b)
      with True Cons.IH [of acc] Cons.IH [of "acc @ [b]"] Cons.IH [of "[b]"] show ?thesis
        by (cases "unsatisfied_loop get d deps []") auto
    qed (use True in simp)
  qed
qed simp

text \<open>When every blocking target can be read, the loop returns exactly the targets that are not
  satisfied, and it is empty exactly when all of them are.\<close>

lemma unsatisfied_loop_empty_iff:
  "unsatisfied_loop get d deps [] = Inr [] \<longleftrightarrow>
     (\<forall>dep \<in> set deps. IsReadyBlockingDependencyType (DepType dep) \<longrightarrow>
        (\<exists>b. get (DependsOnID dep) = Inr b \<and> IsReadyBlockingDependencySatisfiedFor d b))"
proof (induction deps)
  case (Cons dep deps)
  show ?case
  proof (cases "get (DependsOnID dep)")
    case (Inl e)
    with Cons show ?thesis by auto
  next
    case (Inr b)
    with Cons unsatisfied_loop_acc [of get d deps "[b]"] show ?thesis
      by (cases "unsatisfied_loop get d deps []") auto
  qed
qed simp

end
