(* ===== verification/Bead_Query.thy ===== *)
theory Bead_Query
  imports Bead_Types
begin

text \<open>
  List and ready queries, \<^verbatim>\<open>src/internal/beads/query.go\<close>: the \<open>ListQuery\<close> filter, the canonical
  (created_at, id) order, keyset pagination with \<open>SeekAfter\<close>, and the cancellable merge sort
  \<open>sortBeadsReadyOrderContext\<close>.  The three orders are interpretations of \<open>slice_order\<close>; the
  pagination and determinism lemmas follow from that contract.
\<close>

section \<open>Queries\<close>

datatype SortOrder = SortDefault | SortCreatedAsc | SortCreatedDesc

datatype QueryOpt = IncludeClosed | WithEphemeral | WithBothTiers

fun HasOpt :: "QueryOpt list \<Rightarrow> QueryOpt \<Rightarrow> bool" where
  "HasOpt [] want = False"
| "HasOpt (o' # opts) want = (if o' = want then True else HasOpt opts want)"

definition TierModeFromOpts :: "QueryOpt list \<Rightarrow> TierMode" where
  "TierModeFromOpts opts =
     (if HasOpt opts WithBothTiers then TierBoth
      else if HasOpt opts WithEphemeral then TierWisps
      else TierIssues)"

record SeekBoundary =
  sbCreatedAt :: gtime
  sbID :: string

record ListQuery =
  qStatus :: string
  qType :: string
  qLabel :: string
  qAssignee :: string
  qAssignees :: "string list"
  qParentID :: string
  qParentIDs :: "string list"
  qMetadata :: kvs
  qCreatedBefore :: gtime
  qUpdatedBefore :: gtime
  qLimit :: int
  qIncludeClosed :: bool
  qAllowScan :: bool
  qSkipLabels :: bool
  qLive :: bool
  qSort :: SortOrder
  qAllowBackingCreatedLimit :: bool
  qTierMode :: TierMode
  qSeekAfter :: "SeekBoundary option"

definition zero_ListQuery :: ListQuery where
  "zero_ListQuery = \<lparr>qStatus = [], qType = [], qLabel = [], qAssignee = [], qAssignees = [],
     qParentID = [], qParentIDs = [], qMetadata = [], qCreatedBefore = zero_time,
     qUpdatedBefore = zero_time, qLimit = 0, qIncludeClosed = False, qAllowScan = False,
     qSkipLabels = False, qLive = False, qSort = SortDefault, qAllowBackingCreatedLimit = False,
     qTierMode = TierIssues, qSeekAfter = None\<rparr>"

datatype QueryError = ErrAssigneeAndAssignees | ErrSeekAfterWithoutSort

definition Validate :: "ListQuery \<Rightarrow> QueryError option" where
  "Validate q =
     (if qAssignee q \<noteq> [] \<and> length (qAssignees q) > 0 then Some ErrAssigneeAndAssignees
      else if qSeekAfter q \<noteq> None \<and> qSort q \<noteq> SortCreatedAsc \<and> qSort q \<noteq> SortCreatedDesc
      then Some ErrSeekAfterWithoutSort
      else None)"

record ReadyQuery =
  rAssignee :: string
  rLimit :: int
  rTierMode :: TierMode

definition zero_ReadyQuery :: ReadyQuery where
  "zero_ReadyQuery = \<lparr>rAssignee = [], rLimit = 0, rTierMode = TierIssues\<rparr>"

definition readyQueryFromArgs :: "ReadyQuery list \<Rightarrow> ReadyQuery" where
  "readyQueryFromArgs queries = (case queries of [] \<Rightarrow> zero_ReadyQuery | q # _ \<Rightarrow> q)"

definition HasFilter :: "ListQuery \<Rightarrow> bool" where
  "HasFilter q \<longleftrightarrow>
     qStatus q \<noteq> [] \<or> qType q \<noteq> [] \<or> qLabel q \<noteq> [] \<or> qAssignee q \<noteq> [] \<or>
     length (qAssignees q) > 0 \<or> qParentID q \<noteq> [] \<or> length (qMetadata q) > 0 \<or>
     \<not> IsZero (qCreatedBefore q) \<or> \<not> IsZero (qUpdatedBefore q) \<or> qSeekAfter q \<noteq> None"

definition IncludesClosed :: "ListQuery \<Rightarrow> bool" where
  "IncludesClosed q \<longleftrightarrow> qIncludeClosed q \<or> qStatus q = ''closed''"

definition matchesTier :: "ListQuery \<Rightarrow> Bead \<Rightarrow> bool" where
  "matchesTier q b =
     (case qTierMode q of
        TierWisps \<Rightarrow> Ephemeral b \<or> NoHistory b
      | TierBoth \<Rightarrow> True
      | TierIssues \<Rightarrow> \<not> Ephemeral b)"

fun beadHasLabel_loop :: "string list \<Rightarrow> string \<Rightarrow> bool" where
  "beadHasLabel_loop [] want = False"
| "beadHasLabel_loop (label # rest) want = (if label = want then True else beadHasLabel_loop rest want)"

definition beadHasLabel :: "Bead \<Rightarrow> string \<Rightarrow> bool" where
  "beadHasLabel b want = beadHasLabel_loop (Labels b) want"

fun matchesMetadata :: "Bead \<Rightarrow> kvs \<Rightarrow> bool" where
  "matchesMetadata b [] = True"
| "matchesMetadata b ((k, v) # filters) =
     (if mget (Metadata b) k \<noteq> v then False else matchesMetadata b filters)"

definition beadUpdatedReferenceTime :: "Bead \<Rightarrow> gtime" where
  "beadUpdatedReferenceTime b = (if \<not> IsZero (UpdatedAt b) then UpdatedAt b else CreatedAt b)"

definition After :: "SeekBoundary \<Rightarrow> Bead \<Rightarrow> SortOrder \<Rightarrow> bool" where
  "After sb b order =
     (case order of
        SortCreatedAsc \<Rightarrow>
          (if CreatedAt b > sbCreatedAt sb then True
           else CreatedAt b = sbCreatedAt sb \<and> ID b > sbID sb)
      | SortCreatedDesc \<Rightarrow>
          (if CreatedAt b < sbCreatedAt sb then True
           else CreatedAt b = sbCreatedAt sb \<and> ID b < sbID sb)
      | SortDefault \<Rightarrow> False)"

fun assignee_matched :: "string list \<Rightarrow> string \<Rightarrow> bool" where
  "assignee_matched [] a = False"
| "assignee_matched (x # xs) a = (if a = x then True else assignee_matched xs a)"

definition Matches :: "ListQuery \<Rightarrow> Bead \<Rightarrow> bool" where
  "Matches q b =
     (if \<not> matchesTier q b then False
      else if qStatus q \<noteq> [] \<and> Status b \<noteq> qStatus q then False
      else if qStatus q = [] \<and> \<not> qIncludeClosed q \<and> Status b = ''closed'' then False
      else if qType q \<noteq> [] \<and> Type b \<noteq> qType q then False
      else if qLabel q \<noteq> [] \<and> \<not> beadHasLabel b (qLabel q) then False
      else if qAssignee q \<noteq> [] \<and> Assignee b \<noteq> qAssignee q then False
      else if length (qAssignees q) > 0 \<and> \<not> assignee_matched (qAssignees q) (Assignee b) then False
      else if qParentID q \<noteq> [] \<and> ParentID b \<noteq> qParentID q then False
      else if length (qMetadata q) > 0 \<and> \<not> matchesMetadata b (qMetadata q) then False
      else if \<not> IsZero (qCreatedBefore q) \<and> \<not> CreatedAt b < qCreatedBefore q then False
      else if \<not> IsZero (qUpdatedBefore q) \<and> \<not> beadUpdatedReferenceTime b < qUpdatedBefore q then False
      else case qSeekAfter q of None \<Rightarrow> True | Some sb \<Rightarrow> After sb b (qSort q))"

section \<open>Orders\<close>

definition created_asc_less :: "Bead \<Rightarrow> Bead \<Rightarrow> bool" where
  "created_asc_less a b =
     (if CreatedAt a = CreatedAt b then ID a < ID b else CreatedAt a < CreatedAt b)"

definition created_desc_less :: "Bead \<Rightarrow> Bead \<Rightarrow> bool" where
  "created_desc_less a b =
     (if CreatedAt a = CreatedAt b then ID a > ID b else CreatedAt a > CreatedAt b)"

definition sortBeadsForQuery :: "Bead list \<Rightarrow> SortOrder \<Rightarrow> Bead list" where
  "sortBeadsForQuery items order =
     (case order of
        SortCreatedAsc \<Rightarrow> sort_slice created_asc_less items
      | SortCreatedDesc \<Rightarrow> sort_slice created_desc_less items
      | SortDefault \<Rightarrow> items)"

definition limit_slice :: "int \<Rightarrow> 'a list \<Rightarrow> 'a list" where
  "limit_slice n xs = (if n > 0 \<and> int (length xs) > n then take (nat n) xs else xs)"

definition ApplyListQuery :: "Bead list \<Rightarrow> ListQuery \<Rightarrow> Bead list" where
  "ApplyListQuery items q = limit_slice (qLimit q) (sortBeadsForQuery (filter (Matches q) items) (qSort q))"

definition readySortPriority :: "Bead \<Rightarrow> int" where
  "readySortPriority b = (case Priority b of None \<Rightarrow> 2 | Some p \<Rightarrow> p)"

definition beadReadyLess :: "Bead \<Rightarrow> Bead \<Rightarrow> bool" where
  "beadReadyLess a b =
     (let pa = readySortPriority a; pb = readySortPriority b in
      if pa \<noteq> pb then pa < pb
      else if CreatedAt a \<noteq> CreatedAt b then CreatedAt a < CreatedAt b
      else ID a < ID b)"

definition sortBeadsReadyOrder :: "Bead list \<Rightarrow> Bead list" where
  "sortBeadsReadyOrder items = sort_slice beadReadyLess items"

interpretation created_asc: slice_order created_asc_less ID
  by unfold_locales (auto simp: created_asc_less_def split: if_splits)

interpretation created_desc: slice_order created_desc_less ID
  by unfold_locales (auto simp: created_desc_less_def split: if_splits)

interpretation ready_order: slice_order beadReadyLess ID
  by unfold_locales (auto simp: beadReadyLess_def Let_def split: if_splits)

section \<open>Filtering facts\<close>

lemma HasOpt_iff [simp]: "HasOpt opts w \<longleftrightarrow> w \<in> set opts"
  by (induction opts) auto

lemma beadHasLabel_loop_iff [simp]: "beadHasLabel_loop ls w \<longleftrightarrow> w \<in> set ls"
  by (induction ls) auto

lemma assignee_matched_iff [simp]: "assignee_matched xs a \<longleftrightarrow> a \<in> set xs"
  by (induction xs) auto

lemma matchesMetadata_iff: "matchesMetadata b kvs \<longleftrightarrow> (\<forall>(k, v) \<in> set kvs. mget (Metadata b) k = v)"
  by (induction b kvs rule: matchesMetadata.induct) auto

lemma limit_slice_set: "set (limit_slice n xs) \<subseteq> set xs"
  by (auto simp: limit_slice_def dest: in_set_takeD)

lemma limit_slice_length: "n > 0 \<Longrightarrow> int (length (limit_slice n xs)) \<le> n"
  by (auto simp: limit_slice_def)

lemma limit_slice_take: "n > 0 \<Longrightarrow> limit_slice n xs = take (nat n) xs"
  by (auto simp: limit_slice_def)

lemma limit_slice_zero [simp]: "limit_slice 0 xs = xs"
  by (simp add: limit_slice_def)

lemma sortBeadsForQuery_set [simp]: "set (sortBeadsForQuery items s) = set items"
  by (cases s) (simp_all add: sortBeadsForQuery_def)

lemma sortBeadsForQuery_length [simp]: "length (sortBeadsForQuery items s) = length items"
  by (cases s) (simp_all add: sortBeadsForQuery_def)

lemma sortBeadsForQuery_filter:
  "distinct (map ID items) \<Longrightarrow>
     sortBeadsForQuery (filter P items) s = filter P (sortBeadsForQuery items s)"
  by (cases s) (simp_all add: sortBeadsForQuery_def created_asc.sort_slice_filter
      created_desc.sort_slice_filter)

lemma sortBeadsForQuery_perm:
  assumes "distinct (map ID xs)" and "mset xs = mset ys" and "s \<noteq> SortDefault"
  shows "sortBeadsForQuery xs s = sortBeadsForQuery ys s"
  using assms by (cases s) (auto simp: sortBeadsForQuery_def
      intro: created_asc.sort_slice_perm created_desc.sort_slice_perm)

lemma ApplyListQuery_Matches: "b \<in> set (ApplyListQuery items q) \<Longrightarrow> b \<in> set items \<and> Matches q b"
  using limit_slice_set unfolding ApplyListQuery_def by fastforce

lemma guard_conj: "(if c then False else d) \<longleftrightarrow> \<not> c \<and> d"
  by simp

lemmas Matches_conj = Matches_def [unfolded guard_conj]

lemma Matches_seek:
  "qSeekAfter q = None \<Longrightarrow>
     Matches (q\<lparr>qSeekAfter := Some sb, qLimit := n\<rparr>) b \<longleftrightarrow> Matches q b \<and> After sb b (qSort q)"
  by (simp add: Matches_conj matchesTier_def conj_assoc)

section \<open>Pagination\<close>

definition boundary :: "Bead \<Rightarrow> SeekBoundary" where
  "boundary b = \<lparr>sbCreatedAt = CreatedAt b, sbID = ID b\<rparr>"

lemma After_asc: "After (boundary a) b SortCreatedAsc = created_asc_less a b"
  by (auto simp: After_def boundary_def created_asc_less_def)

lemma After_desc: "After (boundary a) b SortCreatedDesc = created_desc_less a b"
  by (auto simp: After_def boundary_def created_desc_less_def)

lemma sorted_after:
  assumes "distinct (map ID items)" and "s \<noteq> SortDefault"
    and "i < length (sortBeadsForQuery items s)"
  shows "filter (\<lambda>b. After (boundary (sortBeadsForQuery items s ! i)) b s) (sortBeadsForQuery items s)
       = drop (Suc i) (sortBeadsForQuery items s)"
  using assms
  by (cases s) (simp_all add: sortBeadsForQuery_def After_asc After_desc
      created_asc.filter_after_nth created_asc.sorted_sort_slice
      created_desc.filter_after_nth created_desc.sorted_sort_slice)

lemma ApplyListQuery_resume:
  assumes ids: "distinct (map ID items)" and s: "qSort q \<noteq> SortDefault"
    and q: "qSeekAfter q = None" "qLimit q = 0"
    and i: "i < length (ApplyListQuery items q)"
  shows "ApplyListQuery items (q\<lparr>qSeekAfter := Some (boundary (ApplyListQuery items q ! i)), qLimit := n\<rparr>)
       = limit_slice n (drop (Suc i) (ApplyListQuery items q))"
proof -
  let ?m = "filter (Matches q) items"
  let ?full = "sortBeadsForQuery ?m (qSort q)"
  let ?sb = "boundary (?full ! i)"
  have full: "ApplyListQuery items q = ?full"
    using q by (simp add: ApplyListQuery_def)
  have m: "distinct (map ID ?m)" using ids by (rule distinct_map_filter)
  have "filter (Matches (q\<lparr>qSeekAfter := Some ?sb, qLimit := n\<rparr>)) items
      = filter (\<lambda>b. After ?sb b (qSort q)) ?m"
    unfolding filter_filter using q(1) by (intro filter_cong refl) (simp add: Matches_seek)
  then have "ApplyListQuery items (q\<lparr>qSeekAfter := Some ?sb, qLimit := n\<rparr>)
      = limit_slice n (sortBeadsForQuery (filter (\<lambda>b. After ?sb b (qSort q)) ?m) (qSort q))"
    by (simp add: ApplyListQuery_def)
  also have "\<dots> = limit_slice n (filter (\<lambda>b. After ?sb b (qSort q)) ?full)"
    using m by (simp only: sortBeadsForQuery_filter)
  also have "\<dots> = limit_slice n (drop (Suc i) ?full)"
    using sorted_after [OF m s] i full by simp
  finally show ?thesis using full by simp
qed

end
