(* ===== verification/Ready_Sort.thy ===== *)
theory Ready_Sort
  imports Bead_Query
begin

text \<open>
  The cancellable merge sort \<open>sortBeadsReadyOrderContext\<close> of \<^verbatim>\<open>src/internal/beads/query.go\<close>, on
  the same arrays as the code: \<open>items\<close> is sorted in place through \<open>scratch\<close>, and \<open>ctx.Err()\<close> is
  polled at every call, every merge step and every copy step.  A context is either one that
  cannot be cancelled, or a function that gives for the n-th poll whether the context is done.
\<close>

datatype Context = Background | Cancellable "nat \<Rightarrow> bool"

definition slice :: "'a list \<Rightarrow> nat \<Rightarrow> nat \<Rightarrow> 'a list" where
  "slice xs a b = take (b - a) (drop a xs)"

fun ms_merge :: "(nat \<Rightarrow> bool) \<Rightarrow> nat \<Rightarrow> nat \<Rightarrow> nat \<Rightarrow> nat \<Rightarrow> nat \<Rightarrow> nat \<Rightarrow> Bead list \<Rightarrow> Bead list \<Rightarrow> nat
    \<Rightarrow> bool \<times> Bead list \<times> nat" where
  "ms_merge done mid hi 0 k i j items scratch p = (True, scratch, p)"
| "ms_merge done mid hi (Suc n) k i j items scratch p =
     (if done p then (False, scratch, Suc p)
      else if i = mid then ms_merge done mid hi n (Suc k) i (Suc j) items (scratch[k := items ! j]) (Suc p)
      else if j = hi then ms_merge done mid hi n (Suc k) (Suc i) j items (scratch[k := items ! i]) (Suc p)
      else if beadReadyLess (items ! j) (items ! i)
      then ms_merge done mid hi n (Suc k) i (Suc j) items (scratch[k := items ! j]) (Suc p)
      else ms_merge done mid hi n (Suc k) (Suc i) j items (scratch[k := items ! i]) (Suc p))"

fun ms_copy :: "(nat \<Rightarrow> bool) \<Rightarrow> nat \<Rightarrow> nat \<Rightarrow> Bead list \<Rightarrow> Bead list \<Rightarrow> nat \<Rightarrow> bool \<times> Bead list \<times> nat" where
  "ms_copy done 0 k items scratch p = (True, items, p)"
| "ms_copy done (Suc n) k items scratch p =
     (if done p then (False, items, Suc p)
      else ms_copy done n (Suc k) (items[k := scratch ! k]) scratch (Suc p))"

function mergeSort :: "(nat \<Rightarrow> bool) \<Rightarrow> nat \<Rightarrow> nat \<Rightarrow> Bead list \<Rightarrow> Bead list \<Rightarrow> nat
    \<Rightarrow> bool \<times> Bead list \<times> Bead list \<times> nat" where
  "mergeSort done lo hi items scratch p =
     (if done p then (False, items, scratch, Suc p)
      else if hi - lo < 2 then (True, items, scratch, Suc p)
      else
        (let mid = lo + (hi - lo) div 2 in
         case mergeSort done lo mid items scratch (Suc p) of (ok1, it1, sc1, p1) \<Rightarrow>
           if \<not> ok1 then (False, it1, sc1, p1)
           else case mergeSort done mid hi it1 sc1 p1 of (ok2, it2, sc2, p2) \<Rightarrow>
             if \<not> ok2 then (False, it2, sc2, p2)
             else case ms_merge done mid hi (hi - lo) lo lo mid it2 sc2 p2 of (ok3, sc3, p3) \<Rightarrow>
               if \<not> ok3 then (False, it2, sc3, p3)
               else case ms_copy done (hi - lo) lo it2 sc3 p3 of (ok4, it4, p4) \<Rightarrow>
                 (ok4, it4, sc3, p4)))"
  by pat_completeness auto
termination
  by (relation "measure (\<lambda>(done, lo, hi, items, scratch, p). hi - lo)") auto

declare mergeSort.simps [simp del]

definition sortBeadsReadyOrderContext :: "Context \<Rightarrow> Bead list \<Rightarrow> StoreError option \<times> Bead list" where
  "sortBeadsReadyOrderContext ctx items =
     (case ctx of
        Background \<Rightarrow> (None, sortBeadsReadyOrder items)
      | Cancellable done \<Rightarrow>
          if done 0 then (Some ErrContextCancelled, items)
          else if length items < 2 then (None, items)
          else case mergeSort done 0 (length items) items (replicate (length items) zero_Bead) 1 of
                 (ok, items', _, _) \<Rightarrow> (if ok then None else Some ErrContextCancelled, items'))"

section \<open>Merging lists\<close>

fun merge_by :: "('a \<Rightarrow> 'a \<Rightarrow> bool) \<Rightarrow> 'a list \<Rightarrow> 'a list \<Rightarrow> 'a list" where
  "merge_by lt [] ys = ys"
| "merge_by lt (x # xs) [] = x # xs"
| "merge_by lt (x # xs) (y # ys) =
     (if lt y x then y # merge_by lt (x # xs) ys else x # merge_by lt xs (y # ys))"

lemma merge_by_Nil2 [simp]: "merge_by lt xs [] = xs"
  by (cases xs) simp_all

lemma mset_merge_by [simp]: "mset (merge_by lt xs ys) = mset xs + mset ys"
  by (induction lt xs ys rule: merge_by.induct) auto

lemma set_merge_by [simp]: "set (merge_by lt xs ys) = set xs \<union> set ys"
  by (metis mset_merge_by set_mset_mset set_mset_union)

lemma length_merge_by [simp]: "length (merge_by lt xs ys) = length xs + length ys"
  by (metis mset_merge_by size_mset size_union)

context slice_order
begin

lemma sorted_merge_by:
  assumes "sorted_wrt lt xs" and "sorted_wrt lt ys" and "key ` set xs \<inter> key ` set ys = {}"
  shows "sorted_wrt lt (merge_by lt xs ys)"
  using assms
proof (induction "length xs + length ys" arbitrary: xs ys rule: less_induct)
  case less
  show ?case
  proof (cases xs)
    case (Cons x xs')
    show ?thesis
    proof (cases ys)
      case (Cons y ys')
      note xy = \<open>xs = x # xs'\<close> \<open>ys = y # ys'\<close>
      show ?thesis
      proof (cases "lt y x")
        case True
        have "sorted_wrt lt (merge_by lt xs ys')"
          using less.prems xy by (intro less.hyps) auto
        moreover have "\<forall>z \<in> set xs \<union> set ys'. lt y z"
          using less.prems xy True trans by auto
        ultimately show ?thesis using xy True by simp
      next
        case False
        have "key x \<noteq> key y" using less.prems(3) xy by auto
        with False total have "lt x y" by blast
        moreover have "sorted_wrt lt (merge_by lt xs' ys)"
          using less.prems xy by (intro less.hyps) auto
        moreover have "\<forall>z \<in> set xs' \<union> set ys. lt x z"
          using less.prems xy \<open>lt x y\<close> trans by auto
        ultimately show ?thesis using xy False by simp
      qed
    qed (use less.prems in simp)
  qed (use less.prems in simp)
qed

end

section \<open>The array loops\<close>

lemma slice_Cons:
  assumes "a < b" and "b \<le> length xs"
  shows "slice xs a b = xs ! a # slice xs (Suc a) b"
proof -
  have "drop a xs = xs ! a # drop (Suc a) xs" using assms by (simp add: Cons_nth_drop_Suc)
  moreover have "b - a = Suc (b - Suc a)" using assms by simp
  ultimately show ?thesis by (simp add: slice_def)
qed

lemma slice_same [simp]: "slice xs a a = []"
  by (simp add: slice_def)

lemma length_slice [simp]: "b \<le> length xs \<Longrightarrow> length (slice xs a b) = b - a"
  by (simp add: slice_def)

lemma slice_split:
  assumes "a \<le> b" and "b \<le> c"
  shows "slice xs a c = slice xs a b @ slice xs b c"
proof -
  from assms obtain d e where "b = a + d" "c = a + d + e" by (auto simp: le_iff_add)
  then show ?thesis by (simp add: slice_def take_add add.commute)
qed

lemma list_slices:
  assumes "a \<le> b"
  shows "xs = take a xs @ slice xs a b @ drop b xs"
proof -
  from assms obtain d where "b = a + d" by (auto simp: le_iff_add)
  with append_take_drop_id [of d "drop a xs"] have "slice xs a b @ drop b xs = drop a xs"
    by (simp add: slice_def add.commute)
  then show ?thesis by simp
qed

lemma take_update_Suc: "k < length xs \<Longrightarrow> take (Suc k) (xs[k := v]) = take k xs @ [v]"
  by (simp add: take_Suc_conv_app_nth)

lemma ms_merge_length: "ms_merge c mid hi n k i j items sc p = (ok, sc', p') \<Longrightarrow> length sc' = length sc"
  by (induction c mid hi n k i j items sc p rule: ms_merge.induct) (auto split: if_splits)

lemma ms_merge_correct:
  assumes "ms_merge c mid hi n k i j items sc p = (True, sc', p')"
    and "n = (mid - i) + (hi - j)" "i \<le> mid" "j \<le> hi" "mid \<le> length items" "hi \<le> length items"
    and "k + n \<le> length sc"
  shows "sc' = take k sc @ merge_by beadReadyLess (slice items i mid) (slice items j hi) @ drop (k + n) sc"
  using assms
proof (induction n arbitrary: k i j sc p)
  case 0
  then show ?case by (simp add: slice_def)
next
  case (Suc n)
  note bounds = Suc.prems(2-7)
  have k: "k < length sc" using bounds by simp
  note upd = take_update_Suc [OF k]
  have right: ?case if j: "j < hi" and le: "i = mid \<or> beadReadyLess (items ! j) (items ! i)"
    and run: "ms_merge c mid hi n (Suc k) i (Suc j) items (sc[k := items ! j]) (Suc p) = (True, sc', p')"
  proof -
    have "sc' = take (Suc k) (sc[k := items ! j])
        @ merge_by beadReadyLess (slice items i mid) (slice items (Suc j) hi)
        @ drop (Suc k + n) (sc[k := items ! j])"
      by (rule Suc.IH [OF run]) (use bounds j in simp_all)
    moreover have "merge_by beadReadyLess (slice items i mid) (slice items j hi)
        = items ! j # merge_by beadReadyLess (slice items i mid) (slice items (Suc j) hi)"
      using le j bounds slice_Cons [of j hi items] slice_Cons [of i mid items]
      by (cases "i = mid") auto
    ultimately show ?thesis by (simp add: upd)
  qed
  have left: ?case if i: "i < mid" and le: "j = hi \<or> \<not> beadReadyLess (items ! j) (items ! i)"
    and run: "ms_merge c mid hi n (Suc k) (Suc i) j items (sc[k := items ! i]) (Suc p) = (True, sc', p')"
  proof -
    have "sc' = take (Suc k) (sc[k := items ! i])
        @ merge_by beadReadyLess (slice items (Suc i) mid) (slice items j hi)
        @ drop (Suc k + n) (sc[k := items ! i])"
      by (rule Suc.IH [OF run]) (use bounds i in simp_all)
    moreover have "merge_by beadReadyLess (slice items i mid) (slice items j hi)
        = items ! i # merge_by beadReadyLess (slice items (Suc i) mid) (slice items j hi)"
      using le i bounds slice_Cons [of j hi items] slice_Cons [of i mid items]
      by (cases "j = hi") auto
    ultimately show ?thesis by (simp add: upd)
  qed
  show ?case
  proof (cases "i = mid \<or> (j \<noteq> hi \<and> beadReadyLess (items ! j) (items ! i))")
    case True
    then have "j < hi" using bounds by auto
    moreover have "ms_merge c mid hi n (Suc k) i (Suc j) items (sc[k := items ! j]) (Suc p) = (True, sc', p')"
      using Suc.prems(1) True by (auto split: if_splits)
    ultimately show ?thesis using True right by blast
  next
    case False
    then have "i < mid" using bounds by auto
    moreover have "ms_merge c mid hi n (Suc k) (Suc i) j items (sc[k := items ! i]) (Suc p) = (True, sc', p')"
      using Suc.prems(1) False by (auto split: if_splits)
    ultimately show ?thesis using False left by blast
  qed
qed

lemma ms_copy_length: "ms_copy c n k items sc p = (ok, it', p') \<Longrightarrow> length it' = length items"
  by (induction c n k items sc p rule: ms_copy.induct) (auto split: if_splits)

lemma ms_copy_correct:
  assumes "ms_copy c n k items sc p = (True, it', p')"
    and "k + n \<le> length items" "k + n \<le> length sc"
  shows "it' = take k items @ slice sc k (k + n) @ drop (k + n) items"
  using assms
proof (induction n arbitrary: k items p)
  case (Suc n)
  have run: "ms_copy c n (Suc k) (items[k := sc ! k]) sc (Suc p) = (True, it', p')"
    using Suc.prems(1) by (simp split: if_splits)
  have "it' = take (Suc k) (items[k := sc ! k]) @ slice sc (Suc k) (Suc k + n)
      @ drop (Suc k + n) (items[k := sc ! k])"
    by (rule Suc.IH [OF run]) (use Suc.prems in simp_all)
  then show ?case
    using Suc.prems by (simp add: take_update_Suc slice_Cons [of k])
qed simp

text \<open>One call of the merge sort leaves everything outside \<open>lo .. hi\<close> alone, permutes the slice
  and, where the ids are distinct, orders it.\<close>

definition sorts :: "nat \<Rightarrow> nat \<Rightarrow> Bead list \<Rightarrow> Bead list \<Rightarrow> bool" where
  "sorts lo hi xs ys \<longleftrightarrow>
     length ys = length xs \<and> take lo ys = take lo xs \<and> drop hi ys = drop hi xs \<and>
     mset (slice ys lo hi) = mset (slice xs lo hi) \<and>
     (distinct (map ID xs) \<longrightarrow> sorted_wrt beadReadyLess (slice ys lo hi))"

lemma sorts_short: "hi - lo < 2 \<Longrightarrow> sorts lo hi xs xs"
proof -
  assume "hi - lo < 2"
  then have "length (slice xs lo hi) < 2" by (simp add: slice_def)
  then have "sorted_wrt beadReadyLess (slice xs lo hi)"
    by (cases "slice xs lo hi" rule: remdups_adj.cases) auto
  then show ?thesis by (simp add: sorts_def)
qed

lemma sorts_mset: "lo \<le> hi \<Longrightarrow> sorts lo hi xs ys \<Longrightarrow> mset ys = mset xs"
  using list_slices [of lo hi xs] list_slices [of lo hi ys] unfolding sorts_def
  by (metis mset_append)

lemma slice_take: "b \<le> lo \<Longrightarrow> slice (take lo xs) a b = slice xs a b"
  by (simp add: slice_def drop_take min_def)

lemma sorts_slice_before: "sorts lo hi xs ys \<Longrightarrow> b \<le> lo \<Longrightarrow> slice ys a b = slice xs a b"
  using slice_take [of b lo xs a] slice_take [of b lo ys a] by (simp add: sorts_def)

lemma sorts_merge:
  assumes le: "lo \<le> mid" "mid \<le> hi" "hi \<le> length xs"
    and one: "sorts lo mid xs ys" and two: "sorts mid hi ys zs"
    and out: "take lo us = take lo zs" "drop hi us = drop hi zs" "length us = length zs"
      "slice us lo hi = merge_by beadReadyLess (slice zs lo mid) (slice zs mid hi)"
  shows "sorts lo hi xs us"
proof -
  have left: "slice zs lo mid = slice ys lo mid"
    using two by (rule sorts_slice_before) simp
  have right: "drop mid ys = drop mid xs" using one by (simp add: sorts_def)
  then have "slice ys mid hi = slice xs mid hi" by (simp add: slice_def)
  then have m: "mset (slice us lo hi) = mset (slice xs lo hi)"
    using one two out(4) left le by (simp add: sorts_def slice_split [of lo mid hi])
  have t: "take lo us = take lo xs"
  proof -
    have "take lo (take mid zs) = take lo (take mid ys)" using two by (simp add: sorts_def)
    with one out(1) le show ?thesis by (simp add: sorts_def min_def)
  qed
  have d: "drop hi us = drop hi xs"
  proof -
    have "drop (hi - mid) (drop mid ys) = drop (hi - mid) (drop mid xs)" using right by simp
    with two out(2) le show ?thesis by (simp add: sorts_def)
  qed
  have s: "sorted_wrt beadReadyLess (slice us lo hi)" if ids: "distinct (map ID xs)"
  proof -
    have ys: "distinct (map ID ys)"
      using sorts_mset [OF le(1) one] ids by (metis distinct_map_mset)
    have zs: "distinct (map ID zs)"
      using sorts_mset [OF le(2) two] ys by (metis distinct_map_mset)
    have "distinct (map ID (slice zs lo mid @ slice zs mid hi))"
    proof -
      have "zs = take lo zs @ (slice zs lo mid @ slice zs mid hi) @ drop hi zs"
        using list_slices [of lo hi zs] le slice_split [of lo mid hi zs] by simp
      with zs show ?thesis by (metis distinct_append map_append)
    qed
    then show ?thesis
      using one two ids ys left out(4)
      by (auto simp: sorts_def intro!: ready_order.sorted_merge_by)
  qed
  show ?thesis using t d m s one two out(3) by (simp add: sorts_def)
qed
lemma mergeSort_sorts:
  assumes "mergeSort c lo hi items sc p = (True, it', sc', p')"
    and "lo \<le> hi" "hi \<le> length items" "length sc = length items"
  shows "sorts lo hi items it' \<and> length sc' = length items"
  using assms
proof (induction "hi - lo" arbitrary: lo hi items sc p it' sc' p' rule: less_induct)
  case less
  note run = less.prems(1) [unfolded mergeSort.simps [of c lo hi items sc p]]
  show ?case
  proof (cases "hi - lo < 2")
    case True
    with run less.prems(4) show ?thesis by (auto simp: sorts_short split: if_splits)
  next
    case False
    define mid where "mid = lo + (hi - lo) div 2"
    have mid: "lo \<le> mid" "mid \<le> hi" and shrink: "mid - lo < hi - lo" "hi - mid < hi - lo"
      using less.prems(2) False by (auto simp: mid_def)
    from run False obtain it1 sc1 p1 it2 sc2 p2 sc3 p3 where
      c: "\<not> c p"
      and r1: "mergeSort c lo mid items sc (Suc p) = (True, it1, sc1, p1)"
      and r2: "mergeSort c mid hi it1 sc1 p1 = (True, it2, sc2, p2)"
      and r3: "ms_merge c mid hi (hi - lo) lo lo mid it2 sc2 p2 = (True, sc3, p3)"
      and r4: "ms_copy c (hi - lo) lo it2 sc3 p3 = (True, it', p')" and sc': "sc' = sc3"
      by (auto simp: Let_def mid_def split: if_splits prod.splits)
    have s1: "sorts lo mid items it1" and l1: "length sc1 = length items"
      using less.hyps [OF shrink(1) r1] mid less.prems by auto
    have l1': "length it1 = length items" using s1 by (simp add: sorts_def)
    have s2: "sorts mid hi it1 it2" and l2: "length sc2 = length items"
      using less.hyps [OF shrink(2) r2] mid less.prems l1 l1' by auto
    have l2': "length it2 = length items" using s2 l1' by (simp add: sorts_def)
    have l3: "length sc3 = length items" using ms_merge_length [OF r3] l2 by simp
    have m: "sc3 = take lo sc2 @ merge_by beadReadyLess (slice it2 lo mid) (slice it2 mid hi) @ drop hi sc2"
      using ms_merge_correct [OF r3] mid less.prems l2 l2' by simp
    have cp: "it' = take lo it2 @ slice sc3 lo hi @ drop hi it2"
      using ms_copy_correct [OF r4] mid less.prems l3 l2' by simp
    have sl: "slice sc3 lo hi = merge_by beadReadyLess (slice it2 lo mid) (slice it2 mid hi)"
      using m mid less.prems l2 l2' by (simp add: slice_def)
    have "sorts lo hi items it'"
      using mid(1,2) less.prems(3) s1 s2
      by (rule sorts_merge) (use cp sl mid less.prems l2' l3 in \<open>simp_all add: slice_def\<close>)
    with sc' l3 show ?thesis by simp
  qed
qed

lemma mergeSort_completes:
  assumes "\<And>q. \<not> c q"
  shows "fst (mergeSort c lo hi items sc p)"
proof -
  have m: "fst (ms_merge c mid hi n k i j its s q)" for mid hi n k i j its s q
    using assms by (induction c mid hi n k i j its s q rule: ms_merge.induct) auto
  have cp: "fst (ms_copy c n k its s q)" for n k its s q
    using assms by (induction c n k its s q rule: ms_copy.induct) auto
  show ?thesis
  proof (induction "hi - lo" arbitrary: lo hi items sc p rule: less_induct)
    case less
    show ?case
    proof (cases "hi - lo < 2")
      case False
      define mid where "mid = lo + (hi - lo) div 2"
      have shrink: "mid - lo < hi - lo" "hi - mid < hi - lo" using False by (auto simp: mid_def)
      obtain it1 sc1 p1 where r1: "mergeSort c lo mid items sc (Suc p) = (True, it1, sc1, p1)"
        using less [OF shrink(1), of items sc "Suc p"] by (metis prod.collapse)
      obtain it2 sc2 p2 where r2: "mergeSort c mid hi it1 sc1 p1 = (True, it2, sc2, p2)"
        using less [OF shrink(2), of it1 sc1 p1] by (metis prod.collapse)
      obtain sc3 p3 where r3: "ms_merge c mid hi (hi - lo) lo lo mid it2 sc2 p2 = (True, sc3, p3)"
        using m by (metis prod.collapse)
      obtain it4 p4 where r4: "ms_copy c (hi - lo) lo it2 sc3 p3 = (True, it4, p4)"
        using cp by (metis prod.collapse)
      show ?thesis
        using assms False r1 r2 r3 r4 by (subst mergeSort.simps) (simp add: Let_def mid_def)
    qed (subst mergeSort.simps, simp add: assms)
  qed
qed
lemma sortBeadsReadyOrderContext_eq:
  assumes ids: "distinct (map ID items)" and run: "sortBeadsReadyOrderContext ctx items = (None, out)"
  shows "out = sortBeadsReadyOrder items"
proof (cases ctx)
  case Background
  with run show ?thesis by (simp add: sortBeadsReadyOrderContext_def)
next
  case (Cancellable c)
  show ?thesis
  proof (cases "length items < 2")
    case True
    then have "sorted_wrt beadReadyLess items"
      by (cases items rule: remdups_adj.cases) auto
    with True run Cancellable ids show ?thesis
      by (auto simp: sortBeadsReadyOrderContext_def sortBeadsReadyOrder_def
          ready_order.sort_slice_id split: if_splits)
  next
    case False
    with run Cancellable obtain sc p where
      "mergeSort c 0 (length items) items (replicate (length items) zero_Bead) 1 = (True, out, sc, p)"
      by (auto simp: sortBeadsReadyOrderContext_def split: if_splits prod.splits)
    then have "sorts 0 (length items) items out"
      by (rule mergeSort_sorts [THEN conjunct1]) simp_all
    with ids have "mset out = mset items" "sorted_wrt beadReadyLess out"
      by (auto simp: sorts_def slice_def)
    with ids show ?thesis
      by (simp add: sortBeadsReadyOrder_def ready_order.sort_slice_unique)
  qed
qed

lemma sortBeadsReadyOrderContext_completes:
  assumes "\<And>q. \<not> c q"
  shows "fst (sortBeadsReadyOrderContext (Cancellable c) items) = None"
  using mergeSort_completes [of c 0 "length items" items "replicate (length items) zero_Bead" 1] assms
  by (auto simp: sortBeadsReadyOrderContext_def split: prod.splits)

end
