(* ===== verification/Mem_Store.thy ===== *)
theory Mem_Store
  imports Ready_Sort
begin

text \<open>
  The in-memory bead store, \<^verbatim>\<open>src/internal/beads/memstore.go\<close> and
  \<^verbatim>\<open>src/internal/beads/memstore_conditional.go\<close>: its state and every operation, as functions
  from the state (and the clock reading the operation takes) to a result and the next state.
  Each operation holds the store's mutex from start to end, so a concurrent execution is a
  sequence of these operations.  Values are immutable in HOL, so the defensive copies
  (\<open>cloneBead\<close>) are the identity.
\<close>

section \<open>State\<close>

record MemStore =
  beads :: "Bead list"
  deps :: "Dep list"
  seq :: int
  localStrings :: "string \<rightharpoonup> strmap"
  DisableConditionalWrites :: bool

definition NewMemStore :: MemStore where
  "NewMemStore = \<lparr>beads = [], deps = [], seq = 0, localStrings = Map.empty,
     DisableConditionalWrites = False\<rparr>"

definition NewMemStoreFrom :: "int \<Rightarrow> Bead list \<Rightarrow> Dep list \<Rightarrow> MemStore" where
  "NewMemStoreFrom s existing ds = NewMemStore\<lparr>seq := s, beads := existing, deps := ds\<rparr>"

definition restoreFrom :: "int \<Rightarrow> Bead list \<Rightarrow> Dep list \<Rightarrow> MemStore \<Rightarrow> MemStore" where
  "restoreFrom s bs ds m = m\<lparr>seq := s, beads := bs, deps := ds\<rparr>"

definition snapshot :: "MemStore \<Rightarrow> int \<times> Bead list \<times> Dep list" where
  "snapshot m = (seq m, beads m, deps m)"

section \<open>Create and lookup\<close>

definition need_dep :: "string \<Rightarrow> string \<Rightarrow> Dep" where
  "need_dep bid need =
     (if contains_byte (CHR '':'') need
      then (case split_first (CHR '':'') need of (p0, p1) \<Rightarrow>
              if p0 \<noteq> [] \<and> p1 \<noteq> []
              then \<lparr>IssueID = bid, DependsOnID = p1, DepType = p0\<rparr>
              else \<lparr>IssueID = bid, DependsOnID = need, DepType = ''blocks''\<rparr>)
      else \<lparr>IssueID = bid, DependsOnID = need, DepType = ''blocks''\<rparr>)"

definition Create :: "gtime \<Rightarrow> Bead \<Rightarrow> MemStore \<Rightarrow> Bead result \<times> MemStore" where
  "Create now b m =
     (let s = seq m + 1;
          stored = b\<lparr>ID := ''gc-'' @ itoa s, Status := ''open'',
            Type := (if Type b = [] then ''task'' else Type b),
            CreatedAt := now, UpdatedAt := now, Revision := 1, ClaimFence := 0\<rparr>
      in (Inr stored,
          m\<lparr>seq := s, beads := beads m @ [stored],
            deps := deps m @ map (need_dep (ID stored)) (Needs stored)\<rparr>))"

fun index_loop :: "Bead list \<Rightarrow> string \<Rightarrow> int \<Rightarrow> int" where
  "index_loop [] bid i = -1"
| "index_loop (b # bs) bid i = (if ID b = bid then i else index_loop bs bid (i + 1))"

definition indexOfLocked :: "MemStore \<Rightarrow> string \<Rightarrow> int" where
  "indexOfLocked m bid = index_loop (beads m) bid 0"

definition find_bead :: "string \<Rightarrow> MemStore \<Rightarrow> Bead option" where
  "find_bead bid m = find (\<lambda>b. ID b = bid) (beads m)"

definition modify_bead :: "string \<Rightarrow> (Bead \<Rightarrow> Bead) \<Rightarrow> MemStore \<Rightarrow> MemStore" where
  "modify_bead bid f m = m\<lparr>beads := update_first (\<lambda>b. ID b = bid) f (beads m)\<rparr>"

definition Get :: "string \<Rightarrow> MemStore \<Rightarrow> Bead result" where
  "Get bid m = (case find_bead bid m of None \<Rightarrow> Inl (ErrNotFound bid) | Some b \<Rightarrow> Inr b)"

definition beadExistsLocked :: "MemStore \<Rightarrow> string \<Rightarrow> bool" where
  "beadExistsLocked m bid \<longleftrightarrow> find_bead bid m \<noteq> None"

section \<open>Update, release, close, reopen\<close>

definition isOwnershipTransition :: "string \<Rightarrow> string \<Rightarrow> UpdateOpts \<Rightarrow> bool" where
  "isOwnershipTransition oldStatus oldAssignee opts =
     (if (case uAssignee opts of None \<Rightarrow> False | Some a \<Rightarrow> a \<noteq> oldAssignee) then True
      else case uStatus opts of None \<Rightarrow> False
           | Some s \<Rightarrow> s \<noteq> [] \<and> oldStatus = ''closed'' \<and> s \<noteq> ''closed'')"

definition set_opt :: "'a option \<Rightarrow> 'a \<Rightarrow> 'a" where
  "set_opt new old = (case new of None \<Rightarrow> old | Some v \<Rightarrow> v)"

definition update_labels :: "string list \<Rightarrow> string list \<Rightarrow> string list \<Rightarrow> string list" where
  "update_labels add remove labels =
     (let appended = (if length add > 0 then labels @ add else labels)
      in if length remove > 0 then filter (\<lambda>l. l \<notin> set remove) appended else appended)"

definition apply_update :: "gtime \<Rightarrow> UpdateOpts \<Rightarrow> Bead \<Rightarrow> Bead" where
  "apply_update now opts b =
     b\<lparr>Title := set_opt (uTitle opts) (Title b),
       Status := set_opt (uStatus opts) (Status b),
       Description := set_opt (uDescription opts) (Description b),
       Priority := (case uPriority opts of None \<Rightarrow> Priority b | Some p \<Rightarrow> Some p),
       ParentID := set_opt (uParentID opts) (ParentID b),
       Assignee := set_opt (uAssignee opts) (Assignee b),
       Type := set_opt (uType opts) (Type b),
       Metadata := (if length (uMetadata opts) > 0 then mput_all (Metadata b) (uMetadata opts) else Metadata b),
       Labels := update_labels (uLabels opts) (uRemoveLabels opts) (Labels b),
       UpdatedAt := now,
       Revision := Revision b + 1,
       ClaimFence := (if isOwnershipTransition (Status b) (Assignee b) opts then ClaimFence b + 1
                      else ClaimFence b)\<rparr>"

definition applyUpdateLocked :: "gtime \<Rightarrow> int \<Rightarrow> UpdateOpts \<Rightarrow> MemStore \<Rightarrow> MemStore" where
  "applyUpdateLocked now i opts m =
     m\<lparr>beads := (beads m)[nat i := apply_update now opts (beads m ! nat i)]\<rparr>"

definition Update :: "gtime \<Rightarrow> string \<Rightarrow> UpdateOpts \<Rightarrow> MemStore \<Rightarrow> unit result \<times> MemStore" where
  "Update now bid opts m =
     (let i = indexOfLocked m bid in
      if i < 0 then (Inl (ErrNotFound bid), m)
      else (Inr (), applyUpdateLocked now i opts m))"

definition ReleaseIfCurrent :: "gtime \<Rightarrow> string \<Rightarrow> string \<Rightarrow> MemStore \<Rightarrow> bool result \<times> MemStore" where
  "ReleaseIfCurrent now bid expectedAssignee m =
     (case find_bead bid m of
        None \<Rightarrow> (Inr False, m)
      | Some b \<Rightarrow>
          if Status b \<noteq> ''in_progress'' \<or> Assignee b \<noteq> expectedAssignee then (Inr False, m)
          else (Inr True, modify_bead bid (\<lambda>b. b\<lparr>Status := ''open'', Assignee := [], UpdatedAt := now,
                  Revision := Revision b + 1, ClaimFence := ClaimFence b + 1\<rparr>) m))"

definition close_bead :: "gtime \<Rightarrow> Bead \<Rightarrow> Bead" where
  "close_bead now b = b\<lparr>Status := ''closed'', UpdatedAt := now, Revision := Revision b + 1\<rparr>"

definition Close :: "gtime \<Rightarrow> string \<Rightarrow> MemStore \<Rightarrow> unit result \<times> MemStore" where
  "Close now bid m =
     (case find_bead bid m of
        None \<Rightarrow> (Inl (ErrNotFound bid), m)
      | Some b \<Rightarrow> if Status b = ''closed'' then (Inr (), m)
                  else (Inr (), modify_bead bid (close_bead now) m))"

definition Reopen :: "gtime \<Rightarrow> string \<Rightarrow> MemStore \<Rightarrow> unit result \<times> MemStore" where
  "Reopen now bid m =
     (case find_bead bid m of
        None \<Rightarrow> (Inl (ErrNotFound bid), m)
      | Some b \<Rightarrow>
          if Status b = ''open'' then (Inr (), m)
          else (Inr (), modify_bead bid (\<lambda>b. b\<lparr>Status := ''open'', UpdatedAt := now,
                  Revision := Revision b + 1,
                  ClaimFence := (if Status b = ''closed'' then ClaimFence b + 1 else ClaimFence b)\<rparr>) m))"

fun closeAll_loop :: "gtime \<Rightarrow> string list \<Rightarrow> kvs \<Rightarrow> Bead list \<Rightarrow> nat \<times> Bead list" where
  "closeAll_loop now ids kvs [] = (0, [])"
| "closeAll_loop now ids kvs (b # bs) =
     (case closeAll_loop now ids kvs bs of (closed, bs') \<Rightarrow>
        if ID b \<notin> set ids \<or> Status b = ''closed'' then (closed, b # bs')
        else (Suc closed, (close_bead now b)\<lparr>Metadata := mput_all (Metadata b) kvs\<rparr> # bs'))"

definition CloseAll :: "gtime \<Rightarrow> string list \<Rightarrow> kvs \<Rightarrow> MemStore \<Rightarrow> nat result \<times> MemStore" where
  "CloseAll now ids metadata m =
     (case closeAll_loop now ids metadata (beads m) of (closed, bs) \<Rightarrow> (Inr closed, m\<lparr>beads := bs\<rparr>))"

section \<open>Queries\<close>

definition List' :: "ListQuery \<Rightarrow> MemStore \<Rightarrow> Bead list result" where
  "List' query m =
     (if \<not> HasFilter query \<and> \<not> qAllowScan query then Inl ErrQueryRequiresScan
      else Inr (limit_slice (qLimit query)
                  (sortBeadsForQuery (filter (Matches query) (beads m)) (qSort query))))"

definition ListOpen :: "string list \<Rightarrow> MemStore \<Rightarrow> Bead list result" where
  "ListOpen status m =
     (let query = zero_ListQuery\<lparr>qAllowScan := True\<rparr> in
      List' (case status of [] \<Rightarrow> query | s # _ \<Rightarrow> query\<lparr>qStatus := s\<rparr>) m)"

definition Children :: "string \<Rightarrow> QueryOpt list \<Rightarrow> MemStore \<Rightarrow> Bead list result" where
  "Children parentID opts m =
     List' (zero_ListQuery\<lparr>qParentID := parentID, qIncludeClosed := HasOpt opts IncludeClosed,
       qSort := SortCreatedAsc, qTierMode := TierModeFromOpts opts\<rparr>) m"

definition ListByLabel :: "string \<Rightarrow> int \<Rightarrow> QueryOpt list \<Rightarrow> MemStore \<Rightarrow> Bead list result" where
  "ListByLabel label limit opts m =
     List' (zero_ListQuery\<lparr>qLabel := label, qLimit := limit, qIncludeClosed := HasOpt opts IncludeClosed,
       qSort := SortCreatedDesc, qTierMode := TierModeFromOpts opts\<rparr>) m"

definition ListByAssignee :: "string \<Rightarrow> string \<Rightarrow> int \<Rightarrow> MemStore \<Rightarrow> Bead list result" where
  "ListByAssignee assignee status limit m =
     List' (zero_ListQuery\<lparr>qAssignee := assignee, qStatus := status, qLimit := limit,
       qSort := SortCreatedDesc\<rparr>) m"

definition ListByMetadata :: "kvs \<Rightarrow> int \<Rightarrow> QueryOpt list \<Rightarrow> MemStore \<Rightarrow> Bead list result" where
  "ListByMetadata filters limit opts m =
     List' (zero_ListQuery\<lparr>qMetadata := filters, qLimit := limit, qIncludeClosed := HasOpt opts IncludeClosed,
       qSort := SortCreatedDesc, qTierMode := TierModeFromOpts opts\<rparr>) m"

text \<open>\<open>readyLocked\<close>: \<open>contextErr\<close> polls a cancellable context only.  The first loop indexes the
  beads by id, the second scans them; the scan of a bead's edges stops at the first blocker that
  is missing or not satisfied, and the whole scan stops at the limit.\<close>

definition contextErr :: "Context \<Rightarrow> nat \<Rightarrow> bool \<times> nat" where
  "contextErr ctx p = (case ctx of Background \<Rightarrow> (False, p) | Cancellable done \<Rightarrow> (done p, Suc p))"

fun ready_index :: "Context \<Rightarrow> Bead list \<Rightarrow> (string \<rightharpoonup> Bead) \<Rightarrow> nat \<Rightarrow> (string \<rightharpoonup> Bead) option \<times> nat" where
  "ready_index ctx [] acc p = (Some acc, p)"
| "ready_index ctx (b # bs) acc p =
     (case contextErr ctx p of (err, p') \<Rightarrow>
        if err then (None, p') else ready_index ctx bs (acc(ID b \<mapsto> b)) p')"

fun ready_blocked :: "Context \<Rightarrow> (string \<rightharpoonup> Bead) \<Rightarrow> Bead \<Rightarrow> Dep list \<Rightarrow> nat \<Rightarrow> bool option \<times> nat" where
  "ready_blocked ctx byID b [] p = (Some False, p)"
| "ready_blocked ctx byID b (dep # ds) p =
     (case contextErr ctx p of (err, p') \<Rightarrow>
        if err then (None, p')
        else if IssueID dep \<noteq> ID b then ready_blocked ctx byID b ds p'
        else if DepType dep \<noteq> ''blocks'' \<and> DepType dep \<noteq> ''waits-for'' \<and> DepType dep \<noteq> ''conditional-blocks''
        then ready_blocked ctx byID b ds p'
        else case byID (DependsOnID dep) of
               None \<Rightarrow> (Some True, p')
             | Some blocker \<Rightarrow>
                 if \<not> IsReadyBlockingDependencySatisfiedFor b blocker then (Some True, p')
                 else ready_blocked ctx byID b ds p')"

fun ready_scan :: "Context \<Rightarrow> gtime \<Rightarrow> ReadyQuery \<Rightarrow> (string \<rightharpoonup> Bead) \<Rightarrow> Dep list \<Rightarrow> Bead list \<Rightarrow> Bead list \<Rightarrow> nat
    \<Rightarrow> Bead list option" where
  "ready_scan ctx now q byID ds [] res p = Some res"
| "ready_scan ctx now q byID ds (b # bs) res p =
     (case contextErr ctx p of (err, p1) \<Rightarrow>
        if err then None
        else if \<not> IsReadyCandidateForTier b now (rTierMode q) then ready_scan ctx now q byID ds bs res p1
        else if rAssignee q \<noteq> [] \<and> Assignee b \<noteq> rAssignee q then ready_scan ctx now q byID ds bs res p1
        else case ready_blocked ctx byID b ds p1 of
               (None, p2) \<Rightarrow> None
             | (Some blocked, p2) \<Rightarrow>
                 if blocked then ready_scan ctx now q byID ds bs res p2
                 else if rLimit q > 0 \<and> int (length (res @ [b])) \<ge> rLimit q then Some (res @ [b])
                 else ready_scan ctx now q byID ds bs (res @ [b]) p2)"

definition readyLocked :: "Context \<Rightarrow> gtime \<Rightarrow> ReadyQuery \<Rightarrow> nat \<Rightarrow> MemStore \<Rightarrow> Bead list result" where
  "readyLocked ctx now q p m =
     (case ready_index ctx (beads m) Map.empty p of
        (None, _) \<Rightarrow> Inl ErrContextCancelled
      | (Some byID, p') \<Rightarrow>
          (case ready_scan ctx now q byID (deps m) (beads m) [] p' of
             None \<Rightarrow> Inl ErrContextCancelled
           | Some res \<Rightarrow> Inr res))"

definition Ready :: "gtime \<Rightarrow> ReadyQuery list \<Rightarrow> MemStore \<Rightarrow> Bead list result" where
  "Ready now query m = readyLocked Background now (readyQueryFromArgs query) 0 m"

text \<open>\<open>ReadyContext\<close> once it holds the mutex: it has polled the context once on entry.\<close>

definition ReadyContext :: "Context \<Rightarrow> gtime \<Rightarrow> ReadyQuery list \<Rightarrow> MemStore \<Rightarrow> Bead list result" where
  "ReadyContext ctx now query m =
     (case contextErr ctx 0 of (err, p) \<Rightarrow>
        if err then Inl ErrContextCancelled
        else readyLocked ctx now (readyQueryFromArgs query) p m)"

section \<open>Metadata and clone-local strings\<close>

definition SetMetadata :: "gtime \<Rightarrow> string \<Rightarrow> string \<Rightarrow> string \<Rightarrow> MemStore \<Rightarrow> unit result \<times> MemStore" where
  "SetMetadata now bid key val m =
     (case find_bead bid m of
        None \<Rightarrow> (Inl (ErrNotFound bid), m)
      | Some _ \<Rightarrow> (Inr (), modify_bead bid (\<lambda>b. b\<lparr>Metadata := (Metadata b)(key \<mapsto> val), UpdatedAt := now,
                    Revision := Revision b + 1\<rparr>) m))"

definition SetMetadataBatch :: "gtime \<Rightarrow> string \<Rightarrow> kvs \<Rightarrow> MemStore \<Rightarrow> unit result \<times> MemStore" where
  "SetMetadataBatch now bid kvs m =
     (if length kvs = 0 then (Inr (), m)
      else case find_bead bid m of
             None \<Rightarrow> (Inl (ErrNotFound bid), m)
           | Some _ \<Rightarrow> (Inr (), modify_bead bid (\<lambda>b. b\<lparr>Metadata := mput_all (Metadata b) kvs, UpdatedAt := now,
                         Revision := Revision b + 1\<rparr>) m))"

definition local_strings_of :: "MemStore \<Rightarrow> string \<Rightarrow> strmap" where
  "local_strings_of m bid = (case localStrings m bid of None \<Rightarrow> Map.empty | Some s \<Rightarrow> s)"

definition SetLocalString :: "string \<Rightarrow> string \<Rightarrow> string \<Rightarrow> MemStore \<Rightarrow> unit result \<times> MemStore" where
  "SetLocalString bid key val m =
     (if \<not> beadExistsLocked m bid then (Inl (ErrNotFound bid), m)
      else if val = [] then
        (Inr (), case localStrings m bid of
                   None \<Rightarrow> m
                 | Some s \<Rightarrow> m\<lparr>localStrings := (localStrings m)(bid \<mapsto> s(key := None))\<rparr>)
      else (Inr (), m\<lparr>localStrings := (localStrings m)(bid \<mapsto> (local_strings_of m bid)(key \<mapsto> val))\<rparr>))"

definition GetLocalString :: "string \<Rightarrow> string \<Rightarrow> MemStore \<Rightarrow> string result" where
  "GetLocalString bid key m =
     (if \<not> beadExistsLocked m bid then Inl (ErrNotFound bid)
      else Inr (mget (local_strings_of m bid) key))"

definition runSequentialTx :: "('s \<Rightarrow> unit result \<times> 's) option \<Rightarrow> 's \<Rightarrow> unit result \<times> 's" where
  "runSequentialTx fn s = (case fn of None \<Rightarrow> (Inl ErrTxNilCallback, s) | Some f \<Rightarrow> f s)"

definition Tx :: "(MemStore \<Rightarrow> unit result \<times> MemStore) option \<Rightarrow> MemStore \<Rightarrow> unit result \<times> MemStore" where
  "Tx fn m = runSequentialTx fn m"

definition Delete :: "string \<Rightarrow> MemStore \<Rightarrow> unit result \<times> MemStore" where
  "Delete bid m =
     (case find_bead bid m of
        None \<Rightarrow> (Inl (ErrNotFound bid), m)
      | Some _ \<Rightarrow> (Inr (), m\<lparr>beads := remove_first (\<lambda>b. ID b = bid) (beads m),
                    localStrings := (localStrings m)(bid := None)\<rparr>))"

section \<open>Dependencies\<close>

fun depAdd_loop :: "string \<Rightarrow> string \<Rightarrow> string \<Rightarrow> Dep list \<Rightarrow> Dep list option" where
  "depAdd_loop issueID dependsOnID depType [] = None"
| "depAdd_loop issueID dependsOnID depType (d # ds) =
     (if IssueID d = issueID \<and> DependsOnID d = dependsOnID \<and> DepType d = depType then Some (d # ds)
      else if IssueID d = issueID \<and> DependsOnID d = dependsOnID \<and> DepType d \<noteq> ''parent-child''
              \<and> depType \<noteq> ''parent-child''
      then Some (d\<lparr>DepType := depType\<rparr> # ds)
      else map_option (\<lambda>ds'. d # ds') (depAdd_loop issueID dependsOnID depType ds))"

definition DepAdd :: "string \<Rightarrow> string \<Rightarrow> string \<Rightarrow> MemStore \<Rightarrow> unit result \<times> MemStore" where
  "DepAdd issueID dependsOnID depType m =
     (case depAdd_loop issueID dependsOnID depType (deps m) of
        Some ds \<Rightarrow> (Inr (), m\<lparr>deps := ds\<rparr>)
      | None \<Rightarrow> (Inr (), m\<lparr>deps := deps m @
                  [\<lparr>IssueID = issueID, DependsOnID = dependsOnID, DepType = depType\<rparr>]\<rparr>))"

definition DepRemove :: "string \<Rightarrow> string \<Rightarrow> MemStore \<Rightarrow> unit result \<times> MemStore" where
  "DepRemove issueID dependsOnID m =
     (Inr (), m\<lparr>deps := remove_first (\<lambda>d. IssueID d = issueID \<and> DependsOnID d = dependsOnID) (deps m)\<rparr>)"

definition DepList :: "string \<Rightarrow> string \<Rightarrow> MemStore \<Rightarrow> Dep list result" where
  "DepList bid direction m =
     Inr (filter (\<lambda>d. if direction = ''up'' then DependsOnID d = bid else IssueID d = bid) (deps m))"

fun depListBatch_loop :: "string list \<Rightarrow> Dep list \<Rightarrow> (string \<rightharpoonup> Dep list) \<Rightarrow> (string \<rightharpoonup> Dep list)" where
  "depListBatch_loop ids [] res = res"
| "depListBatch_loop ids (d # ds) res =
     depListBatch_loop ids ds
       (if IssueID d \<in> set ids
        then res(IssueID d \<mapsto> (case res (IssueID d) of None \<Rightarrow> [d] | Some xs \<Rightarrow> xs @ [d]))
        else res)"

definition DepListBatch :: "string list \<Rightarrow> MemStore \<Rightarrow> (string \<rightharpoonup> Dep list) result" where
  "DepListBatch ids m = Inr (depListBatch_loop ids (deps m) Map.empty)"

section \<open>Conditional writes\<close>

definition probeConditionalWriteCapability :: "MemStore \<Rightarrow> bool" where
  "probeConditionalWriteCapability m = (if DisableConditionalWrites m then False else True)"

definition UpdateIfMatch :: "gtime \<Rightarrow> string \<Rightarrow> int \<Rightarrow> UpdateOpts \<Rightarrow> MemStore \<Rightarrow> unit result \<times> MemStore" where
  "UpdateIfMatch now bid expectedRevision opts m =
     (if isEmptyUpdateOpts opts then (Inl (ErrEmptyConditionalUpdate bid), m)
      else if DisableConditionalWrites m then (Inl ErrConditionalWriteUnsupported, m)
      else let i = indexOfLocked m bid in
        if i < 0 then (Inl (ErrNotFound bid), m)
        else let b = beads m ! nat i in
          if Revision b \<noteq> expectedRevision
          then (Inl (PreconditionFailedError bid expectedRevision (Revision b)), m)
          else (Inr (), applyUpdateLocked now i opts m))"

definition CloseIfMatch :: "gtime \<Rightarrow> string \<Rightarrow> int \<Rightarrow> MemStore \<Rightarrow> unit result \<times> MemStore" where
  "CloseIfMatch now bid expectedRevision m =
     (if DisableConditionalWrites m then (Inl ErrConditionalWriteUnsupported, m)
      else let i = indexOfLocked m bid in
        if i < 0 then (Inl (ErrNotFound bid), m)
        else let b = beads m ! nat i in
          if Revision b \<noteq> expectedRevision
          then (Inl (PreconditionFailedError bid expectedRevision (Revision b)), m)
          else if Status b = ''closed'' then (Inr (), m)
          else (Inr (), m\<lparr>beads := (beads m)[nat i := close_bead now b]\<rparr>))"

definition DeleteIfMatch :: "string \<Rightarrow> int \<Rightarrow> MemStore \<Rightarrow> unit result \<times> MemStore" where
  "DeleteIfMatch bid expectedRevision m =
     (if DisableConditionalWrites m then (Inl ErrConditionalWriteUnsupported, m)
      else let i = indexOfLocked m bid in
        if i < 0 then (Inl (ErrNotFound bid), m)
        else let b = beads m ! nat i in
          if Revision b \<noteq> expectedRevision
          then (Inl (PreconditionFailedError bid expectedRevision (Revision b)), m)
          else (Inr (), m\<lparr>beads := take (nat i) (beads m) @ drop (Suc (nat i)) (beads m)\<rparr>))"

definition CompareAndSetMetadataKey ::
    "gtime \<Rightarrow> string \<Rightarrow> string \<Rightarrow> string \<Rightarrow> string \<Rightarrow> MemStore \<Rightarrow> bool result \<times> MemStore" where
  "CompareAndSetMetadataKey now bid key expected new m =
     (if DisableConditionalWrites m then (Inl ErrConditionalWriteUnsupported, m)
      else let i = indexOfLocked m bid in
        if i < 0 then (Inl (ErrNotFound bid), m)
        else let b = beads m ! nat i in
          if mget (Metadata b) key \<noteq> expected then (Inr False, m)
          else (Inr True, m\<lparr>beads := (beads m)[nat i := b\<lparr>Metadata := (Metadata b)(key \<mapsto> new),
                  UpdatedAt := now, Revision := Revision b + 1\<rparr>]\<rparr>))"

end
