(* ===== verification/Mem_Store_Laws.thy ===== *)
theory Mem_Store_Laws
  imports Mem_Store
begin

text \<open>
  The laws of the in-memory store.  First the index-based operations are brought to one shape
  (find the bead, replace it); then the step relation \<open>mem_step\<close> collects every state-changing
  operation, and the invariant \<open>mem_wf\<close>, the revision contract and the ownership-fence contract
  are shown for each step and lifted to every reachable store by rule induction.
\<close>

section \<open>Finding and replacing a bead\<close>

lemma index_loop_None: "find (\<lambda>b. ID b = bid) bs = None \<Longrightarrow> index_loop bs bid i = -1"
  by (induction bs arbitrary: i) (auto split: if_splits)

lemma index_loop_Some:
  assumes "find (\<lambda>b. ID b = bid) bs = Some b"
  shows "\<exists>k < length bs. index_loop bs bid i = i + int k \<and> bs ! k = b
     \<and> (\<forall>f. bs[k := f b] = update_first (\<lambda>b. ID b = bid) f bs)
     \<and> take k bs @ drop (Suc k) bs = remove_first (\<lambda>b. ID b = bid) bs"
  using assms
proof (induction bs arbitrary: i)
  case (Cons c bs)
  show ?case
  proof (cases "ID c = bid")
    case True
    with Cons.prems show ?thesis by (intro exI [of _ 0]) auto
  next
    case False
    with Cons.prems have "find (\<lambda>b. ID b = bid) bs = Some b" by simp
    from Cons.IH [OF this, of "i + 1"] obtain k where
      "k < length bs" "index_loop bs bid (i + 1) = i + 1 + int k" "bs ! k = b"
      "\<forall>f. bs[k := f b] = update_first (\<lambda>b. ID b = bid) f bs"
      "take k bs @ drop (Suc k) bs = remove_first (\<lambda>b. ID b = bid) bs"
      by blast
    with False show ?thesis by (intro exI [of _ "Suc k"]) auto
  qed
qed simp

lemma indexOfLocked_None: "find_bead bid m = None \<Longrightarrow> indexOfLocked m bid = -1"
  by (simp add: indexOfLocked_def find_bead_def index_loop_None)

lemma indexOfLocked_Some:
  assumes "find_bead bid m = Some b"
  shows "\<not> indexOfLocked m bid < 0" and "beads m ! nat (indexOfLocked m bid) = b"
    and "(beads m)[nat (indexOfLocked m bid) := f b] = update_first (\<lambda>b. ID b = bid) f (beads m)"
    and "take (nat (indexOfLocked m bid)) (beads m) @ drop (Suc (nat (indexOfLocked m bid))) (beads m)
       = remove_first (\<lambda>b. ID b = bid) (beads m)"
proof -
  from assms index_loop_Some [of bid "beads m" b 0] obtain k where
    k: "index_loop (beads m) bid 0 = int k" "beads m ! k = b"
      "\<forall>f. (beads m)[k := f b] = update_first (\<lambda>b. ID b = bid) f (beads m)"
      "take k (beads m) @ drop (Suc k) (beads m) = remove_first (\<lambda>b. ID b = bid) (beads m)"
    by (auto simp: find_bead_def)
  then show "\<not> indexOfLocked m bid < 0" "beads m ! nat (indexOfLocked m bid) = b"
    "(beads m)[nat (indexOfLocked m bid) := f b] = update_first (\<lambda>b. ID b = bid) f (beads m)"
    "take (nat (indexOfLocked m bid)) (beads m) @ drop (Suc (nat (indexOfLocked m bid))) (beads m)
       = remove_first (\<lambda>b. ID b = bid) (beads m)"
    by (simp_all add: indexOfLocked_def)
qed

lemmas index_simps = indexOfLocked_None indexOfLocked_Some

lemma Update_find:
  "Update now bid opts m =
     (case find_bead bid m of
        None \<Rightarrow> (Inl (ErrNotFound bid), m)
      | Some b \<Rightarrow> (Inr (), modify_bead bid (apply_update now opts) m))"
  by (auto simp: Update_def Let_def applyUpdateLocked_def modify_bead_def index_simps split: option.split)

lemma UpdateIfMatch_find:
  "UpdateIfMatch now bid r opts m =
     (if isEmptyUpdateOpts opts then (Inl (ErrEmptyConditionalUpdate bid), m)
      else if DisableConditionalWrites m then (Inl ErrConditionalWriteUnsupported, m)
      else case find_bead bid m of
             None \<Rightarrow> (Inl (ErrNotFound bid), m)
           | Some b \<Rightarrow> if Revision b \<noteq> r then (Inl (PreconditionFailedError bid r (Revision b)), m)
                       else (Inr (), modify_bead bid (apply_update now opts) m))"
  by (auto simp: UpdateIfMatch_def Let_def applyUpdateLocked_def modify_bead_def index_simps split: option.split)

lemma CloseIfMatch_find:
  "CloseIfMatch now bid r m =
     (if DisableConditionalWrites m then (Inl ErrConditionalWriteUnsupported, m)
      else case find_bead bid m of
             None \<Rightarrow> (Inl (ErrNotFound bid), m)
           | Some b \<Rightarrow> if Revision b \<noteq> r then (Inl (PreconditionFailedError bid r (Revision b)), m)
                       else Close now bid m)"
  by (auto simp: CloseIfMatch_def Let_def Close_def modify_bead_def index_simps split: option.split)

lemma DeleteIfMatch_find:
  "DeleteIfMatch bid r m =
     (if DisableConditionalWrites m then (Inl ErrConditionalWriteUnsupported, m)
      else case find_bead bid m of
             None \<Rightarrow> (Inl (ErrNotFound bid), m)
           | Some b \<Rightarrow> if Revision b \<noteq> r then (Inl (PreconditionFailedError bid r (Revision b)), m)
                       else (Inr (), m\<lparr>beads := remove_first (\<lambda>b. ID b = bid) (beads m)\<rparr>))"
  by (auto simp: DeleteIfMatch_def Let_def index_simps split: option.split)

definition cas_bead :: "gtime \<Rightarrow> string \<Rightarrow> string \<Rightarrow> Bead \<Rightarrow> Bead" where
  "cas_bead now key new b =
     b\<lparr>Metadata := (Metadata b)(key \<mapsto> new), UpdatedAt := now, Revision := Revision b + 1\<rparr>"

lemma CompareAndSetMetadataKey_find:
  "CompareAndSetMetadataKey now bid key expected new m =
     (if DisableConditionalWrites m then (Inl ErrConditionalWriteUnsupported, m)
      else case find_bead bid m of
             None \<Rightarrow> (Inl (ErrNotFound bid), m)
           | Some b \<Rightarrow> if mget (Metadata b) key \<noteq> expected then (Inr False, m)
                       else (Inr True, modify_bead bid (cas_bead now key new) m))"
  by (auto simp: CompareAndSetMetadataKey_def Let_def modify_bead_def index_simps cas_bead_def [abs_def]
      indexOfLocked_Some(3) [where f = "cas_bead now key new", unfolded cas_bead_def [abs_def]]
      split: option.split)

text \<open>Every operation that touches one bead is \<open>modify_bead\<close> with a function that keeps the id.\<close>

lemma find_modify [simp]:
  assumes "\<And>b. ID (f b) = ID b"
  shows "find_bead bid' (modify_bead bid f m) =
    (if bid' = bid then map_option f (find_bead bid m) else find_bead bid' m)"
  using assms by (auto simp: find_bead_def modify_bead_def find_update_first_same find_update_first_other)

lemma find_bead_ID: "find_bead bid m = Some b \<Longrightarrow> ID b = bid"
  unfolding find_bead_def by (drule find_Some_set) simp

lemma find_bead_in: "find_bead bid m = Some b \<Longrightarrow> b \<in> set (beads m)"
  unfolding find_bead_def by (drule find_Some_set) simp

lemma find_bead_iff:
  "distinct (map ID (beads m)) \<Longrightarrow> find_bead bid m = Some b \<longleftrightarrow> b \<in> set (beads m) \<and> ID b = bid"
  by (simp add: find_bead_def find_key_iff)

lemma List'_in:
  assumes "List' q m = Inr bs" and "b \<in> set bs"
  shows "b \<in> set (beads m)" and "Matches q b"
proof -
  have "b \<in> set (sortBeadsForQuery (filter (Matches q) (beads m)) (qSort q))"
    using assms limit_slice_set [of "qLimit q" "sortBeadsForQuery (filter (Matches q) (beads m)) (qSort q)"]
    by (auto simp: List'_def split: if_splits)
  then show "b \<in> set (beads m)" and "Matches q b" by simp_all
qed

lemma modify_bead_sels [simp]:
  "deps (modify_bead bid f m) = deps m" "seq (modify_bead bid f m) = seq m"
  "localStrings (modify_bead bid f m) = localStrings m"
  "DisableConditionalWrites (modify_bead bid f m) = DisableConditionalWrites m"
  by (simp_all add: modify_bead_def)

lemma bead_op_ID [simp]:
  "ID (apply_update now opts b) = ID b" "ID (close_bead now b) = ID b" "ID (cas_bead now k v b) = ID b"
  by (simp_all add: apply_update_def close_bead_def cas_bead_def)

lemma ids_modify [simp]: "(\<And>b. ID (f b) = ID b) \<Longrightarrow> map ID (beads (modify_bead bid f m)) = map ID (beads m)"
  by (simp add: modify_bead_def map_update_first)

lemma closeAll_loop_eq:
  "closeAll_loop now ids kvs bs =
     (length (filter (\<lambda>b. ID b \<in> set ids \<and> Status b \<noteq> ''closed'') bs),
      map (\<lambda>b. if ID b \<in> set ids \<and> Status b \<noteq> ''closed''
               then (close_bead now b)\<lparr>Metadata := mput_all (Metadata b) kvs\<rparr> else b) bs)"
  by (induction bs) auto

section \<open>Steps of the store\<close>

inductive mem_step :: "MemStore \<Rightarrow> MemStore \<Rightarrow> bool" where
  st_Create: "mem_step m (snd (Create now b m))"
| st_Update: "mem_step m (snd (Update now bid opts m))"
| st_ReleaseIfCurrent: "mem_step m (snd (ReleaseIfCurrent now bid a m))"
| st_Close: "mem_step m (snd (Close now bid m))"
| st_Reopen: "mem_step m (snd (Reopen now bid m))"
| st_CloseAll: "mem_step m (snd (CloseAll now ids kvs m))"
| st_SetMetadata: "mem_step m (snd (SetMetadata now bid k v m))"
| st_SetMetadataBatch: "mem_step m (snd (SetMetadataBatch now bid kvs m))"
| st_SetLocalString: "mem_step m (snd (SetLocalString bid k v m))"
| st_Delete: "mem_step m (snd (Delete bid m))"
| st_DepAdd: "mem_step m (snd (DepAdd i d t m))"
| st_DepRemove: "mem_step m (snd (DepRemove i d m))"
| st_UpdateIfMatch: "mem_step m (snd (UpdateIfMatch now bid r opts m))"
| st_CloseIfMatch: "mem_step m (snd (CloseIfMatch now bid r m))"
| st_DeleteIfMatch: "mem_step m (snd (DeleteIfMatch bid r m))"
| st_CompareAndSet: "mem_step m (snd (CompareAndSetMetadataKey now bid k e v m))"

inductive mem_reachable :: "MemStore \<Rightarrow> bool" where
  start: "mem_reachable (NewMemStore\<lparr>DisableConditionalWrites := d\<rparr>)"
| step: "mem_reachable m \<Longrightarrow> mem_step m m' \<Longrightarrow> mem_reachable m'"

definition bead_ident :: "int \<Rightarrow> string" where
  "bead_ident n = ''gc-'' @ itoa n"

lemma bead_ident_inj [simp]: "bead_ident i = bead_ident j \<longleftrightarrow> i = j"
  by (simp add: bead_ident_def)

definition mem_wf :: "MemStore \<Rightarrow> bool" where
  "mem_wf m \<longleftrightarrow>
     0 \<le> seq m \<and> distinct (map ID (beads m)) \<and>
     (\<forall>b \<in> set (beads m). (\<exists>n. 1 \<le> n \<and> n \<le> seq m \<and> ID b = bead_ident n) \<and> 1 \<le> Revision b \<and> 0 \<le> ClaimFence b)"

text \<open>How one bead may change in one step.\<close>

inductive bead_trans :: "Bead \<Rightarrow> Bead \<Rightarrow> bool" where
  bt_same: "bead_trans b b"
| bt_update: "bead_trans b (apply_update now opts b)"
| bt_release: "Status b = ''in_progress'' \<Longrightarrow>
     bead_trans b (b\<lparr>Status := ''open'', Assignee := [], UpdatedAt := now, Revision := Revision b + 1,
       ClaimFence := ClaimFence b + 1\<rparr>)"
| bt_close: "Status b \<noteq> ''closed'' \<Longrightarrow> bead_trans b (close_bead now b)"
| bt_reopen: "Status b \<noteq> ''open'' \<Longrightarrow>
     bead_trans b (b\<lparr>Status := ''open'', UpdatedAt := now, Revision := Revision b + 1,
       ClaimFence := (if Status b = ''closed'' then ClaimFence b + 1 else ClaimFence b)\<rparr>)"
| bt_closeAll: "Status b \<noteq> ''closed'' \<Longrightarrow> bead_trans b ((close_bead now b)\<lparr>Metadata := M\<rparr>)"
| bt_metadata: "bead_trans b (b\<lparr>Metadata := M, UpdatedAt := now, Revision := Revision b + 1\<rparr>)"

lemma bead_trans_ID: "bead_trans b b' \<Longrightarrow> ID b' = ID b"
  by (induction rule: bead_trans.induct) (simp_all add: apply_update_def close_bead_def)

lemma bead_trans_revision:
  "bead_trans b b' \<Longrightarrow> b' = b \<or> Revision b' = Revision b + 1"
  by (induction rule: bead_trans.induct) (simp_all add: apply_update_def close_bead_def)

lemma bead_trans_fence: "bead_trans b b' \<Longrightarrow> ClaimFence b' = ClaimFence b \<or> ClaimFence b' = ClaimFence b + 1"
  by (induction rule: bead_trans.induct) (simp_all add: apply_update_def close_bead_def)

text \<open>The shapes of a step: one bead is changed (or none), one is appended, one removed, or a
  batch is closed; everything else about the beads is as before.\<close>

definition beads_map :: "(Bead \<Rightarrow> Bead) \<Rightarrow> MemStore \<Rightarrow> MemStore \<Rightarrow> bool" where
  "beads_map g m m' \<longleftrightarrow> beads m' = map g (beads m) \<and> (\<forall>b. bead_trans b (g b)) \<and> seq m' = seq m"

lemma beads_map_ID: "beads_map g m m' \<Longrightarrow> ID (g b) = ID b"
  by (auto simp: beads_map_def intro: bead_trans_ID)

lemma modify_beads_map:
  assumes "distinct (map ID (beads m))" and "\<And>b. b \<in> set (beads m) \<Longrightarrow> ID b = bid \<Longrightarrow> bead_trans b (f b)"
  shows "\<exists>g. beads_map g m (modify_bead bid f m)"
proof -
  let ?g = "\<lambda>b. if ID b = bid \<and> bead_trans b (f b) then f b else b"
  have "update_first (\<lambda>b. ID b = bid) f bs = map ?g bs"
    if "distinct (map ID bs)" "\<And>b. b \<in> set bs \<Longrightarrow> ID b = bid \<Longrightarrow> bead_trans b (f b)" for bs
    using that
  proof (induction bs)
    case (Cons b bs)
    show ?case
    proof (cases "ID b = bid")
      case True
      with Cons.prems have "map ?g bs = bs" by (intro map_idI) (auto simp: image_iff)
      with True Cons.prems show ?thesis by simp
    next
      case False
      with Cons show ?thesis by simp
    qed
  qed simp
  with assms have "beads_map ?g m (modify_bead bid f m)"
    by (auto simp: beads_map_def modify_bead_def bt_same)
  then show ?thesis by blast
qed

lemma beads_map_refl [intro]: "\<exists>g. beads_map g m m"
  by (intro exI [of _ "\<lambda>b. b"]) (simp add: beads_map_def bt_same)

lemma beads_map_other [intro]:
  "beads m' = beads m \<Longrightarrow> seq m' = seq m \<Longrightarrow> \<exists>g. beads_map g m m'"
  by (intro exI [of _ "\<lambda>b. b"]) (simp add: beads_map_def bt_same)

definition step_shape :: "MemStore \<Rightarrow> MemStore \<Rightarrow> bool" where
  "step_shape m m' \<longleftrightarrow>
     (\<exists>g. beads_map g m m')
     \<or> (\<exists>b. ID b = bead_ident (seq m + 1) \<and> Revision b = 1 \<and> ClaimFence b = 0 \<and>
             beads m' = beads m @ [b] \<and> seq m' = seq m + 1)
     \<or> (\<exists>bid. beads m' = remove_first (\<lambda>b. ID b = bid) (beads m) \<and> seq m' = seq m)"

lemma find_modify_shape:
  assumes "mem_wf m" and "find_bead bid m = Some b" and "bead_trans b (f b)"
  shows "\<exists>g. beads_map g m (modify_bead bid f m)"
proof (rule modify_beads_map)
  show ids: "distinct (map ID (beads m))" using assms(1) by (simp add: mem_wf_def)
  fix c assume "c \<in> set (beads m)" "ID c = bid"
  with find_bead_iff [OF ids] assms(2) have "c = b"
    by (metis option.inject)
  with assms(3) show "bead_trans c (f c)" by simp
qed

lemma Close_shape: "mem_wf m \<Longrightarrow> \<exists>g. beads_map g m (snd (Close now bid m))"
  by (auto simp: Close_def bt_close split: option.split intro: find_modify_shape)

lemma step_shape:
  assumes "mem_step m m'" and wf: "mem_wf m"
  shows "step_shape m m'"
  using assms(1)
proof cases
  case (st_Create now b)
  then show ?thesis by (auto simp: step_shape_def Create_def Let_def bead_ident_def)
next
  case (st_Update now bid opts)
  with wf show ?thesis
    by (auto simp: step_shape_def Update_find bt_update split: option.split intro: find_modify_shape)
next
  case (st_ReleaseIfCurrent now bid a)
  with wf show ?thesis
    by (auto simp: step_shape_def ReleaseIfCurrent_def bt_release split: option.split intro!: find_modify_shape)
next
  case (st_Close now bid)
  with wf Close_shape show ?thesis by (auto simp: step_shape_def)
next
  case (st_Reopen now bid)
  with wf show ?thesis
    by (auto simp: step_shape_def Reopen_def split: option.split intro!: find_modify_shape bt_reopen)
next
  case (st_CloseAll now ids kvs)
  let ?g = "\<lambda>b. if ID b \<in> set ids \<and> Status b \<noteq> ''closed''
    then (close_bead now b)\<lparr>Metadata := mput_all (Metadata b) kvs\<rparr> else b"
  have "beads_map ?g m m'"
    using st_CloseAll by (auto simp: beads_map_def CloseAll_def closeAll_loop_eq bt_same bt_closeAll)
  then show ?thesis by (auto simp: step_shape_def)
next
  case (st_SetMetadata now bid k v)
  with wf show ?thesis
    by (auto simp: step_shape_def SetMetadata_def bt_metadata split: option.split intro!: find_modify_shape)
next
  case (st_SetMetadataBatch now bid kvs)
  with wf show ?thesis
    by (auto simp: step_shape_def SetMetadataBatch_def bt_metadata split: option.split intro!: find_modify_shape)
next
  case (st_SetLocalString bid k v)
  then show ?thesis by (auto simp: step_shape_def SetLocalString_def split: option.split)
next
  case (st_Delete bid)
  then show ?thesis by (auto simp: step_shape_def Delete_def split: option.split)
next
  case (st_DepAdd i d t)
  then show ?thesis by (auto simp: step_shape_def DepAdd_def split: option.split)
next
  case (st_DepRemove i d)
  then show ?thesis by (auto simp: step_shape_def DepRemove_def)
next
  case (st_UpdateIfMatch now bid r opts)
  with wf show ?thesis
    by (auto simp: step_shape_def UpdateIfMatch_find bt_update split: option.split intro!: find_modify_shape)
next
  case (st_CloseIfMatch now bid r)
  with wf Close_shape [OF wf] show ?thesis
    by (auto simp: step_shape_def CloseIfMatch_find split: option.split)
next
  case (st_DeleteIfMatch bid r)
  then show ?thesis by (auto simp: step_shape_def DeleteIfMatch_find split: option.split)
next
  case (st_CompareAndSet now bid k e v)
  with wf show ?thesis
    by (auto simp: step_shape_def CompareAndSetMetadataKey_find cas_bead_def bt_metadata split: option.split
        intro!: find_modify_shape)
qed

lemmas step_shapeE = step_shape [unfolded step_shape_def, THEN disjE]

lemma mem_wf_init: "mem_wf (NewMemStore\<lparr>DisableConditionalWrites := d\<rparr>)"
  by (simp add: mem_wf_def NewMemStore_def)

lemma mem_wf_step:
  assumes "mem_step m m'" and wf: "mem_wf m"
  shows "mem_wf m'"
proof -
  from step_shape [OF assms] consider
    (map) g where "beads_map g m m'"
  | (new) b where "ID b = bead_ident (seq m + 1)" "Revision b = 1" "ClaimFence b = 0"
      "beads m' = beads m @ [b]" "seq m' = seq m + 1"
  | (del) bid where "beads m' = remove_first (\<lambda>b. ID b = bid) (beads m)" "seq m' = seq m"
    unfolding step_shape_def by blast
  then show ?thesis
  proof cases
    case map
    have "ID (g b) = ID b" for b using map by (simp add: beads_map_ID)
    moreover from this have "ID \<circ> g = ID" by auto
    moreover have "1 \<le> Revision (g b)" "0 \<le> ClaimFence (g b)" if "1 \<le> Revision b" "0 \<le> ClaimFence b" for b
      using that map bead_trans_revision [of b "g b"] bead_trans_fence [of b "g b"]
      by (auto simp: beads_map_def)
    ultimately show ?thesis
      using wf map by (auto simp: mem_wf_def beads_map_def)
  next
    case new
    have "ID c \<noteq> ID b" if "c \<in> set (beads m)" for c
      using that wf new(1) by (fastforce simp: mem_wf_def)
    then have "distinct (map ID (beads m'))" using wf new by (auto simp: mem_wf_def)
    moreover have "\<exists>n. 1 \<le> n \<and> n \<le> seq m' \<and> ID c = bead_ident n" if "c \<in> set (beads m')" for c
    proof (cases "c = b")
      case True
      with wf new show ?thesis by (intro exI [of _ "seq m + 1"]) (simp add: mem_wf_def)
    next
      case False
      with that wf new show ?thesis by (fastforce simp: mem_wf_def)
    qed
    ultimately show ?thesis using wf new by (auto simp: mem_wf_def)
  next
    case del
    with wf set_remove_first show ?thesis
      by (fastforce simp: mem_wf_def distinct_map_remove_first)
  qed
qed

lemma mem_reachable_wf: "mem_reachable m \<Longrightarrow> mem_wf m"
  by (induction rule: mem_reachable.induct) (auto intro: mem_wf_init mem_wf_step)

lemma mem_reachable_run: "mem_step\<^sup>*\<^sup>* m m' \<Longrightarrow> mem_reachable m \<Longrightarrow> mem_reachable m'"
  by (induction rule: rtranclp_induct) (auto intro: mem_reachable.step)

section \<open>The life of one bead across a run\<close>

lemma step_bead_trans:
  assumes "mem_step m m'" and wf: "mem_wf m"
    and "find_bead bid m = Some b" and "find_bead bid m' = Some b'"
  shows "bead_trans b b'"
proof -
  have wf': "mem_wf m'" using assms(1) wf by (rule mem_wf_step)
  have ids: "distinct (map ID (beads m))" "distinct (map ID (beads m'))"
    using wf wf' by (auto simp: mem_wf_def)
  have b: "b \<in> set (beads m)" "ID b = bid" and b': "b' \<in> set (beads m')" "ID b' = bid"
    using assms(3,4) find_bead_iff ids by auto
  from step_shape [OF assms(1,2)] show ?thesis
    unfolding step_shape_def
  proof (elim disjE exE conjE)
    fix g assume g: "beads_map g m m'"
    with b have "g b \<in> set (beads m')" "ID (g b) = bid" by (auto simp: beads_map_ID) (simp add: beads_map_def)
    with ids(2) b' have "b' = g b" by (metis distinct_map inj_onD)
    with g show ?thesis by (simp add: beads_map_def)
  next
    fix c assume c: "ID c = bead_ident (seq m + 1)" "beads m' = beads m @ [c]"
    with ids(2) b b' have "b' = b" by (metis UnCI distinct_map inj_onD set_append)
    then show ?thesis by (simp add: bt_same)
  next
    fix i assume "beads m' = remove_first (\<lambda>b. ID b = i) (beads m)"
    with set_remove_first b' have "b' \<in> set (beads m)" by fastforce
    with b b' ids(1) have "b' = b" by (metis distinct_map inj_onD)
    then show ?thesis by (simp add: bt_same)
  qed
qed

lemma step_seq_mono: "mem_step m m' \<Longrightarrow> mem_wf m \<Longrightarrow> seq m \<le> seq m'"
  using step_shape unfolding step_shape_def beads_map_def by fastforce

lemma step_no_resurrection:
  assumes "mem_step m m'" and "mem_wf m" and "find_bead (bead_ident n) m = None" and "n \<le> seq m"
  shows "find_bead (bead_ident n) m' = None"
proof -
  have none: "bead_ident n \<notin> ID ` set (beads m)"
    using assms(3) by (simp add: find_bead_def find_None_key)
  from step_shape [OF assms(1,2)] have "bead_ident n \<notin> ID ` set (beads m')"
    unfolding step_shape_def
  proof (elim disjE exE conjE)
    fix g assume "beads_map g m m'"
    then have "ID ` set (beads m') = ID ` set (beads m)"
      by (auto simp: beads_map_ID image_iff) (auto simp: beads_map_def beads_map_ID)
    with none show ?thesis by simp
  next
    fix c assume "ID c = bead_ident (seq m + 1)" "beads m' = beads m @ [c]"
    with none assms(4) show ?thesis by auto
  next
    fix i assume "beads m' = remove_first (\<lambda>b. ID b = i) (beads m)"
    with none set_remove_first show ?thesis by fastforce
  qed
  then show ?thesis by (simp add: find_bead_def find_None_key)
qed

text \<open>A reflexive and transitive relation that every change of a bead respects relates the bead
  at any two moments of a run between which its id is known.\<close>

lemma run_bead_invariant:
  assumes refl: "\<And>b. R b b" and trans: "\<And>a b c. R a b \<Longrightarrow> R b c \<Longrightarrow> R a c"
    and one: "\<And>b b'. bead_trans b b' \<Longrightarrow> R b b'"
    and run: "mem_step\<^sup>*\<^sup>* m m'" and reach: "mem_reachable m"
    and b: "find_bead bid m = Some b"
  shows "(\<forall>b'. find_bead bid m' = Some b' \<longrightarrow> R b b') \<and> seq m \<le> seq m'"
  using run
proof (induction rule: rtranclp_induct)
  case base
  with b refl show ?case by simp
next
  case (step y z)
  have wf: "mem_wf m" "mem_wf y"
    using reach step.hyps(1) by (auto intro: mem_reachable_wf mem_reachable_run)
  from wf(1) find_bead_in [OF b] find_bead_ID [OF b]
  obtain n where n: "bid = bead_ident n" "n \<le> seq m" by (auto simp: mem_wf_def)
  have "R b b'" if "find_bead bid z = Some b'" for b'
  proof (cases "find_bead bid y")
    case None
    with step_no_resurrection [OF step.hyps(2) wf(2)] n step.IH that show ?thesis by auto
  next
    case (Some c)
    then have "R b c" using step.IH by simp
    moreover have "R c b'" using one step_bead_trans [OF step.hyps(2) wf(2) Some that] by blast
    ultimately show ?thesis by (rule trans)
  qed
  with step.IH step_seq_mono [OF step.hyps(2) wf(2)] show ?case by simp
qed

definition revision_le :: "Bead \<Rightarrow> Bead \<Rightarrow> bool" where
  "revision_le b b' \<longleftrightarrow> Revision b \<le> Revision b' \<and> (Revision b' = Revision b \<longrightarrow> b' = b)"

lemma bead_trans_revision_le: "bead_trans b b' \<Longrightarrow> revision_le b b'"
  using bead_trans_revision [of b b'] by (auto simp: revision_le_def)

definition fence_le :: "Bead \<Rightarrow> Bead \<Rightarrow> bool" where
  "fence_le b b' \<longleftrightarrow> ClaimFence b \<le> ClaimFence b' \<and> (ClaimFence b' = ClaimFence b \<longrightarrow> Assignee b' = Assignee b)"

lemma bead_trans_fence_le: "bead_trans b b' \<Longrightarrow> fence_le b b'"
  by (induction rule: bead_trans.induct)
    (auto simp: fence_le_def apply_update_def close_bead_def isOwnershipTransition_def set_opt_def
      split: option.splits)

text \<open>Which changes bump the ownership fence.\<close>

definition reopened :: "Bead \<Rightarrow> Bead \<Rightarrow> bool" where
  "reopened b b' \<longleftrightarrow> Status b = ''closed'' \<and> Status b' \<noteq> ''closed'' \<and> Status b' \<noteq> []"

definition released :: "Bead \<Rightarrow> Bead \<Rightarrow> bool" where
  "released b b' \<longleftrightarrow> Status b = ''in_progress'' \<and> Status b' = ''open'' \<and> Assignee b' = []"

lemma bead_trans_fence_cause:
  assumes "bead_trans b b'"
  shows "ClaimFence b' \<noteq> ClaimFence b \<Longrightarrow>
      ClaimFence b' = ClaimFence b + 1 \<and> (Assignee b' \<noteq> Assignee b \<or> reopened b b' \<or> released b b')"
    and "Assignee b' \<noteq> Assignee b \<or> reopened b b' \<Longrightarrow> ClaimFence b' = ClaimFence b + 1"
  using assms
  by (induction rule: bead_trans.induct)
    (auto simp: reopened_def released_def apply_update_def close_bead_def isOwnershipTransition_def set_opt_def
      split: option.splits if_splits)

end
