(* ===== verification/Store_Contracts.thy ===== *)
theory Store_Contracts
  imports Mem_Store_Laws
begin

text \<open>
  The contracts other parts of the program rely on, as locales over the operations of the
  interfaces in \<^verbatim>\<open>src/internal/beads/beads.go\<close> and \<^verbatim>\<open>metadata_cas.go\<close>: reading a bead and its
  dependency edges (\<open>store_reader\<close>), the metadata compare-and-set (\<open>metadata_cas\<close>) and the
  revision-fenced write (\<open>fenced_writer\<close>).  What clients conclude is proved once inside each
  locale; the in-memory store is shown to satisfy all three.
\<close>

section \<open>Readers\<close>

locale store_reader =
  fixes get :: "string \<Rightarrow> Bead result" and depList :: "string \<Rightarrow> string \<Rightarrow> Dep list result"
    and edges :: "Dep list"
  assumes depList_down: "depList i ''down'' = Inr (filter (\<lambda>d. IssueID d = i) edges)"
begin

lemma dependencies_satisfied_iff:
  "ReadyBlockingDependenciesSatisfied depList get b = Inr True \<longleftrightarrow>
     (\<forall>d \<in> set edges. IssueID d = ID b \<longrightarrow> IsReadyBlockingDependencyType (DepType d) \<longrightarrow>
        (\<exists>c. get (DependsOnID d) = Inr c \<and> IsReadyBlockingDependencySatisfiedFor b c))"
proof -
  have "ReadyBlockingDependenciesSatisfied depList get b = Inr True \<longleftrightarrow>
      unsatisfied_loop get b (filter (\<lambda>d. IssueID d = ID b) edges) [] = Inr []"
    by (auto simp: ReadyBlockingDependenciesSatisfied_def UnsatisfiedReadyBlockingDependencies_def
        depList_down split: sum.splits)
  then show ?thesis by (auto simp: unsatisfied_loop_empty_iff)
qed

end

interpretation mem_reader: store_reader "\<lambda>i. Get i m" "\<lambda>i dir. DepList i dir m" "deps m" for m
  by unfold_locales (simp add: DepList_def)

section \<open>Metadata compare-and-set\<close>

text \<open>Contenders for the same key, each asking to replace the same expected value by its own: the
  tokens of those that were told they won, for the operations in the order they took effect.\<close>

fun contend :: "(string \<Rightarrow> string \<Rightarrow> string \<Rightarrow> string \<Rightarrow> 's \<Rightarrow> bool result \<times> 's)
    \<Rightarrow> string \<Rightarrow> string \<Rightarrow> string \<Rightarrow> string list \<Rightarrow> 's \<Rightarrow> string list \<times> 's" where
  "contend cas i k e [] s = ([], s)"
| "contend cas i k e (t # ts) s =
     (case cas i k e t s of (r, s1) \<Rightarrow>
        (case contend cas i k e ts s1 of (ws, s2) \<Rightarrow> (if r = Inr True then t # ws else ws, s2)))"

locale metadata_cas =
  fixes cas :: "string \<Rightarrow> string \<Rightarrow> string \<Rightarrow> string \<Rightarrow> 's \<Rightarrow> bool result \<times> 's"
    and val :: "string \<Rightarrow> string \<Rightarrow> 's \<Rightarrow> string option"
  assumes cas_win: "cas i k e n s = (Inr True, s') \<Longrightarrow> val i k s = Some e \<and> val i k s' = Some n"
    and cas_lose: "cas i k e n s = (Inr False, s') \<Longrightarrow> s' = s \<and> val i k s \<noteq> Some e"
    and cas_err: "cas i k e n s = (Inl err, s') \<Longrightarrow> s' = s"
begin

lemma contend_after_change:
  assumes "val i k s \<noteq> Some e" and "e \<notin> set ts"
  shows "contend cas i k e ts s = ([], s)"
  using assms
proof (induction ts)
  case (Cons t ts)
  obtain r s1 where c: "cas i k e t s = (r, s1)" by fastforce
  have "r \<noteq> Inr True" using c cas_win Cons.prems by blast
  moreover have "s1 = s"
    using c cas_lose cas_err calculation by (cases r) (metis (full_types))+
  ultimately show ?case using c Cons by simp
qed simp

lemma at_most_one_winner:
  assumes "e \<notin> set ts"
  shows "length (fst (contend cas i k e ts s)) \<le> 1
    \<and> (\<forall>w s'. contend cas i k e ts s = ([w], s') \<longrightarrow> w \<in> set ts \<and> val i k s' = Some w)"
  using assms
proof (induction ts arbitrary: s)
  case (Cons t ts)
  obtain r s1 where c: "cas i k e t s = (r, s1)" by fastforce
  show ?case
  proof (cases "r = Inr True")
    case True
    with c cas_win have v: "val i k s1 = Some t" by blast
    with Cons.prems have "contend cas i k e ts s1 = ([], s1)"
      by (intro contend_after_change) auto
    with c True v show ?thesis by simp
  next
    case False
    have "contend cas i k e (t # ts) s = contend cas i k e ts s1"
      using c False by (auto split: prod.splits)
    then show ?thesis using Cons.IH [of s1] Cons.prems by auto
  qed
qed simp

end

definition mem_val :: "string \<Rightarrow> string \<Rightarrow> MemStore \<Rightarrow> string option" where
  "mem_val i k m = map_option (\<lambda>b. mget (Metadata b) k) (find_bead i m)"

interpretation mem_cas: metadata_cas "\<lambda>i k e n m. CompareAndSetMetadataKey now i k e n m" mem_val for now
  by unfold_locales
    (auto simp: CompareAndSetMetadataKey_find mem_val_def cas_bead_def split: option.splits if_splits)

section \<open>Revision-fenced writes\<close>

text \<open>Writers that all read the same revision: how many of them succeed, in the order in which
  their writes take effect.\<close>

fun fenced_run :: "(string \<Rightarrow> int \<Rightarrow> 'o \<Rightarrow> 's \<Rightarrow> unit result \<times> 's)
    \<Rightarrow> string \<Rightarrow> int \<Rightarrow> 'o list \<Rightarrow> 's \<Rightarrow> nat \<times> 's" where
  "fenced_run wr i r [] s = (0, s)"
| "fenced_run wr i r (w # ws) s =
     (case wr i r w s of (res, s1) \<Rightarrow>
        (case fenced_run wr i r ws s1 of (n, s2) \<Rightarrow> (if res = Inr () then Suc n else n, s2)))"

locale fenced_writer =
  fixes wr :: "string \<Rightarrow> int \<Rightarrow> 'o \<Rightarrow> 's \<Rightarrow> unit result \<times> 's"
    and rev_of :: "string \<Rightarrow> 's \<Rightarrow> int option"
  assumes write_ok: "wr i r opts s = (Inr (), s') \<Longrightarrow> rev_of i s = Some r \<and> rev_of i s' = Some (r + 1)"
    and write_other: "j \<noteq> i \<Longrightarrow> rev_of j (snd (wr i r opts s)) = rev_of j s"
    and write_err: "wr i r opts s = (Inl err, s') \<Longrightarrow> s' = s"
begin

lemma fenced_run_stale: "rev_of i s \<noteq> Some r \<Longrightarrow> fenced_run wr i r ws s = (0, s)"
proof (induction ws)
  case (Cons w ws)
  obtain res s1 where c: "wr i r w s = (res, s1)" by fastforce
  have ne: "res \<noteq> Inr ()" using c write_ok Cons.prems by blast
  then obtain err where "res = Inl err" by (cases res) auto
  with c write_err have "s1 = s" by blast
  with c ne Cons show ?case by simp
qed simp

lemma no_lost_update: "fst (fenced_run wr i r ws s) \<le> 1"
proof (induction ws arbitrary: s)
  case (Cons w ws)
  obtain res s1 where c: "wr i r w s = (res, s1)" by fastforce
  show ?case
  proof (cases "res = Inr ()")
    case True
    with c write_ok have "rev_of i s1 \<noteq> Some r" by fastforce
    then have "fenced_run wr i r ws s1 = (0, s1)" by (rule fenced_run_stale)
    with c True show ?thesis by simp
  next
    case False
    with c Cons.IH [of s1] show ?thesis by (simp split: prod.splits)
  qed
qed simp

end

definition mem_rev :: "string \<Rightarrow> MemStore \<Rightarrow> int option" where
  "mem_rev i m = map_option Revision (find_bead i m)"

lemma apply_update_Revision [simp]: "Revision (apply_update now opts b) = Revision b + 1"
  by (simp add: apply_update_def)

interpretation mem_fence: fenced_writer "\<lambda>i r opts m. UpdateIfMatch now i r opts m" mem_rev for now
  by unfold_locales (auto simp: UpdateIfMatch_find mem_rev_def split: option.splits if_splits)

end
