(* ===== verification/Mem_Ready.thy ===== *)
theory Mem_Ready
  imports Store_Contracts
begin

text \<open>
  The ready projection of the in-memory store against its specification: the loops of
  \<open>readyLocked\<close> (id index, edge scan with early exit, limit) return exactly the beads that are
  candidates, belong to the asked assignee and have every blocking dependency satisfied, cut at
  the limit; a cancellable context changes that only to an error.
\<close>

section \<open>Specification\<close>

definition edge_satisfied :: "MemStore \<Rightarrow> Bead \<Rightarrow> Dep \<Rightarrow> bool" where
  "edge_satisfied m b d =
     (case find_bead (DependsOnID d) m of None \<Rightarrow> False | Some c \<Rightarrow> IsReadyBlockingDependencySatisfiedFor b c)"

definition unblocked :: "MemStore \<Rightarrow> Bead \<Rightarrow> bool" where
  "unblocked m b \<longleftrightarrow>
     list_all (\<lambda>d. IssueID d = ID b \<and> IsReadyBlockingDependencyType (DepType d) \<longrightarrow> edge_satisfied m b d) (deps m)"

definition ready_pred :: "gtime \<Rightarrow> ReadyQuery \<Rightarrow> MemStore \<Rightarrow> Bead \<Rightarrow> bool" where
  "ready_pred now q m b \<longleftrightarrow>
     IsReadyCandidateForTier b now (rTierMode q) \<and> (rAssignee q = [] \<or> Assignee b = rAssignee q) \<and> unblocked m b"

definition ready_spec :: "gtime \<Rightarrow> ReadyQuery \<Rightarrow> MemStore \<Rightarrow> Bead list" where
  "ready_spec now q m = limit_slice (rLimit q) (filter (ready_pred now q m) (beads m))"

section \<open>The loops\<close>

lemma ready_index_Some:
  assumes "ready_index ctx bs acc p = (Some byID, p')" and "distinct (map ID bs)"
  shows "byID i = (case find (\<lambda>b. ID b = i) bs of None \<Rightarrow> acc i | Some b \<Rightarrow> Some b)"
  using assms
proof (induction bs arbitrary: acc p)
  case (Cons b bs)
  then obtain q where "ready_index ctx bs (acc(ID b \<mapsto> b)) q = (Some byID, p')"
    by (auto split: prod.splits if_splits)
  with Cons have IH: "byID i = (case find (\<lambda>b. ID b = i) bs of None \<Rightarrow> (acc(ID b \<mapsto> b)) i | Some c \<Rightarrow> Some c)"
    by simp
  show ?case
  proof (cases "ID b = i")
    case True
    with Cons.prems(2) have "find (\<lambda>b. ID b = i) bs = None" by (auto simp: find_None_key)
    with IH True show ?thesis by simp
  next
    case False
    with IH show ?thesis by (simp split: option.splits)
  qed
qed simp

lemma ready_index_find:
  assumes "ready_index ctx (beads m) Map.empty p = (Some byID, p')" and "mem_wf m"
  shows "byID = (\<lambda>i. find_bead i m)"
  using ready_index_Some [OF assms(1)] assms(2)
  by (intro ext) (simp add: mem_wf_def find_bead_def split: option.split)

lemma blocking_type_iff:
  "IsReadyBlockingDependencyType t \<longleftrightarrow> t = ''blocks'' \<or> t = ''waits-for'' \<or> t = ''conditional-blocks''"
  by (auto simp: IsReadyBlockingDependencyType_def readyBlockingDependencyTypes_def)

lemma ready_blocked_Some:
  assumes "ready_blocked ctx (\<lambda>i. find_bead i m) b ds p = (Some blk, p')"
  shows "blk \<longleftrightarrow> \<not> list_all (\<lambda>d. IssueID d = ID b \<and> IsReadyBlockingDependencyType (DepType d)
      \<longrightarrow> edge_satisfied m b d) ds"
  using assms
proof (induction ds arbitrary: p)
  case (Cons d ds)
  show ?case
  proof (cases "IssueID d = ID b \<and> IsReadyBlockingDependencyType (DepType d) \<and> \<not> edge_satisfied m b d")
    case True
    with Cons.prems show ?thesis
      by (auto simp: blocking_type_iff edge_satisfied_def split: prod.splits if_splits option.splits)
  next
    case False
    with Cons.prems obtain q where "ready_blocked ctx (\<lambda>i. find_bead i m) b ds q = (Some blk, p')"
      by (auto simp: blocking_type_iff edge_satisfied_def split: prod.splits if_splits option.splits)
    with Cons.IH False show ?thesis by auto
  qed
qed simp

lemma limit_slice_full: "n > 0 \<Longrightarrow> int (length res) = n \<Longrightarrow> limit_slice n (res @ xs) = res"
  by (auto simp: limit_slice_def)

lemma ready_scan_Some:
  assumes "ready_scan ctx now q (\<lambda>i. find_bead i m) (deps m) bs res p = Some out"
    and "rLimit q > 0 \<Longrightarrow> int (length res) < rLimit q"
  shows "out = limit_slice (rLimit q) (res @ filter (ready_pred now q m) bs)"
  using assms
proof (induction bs arbitrary: res p)
  case Nil
  then show ?case by (auto simp: limit_slice_def)
next
  case (Cons b bs)
  show ?case
  proof (cases "IsReadyCandidateForTier b now (rTierMode q) \<and> (rAssignee q = [] \<or> Assignee b = rAssignee q)")
    case False
    with Cons.prems(1) obtain p1 where
      "ready_scan ctx now q (\<lambda>i. find_bead i m) (deps m) bs res p1 = Some out"
      by (auto split: prod.splits if_splits)
    with Cons.IH Cons.prems(2) False show ?thesis by (auto simp: ready_pred_def)
  next
    case True
    with Cons.prems(1) obtain p1 blk p2 where
      rb: "ready_blocked ctx (\<lambda>i. find_bead i m) b (deps m) p1 = (Some blk, p2)"
      and rest: "(if blk then ready_scan ctx now q (\<lambda>i. find_bead i m) (deps m) bs res p2
           else if rLimit q > 0 \<and> int (length (res @ [b])) \<ge> rLimit q then Some (res @ [b])
           else ready_scan ctx now q (\<lambda>i. find_bead i m) (deps m) bs (res @ [b]) p2) = Some out"
      by (auto split: prod.splits if_splits option.splits)
    have blk: "blk \<longleftrightarrow> \<not> ready_pred now q m b"
      using ready_blocked_Some [OF rb] True by (simp add: ready_pred_def unblocked_def)
    show ?thesis
    proof (cases blk)
      case True
      with blk rest Cons.IH [of res p2] Cons.prems(2) show ?thesis by auto
    next
      case False
      show ?thesis
      proof (cases "rLimit q > 0 \<and> int (length (res @ [b])) \<ge> rLimit q")
        case True
        with rest False have "out = res @ [b]" by simp
        moreover have "int (length (res @ [b])) = rLimit q" using True Cons.prems(2) by auto
        ultimately show ?thesis
          using True False blk limit_slice_full [of "rLimit q" "res @ [b]"] by simp
      next
        case limit: False
        have "ready_scan ctx now q (\<lambda>i. find_bead i m) (deps m) bs (res @ [b]) p2 = Some out"
          using rest False by (simp only: if_not_P [OF limit] if_False)
        from Cons.IH [OF this] limit False blk show ?thesis by auto
      qed
    qed
  qed
qed

lemma readyLocked_spec:
  assumes "mem_wf m" and "readyLocked ctx now q p m = Inr out"
  shows "out = ready_spec now q m"
proof -
  from assms(2) obtain byID p' where
    idx: "ready_index ctx (beads m) Map.empty p = (Some byID, p')"
    and sc: "ready_scan ctx now q byID (deps m) (beads m) [] p' = Some out"
    by (auto simp: readyLocked_def split: prod.splits option.splits)
  from ready_index_find [OF idx assms(1)] sc
  have "ready_scan ctx now q (\<lambda>i. find_bead i m) (deps m) (beads m) [] p' = Some out" by simp
  then show ?thesis unfolding ready_spec_def by (drule_tac ready_scan_Some) auto
qed

section \<open>Completion\<close>

definition never_cancelled :: "Context \<Rightarrow> bool" where
  "never_cancelled ctx \<longleftrightarrow> (case ctx of Background \<Rightarrow> True | Cancellable done \<Rightarrow> (\<forall>p. \<not> done p))"

lemma contextErr_never: "never_cancelled ctx \<Longrightarrow> \<not> fst (contextErr ctx p)"
  by (auto simp: never_cancelled_def contextErr_def split: Context.splits)

lemma ready_index_completes: "never_cancelled ctx \<Longrightarrow> \<exists>byID p'. ready_index ctx bs acc p = (Some byID, p')"
proof (induction bs arbitrary: acc p)
  case (Cons b bs)
  with contextErr_never [of ctx p] show ?case by (auto split: prod.splits)
qed simp

lemma ready_blocked_completes:
  "never_cancelled ctx \<Longrightarrow> \<exists>blk p'. ready_blocked ctx byID b ds p = (Some blk, p')"
proof (induction ds arbitrary: p)
  case (Cons d ds)
  with contextErr_never [of ctx p] show ?case by (auto split: prod.splits option.splits)
qed auto

lemma ready_scan_completes:
  "never_cancelled ctx \<Longrightarrow> \<exists>out. ready_scan ctx now q byID ds bs res p = Some out"
proof (induction bs arbitrary: res p)
  case (Cons b bs)
  obtain e p1 where c: "contextErr ctx p = (e, p1)" by fastforce
  with contextErr_never [OF Cons.prems, of p] have e: "\<not> e" by simp
  obtain blk p2 where "ready_blocked ctx byID b ds p1 = (Some blk, p2)"
    using ready_blocked_completes [OF Cons.prems] by blast
  with c e Cons show ?case by auto
qed simp

lemma readyLocked_completes: "never_cancelled ctx \<Longrightarrow> \<exists>out. readyLocked ctx now q p m = Inr out"
proof -
  assume n: "never_cancelled ctx"
  obtain byID p' where i: "ready_index ctx (beads m) Map.empty p = (Some byID, p')"
    using ready_index_completes [OF n] by blast
  obtain out where "ready_scan ctx now q byID (deps m) (beads m) [] p' = Some out"
    using ready_scan_completes [OF n] by blast
  with i show ?thesis by (simp add: readyLocked_def)
qed

lemma Ready_spec: "mem_wf m \<Longrightarrow> Ready now queries m = Inr (ready_spec now (readyQueryFromArgs queries) m)"
  using readyLocked_completes [of Background now "readyQueryFromArgs queries" 0 m]
    readyLocked_spec [of m Background now "readyQueryFromArgs queries" 0]
  by (auto simp: Ready_def never_cancelled_def)

lemma ReadyContext_spec:
  assumes "mem_wf m"
  shows "ReadyContext ctx now queries m = Inl ErrContextCancelled
     \<or> ReadyContext ctx now queries m = Ready now queries m"
proof (cases "ReadyContext ctx now queries m")
  case (Inl e)
  then show ?thesis
    by (auto simp: ReadyContext_def readyLocked_def split: prod.splits if_splits option.splits)
next
  case (Inr out)
  then obtain p where "readyLocked ctx now (readyQueryFromArgs queries) p m = Inr out"
    by (auto simp: ReadyContext_def split: prod.splits if_splits)
  with readyLocked_spec [OF assms] Inr Ready_spec [OF assms] show ?thesis by simp
qed

lemma ReadyContext_completes:
  assumes "mem_wf m" and "never_cancelled ctx"
  shows "ReadyContext ctx now queries m = Ready now queries m"
proof -
  have "\<exists>out. ReadyContext ctx now queries m = Inr out"
    using readyLocked_completes [OF assms(2)] contextErr_never [OF assms(2), of 0]
    by (auto simp: ReadyContext_def split: prod.splits)
  with ReadyContext_spec [OF assms(1), of ctx now queries] show ?thesis by auto
qed

section \<open>Agreement with the per-bead check\<close>

lemma unblocked_iff_satisfied:
  "unblocked m b \<longleftrightarrow> ReadyBlockingDependenciesSatisfied (\<lambda>i dir. DepList i dir m) (\<lambda>i. Get i m) b = Inr True"
  by (simp only: mem_reader.dependencies_satisfied_iff)
    (auto simp: unblocked_def edge_satisfied_def Get_def list_all_iff split: option.splits)

end
