(* ===== verification/Bead_Properties.thy ===== *)
theory Bead_Properties
  imports Mem_Ready
begin

text \<open>
  The properties of the bead store and its queries, each with a concrete instance where it has
  hypotheses.  The instances are stores built by the operations themselves.
\<close>

section \<open>Example stores\<close>

definition demo_bead :: "string \<Rightarrow> Bead" where
  "demo_bead t = zero_Bead\<lparr>Title := t\<rparr>"

definition demo1 :: MemStore where
  "demo1 = snd (Create 10 (demo_bead ''a'') NewMemStore)"

definition demo2 :: MemStore where
  "demo2 = snd (Create 20 (demo_bead ''b''\<lparr>Needs := [''gc-1'']\<rparr>) demo1)"

lemmas demo_simps = demo1_def demo2_def demo_bead_def Create_def Let_def NewMemStore_def zero_Bead_def
  itoa_def show_nat.simps need_dep_def contains_byte_def

lemma NewMemStore_reachable: "mem_reachable NewMemStore"
  using mem_reachable.start [of False] by (simp add: NewMemStore_def)

lemma demo1_reachable: "mem_reachable demo1"
  unfolding demo1_def by (rule mem_reachable.step [OF NewMemStore_reachable st_Create])

lemma demo2_reachable: "mem_reachable demo2"
  unfolding demo2_def by (rule mem_reachable.step [OF demo1_reachable st_Create])

lemma demo2_find: "find_bead ''gc-1'' demo2 = Some (demo_bead ''a''\<lparr>ID := ''gc-1'', Status := ''open'',
    Type := ''task'', CreatedAt := 10, UpdatedAt := 10, Revision := 1\<rparr>)"
  by (simp add: demo_simps find_bead_def)

definition demo_b2 :: Bead where
  "demo_b2 = zero_Bead\<lparr>ID := ''gc-2'', Title := ''b'', Status := ''open'', Type := ''task'', CreatedAt := 20,
     UpdatedAt := 20, Needs := [''gc-1''], Revision := 1\<rparr>"

lemma demo2_parts:
  "map ID (beads demo2) = [''gc-1'', ''gc-2'']" "demo_b2 \<in> set (beads demo2)"
  "deps demo2 = [\<lparr>IssueID = ''gc-2'', DependsOnID = ''gc-1'', DepType = ''blocks''\<rparr>]"
  "\<not> DisableConditionalWrites demo2"
  by (simp_all add: demo_simps demo_b2_def)

lemmas candidate_simps = IsReadyCandidateForTier_def IsReadyExcludedBead_def IsReadyExcludedType_def
  readyExcludeTypes_def HasReadyExcludedLabel_def IsDeferred_def zero_ReadyQuery_def

lemma demo_b2_candidate: "IsReadyCandidateForTier demo_b2 now (rTierMode zero_ReadyQuery)"
  by (simp add: demo_b2_def zero_Bead_def candidate_simps)

lemma demo_run: "mem_step\<^sup>*\<^sup>* demo1 demo2"
  unfolding demo2_def by (rule r_into_rtranclp) (rule st_Create)

section \<open>Identity\<close>

text \<open>C6: every store reachable from the empty one has distinct bead ids of the form gc-n with n at
  most the sequence counter, positive revisions and non-negative ownership fences.\<close>

theorem mem_store_invariant: "mem_reachable m \<Longrightarrow> mem_wf m"
  by (rule mem_reachable_wf)

theorem mem_store_invariant_witness: "mem_reachable demo2 \<and> mem_wf demo2"
  using mem_store_invariant [OF demo2_reachable] demo2_reachable by simp

text \<open>An id handed out by Create differs from the id of every bead that any earlier store of the
  run held, also of beads that were deleted since.\<close>

theorem create_id_fresh:
  assumes "mem_reachable m" and "mem_step\<^sup>*\<^sup>* m m'" and "d \<in> set (beads m)"
    and "Create now b m' = (Inr c, m'')"
  shows "ID c \<noteq> ID d"
proof -
  have wf: "mem_wf m" using assms(1) by (rule mem_reachable_wf)
  then obtain n where n: "ID d = bead_ident n" "n \<le> seq m" using assms(3) by (auto simp: mem_wf_def)
  from wf assms(3) have "find_bead (ID d) m = Some d"
    by (simp add: find_bead_iff mem_wf_def)
  with run_bead_invariant [where R = "\<lambda>_ _. True", OF _ _ _ assms(2,1)] have "seq m \<le> seq m'" by blast
  moreover have "ID c = bead_ident (seq m' + 1)"
    using assms(4) by (auto simp: Create_def Let_def bead_ident_def)
  ultimately show ?thesis using n by simp
qed

theorem create_id_fresh_witness:
  "\<exists>d c m''. d \<in> set (beads demo1) \<and> Create 30 (demo_bead ''c'') demo2 = (Inr c, m'') \<and> ID c \<noteq> ID d"
proof -
  obtain c m'' where c: "Create 30 (demo_bead ''c'') demo2 = (Inr c, m'')"
    by (auto simp: Create_def Let_def)
  obtain d where d: "d \<in> set (beads demo1)" by (auto simp: demo_simps)
  from create_id_fresh [OF demo1_reachable demo_run d c] c d show ?thesis by blast
qed

section \<open>Revisions and ownership fences\<close>

text \<open>C4: the revision of a bead is an optimistic-concurrency token: between any two moments of a run
  it never decreases, and if it is the same at both, the whole bead is the same (no update was
  lost or went unnoticed, whatever happened in between).\<close>

theorem revision_contract:
  assumes "mem_reachable m" and "mem_step\<^sup>*\<^sup>* m m'"
    and "find_bead bid m = Some b" and "find_bead bid m' = Some b'"
  shows "Revision b \<le> Revision b' \<and> (Revision b' = Revision b \<longrightarrow> b' = b)"
proof -
  have "revision_le b b'"
    using run_bead_invariant [where R = revision_le, OF _ _ bead_trans_revision_le assms(2,1,3)] assms(4)
    by (fastforce simp: revision_le_def)
  then show ?thesis by (simp add: revision_le_def)
qed

theorem revision_contract_witness:
  "\<exists>b b'. find_bead ''gc-1'' demo2 = Some b \<and> find_bead ''gc-1'' (snd (Close 40 ''gc-1'' demo2)) = Some b'
     \<and> Revision b \<le> Revision b' \<and> (Revision b' = Revision b \<longrightarrow> b' = b)"
proof -
  have run: "mem_step\<^sup>*\<^sup>* demo2 (snd (Close 40 ''gc-1'' demo2))"
    by (rule r_into_rtranclp) (rule st_Close)
  obtain b where b: "find_bead ''gc-1'' demo2 = Some b" "Status b = ''open''" using demo2_find by simp
  then have b': "find_bead ''gc-1'' (snd (Close 40 ''gc-1'' demo2)) = Some (close_bead 40 b)"
    by (simp add: Close_def)
  from revision_contract [OF demo2_reachable run b(1) b'] b b' show ?thesis by blast
qed

text \<open>In one step the ownership fence of a bead changes exactly for ownership transitions: if it
  changes it grows by one and the assignee changed, a closed bead was reopened, or an in-progress
  bead was released; and it does grow whenever the assignee changes or a closed bead gets another
  (non-empty) status.\<close>

theorem fence_marks_ownership:
  assumes "mem_reachable m" and "mem_step m m'"
    and "find_bead bid m = Some b" and "find_bead bid m' = Some b'"
  shows "(ClaimFence b' \<noteq> ClaimFence b \<longrightarrow>
       ClaimFence b' = ClaimFence b + 1 \<and> (Assignee b' \<noteq> Assignee b \<or> reopened b b' \<or> released b b'))
     \<and> (Assignee b' \<noteq> Assignee b \<or> reopened b b' \<longrightarrow> ClaimFence b' = ClaimFence b + 1)"
  using bead_trans_fence_cause [OF step_bead_trans [OF assms(2) mem_reachable_wf [OF assms(1)] assms(3,4)]]
  by blast

theorem fence_marks_ownership_witness:
  "\<exists>b b'. find_bead ''gc-1'' demo2 = Some b
     \<and> find_bead ''gc-1'' (snd (Update 40 ''gc-1'' (zero_UpdateOpts\<lparr>uAssignee := Some ''w''\<rparr>) demo2)) = Some b'
     \<and> ClaimFence b' = ClaimFence b + 1"
proof -
  let ?u = "zero_UpdateOpts\<lparr>uAssignee := Some ''w''\<rparr>"
  obtain b where b: "find_bead ''gc-1'' demo2 = Some b" "Assignee b = []"
    using demo2_find by (simp add: demo_bead_def zero_Bead_def)
  have b': "find_bead ''gc-1'' (snd (Update 40 ''gc-1'' ?u demo2)) = Some (apply_update 40 ?u b)"
    using b by (simp add: Update_find)
  have "Assignee (apply_update 40 ?u b) \<noteq> Assignee b"
    using b by (simp add: apply_update_def set_opt_def zero_UpdateOpts_def)
  with fence_marks_ownership [OF demo2_reachable st_Update b(1) b'] b b' show ?thesis by blast
qed

text \<open>C7: a holder of an ownership fence is protected: if the fence of a bead is the same at two
  moments of a run, its assignee is the same.\<close>

theorem fence_protects_owner:
  assumes "mem_reachable m" and "mem_step\<^sup>*\<^sup>* m m'"
    and "find_bead bid m = Some b" and "find_bead bid m' = Some b'"
  shows "ClaimFence b \<le> ClaimFence b' \<and> (ClaimFence b' = ClaimFence b \<longrightarrow> Assignee b' = Assignee b)"
proof -
  have "fence_le b b'"
    using run_bead_invariant [where R = fence_le, OF _ _ bead_trans_fence_le assms(2,1,3)] assms(4)
    by (fastforce simp: fence_le_def)
  then show ?thesis by (simp add: fence_le_def)
qed

theorem fence_protects_owner_witness:
  "\<exists>b b'. find_bead ''gc-1'' demo2 = Some b \<and> find_bead ''gc-1'' (snd (SetMetadata 40 ''gc-1'' ''k'' ''v'' demo2)) = Some b'
     \<and> ClaimFence b' = ClaimFence b \<and> Assignee b' = Assignee b"
proof -
  let ?m = "snd (SetMetadata 40 ''gc-1'' ''k'' ''v'' demo2)"
  have run: "mem_step\<^sup>*\<^sup>* demo2 ?m" by (rule r_into_rtranclp) (rule st_SetMetadata)
  obtain b where b: "find_bead ''gc-1'' demo2 = Some b" using demo2_find by simp
  then obtain b' where b': "find_bead ''gc-1'' ?m = Some b'" "ClaimFence b' = ClaimFence b"
    by (simp add: SetMetadata_def)
  from fence_protects_owner [OF demo2_reachable run b b'(1)] b b' show ?thesis by blast
qed

section \<open>Conditional writes\<close>

lemma fenced_first_wins:
  assumes "find_bead bid m = Some b" and "\<not> DisableConditionalWrites m" and "\<not> isEmptyUpdateOpts w"
  shows "UpdateIfMatch now bid (Revision b) w m = (Inr (), modify_bead bid (apply_update now w) m)"
  using assms by (simp add: UpdateIfMatch_find)

text \<open>C14: no lost updates: of any number of writers that hold the same, current revision of a bead and
  call UpdateIfMatch, in whatever order their calls take effect, exactly one succeeds.\<close>

theorem fenced_update_one_winner:
  assumes "find_bead bid m = Some b" and "\<not> DisableConditionalWrites m"
    and "ws \<noteq> []" and "list_all (\<lambda>w. \<not> isEmptyUpdateOpts w) ws"
  shows "fst (fenced_run (\<lambda>i r opts m. UpdateIfMatch now i r opts m) bid (Revision b) ws m) = 1"
proof -
  obtain w ws' where ws: "ws = w # ws'" using assms(3) by (cases ws) auto
  have "UpdateIfMatch now bid (Revision b) w m = (Inr (), modify_bead bid (apply_update now w) m)"
    using assms(1,2,4) ws by (intro fenced_first_wins) auto
  moreover have "1 \<le> fst (fenced_run (\<lambda>i r opts m. UpdateIfMatch now i r opts m) bid (Revision b) ws m)"
    using ws calculation by (simp split: prod.splits)
  ultimately show ?thesis
    using mem_fence.no_lost_update [of now bid "Revision b" ws m] by simp
qed

theorem fenced_update_one_winner_witness:
  "fst (fenced_run (\<lambda>i r opts m. UpdateIfMatch 40 i r opts m) ''gc-1'' 1
     [zero_UpdateOpts\<lparr>uStatus := Some ''in_progress''\<rparr>, zero_UpdateOpts\<lparr>uTitle := Some ''t''\<rparr>] demo2) = 1"
proof -
  obtain b where b: "find_bead ''gc-1'' demo2 = Some b" "Revision b = 1"
    using demo2_find by simp
  have "\<not> DisableConditionalWrites demo2" by (simp add: demo_simps)
  from fenced_update_one_winner [OF b(1) this,
      of "[zero_UpdateOpts\<lparr>uStatus := Some ''in_progress''\<rparr>, zero_UpdateOpts\<lparr>uTitle := Some ''t''\<rparr>]" 40] b(2)
  show ?thesis by (simp add: isEmptyUpdateOpts_def zero_UpdateOpts_def)
qed

text \<open>A rejected conditional update changes nothing and reports why: an empty update, a store with
  conditional writes switched off, a missing bead, or a revision that moved (with both revisions).\<close>

theorem fenced_update_rejected:
  assumes "UpdateIfMatch now bid r opts m = (Inl e, m')"
  shows "m' = m \<and>
     (e = ErrEmptyConditionalUpdate bid \<and> isEmptyUpdateOpts opts
      \<or> e = ErrConditionalWriteUnsupported \<and> DisableConditionalWrites m
      \<or> e = ErrNotFound bid \<and> find_bead bid m = None
      \<or> (\<exists>b. find_bead bid m = Some b \<and> Revision b \<noteq> r \<and> e = PreconditionFailedError bid r (Revision b)))"
  using assms by (auto simp: UpdateIfMatch_find split: if_splits option.splits)

theorem fenced_update_rejected_witness:
  "\<exists>m'. UpdateIfMatch 40 ''gc-1'' 7 (zero_UpdateOpts\<lparr>uTitle := Some ''t''\<rparr>) demo2
      = (Inl (PreconditionFailedError ''gc-1'' 7 1), m') \<and> m' = demo2"
proof -
  have "UpdateIfMatch 40 ''gc-1'' 7 (zero_UpdateOpts\<lparr>uTitle := Some ''t''\<rparr>) demo2
      = (Inl (PreconditionFailedError ''gc-1'' 7 1), demo2)"
    using demo2_find by (simp add: UpdateIfMatch_find isEmptyUpdateOpts_def zero_UpdateOpts_def demo_simps)
  from this fenced_update_rejected [OF this] show ?thesis by blast
qed

text \<open>C30: the metadata compare-and-set elects one winner: when contenders with tokens different from the
  expected value compete for a key that holds the expected value (an absent key counts as empty),
  the first to take effect wins, every other loses, and the key ends with the winner's token.\<close>

theorem cas_elects_one_winner:
  assumes "\<not> DisableConditionalWrites m" and "mem_val bid key m = Some expected" and "expected \<notin> set (t # ts)"
  shows "fst (contend (\<lambda>i k e n m. CompareAndSetMetadataKey now i k e n m) bid key expected (t # ts) m) = [t]
    \<and> mem_val bid key (snd (contend (\<lambda>i k e n m. CompareAndSetMetadataKey now i k e n m) bid key expected (t # ts) m)) = Some t"
proof -
  let ?cas = "\<lambda>i k e n m. CompareAndSetMetadataKey now i k e n m"
  obtain m1 where c: "?cas bid key expected t m = (Inr True, m1)"
    using assms(1,2) by (auto simp: CompareAndSetMetadataKey_find mem_val_def split: option.splits)
  then have v: "mem_val bid key m1 = Some t" using mem_cas.cas_win by blast
  with assms(3) have "contend ?cas bid key expected ts m1 = ([], m1)"
    by (intro mem_cas.contend_after_change) auto
  with c v show ?thesis by simp
qed

theorem cas_elects_one_winner_witness:
  "fst (contend (\<lambda>i k e n m. CompareAndSetMetadataKey 40 i k e n m) ''gc-1'' ''lease'' [] [''w1'', ''w2''] demo2) = [''w1'']"
proof -
  have "mem_val ''gc-1'' ''lease'' demo2 = Some []"
    using demo2_find by (simp add: mem_val_def demo_bead_def zero_Bead_def)
  moreover have "\<not> DisableConditionalWrites demo2" by (simp add: demo_simps)
  ultimately show ?thesis
    using cas_elects_one_winner [of demo2 "''gc-1''" "''lease''" "[]" "''w1''" "[''w2'']" 40] by simp
qed

section \<open>Ready work\<close>

text \<open>C2: Ready returns exactly the open, actionable, undeferred beads of the asked tier and assignee
  whose blocking dependencies are all satisfied, in storage order, cut at the limit.\<close>

theorem ready_exact:
  assumes "mem_reachable m"
  shows "Ready now [q] m = Inr (ready_spec now q m)"
  using Ready_spec [OF mem_reachable_wf [OF assms], of now "[q]"] by (simp add: readyQueryFromArgs_def)

theorem ready_exact_witness:
  "Ready 50 [zero_ReadyQuery] demo2 = Inr (ready_spec 50 zero_ReadyQuery demo2)
     \<and> map ID (ready_spec 50 zero_ReadyQuery demo2) = [''gc-1'']"
  using ready_exact [OF demo2_reachable, of 50 zero_ReadyQuery]
  by (simp add: ready_spec_def ready_pred_def unblocked_def edge_satisfied_def zero_ReadyQuery_def
      IsReadyCandidateForTier_def IsReadyExcludedBead_def IsReadyExcludedType_def readyExcludeTypes_def
      HasReadyExcludedLabel_def IsDeferred_def IsReadyBlockingDependencyType_def
      readyBlockingDependencyTypes_def IsReadyBlockingDependencySatisfiedFor_def find_bead_def demo_simps)

text \<open>Under a context the ready projection is either the cancellation error or exactly what Ready
  returns, never a partial list; if the context is never cancelled it is what Ready returns.\<close>

theorem ready_context_all_or_nothing:
  assumes "mem_reachable m"
  shows "(ReadyContext ctx now qs m = Inl ErrContextCancelled \<or> ReadyContext ctx now qs m = Ready now qs m)
     \<and> (never_cancelled ctx \<longrightarrow> ReadyContext ctx now qs m = Ready now qs m)"
  using ReadyContext_spec ReadyContext_completes mem_reachable_wf [OF assms] by blast

theorem ready_context_all_or_nothing_witness:
  "ReadyContext (Cancellable (\<lambda>p. p = 3)) 50 [] demo2 = Inl ErrContextCancelled
   \<and> ReadyContext (Cancellable (\<lambda>p. False)) 50 [] demo2 = Ready 50 [] demo2"
  using ready_context_all_or_nothing [OF demo2_reachable, of "Cancellable (\<lambda>p. False)" 50 "[]"]
  by (auto simp: never_cancelled_def ReadyContext_def readyLocked_def contextErr_def demo_simps)

text \<open>C31: the controller's per-bead check agrees with the Ready projection: a stored candidate is listed
  (no limit) exactly when ReadyBlockingDependenciesSatisfied, over the same store, says yes.\<close>

theorem ready_agrees_with_controller:
  assumes "mem_reachable m" and "b \<in> set (beads m)"
    and "IsReadyCandidateForTier b now (rTierMode q)" and "rAssignee q = []" and "rLimit q = 0"
  shows "(\<exists>out. Ready now [q] m = Inr out \<and> b \<in> set out) \<longleftrightarrow>
     ReadyBlockingDependenciesSatisfied (\<lambda>i dir. DepList i dir m) (\<lambda>i. Get i m) b = Inr True"
proof -
  have "Ready now [q] m = Inr (ready_spec now q m)"
    using Ready_spec [OF mem_reachable_wf [OF assms(1)], of now "[q]"] by (simp add: readyQueryFromArgs_def)
  moreover have "b \<in> set (ready_spec now q m) \<longleftrightarrow> unblocked m b"
    using assms(2-5) by (auto simp: ready_spec_def ready_pred_def)
  ultimately show ?thesis by (simp add: unblocked_iff_satisfied)
qed

theorem ready_agrees_with_controller_witness:
  "(\<exists>out. Ready 50 [zero_ReadyQuery] demo2 = Inr out \<and> demo_b2 \<in> set out) \<longleftrightarrow>
      ReadyBlockingDependenciesSatisfied (\<lambda>i dir. DepList i dir demo2) (\<lambda>i. Get i demo2) demo_b2 = Inr True"
  by (rule ready_agrees_with_controller [OF demo2_reachable demo2_parts(2) demo_b2_candidate])
    (simp_all add: zero_ReadyQuery_def)

text \<open>Ordinary work is never released past a bad blocker: if Ready lists a bead that is not a cleanup
  or finalize control, each of its blocking dependencies exists, is closed and did not fail.\<close>

theorem ready_never_past_failed_blocker:
  assumes "mem_reachable m" and "Ready now [q] m = Inr out" and "b \<in> set out" and "\<not> isReadyTerminalizer b"
    and "d \<in> set (deps m)" and "IssueID d = ID b" and "IsReadyBlockingDependencyType (DepType d)"
  shows "\<exists>c. find_bead (DependsOnID d) m = Some c \<and> Status c = ''closed''
     \<and> mget (Metadata c) OutcomeMetadataKey \<noteq> OutcomeFail"
proof -
  have "out = ready_spec now q m"
    using Ready_spec [OF mem_reachable_wf [OF assms(1)], of now "[q]"] assms(2)
    by (simp add: readyQueryFromArgs_def)
  with assms(3) have "unblocked m b"
    using limit_slice_set unfolding ready_spec_def ready_pred_def by fastforce
  with assms(5-7) have "edge_satisfied m b d" by (auto simp: unblocked_def list_all_iff)
  with assms(4) show ?thesis
    by (auto simp: edge_satisfied_def IsReadyBlockingDependencySatisfiedFor_def
        IsReadyBlockingDependencySatisfied_def split: option.splits if_splits)
qed

definition demo3 :: MemStore where
  "demo3 = snd (Close 40 ''gc-1'' demo2)"

lemma demo3_reachable: "mem_reachable demo3"
  unfolding demo3_def by (rule mem_reachable.step [OF demo2_reachable st_Close])

lemma demo3_ready: "demo_b2 \<in> set (ready_spec 50 zero_ReadyQuery demo3)"
proof -
  have f: "find_bead ''gc-1'' demo3 = Some (close_bead 40 (demo_bead ''a''\<lparr>ID := ''gc-1'', Status := ''open'',
      Type := ''task'', CreatedAt := 10, UpdatedAt := 10, Revision := 1\<rparr>))"
    using demo2_find by (simp add: demo3_def Close_def find_modify close_bead_def)
  have "deps demo3 = deps demo2" using demo2_find by (simp add: demo3_def Close_def)
  with f have "unblocked demo3 demo_b2"
    by (simp add: unblocked_def demo2_parts(3) edge_satisfied_def IsReadyBlockingDependencySatisfiedFor_def
        IsReadyBlockingDependencySatisfied_def close_bead_def demo_bead_def zero_Bead_def mget_def OutcomeFail_def)
  moreover have "demo_b2 \<in> set (beads demo3)"
    by (simp add: demo3_def Close_def modify_bead_def demo2_find) (simp add: demo_b2_def demo_simps)
  ultimately show ?thesis
    using demo_b2_candidate by (simp add: ready_spec_def ready_pred_def zero_ReadyQuery_def)
qed

theorem ready_never_past_failed_blocker_witness:
  "\<exists>out c. Ready 50 [zero_ReadyQuery] demo3 = Inr out \<and> demo_b2 \<in> set out
     \<and> find_bead ''gc-1'' demo3 = Some c \<and> Status c = ''closed''"
proof -
  have r: "Ready 50 [zero_ReadyQuery] demo3 = Inr (ready_spec 50 zero_ReadyQuery demo3)"
    using Ready_spec [OF mem_reachable_wf [OF demo3_reachable], of 50 "[zero_ReadyQuery]"]
    by (simp add: readyQueryFromArgs_def)
  have d: "\<lparr>IssueID = ''gc-2'', DependsOnID = ''gc-1'', DepType = ''blocks''\<rparr> \<in> set (deps demo3)"
    using demo2_parts(3) demo2_find by (simp add: demo3_def Close_def)
  have "\<not> isReadyTerminalizer demo_b2"
    by (simp add: isReadyTerminalizer_def demo_b2_def zero_Bead_def mget_def KindCleanup_def KindWorkflowFinalize_def)
  from ready_never_past_failed_blocker [OF demo3_reachable r demo3_ready this d] r demo3_ready
  show ?thesis by (auto simp: blocking_type_iff demo_b2_def)
qed

section \<open>Listing, sorting and paging\<close>

lemma List'_ApplyListQuery:
  "HasFilter q \<or> qAllowScan q \<Longrightarrow> List' q m = Inr (ApplyListQuery (beads m) q)"
  by (auto simp: List'_def ApplyListQuery_def)

text \<open>C39: seek pagination loses and repeats nothing: in a reachable store, listing with the boundary set
  to the i-th bead of a sorted full listing and a page limit returns exactly the beads after the
  i-th, cut at the limit.\<close>

theorem list_pagination:
  assumes "mem_reachable m" and "HasFilter q \<or> qAllowScan q"
    and "qSort q \<noteq> SortDefault" and "qSeekAfter q = None" and "qLimit q = 0"
    and "List' q m = Inr full" and "i < length full"
  shows "List' (q\<lparr>qSeekAfter := Some (boundary (full ! i)), qLimit := n\<rparr>) m
       = Inr (limit_slice n (drop (Suc i) full))"
proof -
  have "distinct (map ID (beads m))"
    using mem_reachable_wf [OF assms(1)] by (simp add: mem_wf_def)
  moreover have full: "full = ApplyListQuery (beads m) q"
    using assms(2,6) by (simp add: List'_ApplyListQuery)
  moreover have "HasFilter (q\<lparr>qSeekAfter := Some sb, qLimit := n\<rparr>) \<or> qAllowScan (q\<lparr>qSeekAfter := Some sb, qLimit := n\<rparr>)" for sb
    using assms(2) by (auto simp: HasFilter_def)
  ultimately show ?thesis
    using ApplyListQuery_resume [OF _ assms(3-5), of "beads m" i n] assms(7)
    by (simp add: List'_ApplyListQuery)
qed

lemma demo2_list:
  "\<exists>full. List' (zero_ListQuery\<lparr>qAllowScan := True, qSort := SortCreatedDesc\<rparr>) demo2 = Inr full \<and> 0 < length full"
proof -
  have "Matches (zero_ListQuery\<lparr>qAllowScan := True, qSort := SortCreatedDesc\<rparr>) demo_b2"
    by (simp add: Matches_conj zero_ListQuery_def demo_b2_def zero_Bead_def matchesTier_def IncludesClosed_def IsZero_def)
  with demo2_parts(2) have "demo_b2 \<in> set (ApplyListQuery (beads demo2)
      (zero_ListQuery\<lparr>qAllowScan := True, qSort := SortCreatedDesc\<rparr>))"
    by (simp add: ApplyListQuery_def zero_ListQuery_def)
  then show ?thesis
    by (auto simp: List'_ApplyListQuery)
qed

theorem list_pagination_witness:
  "\<exists>full. List' (zero_ListQuery\<lparr>qAllowScan := True, qSort := SortCreatedDesc\<rparr>) demo2 = Inr full \<and>
     List' (zero_ListQuery\<lparr>qAllowScan := True, qSort := SortCreatedDesc, qSeekAfter := Some (boundary (full ! 0)),
       qLimit := 5\<rparr>) demo2 = Inr (limit_slice 5 (drop 1 full))"
proof -
  let ?q = "zero_ListQuery\<lparr>qAllowScan := True, qSort := SortCreatedDesc\<rparr>"
  obtain full where f: "List' ?q demo2 = Inr full" "0 < length full" using demo2_list by blast
  have "List' (?q\<lparr>qSeekAfter := Some (boundary (full ! 0)), qLimit := 5\<rparr>) demo2 = Inr (limit_slice 5 (drop (Suc 0) full))"
    by (rule list_pagination [OF demo2_reachable _ _ _ _ f]) (simp_all add: zero_ListQuery_def)
  with f show ?thesis by auto
qed

text \<open>A sorted listing depends on the set of stored beads only: two stores that hold the same beads
  in different storage order give the same answer to every query that names a sort order.\<close>

theorem list_independent_of_storage_order:
  assumes "mset (beads m) = mset (beads m')" and "distinct (map ID (beads m))" and "qSort q \<noteq> SortDefault"
  shows "List' q m = List' q m'"
proof -
  have "mset (filter (Matches q) (beads m)) = mset (filter (Matches q) (beads m'))"
    using assms(1) by simp
  with assms(2,3) have "sortBeadsForQuery (filter (Matches q) (beads m)) (qSort q)
      = sortBeadsForQuery (filter (Matches q) (beads m')) (qSort q)"
    by (intro sortBeadsForQuery_perm distinct_map_filter)
  then show ?thesis by (simp add: List'_def)
qed

theorem list_independent_of_storage_order_witness:
  "List' (zero_ListQuery\<lparr>qLabel := ''x'', qSort := SortCreatedAsc\<rparr>) demo2
     = List' (zero_ListQuery\<lparr>qLabel := ''x'', qSort := SortCreatedAsc\<rparr>) (demo2\<lparr>beads := rev (beads demo2)\<rparr>)"
  by (rule list_independent_of_storage_order) (simp_all add: demo2_parts(1))

text \<open>C25: the cancellable ready sort is the ordinary one: if the in-place merge sort under a context
  reports no error, its result is that of sortBeadsReadyOrder, and it reports none when the
  context is never cancelled.\<close>

theorem ready_sort_equivalence:
  assumes "distinct (map ID items)" and "sortBeadsReadyOrderContext (Cancellable c) items = (err, out)"
  shows "(err = None \<longrightarrow> out = sortBeadsReadyOrder items) \<and> ((\<forall>p. \<not> c p) \<longrightarrow> err = None)"
  using sortBeadsReadyOrderContext_eq [OF assms(1)] sortBeadsReadyOrderContext_completes [of c items] assms(2)
  by auto

theorem ready_sort_equivalence_witness:
  "\<exists>out. sortBeadsReadyOrderContext (Cancellable (\<lambda>p. False)) (beads demo2) = (None, out)
     \<and> out = sortBeadsReadyOrder (beads demo2)"
proof -
  obtain err out where r: "sortBeadsReadyOrderContext (Cancellable (\<lambda>p. False)) (beads demo2) = (err, out)"
    by fastforce
  have "distinct (map ID (beads demo2))" by (simp add: demo2_parts(1))
  from ready_sort_equivalence [OF this r] r show ?thesis by auto
qed

section \<open>Closing in bulk, edges, clone-local strings\<close>

lemma CloseAll_none:
  assumes "\<And>b. b \<in> set (beads m) \<Longrightarrow> ID b \<in> set ids \<Longrightarrow> Status b = ''closed''"
  shows "CloseAll now ids kvs m = (Inr 0, m)"
proof -
  have "map (\<lambda>b. if ID b \<in> set ids \<and> Status b \<noteq> ''closed''
      then (close_bead now b)\<lparr>Metadata := mput_all (Metadata b) kvs\<rparr> else b) (beads m) = beads m"
    using assms by (intro map_idI) auto
  moreover have "filter (\<lambda>b. ID b \<in> set ids \<and> Status b \<noteq> ''closed'') (beads m) = []"
    using assms by (auto simp: filter_empty_conv)
  ultimately show ?thesis by (simp add: CloseAll_def closeAll_loop_eq)
qed

text \<open>C36: CloseAll closes exactly the listed beads that were not closed yet, says how many, writes the
  metadata on those only, and leaves every other bead alone; a second call closes nothing.\<close>

theorem close_all_effect:
  assumes "CloseAll now ids kvs m = (Inr n, m')"
  shows "n = length (filter (\<lambda>b. ID b \<in> set ids \<and> Status b \<noteq> ''closed'') (beads m))
    \<and> length (beads m') = length (beads m)
    \<and> list_all2 (\<lambda>b b'. if ID b \<in> set ids \<and> Status b \<noteq> ''closed''
           then ID b' = ID b \<and> Status b' = ''closed'' \<and> Metadata b' = mput_all (Metadata b) kvs
                \<and> Revision b' = Revision b + 1 \<and> ClaimFence b' = ClaimFence b
           else b' = b) (beads m) (beads m')
    \<and> CloseAll later ids kvs' m' = (Inr 0, m')"
proof -
  let ?f = "\<lambda>b. if ID b \<in> set ids \<and> Status b \<noteq> ''closed''
       then (close_bead now b)\<lparr>Metadata := mput_all (Metadata b) kvs\<rparr> else b"
  have m': "m' = m\<lparr>beads := map ?f (beads m)\<rparr>"
    and n: "n = length (filter (\<lambda>b. ID b \<in> set ids \<and> Status b \<noteq> ''closed'') (beads m))"
    using assms by (auto simp: CloseAll_def closeAll_loop_eq)
  have "CloseAll later ids kvs' m' = (Inr 0, m')"
    by (rule CloseAll_none) (auto simp: m' close_bead_def)
  moreover have "list_all2 (\<lambda>b b'. if ID b \<in> set ids \<and> Status b \<noteq> ''closed''
           then ID b' = ID b \<and> Status b' = ''closed'' \<and> Metadata b' = mput_all (Metadata b) kvs
                \<and> Revision b' = Revision b + 1 \<and> ClaimFence b' = ClaimFence b
           else b' = b) (beads m) (beads m')"
    by (simp add: m' list.rel_map close_bead_def list.rel_refl)
  ultimately show ?thesis using n m' by simp
qed

theorem close_all_effect_witness:
  "\<exists>m'. CloseAll 40 [''gc-2'', ''gc-9''] [(''r'', ''x'')] demo2 = (Inr 1, m')
     \<and> CloseAll 41 [''gc-2'', ''gc-9''] [] m' = (Inr 0, m')"
proof -
  have "fst (CloseAll 40 [''gc-2'', ''gc-9''] [(''r'', ''x'')] demo2) = Inr 1"
    by (simp add: CloseAll_def closeAll_loop_eq demo_simps)
  then obtain m' where m': "CloseAll 40 [''gc-2'', ''gc-9''] [(''r'', ''x'')] demo2 = (Inr 1, m')"
    by (metis prod.collapse)
  from close_all_effect [OF this, of 41 "[]"] m' show ?thesis by blast
qed

definition edge_key :: "Dep \<Rightarrow> string \<times> string \<times> bool" where
  "edge_key d = (IssueID d, DependsOnID d, DepType d = ''parent-child'')"

lemma depAdd_loop_Some:
  "depAdd_loop i d t ds = Some ds' \<Longrightarrow>
     map edge_key ds' = map edge_key ds \<and> \<lparr>IssueID = i, DependsOnID = d, DepType = t\<rparr> \<in> set ds'
     \<and> filter (\<lambda>e. edge_key e \<noteq> (i, d, t = ''parent-child'')) ds' = filter (\<lambda>e. edge_key e \<noteq> (i, d, t = ''parent-child'')) ds"
  by (induction ds arbitrary: ds') (auto simp: edge_key_def split: if_splits)

lemma depAdd_loop_None:
  "depAdd_loop i d t ds = None \<Longrightarrow> (i, d, t = ''parent-child'') \<notin> edge_key ` set ds"
  by (induction ds) (auto simp: edge_key_def split: if_splits)

text \<open>DepAdd keeps the edge list a set of edges: between two beads there is at most one parent-child
  edge and at most one other edge.  It records the requested edge, retyping an existing blocking or
  tracking edge rather than adding a second one, and touches no other edge.\<close>

theorem dep_add_unique:
  assumes "distinct (map edge_key (deps m))" and "DepAdd i d t m = (res, m')"
  shows "distinct (map edge_key (deps m')) \<and> \<lparr>IssueID = i, DependsOnID = d, DepType = t\<rparr> \<in> set (deps m')
    \<and> filter (\<lambda>e. edge_key e \<noteq> (i, d, t = ''parent-child'')) (deps m')
      = filter (\<lambda>e. edge_key e \<noteq> (i, d, t = ''parent-child'')) (deps m)
    \<and> beads m' = beads m"
proof (cases "depAdd_loop i d t (deps m)")
  case None
  with assms depAdd_loop_None [OF None] show ?thesis
    by (auto simp: DepAdd_def edge_key_def)
next
  case (Some ds)
  with assms depAdd_loop_Some [OF Some] show ?thesis
    by (auto simp: DepAdd_def)
qed

theorem dep_add_unique_witness:
  "deps (snd (DepAdd ''gc-2'' ''gc-1'' ''tracks'' demo2)) = [\<lparr>IssueID = ''gc-2'', DependsOnID = ''gc-1'', DepType = ''tracks''\<rparr>]
   \<and> distinct (map edge_key (deps (snd (DepAdd ''gc-2'' ''gc-1'' ''tracks'' demo2))))"
proof -
  have "distinct (map edge_key (deps demo2))" by (simp add: demo2_parts(3))
  moreover have r: "DepAdd ''gc-2'' ''gc-1'' ''tracks'' demo2
      = (Inr (), demo2\<lparr>deps := [\<lparr>IssueID = ''gc-2'', DependsOnID = ''gc-1'', DepType = ''tracks''\<rparr>]\<rparr>)"
    by (simp add: DepAdd_def demo2_parts(3))
  ultimately have "distinct (map edge_key (deps (demo2\<lparr>deps := [\<lparr>IssueID = ''gc-2'', DependsOnID = ''gc-1'', DepType = ''tracks''\<rparr>]\<rparr>)))"
    using dep_add_unique by blast
  with r show ?thesis by simp
qed

lemma beadExistsLocked_local [simp]:
  "beadExistsLocked (m\<lparr>localStrings := ls\<rparr>) bid = beadExistsLocked m bid"
  by (simp add: beadExistsLocked_def find_bead_def)

lemma SetLocalString_shape:
  assumes "beadExistsLocked m bid" and "SetLocalString bid key val m = (res, m')"
  shows "\<exists>ls. m' = m\<lparr>localStrings := (localStrings m)(bid := ls)\<rparr> \<and> res = Inr () \<and>
    (case ls of None \<Rightarrow> Map.empty | Some s \<Rightarrow> s)
      = (local_strings_of m bid)(key := (if val = [] then None else Some val))"
proof (cases "val = []")
  case True
  show ?thesis
  proof (cases "localStrings m bid")
    case None
    with True assms show ?thesis
      by (intro exI [of _ None]) (auto simp: SetLocalString_def local_strings_of_def fun_upd_idem)
  next
    case (Some s)
    with True assms show ?thesis
      by (intro exI [of _ "Some (s(key := None))"]) (auto simp: SetLocalString_def local_strings_of_def)
  qed
next
  case False
  with assms show ?thesis
    by (intro exI [of _ "Some ((local_strings_of m bid)(key \<mapsto> val))"]) (auto simp: SetLocalString_def)
qed

text \<open>Clone-local strings round trip and stay local: on an existing bead a written string is read
  back (the empty string clears it), every other string of every other bead or key is unchanged,
  and neither the beads with their revisions nor the dependencies nor the snapshot change.\<close>

theorem local_string_roundtrip:
  assumes "beadExistsLocked m bid" and "SetLocalString bid key val m = (res, m')"
  shows "res = Inr () \<and> GetLocalString bid key m' = Inr val
    \<and> ((bid', key') \<noteq> (bid, key) \<longrightarrow> GetLocalString bid' key' m' = GetLocalString bid' key' m)
    \<and> snapshot m' = snapshot m"
proof -
  obtain ls where m': "m' = m\<lparr>localStrings := (localStrings m)(bid := ls)\<rparr>" and "res = Inr ()"
    and ls: "(case ls of None \<Rightarrow> Map.empty | Some s \<Rightarrow> s)
      = (local_strings_of m bid)(key := (if val = [] then None else Some val))"
    using SetLocalString_shape [OF assms] by blast
  then have "local_strings_of m' i = (if i = bid
      then (local_strings_of m bid)(key := (if val = [] then None else Some val)) else local_strings_of m i)" for i
    by (auto simp: local_strings_of_def)
  with m' \<open>res = Inr ()\<close> assms(1) show ?thesis
    by (auto simp: GetLocalString_def mget_def snapshot_def)
qed

theorem local_string_roundtrip_witness:
  "beadExistsLocked demo2 ''gc-1'' \<and>
   GetLocalString ''gc-1'' ''cwd'' (snd (SetLocalString ''gc-1'' ''cwd'' ''/tmp'' demo2)) = Inr ''/tmp''"
proof -
  have e: "beadExistsLocked demo2 ''gc-1''" by (simp add: beadExistsLocked_def demo2_find)
  obtain res m' where r: "SetLocalString ''gc-1'' ''cwd'' ''/tmp'' demo2 = (res, m')" by fastforce
  from local_string_roundtrip [OF e r, of "[]" "[]"] r e show ?thesis by simp
qed

end
