(* ===== verification/Session_State.thy ===== *)
theory Session_State
  imports GC_Prelude
begin

text \<open>
  The session state machine (\<open>internal/session/state_machine.go\<close>): the command table, the
  transition function with its two kinds of error, and the commands a state allows.  States and
  commands are strings in the source and stay strings here, since unknown values reach the code
  from stored metadata.
\<close>

type_synonym State = string
type_synonym TransitionCommand = string

definition StateNone :: State where "StateNone = []"
definition StateActive :: State where "StateActive = ''active''"
definition StateAsleep :: State where "StateAsleep = ''asleep''"
definition StateSuspended :: State where "StateSuspended = ''suspended''"
definition StateStartPending :: State where "StateStartPending = ''start-pending''"
definition StateCreating :: State where "StateCreating = ''creating''"
definition StateFailedCreate :: State where "StateFailedCreate = ''failed-create''"
definition StateDraining :: State where "StateDraining = ''draining''"
definition StateDrained :: State where "StateDrained = ''drained''"
definition StateAwake :: State where "StateAwake = ''awake''"
definition StateArchived :: State where "StateArchived = ''archived''"
definition StateQuarantined :: State where "StateQuarantined = ''quarantined''"
definition StateClosed :: State where "StateClosed = ''closed''"
definition anyState :: State where "anyState = ''*''"

lemmas state_defs = StateNone_def StateActive_def StateAsleep_def StateSuspended_def StateStartPending_def
  StateCreating_def StateFailedCreate_def StateDraining_def StateDrained_def StateAwake_def
  StateArchived_def StateQuarantined_def StateClosed_def anyState_def

definition CmdCreate :: TransitionCommand where "CmdCreate = ''create''"
definition CmdReady :: TransitionCommand where "CmdReady = ''ready''"
definition CmdSuspend :: TransitionCommand where "CmdSuspend = ''suspend''"
definition CmdWake :: TransitionCommand where "CmdWake = ''wake''"
definition CmdSleep :: TransitionCommand where "CmdSleep = ''sleep''"
definition CmdQuarantine :: TransitionCommand where "CmdQuarantine = ''quarantine''"
definition CmdDrain :: TransitionCommand where "CmdDrain = ''drain''"
definition CmdArchive :: TransitionCommand where "CmdArchive = ''archive''"
definition CmdClose :: TransitionCommand where "CmdClose = ''close''"

lemmas cmd_defs = CmdCreate_def CmdReady_def CmdSuspend_def CmdWake_def CmdSleep_def CmdQuarantine_def
  CmdDrain_def CmdArchive_def CmdClose_def

datatype TransitionError = ErrUnknownCommand TransitionCommand | IllegalTransitionError State TransitionCommand

definition transitions :: "(TransitionCommand \<times> (State \<times> State) list) list" where
  "transitions =
     [(CmdCreate, [(StateNone, StateStartPending)]),
      (CmdReady, [(StateCreating, StateActive)]),
      (CmdSuspend, [(StateActive, StateSuspended), (StateAsleep, StateSuspended), (StateQuarantined, StateSuspended)]),
      (CmdWake, [(StateAsleep, StateActive), (StateSuspended, StateActive), (StateQuarantined, StateActive),
                 (StateArchived, StateActive)]),
      (CmdSleep, [(StateActive, StateAsleep)]),
      (CmdQuarantine, [(StateActive, StateQuarantined), (StateAsleep, StateQuarantined)]),
      (CmdDrain, [(StateActive, StateDraining)]),
      (CmdArchive, [(StateActive, StateArchived), (StateAsleep, StateArchived), (StateSuspended, StateArchived),
                    (StateQuarantined, StateArchived), (StateDraining, StateArchived)]),
      (CmdClose, [(anyState, StateClosed)])]"

definition Transition :: "State \<Rightarrow> TransitionCommand \<Rightarrow> TransitionError + State" where
  "Transition from cmd =
     (case map_of transitions cmd of
        None \<Rightarrow> Inl (ErrUnknownCommand cmd)
      | Some table \<Rightarrow>
          (case map_of table from of
             Some to \<Rightarrow> Inr to
           | None \<Rightarrow>
               (case (if from \<noteq> StateNone then map_of table anyState else None) of
                  Some to \<Rightarrow> Inr to
                | None \<Rightarrow> Inl (IllegalTransitionError from cmd))))"

definition AllowedCommands :: "State \<Rightarrow> TransitionCommand list" where
  "AllowedCommands from =
     sort (map fst (filter (\<lambda>(cmd, table).
       map_of table from \<noteq> None \<or> (from \<noteq> StateNone \<and> map_of table anyState \<noteq> None)) transitions))"

section \<open>Facts\<close>

lemma transitions_distinct: "distinct (map fst transitions)"
  by (simp add: transitions_def cmd_defs)

lemma Transition_Inr_iff:
  "Transition from cmd = Inr to \<longleftrightarrow>
     (\<exists>table. map_of transitions cmd = Some table \<and>
        (map_of table from = Some to \<or> map_of table from = None \<and> from \<noteq> StateNone \<and> map_of table anyState = Some to))"
  by (auto simp: Transition_def split: option.splits if_splits)

lemma AllowedCommands_Transition:
  "cmd \<in> set (AllowedCommands from) \<longleftrightarrow> (\<exists>to. Transition from cmd = Inr to)"
proof -
  have "cmd \<in> set (AllowedCommands from) \<longleftrightarrow> (\<exists>table. map_of transitions cmd = Some table \<and>
      (map_of table from \<noteq> None \<or> from \<noteq> StateNone \<and> map_of table anyState \<noteq> None))"
    using transitions_distinct by (force simp: AllowedCommands_def dest: map_of_SomeD)
  also have "\<dots> \<longleftrightarrow> (\<exists>to. Transition from cmd = Inr to)"
    by (auto simp: Transition_def split: option.splits)
  finally show ?thesis .
qed

lemma AllowedCommands_sorted: "sorted (AllowedCommands from) \<and> distinct (AllowedCommands from)"
proof -
  have "distinct (map fst (filter P transitions))" for P
    using transitions_distinct by (rule distinct_map_filter)
  then show ?thesis by (simp add: AllowedCommands_def)
qed

text \<open>The steps of a session: a command the table accepts, or the provider-start boundary from
  start-pending to creating, which \<open>PreWakePatch\<close> commits outside the table.\<close>

inductive session_step :: "State \<Rightarrow> State \<Rightarrow> bool" where
  command: "Transition s cmd = Inr s' \<Longrightarrow> session_step s s'"
| provider_start: "session_step StateStartPending StateCreating"

inductive session_reachable :: "State \<Rightarrow> bool" where
  none: "session_reachable StateNone"
| step: "session_reachable s \<Longrightarrow> session_step s s' \<Longrightarrow> session_reachable s'"

inductive_cases session_stepE: "session_step s s'"

definition machine_states :: "State list" where
  "machine_states = [StateNone, StateStartPending, StateCreating, StateActive, StateAsleep, StateSuspended,
     StateQuarantined, StateDraining, StateArchived, StateClosed]"

lemma map_of_transitions_cases:
  "map_of transitions cmd = Some table \<Longrightarrow> (cmd, table) \<in> set transitions"
  by (rule map_of_SomeD)

lemma Transition_target: "Transition s cmd = Inr s' \<Longrightarrow> s' \<in> set machine_states \<and> s' \<noteq> StateNone"
proof -
  assume "Transition s cmd = Inr s'"
  then obtain table x where "(cmd, table) \<in> set transitions" "(x, s') \<in> set table"
    by (auto simp: Transition_Inr_iff dest!: map_of_SomeD)
  then show ?thesis by (auto simp: transitions_def machine_states_def state_defs)
qed

lemma Transition_closed: "Transition StateClosed cmd = Inr s' \<Longrightarrow> cmd = CmdClose \<and> s' = StateClosed"
proof -
  assume t: "Transition StateClosed cmd = Inr s'"
  then obtain table where "(cmd, table) \<in> set transitions" "(StateClosed, s') \<in> set table \<or> (anyState, s') \<in> set table"
    by (auto simp: Transition_Inr_iff dest!: map_of_SomeD)
  then show ?thesis by (auto simp: transitions_def state_defs)
qed

lemma Transition_close: "s \<noteq> StateNone \<Longrightarrow> Transition s CmdClose = Inr StateClosed"
  by (simp add: Transition_def transitions_def cmd_defs anyState_def)

lemma state_neq: "StateNone \<noteq> StateCreating" "StateStartPending \<noteq> StateClosed" "StateClosed \<noteq> StateStartPending" "StateCreating \<noteq> StateNone"
  by (simp_all add: state_defs)

section \<open>Properties\<close>

text \<open>The commands offered for a state are exactly those whose transition succeeds from it, in
  alphabetical order without repetition.\<close>

theorem allowed_commands_exact:
  "(cmd \<in> set (AllowedCommands from) \<longleftrightarrow> (\<exists>to. Transition from cmd = Inr to))
   \<and> sorted (AllowedCommands from) \<and> distinct (AllowedCommands from)"
  using AllowedCommands_Transition AllowedCommands_sorted by blast

text \<open>C40: the session state machine has no dead ends and no resurrection: every state a session reaches is
  one of the ten declared ones; every reached state but the virtual initial one and the closed one can be closed; a
  closed session stays closed whatever command is applied; and no command leads back to the
  initial state.\<close>

theorem session_machine_safe:
  assumes "session_reachable s"
  shows "s \<in> set machine_states
    \<and> (s \<noteq> StateNone \<and> s \<noteq> StateClosed \<longrightarrow> Transition s CmdClose = Inr StateClosed)
    \<and> (s = StateClosed \<and> session_step s s' \<longrightarrow> s' = StateClosed)
    \<and> (session_step s s' \<longrightarrow> s' \<noteq> StateNone)"
proof -
  have "s \<in> set machine_states"
    using assms
  proof cases
    case none
    then show ?thesis by (simp add: machine_states_def)
  next
    case (step t)
    from step(2) show ?thesis
      by cases (auto dest: Transition_target simp: machine_states_def)
  qed
  moreover have "s = StateClosed \<and> session_step s s' \<longrightarrow> s' = StateClosed"
    by (auto elim!: session_stepE dest: Transition_closed simp: state_neq)
  moreover have "session_step s s' \<longrightarrow> s' \<noteq> StateNone"
    by (auto elim!: session_stepE dest: Transition_target simp: state_neq)
  ultimately show ?thesis by (simp add: Transition_close)
qed

theorem session_machine_safe_witness:
  "session_reachable StateClosed \<and> StateClosed \<in> set machine_states"
proof -
  have "session_step StateNone StateStartPending"
    by (rule command [where cmd = CmdCreate]) (simp add: Transition_def transitions_def)
  moreover have "session_step StateStartPending StateClosed"
    by (rule command [where cmd = CmdClose]) (rule Transition_close, simp add: StateNone_def StateStartPending_def)
  ultimately have r: "session_reachable StateClosed"
    by (meson session_reachable.intros)
  with session_machine_safe [OF r, of StateClosed] show ?thesis by simp
qed

end
