(* ===== verification/Go_Time.thy ===== *)
theory Go_Time
  imports GC_Prelude "HOL-Library.Monad_Syntax"
begin

text \<open>
  The parts of Go's \<open>strings\<close> and \<open>time\<close> packages the session code relies on: \<open>strings.TrimSpace\<close>
  on UTF-8 bytes, and formatting and parsing of timestamps in the layouts \<open>time.RFC3339\<close> and
  \<open>time.RFC3339Nano\<close>.  The lemmas show that trimming is idempotent and that a formatted UTC time of the
  years 1 to 9999 is parsed back to itself, cut to whole seconds.
\<close>

section \<open>Differences and additions\<close>

text \<open>\<open>time.Time.Sub\<close> saturates at the limits of a duration.\<close>

definition time_sub :: "gtime \<Rightarrow> gtime \<Rightarrow> int" where
  "time_sub t u = max (- (2 ^ 63)) (min (2 ^ 63 - 1) (t - u))"

section \<open>TrimSpace\<close>

text \<open>The UTF-8 encodings of the characters \<open>unicode.IsSpace\<close> accepts.\<close>

definition space_seqs :: "string list" where
  "space_seqs =
     [[CHR 0x09], [CHR 0x0A], [CHR 0x0B], [CHR 0x0C], [CHR 0x0D], [CHR 0x20],
      [CHR 0xC2, CHR 0x85], [CHR 0xC2, CHR 0xA0], [CHR 0xE1, CHR 0x9A, CHR 0x80],
      [CHR 0xE2, CHR 0x80, CHR 0x80], [CHR 0xE2, CHR 0x80, CHR 0x81], [CHR 0xE2, CHR 0x80, CHR 0x82],
      [CHR 0xE2, CHR 0x80, CHR 0x83], [CHR 0xE2, CHR 0x80, CHR 0x84], [CHR 0xE2, CHR 0x80, CHR 0x85],
      [CHR 0xE2, CHR 0x80, CHR 0x86], [CHR 0xE2, CHR 0x80, CHR 0x87], [CHR 0xE2, CHR 0x80, CHR 0x88],
      [CHR 0xE2, CHR 0x80, CHR 0x89], [CHR 0xE2, CHR 0x80, CHR 0x8A], [CHR 0xE2, CHR 0x80, CHR 0xA8],
      [CHR 0xE2, CHR 0x80, CHR 0xA9], [CHR 0xE2, CHR 0x80, CHR 0xAF], [CHR 0xE2, CHR 0x81, CHR 0x9F],
      [CHR 0xE3, CHR 0x80, CHR 0x80]]"

fun starts_with :: "'a list \<Rightarrow> 'a list \<Rightarrow> bool" where
  "starts_with [] s = True"
| "starts_with (x # xs) [] = False"
| "starts_with (x # xs) (y # ys) = (x = y \<and> starts_with xs ys)"

definition strip_one :: "string list \<Rightarrow> string \<Rightarrow> string option" where
  "strip_one qs s =
     (case find (\<lambda>q. q \<noteq> [] \<and> starts_with q s) qs of None \<Rightarrow> None | Some q \<Rightarrow> Some (drop (length q) s))"

lemma starts_with_length: "starts_with q s \<Longrightarrow> length q \<le> length s"
  by (induction q s rule: starts_with.induct) auto

lemma strip_one_length: "strip_one qs s = Some t \<Longrightarrow> length t < length s"
proof -
  assume "strip_one qs s = Some t"
  then obtain q where "find (\<lambda>q. q \<noteq> [] \<and> starts_with q s) qs = Some q" and t: "t = drop (length q) s"
    by (auto simp: strip_one_def split: option.splits)
  then have "q \<noteq> []" "length q \<le> length s" using starts_with_length by (auto simp: find_Some_iff)
  with t show ?thesis by (cases q; cases s) auto
qed

function trim_front :: "string list \<Rightarrow> string \<Rightarrow> string" where
  "trim_front qs s = (case strip_one qs s of None \<Rightarrow> s | Some t \<Rightarrow> trim_front qs t)"
  by pat_completeness auto
termination
  by (relation "measure (\<lambda>(_, s). length s)") (auto simp: strip_one_length)

declare trim_front.simps [simp del]

definition TrimSpace :: "string \<Rightarrow> string" where
  "TrimSpace s = rev (trim_front (map rev space_seqs) (rev (trim_front space_seqs s)))"

text \<open>Evaluation: nothing is unfolded for a text that is not known yet.\<close>

lemma TrimSpace_code [code]:
  "TrimSpace [] = []"
  "TrimSpace (c # cs) = rev (trim_front (map rev space_seqs) (rev (trim_front space_seqs (c # cs))))"
  by (code_simp, simp add: TrimSpace_def)

lemma trim_front_stop: "strip_one qs (trim_front qs s) = None"
proof (induction qs s rule: trim_front.induct)
  case (1 qs s)
  then show ?case by (subst trim_front.simps) (auto split: option.splits)
qed

lemma trim_front_None: "strip_one qs s = None \<Longrightarrow> trim_front qs s = s"
  by (subst trim_front.simps) simp

lemma trim_front_suffix: "\<exists>pre. s = pre @ trim_front qs s"
proof (induction qs s rule: trim_front.induct)
  case (1 qs s)
  show ?case
  proof (cases "strip_one qs s")
    case None
    then show ?thesis by (simp add: trim_front_None)
  next
    case (Some t)
    then obtain n where t: "t = drop n s" by (auto simp: strip_one_def split: option.splits)
    from "1.IH" [OF Some] obtain pre where "t = pre @ trim_front qs t" by blast
    with t have "s = (take n s @ pre) @ trim_front qs t" by (metis append.assoc append_take_drop_id)
    moreover have "trim_front qs s = trim_front qs t" using Some by (subst trim_front.simps) simp
    ultimately show ?thesis by metis
  qed
qed

lemma starts_with_append: "starts_with q s \<Longrightarrow> starts_with q (s @ t)"
  by (induction q s rule: starts_with.induct) auto

lemma strip_one_prefix: "strip_one qs (s @ t) = None \<Longrightarrow> strip_one qs s = None"
  using starts_with_append
  by (fastforce simp: strip_one_def find_None_iff split: option.splits)

lemma TrimSpace_idem [simp]: "TrimSpace (TrimSpace s) = TrimSpace s"
proof -
  let ?l = "trim_front space_seqs s"
  let ?r = "trim_front (map rev space_seqs) (rev ?l)"
  obtain pre where "rev ?l = pre @ ?r" using trim_front_suffix by metis
  then have "?l = rev ?r @ rev pre" by (metis rev_append rev_rev_ident)
  with trim_front_stop [of space_seqs s] have "strip_one space_seqs (rev ?r) = None"
    by (metis strip_one_prefix)
  then have "trim_front space_seqs (rev ?r) = rev ?r" by (rule trim_front_None)
  moreover have "trim_front (map rev space_seqs) ?r = ?r"
    by (rule trim_front_None) (rule trim_front_stop)
  ultimately show ?thesis by (simp add: TrimSpace_def)
qed

text \<open>Printable ASCII other than the blank is left alone.\<close>

definition graph_char :: "char \<Rightarrow> bool" where
  "graph_char c \<longleftrightarrow> 0x21 \<le> (of_char c :: nat) \<and> (of_char c :: nat) \<le> 0x7E"

lemma strip_one_graph:
  assumes "list_all graph_char s" and "list_all (\<lambda>q. q \<noteq> [] \<longrightarrow> \<not> graph_char (hd q)) qs"
  shows "strip_one qs s = None"
proof -
  have "\<not> (q \<noteq> [] \<and> starts_with q s)" if "q \<in> set qs" for q
    using assms that by (cases q; cases s) (auto simp: list_all_iff)
  then show ?thesis by (auto simp: strip_one_def find_None_iff split: option.splits)
qed

lemma TrimSpace_graph: "list_all graph_char s \<Longrightarrow> TrimSpace s = s"
proof -
  assume s: "list_all graph_char s"
  have "strip_one space_seqs s = None"
    by (rule strip_one_graph [OF s]) (simp add: space_seqs_def graph_char_def)
  moreover have "strip_one (map rev space_seqs) (rev s) = None"
    by (rule strip_one_graph) (use s in \<open>simp_all add: space_seqs_def graph_char_def\<close>)
  ultimately show ?thesis by (simp add: TrimSpace_def trim_front_None)
qed

lemma TrimSpace_Nil [simp]: "TrimSpace [] = []"
  by (simp add: TrimSpace_graph)

section \<open>Calendar\<close>

definition is_leap :: "int \<Rightarrow> bool" where
  "is_leap y \<longleftrightarrow> y mod 4 = 0 \<and> (y mod 100 \<noteq> 0 \<or> y mod 400 = 0)"

definition month_lens :: "int \<Rightarrow> int list" where
  "month_lens y = [31, if is_leap y then 29 else 28, 31, 30, 31, 30, 31, 31, 30, 31, 30, 31]"

definition days_before_year :: "int \<Rightarrow> int" where
  "days_before_year y = 365 * (y - 1) + (y - 1) div 4 - (y - 1) div 100 + (y - 1) div 400"

text \<open>Year and day of the year of a day number: cycles of 400, 100, 4 and 1 years; the last year of a
  100-year and of a 1-year cycle takes the leap day.\<close>

definition year_yday :: "int \<Rightarrow> int \<times> int" where
  "year_yday d =
     (let n400 = d div 146097; d1 = d mod 146097;
          n100 = min 3 (d1 div 36524); d2 = d1 - 36524 * n100;
          n4 = d2 div 1461; d3 = d2 mod 1461;
          n1 = min 3 (d3 div 365); d4 = d3 - 365 * n1
      in (400 * n400 + 100 * n100 + 4 * n4 + n1 + 1, d4))"

fun find_month :: "int list \<Rightarrow> int \<Rightarrow> nat \<Rightarrow> nat \<times> int" where
  "find_month [] d m = (m, d + 1)"
| "find_month (x # xs) d m = (if d < x then (m, d + 1) else find_month xs (d - x) (Suc m))"

definition civil :: "int \<Rightarrow> int \<times> nat \<times> int" where
  "civil d = (case year_yday d of (y, yd) \<Rightarrow> (case find_month (month_lens y) yd 1 of (m, dd) \<Rightarrow> (y, m, dd)))"

definition days_of_civil :: "int \<Rightarrow> nat \<Rightarrow> int \<Rightarrow> int" where
  "days_of_civil y m dd = days_before_year y + sum_list (take (m - 1) (month_lens y)) + dd - 1"

lemma cycle_decomposition:
  fixes d :: int
  assumes "0 \<le> d" "d < 146097"
  shows "\<exists>b c e r. d = 36524 * b + 1461 * c + 365 * e + r \<and> b = min 3 (d div 36524)
    \<and> c = (d - 36524 * b) div 1461 \<and> e = min 3 ((d - 36524 * b) mod 1461 div 365)
    \<and> r = (d - 36524 * b) mod 1461 - 365 * e
    \<and> 0 \<le> b \<and> b \<le> 3 \<and> 0 \<le> c \<and> c \<le> 24 \<and> 0 \<le> e \<and> e \<le> 3 \<and> 0 \<le> r \<and> r \<le> 365
    \<and> (r = 365 \<longrightarrow> e = 3 \<and> (c \<noteq> 24 \<or> b = 3))"
proof -
  define b where "b = min 3 (d div 36524)"
  define d2 where "d2 = d - 36524 * b"
  define c where "c = d2 div 1461"
  define d3 where "d3 = d2 mod 1461"
  define e where "e = min 3 (d3 div 365)"
  have k: "d = 36524 * (d div 36524) + d mod 36524" "0 \<le> d mod 36524" "d mod 36524 < 36524" by simp_all
  then have k4: "0 \<le> d div 36524" "d div 36524 \<le> 4" using assms by linarith+
  have b: "0 \<le> b" "b \<le> 3" "0 \<le> d2" "d2 \<le> 36524" "d2 = 36524 \<longrightarrow> b = 3"
    using assms k k4 unfolding b_def d2_def min_def by auto
  have c5: "d2 = 1461 * c + d3" "0 \<le> d3" "d3 < 1461" unfolding c_def d3_def by simp_all
  then have c: "0 \<le> c" "c \<le> 24" "0 \<le> d3" "d3 \<le> 1460" "d2 = 1461 * c + d3" "c = 24 \<longrightarrow> d3 < 1460 \<or> d2 = 36524"
    using b(3,4) by linarith+
  have j: "d3 = 365 * (d3 div 365) + d3 mod 365" "0 \<le> d3 mod 365" "d3 mod 365 < 365" by simp_all
  then have j4: "0 \<le> d3 div 365" "d3 div 365 \<le> 4" using c by linarith+
  have e: "0 \<le> e" "e \<le> 3" "0 \<le> d3 - 365 * e" "d3 - 365 * e \<le> 365" "d3 - 365 * e = 365 \<longrightarrow> e = 3 \<and> d3 = 1460"
    using c j j4 unfolding e_def min_def by auto
  have "d = 36524 * b + 1461 * c + 365 * e + (d3 - 365 * e)"
    using c by (simp add: d2_def)
  moreover have "d3 - 365 * e = 365 \<longrightarrow> e = 3 \<and> (c \<noteq> 24 \<or> b = 3)"
    using b c e by auto
  ultimately show ?thesis
    using b c e unfolding b_def [symmetric] d2_def [symmetric] c_def [symmetric] d3_def [symmetric] e_def [symmetric]
    by (intro exI [of _ b] exI [of _ c] exI [of _ e] exI [of _ "d3 - 365 * e"])
      (simp add: b_def [symmetric] d2_def [symmetric] c_def [symmetric] d3_def [symmetric] e_def [symmetric])
qed

lemma leap_of_cycle:
  fixes a b c e :: int
  assumes "0 \<le> b" "b \<le> 3" "0 \<le> c" "c \<le> 24" "0 \<le> e" "e \<le> 3"
  shows "is_leap (400 * a + 100 * b + 4 * c + e + 1) \<longleftrightarrow> e = 3 \<and> (c \<noteq> 24 \<or> b = 3)"
proof -
  let ?y = "400 * a + 100 * b + 4 * c + e + 1"
  have m4: "?y mod 4 = (e + 1) mod 4"
    using mod_mult_self2 [of "e + 1" 4 "100 * a + 25 * b + c"] by (simp add: algebra_simps)
  have m100: "?y mod 100 = (4 * c + e + 1) mod 100"
    using mod_mult_self2 [of "4 * c + e + 1" 100 "4 * a + b"] by (simp add: algebra_simps)
  have m400: "?y mod 400 = (100 * b + 4 * c + e + 1) mod 400"
    using mod_mult_self2 [of "100 * b + 4 * c + e + 1" 400 a] by (simp add: algebra_simps)
  show ?thesis
  proof (cases "e = 3")
    case False
    then have "(e + 1) mod 4 = e + 1" using assms by (intro mod_pos_pos_trivial) auto
    with False m4 assms show ?thesis by (simp add: is_leap_def)
  next
    case True
    show ?thesis
    proof (cases "c = 24")
      case False
      then have "(4 * c + e + 1) mod 100 = 4 * c + e + 1"
        using True assms by (intro mod_pos_pos_trivial) auto
      with True False m4 m100 assms show ?thesis by (simp add: is_leap_def)
    next
      case c: True
      show ?thesis
      proof (cases "b = 3")
        case False
        then have "(100 * b + 4 * c + e + 1) mod 400 = 100 * b + 4 * c + e + 1"
          using True c assms by (intro mod_pos_pos_trivial) auto
        with True False c m4 m100 m400 assms show ?thesis by (simp add: is_leap_def)
      next
        case b: True
        with True c m4 m400 show ?thesis by (simp add: is_leap_def)
      qed
    qed
  qed
qed

lemma days_before_cycle:
  fixes a b c e :: int
  assumes "0 \<le> b" "b \<le> 3" "0 \<le> c" "c \<le> 24" "0 \<le> e" "e \<le> 3"
  shows "days_before_year (400 * a + 100 * b + 4 * c + e + 1) = 146097 * a + 36524 * b + 1461 * c + 365 * e"
proof -
  have "(400 * a + 100 * b + 4 * c + e) div 4 = 100 * a + 25 * b + c"
    using assms by (intro int_div_pos_eq [where r = e]) auto
  moreover have "(400 * a + 100 * b + 4 * c + e) div 100 = 4 * a + b"
    using assms by (intro int_div_pos_eq [where r = "4 * c + e"]) auto
  moreover have "(400 * a + 100 * b + 4 * c + e) div 400 = a"
    using assms by (intro int_div_pos_eq [where r = "100 * b + 4 * c + e"]) auto
  ultimately show ?thesis by (simp add: days_before_year_def)
qed

lemma year_yday_correct:
  assumes "year_yday d = (y, yd)"
  shows "days_before_year y + yd = d \<and> 0 \<le> yd \<and> yd < sum_list (month_lens y)"
proof -
  have "0 \<le> d mod 146097" "d mod 146097 < 146097" by simp_all
  from cycle_decomposition [OF this] obtain b c e r where
    dec: "d mod 146097 = 36524 * b + 1461 * c + 365 * e + r"
    and eqs: "b = min 3 (d mod 146097 div 36524)" "c = (d mod 146097 - 36524 * b) div 1461"
      "e = min 3 ((d mod 146097 - 36524 * b) mod 1461 div 365)" "r = (d mod 146097 - 36524 * b) mod 1461 - 365 * e"
    and rng: "0 \<le> b" "b \<le> 3" "0 \<le> c" "c \<le> 24" "0 \<le> e" "e \<le> 3" "0 \<le> r" "r \<le> 365"
    and leap: "r = 365 \<longrightarrow> e = 3 \<and> (c \<noteq> 24 \<or> b = 3)"
    by blast
  have y: "y = 400 * (d div 146097) + 100 * b + 4 * c + e + 1" and yd: "yd = r"
    using assms unfolding year_yday_def Let_def eqs(1) [symmetric] eqs(2) [symmetric] eqs(3) [symmetric] eqs(4) [symmetric]
    by simp_all
  have "days_before_year y + yd = 146097 * (d div 146097) + d mod 146097"
    using days_before_cycle [OF rng(1-6)] dec y yd by simp
  moreover have "yd < sum_list (month_lens y)"
    using rng(8) leap leap_of_cycle [OF rng(1-6)] y yd by (auto simp: month_lens_def)
  ultimately show ?thesis using rng(7) yd by simp
qed

lemma find_month_correct:
  assumes "find_month xs d m = (m', dd)" and "0 \<le> d" and "d < sum_list xs"
  shows "m \<le> m' \<and> m' - m < length xs \<and> 1 \<le> dd \<and> dd \<le> xs ! (m' - m) \<and> sum_list (take (m' - m) xs) + dd - 1 = d"
  using assms
proof (induction xs arbitrary: d m)
  case (Cons x xs)
  show ?case
  proof (cases "d < x")
    case True
    with Cons.prems show ?thesis by auto
  next
    case False
    with Cons.prems have "find_month xs (d - x) (Suc m) = (m', dd)" by simp
    with Cons False have IH: "Suc m \<le> m' \<and> m' - Suc m < length xs \<and> 1 \<le> dd \<and> dd \<le> xs ! (m' - Suc m)
        \<and> sum_list (take (m' - Suc m) xs) + dd - 1 = d - x" by auto
    then have "m' - m = Suc (m' - Suc m)" by linarith
    with IH show ?thesis by simp
  qed
qed simp

lemma civil_correct:
  assumes "civil d = (y, m, dd)"
  shows "days_of_civil y m dd = d \<and> 1 \<le> m \<and> m \<le> 12 \<and> 1 \<le> dd \<and> dd \<le> month_lens y ! (m - 1)"
proof -
  obtain yd where y: "year_yday d = (y, yd)" and m: "find_month (month_lens y) yd 1 = (m, dd)"
    using assms by (auto simp: civil_def split: prod.splits)
  from year_yday_correct [OF y] have yd: "days_before_year y + yd = d" "0 \<le> yd" "yd < sum_list (month_lens y)"
    by auto
  from find_month_correct [OF m yd(2,3)] yd(1) show ?thesis
    by (auto simp: days_of_civil_def month_lens_def)
qed

section \<open>Formatting\<close>

definition two :: "nat \<Rightarrow> string" where
  "two n = [digit_char (n div 10), digit_char (n mod 10)]"

definition pad4 :: "nat \<Rightarrow> string" where
  "pad4 n = (let s = show_nat n in replicate (4 - length s) (CHR ''0'') @ s)"

definition fmt_year :: "int \<Rightarrow> string" where
  "fmt_year y = (if y < 0 then CHR ''-'' # pad4 (nat (- y)) else pad4 (nat y))"

definition nanos :: int where "nanos = 1000000000"

definition clock_of :: "gtime \<Rightarrow> int \<times> nat" where
  "clock_of t = (t div nanos div 86400, nat (t div nanos mod 86400))"

definition fmt_secs :: "gtime \<Rightarrow> string" where
  "fmt_secs t =
     (case clock_of t of (day, sod) \<Rightarrow> (case civil day of (y, m, d) \<Rightarrow>
        fmt_year y @ CHR ''-'' # two m @ CHR ''-'' # two (nat d) @ CHR ''T'' #
        two (sod div 3600) @ CHR '':'' # two (sod div 60 mod 60) @ CHR '':'' # two (sod mod 60)))"

definition FormatRFC3339 :: "gtime \<Rightarrow> string" where
  "FormatRFC3339 t = fmt_secs t @ ''Z''"

text \<open>The nanosecond layout prints the fraction without its trailing zeros, and no point at all when
  it is zero.\<close>

fun frac_digits :: "nat \<Rightarrow> nat \<Rightarrow> string" where
  "frac_digits 0 n = []"
| "frac_digits (Suc k) n = frac_digits k (n div 10) @ [digit_char (n mod 10)]"

definition FormatRFC3339Nano :: "gtime \<Rightarrow> string" where
  "FormatRFC3339Nano t =
     (let ds = rev (dropWhile (\<lambda>c. c = CHR ''0'') (rev (frac_digits 9 (nat (t mod nanos)))))
      in fmt_secs t @ (if ds = [] then [] else CHR ''.'' # ds) @ ''Z'')"

section \<open>Parsing\<close>

fun skip_char :: "char \<Rightarrow> string \<Rightarrow> string option" where
  "skip_char c [] = None"
| "skip_char c (x # xs) = (if x = c then Some xs else None)"

text \<open>\<open>getnum\<close>: one or two digits, exactly two when fixed.\<close>

fun getnum :: "bool \<Rightarrow> string \<Rightarrow> (nat \<times> string) option" where
  "getnum fixed [] = None"
| "getnum fixed [c] = (if is_digit c \<and> \<not> fixed then Some (digit_val c, []) else None)"
| "getnum fixed (c # d # s) =
     (if \<not> is_digit c then None
      else if \<not> is_digit d then (if fixed then None else Some (digit_val c, d # s))
      else Some (digit_val c * 10 + digit_val d, s))"

definition get_year :: "string \<Rightarrow> (nat \<times> string) option" where
  "get_year s = (if length s < 4 \<or> \<not> list_all is_digit (take 4 s) then None
                 else Some (digits_val (take 4 s), drop 4 s))"

text \<open>The optional fraction: a point or comma and at least one digit; digits past the ninth are
  dropped.\<close>

definition get_frac :: "string \<Rightarrow> nat \<times> string" where
  "get_frac s =
     (case s of
        c # d # r \<Rightarrow>
          if (c = CHR ''.'' \<or> c = CHR '','') \<and> is_digit d
          then (let ds = takeWhile is_digit (d # r); n = take 9 ds
                in (digits_val n * 10 ^ (9 - length n), dropWhile is_digit (d # r)))
          else (0, s)
      | _ \<Rightarrow> (0, s))"

definition get_zone :: "string \<Rightarrow> (int \<times> string) option" where
  "get_zone s =
     (case s of
        [] \<Rightarrow> None
      | z # r \<Rightarrow>
          if z = CHR ''Z'' then Some (0, r)
          else if length s < 6 \<or> s ! 3 \<noteq> CHR '':'' then None
          else (case (getnum True (take 2 r), getnum True (take 2 (drop 3 r))) of
                  (Some (hr, _), Some (mm, _)) \<Rightarrow>
                    if hr > 24 \<or> mm > 60 then None
                    else if z = CHR ''+'' then Some (int ((hr * 60 + mm) * 60), drop 5 r)
                    else if z = CHR ''-'' then Some (- int ((hr * 60 + mm) * 60), drop 5 r)
                    else None
                | _ \<Rightarrow> None))"

definition ParseRFC3339 :: "string \<Rightarrow> gtime option" where
  "ParseRFC3339 s0 = do {
     (y, s) \<leftarrow> get_year s0;
     s \<leftarrow> skip_char (CHR ''-'') s;
     (m, s) \<leftarrow> getnum True s;
     s \<leftarrow> (if m = 0 \<or> 12 < m then None else skip_char (CHR ''-'') s);
     (d, s) \<leftarrow> getnum True s;
     s \<leftarrow> skip_char (CHR ''T'') s;
     (hh, s) \<leftarrow> getnum False s;
     s \<leftarrow> (if 24 \<le> hh then None else skip_char (CHR '':'') s);
     (mi, s) \<leftarrow> getnum True s;
     s \<leftarrow> (if 60 \<le> mi then None else skip_char (CHR '':'') s);
     (ss, s) \<leftarrow> getnum True s;
     (ns, s) \<leftarrow> (if 60 \<le> ss then None else Some (get_frac s));
     (off, s) \<leftarrow> get_zone s;
     (if s \<noteq> [] \<or> d < 1 \<or> int d > month_lens (int y) ! (m - 1) then None
      else Some ((days_of_civil (int y) m (int d) * 86400 + int (hh * 3600 + mi * 60 + ss) - off) * nanos + int ns))
   }"

section \<open>Round trip\<close>

lemma getnum_two [simp]: "n < 100 \<Longrightarrow> getnum b (two n @ s) = Some (n, s)"
  by (simp add: two_def)

lemma year_bounds:
  assumes "year_yday d = (y, yd)" and "0 \<le> d" and "d < 3652059"
  shows "1 \<le> y \<and> y \<le> 9999"
proof -
  from year_yday_correct [OF assms(1)] have d: "days_before_year y + yd = d" "0 \<le> yd"
    and yd: "yd < sum_list (month_lens y)" by auto
  from yd have yd': "yd \<le> 365" by (auto simp: month_lens_def split: if_splits)
  define z where "z = y - 1"
  have db: "days_before_year y = 365 * z + z div 4 - z div 100 + z div 400"
    by (simp add: days_before_year_def z_def)
  have q4: "4 * (z div 4) \<le> z" "z < 4 * (z div 4) + 4" by simp_all
  have q100: "100 * (z div 100) \<le> z" "z < 100 * (z div 100) + 100" by simp_all
  have q400: "400 * (z div 400) \<le> z" "z < 400 * (z div 400) + 400" by simp_all
  have "0 \<le> z"
  proof (rule ccontr)
    assume "\<not> 0 \<le> z"
    then have "z \<le> -1" by simp
    then show False
    proof (cases "z = -1")
      case True
      with db d yd' assms(2) show False using yd by (simp add: month_lens_def is_leap_def z_def split: if_splits)
    next
      case False
      with \<open>z \<le> -1\<close> have "z \<le> -2" by simp
      with db d(1) yd' assms(2) q4 q100 q400 show False by linarith
    qed
  qed
  moreover have "z < 9999"
  proof (rule ccontr)
    assume "\<not> z < 9999"
    then have "z = 9999 \<or> 10000 \<le> z" by auto
    with db d assms(3) q4 q100 q400 show False by auto
  qed
  ultimately show ?thesis by (simp add: z_def)
qed

lemma pad4_digits:
  assumes "n < 10000"
  shows "length (pad4 n) = 4 \<and> list_all is_digit (pad4 n) \<and> digits_val (pad4 n) = n"
proof -
  have zero: "digits_val (replicate k (CHR ''0'') @ s) = digits_val s" for k s
    by (induction k) (simp_all add: digits_val_def digit_val_def)
  have len: "length (show_nat n) \<le> 4"
    using assms by (subst show_nat.simps, subst show_nat.simps, subst show_nat.simps, subst show_nat.simps) auto
  have "is_digit (CHR ''0'')" by (simp add: is_digit_def)
  with len show_nat_all_digits [of n] show ?thesis
    by (auto simp: pad4_def Let_def zero digits_val_show_nat list_all_iff)
qed

lemma get_year_pad4 [simp]: "n < 10000 \<Longrightarrow> get_year (pad4 n @ s) = Some (n, s)"
  using pad4_digits [of n] by (simp add: get_year_def)

lemma get_frac_Z [simp]: "get_frac (CHR ''Z'' # s) = (0, CHR ''Z'' # s)"
  by (cases s) (simp_all add: get_frac_def)

lemma clock_split:
  fixes sod :: nat
  shows "sod div 3600 * 3600 + sod div 60 mod 60 * 60 + sod mod 60 = sod"
proof -
  have "sod div 3600 = sod div 60 div 60" by (simp add: div_mult2_eq [symmetric])
  moreover have "sod div 60 div 60 * 60 + sod div 60 mod 60 = sod div 60" by (rule div_mult_mod_eq)
  moreover have "sod div 60 * 60 + sod mod 60 = sod" by (rule div_mult_mod_eq)
  ultimately show ?thesis by linarith
qed

definition printable_time :: "gtime \<Rightarrow> bool" where
  "printable_time t \<longleftrightarrow> 0 \<le> t \<and> t < 3652059 * 86400 * nanos"

theorem Parse_Format:
  assumes "printable_time t"
  shows "ParseRFC3339 (FormatRFC3339 t) = Some (t - t mod nanos)"
proof -
  obtain y m d where c: "civil (t div nanos div 86400) = (y, m, d)" by (metis prod_cases3)
  from civil_correct [OF c] have day: "days_of_civil y m d = t div nanos div 86400"
    and rng: "1 \<le> m" "m \<le> 12" "1 \<le> d" "d \<le> month_lens y ! (m - 1)" by auto
  obtain yd where y: "year_yday (t div nanos div 86400) = (y, yd)"
    using c by (auto simp: civil_def split: prod.splits)
  have "nanos * (t div nanos) \<le> t" "86400 * (t div nanos div 86400) \<le> t div nanos" by (simp_all add: nanos_def)
  then have "t div nanos div 86400 < 3652059"
    using assms by (simp add: printable_time_def nanos_def)
  moreover have "0 \<le> t div nanos div 86400"
    using assms by (simp add: printable_time_def nanos_def pos_imp_zdiv_nonneg_iff)
  ultimately have yb: "1 \<le> y" "y \<le> 9999" using year_bounds [OF y] by auto
  define sod where "sod = nat (t div nanos mod 86400)"
  have sod: "sod < 86400" "int sod = t div nanos mod 86400" by (simp_all add: sod_def)
  have d31: "d \<le> 31" using rng by (auto simp: month_lens_def nth_Cons' split: if_splits)
  have y': "nat y < 10000" "int (nat y) = y" using yb by simp_all
  have d': "nat d < 100" "1 \<le> nat d" "int (nat d) = d" using d31 rng by simp_all
  have m': "m < 100" using rng by simp
  have h: "sod div 3600 < 24" "\<not> 24 \<le> sod div 3600" "\<not> 60 \<le> sod div 60 mod 60" "\<not> 60 \<le> sod mod 60" "\<not> d \<le> 0"
    using sod rng by (simp_all add: not_le)
  have "ParseRFC3339 (FormatRFC3339 t) =
      Some ((days_of_civil y m d * 86400 + int (sod div 3600 * 3600 + sod div 60 mod 60 * 60 + sod mod 60)) * nanos)"
    using yb rng y' d' m' h(1)
    by (simp add: h(2-) ParseRFC3339_def FormatRFC3339_def fmt_secs_def clock_of_def c sod_def [symmetric] fmt_year_def get_zone_def)
  also have "\<dots> = Some ((t div nanos div 86400 * 86400 + t div nanos mod 86400) * nanos)"
    unfolding clock_split by (simp add: day sod(2))
  also have "\<dots> = Some (t - t mod nanos)"
    by (simp only: div_mult_mod_eq minus_mod_eq_div_mult)
  finally show ?thesis .
qed

text \<open>A formatted time has no blanks, so trimming a stored timestamp changes nothing.\<close>

lemma digit_graph: "is_digit c \<Longrightarrow> graph_char c"
  by (simp add: is_digit_def graph_char_def)

lemma two_graph: "n < 100 \<Longrightarrow> list_all graph_char (two n)"
  by (simp add: two_def digit_graph)

lemma pad4_graph: "list_all graph_char (pad4 n)"
  using show_nat_all_digits [of n] digit_graph
  by (auto simp: pad4_def Let_def list_all_iff graph_char_def)

lemma fmt_secs_graph: "list_all graph_char (fmt_secs t)"
proof -
  obtain y m d where c: "civil (t div nanos div 86400) = (y, m, d)" by (metis prod_cases3)
  from civil_correct [OF c] have "m < 100" "nat d < 100"
    by (auto simp: month_lens_def nth_Cons' split: if_splits)
  moreover have "nat (t div nanos mod 86400) div 3600 < 100"
  proof -
    have "nat (t div nanos mod 86400) < 86400" by simp
    then show ?thesis by linarith
  qed
  ultimately show ?thesis
    by (simp add: fmt_secs_def clock_of_def c fmt_year_def two_graph pad4_graph graph_char_def)
qed

lemma TrimSpace_Format [simp]: "TrimSpace (FormatRFC3339 t) = FormatRFC3339 t"
  by (rule TrimSpace_graph) (simp add: FormatRFC3339_def fmt_secs_graph graph_char_def)

lemma Format_not_Nil [simp]: "FormatRFC3339 t \<noteq> []"
  by (simp add: FormatRFC3339_def)

end
