(* ===== verification/Session_Patches.thy ===== *)
theory Session_Patches
  imports Session_State Go_Time
begin

text \<open>
  The metadata patches of the session lifecycle (\<open>internal/session/lifecycle_transition.go\<close>), the
  accrual and back-off patches of \<open>lifecycle_exits.go\<close> and the canonical-identity record
  (\<open>canonical_identity.go\<close>).  A patch is a map of the keys it sets; the empty value clears a key.  The
  argument \<open>clock\<close> is what \<open>time.Now().UTC()\<close> returns where the source reads the clock.
\<close>

section \<open>Sleep reasons\<close>

definition SleepReasonIdle :: string where "SleepReasonIdle = ''idle''"
definition SleepReasonIdleTimeout :: string where "SleepReasonIdleTimeout = ''idle-timeout''"
definition SleepReasonNoWakeReason :: string where "SleepReasonNoWakeReason = ''no-wake-reason''"
definition SleepReasonConfigDrift :: string where "SleepReasonConfigDrift = ''config-drift''"
definition SleepReasonDrained :: string where "SleepReasonDrained = ''drained''"
definition SleepReasonCityStop :: string where "SleepReasonCityStop = ''city-stop''"
definition SleepReasonUserHold :: string where "SleepReasonUserHold = ''user-hold''"
definition SleepReasonWaitHold :: string where "SleepReasonWaitHold = ''wait-hold''"
definition SleepReasonRateLimit :: string where "SleepReasonRateLimit = ''rate_limit''"
definition SleepReasonFailedCreate :: string where "SleepReasonFailedCreate = ''failed-create''"
definition SleepReasonProviderTerminalError :: string where "SleepReasonProviderTerminalError = ''provider-terminal-error''"
definition SleepReasonRuntimeMissing :: string where "SleepReasonRuntimeMissing = ''runtime-missing''"
definition SleepReasonQuarantine :: string where "SleepReasonQuarantine = ''quarantine''"
definition SleepReasonContextChurn :: string where "SleepReasonContextChurn = ''context-churn''"
definition SleepReasonMaxSessionAge :: string where "SleepReasonMaxSessionAge = ''max-session-age''"
definition SleepReasonAssignedWorkExhausted :: string where "SleepReasonAssignedWorkExhausted = ''assigned-work-exhausted''"

lemmas sleep_reason_defs = SleepReasonIdle_def SleepReasonIdleTimeout_def SleepReasonNoWakeReason_def
  SleepReasonConfigDrift_def SleepReasonDrained_def SleepReasonCityStop_def SleepReasonUserHold_def
  SleepReasonWaitHold_def SleepReasonRateLimit_def SleepReasonFailedCreate_def
  SleepReasonProviderTerminalError_def SleepReasonRuntimeMissing_def SleepReasonQuarantine_def
  SleepReasonContextChurn_def SleepReasonMaxSessionAge_def SleepReasonAssignedWorkExhausted_def

definition IsDeliberateSleepReason :: "string \<Rightarrow> bool" where
  "IsDeliberateSleepReason reason \<longleftrightarrow>
     TrimSpace reason \<in> set [SleepReasonIdle, SleepReasonIdleTimeout, SleepReasonNoWakeReason,
       SleepReasonConfigDrift, SleepReasonDrained, SleepReasonCityStop, SleepReasonUserHold,
       SleepReasonWaitHold, SleepReasonRateLimit, SleepReasonFailedCreate, SleepReasonProviderTerminalError]"

section \<open>Keys shared by the patches\<close>

type_synonym MetadataPatch = strmap

definition PrimedAtMetadataKey :: string where "PrimedAtMetadataKey = ''primed_at''"
definition PrimingAttemptedAtMetadataKey :: string where "PrimingAttemptedAtMetadataKey = ''priming_attempted_at''"
definition PromptHashMetadataKey :: string where "PromptHashMetadataKey = ''prompt_hash''"
definition ResetCommittedAtKey :: string where "ResetCommittedAtKey = ''reset_committed_at''"
definition startupDialogVerifiedKey :: string where "startupDialogVerifiedKey = ''startup_dialog_verified''"
definition CanonicalInstanceNameMetadata :: string where "CanonicalInstanceNameMetadata = ''canonical_instance_name''"
definition CanonicalPoolSlotMetadata :: string where "CanonicalPoolSlotMetadata = ''canonical_pool_slot''"

lemmas key_defs = PrimedAtMetadataKey_def PrimingAttemptedAtMetadataKey_def PromptHashMetadataKey_def
  ResetCommittedAtKey_def startupDialogVerifiedKey_def CanonicalInstanceNameMetadata_def
  CanonicalPoolSlotMetadata_def

definition primingResetKeys :: "string list" where
  "primingResetKeys = [PrimedAtMetadataKey, PrimingAttemptedAtMetadataKey, PromptHashMetadataKey]"

definition clearPrimingMarkers :: "MetadataPatch \<Rightarrow> MetadataPatch" where
  "clearPrimingMarkers patch = foldl (\<lambda>p k. p(k \<mapsto> [])) patch primingResetKeys"

definition freshWakeConversationResetKeys :: "string list" where
  "freshWakeConversationResetKeys =
     [''session_key'', ''started_config_hash'', ''started_live_hash'', ''live_hash'', startupDialogVerifiedKey,
      PrimedAtMetadataKey, PrimingAttemptedAtMetadataKey, PromptHashMetadataKey]"

definition Apply :: "MetadataPatch \<Rightarrow> strmap \<Rightarrow> strmap" where
  "Apply p meta = meta ++ p"

definition applyFreshWakeConversationReset :: "MetadataPatch \<Rightarrow> MetadataPatch" where
  "applyFreshWakeConversationReset patch =
     clearPrimingMarkers (patch(''started_config_hash'' \<mapsto> [], ''started_live_hash'' \<mapsto> [], ''live_hash'' \<mapsto> [],
       startupDialogVerifiedKey \<mapsto> []))"

definition pendingCreateStartedAt :: "gtime \<Rightarrow> gtime \<Rightarrow> string" where
  "pendingCreateStartedAt clock now = FormatRFC3339 (if IsZero now then clock else now)"

definition awakeIntervalStartedAt :: "gtime \<Rightarrow> gtime \<Rightarrow> string" where
  "awakeIntervalStartedAt clock now = FormatRFC3339Nano (if IsZero now then clock else now)"

section \<open>Wake requests and starts\<close>

definition RequestExplicitWakePatch :: "gtime \<Rightarrow> string \<Rightarrow> gtime \<Rightarrow> MetadataPatch" where
  "RequestExplicitWakePatch clock reason now =
     map_of [(''wake_request'', reason),
             (''wake_requested_at'', FormatRFC3339 (if IsZero now then clock else now))]"

definition RequestWakePatch :: "gtime \<Rightarrow> string \<Rightarrow> gtime \<Rightarrow> MetadataPatch" where
  "RequestWakePatch clock reason now =
     map_of [(''state'', StateStartPending), (''state_reason'', reason), (''pending_create_claim'', ''true''),
             (''pending_create_started_at'', pendingCreateStartedAt clock now), (''held_until'', []),
             (''quarantined_until'', []), (''sleep_reason'', []), (''wait_hold'', []), (''sleep_intent'', []),
             (''wake_attempts'', ''0''), (''churn_count'', ''0'')]"

record PreWakePatchInput =
  pwGeneration :: int
  pwInstanceToken :: string
  pwContinuationEpoch :: int
  pwNow :: gtime
  pwSleepReason :: string
  pwFreshWake :: bool

definition PreWakePatch :: "gtime \<Rightarrow> PreWakePatchInput \<Rightarrow> MetadataPatch" where
  "PreWakePatch clock input =
     (let patch = map_of [(''instance_token'', pwInstanceToken input),
            (''continuation_epoch'', itoa (pwContinuationEpoch input)), (''continuation_reset_pending'', []),
            (''detached_at'', []), (''state'', StateCreating),
            (''pending_create_started_at'', pendingCreateStartedAt clock (pwNow input)),
            (''last_woke_at'', FormatRFC3339 (pwNow input)), (''sleep_reason'', pwSleepReason input),
            (''sleep_intent'', []), (''generation'', itoa (pwGeneration input)), (''wake_request'', []),
            (''wake_requested_at'', [])]
      in if pwFreshWake input then applyFreshWakeConversationReset (patch(''session_key'' \<mapsto> [])) else patch)"

definition ContinuationResetWakePatch :: "gtime \<Rightarrow> gtime \<Rightarrow> MetadataPatch" where
  "ContinuationResetWakePatch clock now =
     (applyFreshWakeConversationReset ((RequestWakePatch clock ''continuation-reset'' now)(''session_key'' \<mapsto> [])))
       (''continuation_reset_pending'' \<mapsto> ''true'')"

definition ClearWakeBlockersPatch :: "State \<Rightarrow> string \<Rightarrow> MetadataPatch" where
  "ClearWakeBlockersPatch state sleepReason =
     (let patch = map_of [(''held_until'', []), (''quarantined_until'', []), (''wait_hold'', []), (''sleep_intent'', []),
            (''wake_attempts'', ''0''), (''churn_count'', ''0'')];
          patch1 = (if state = StateSuspended \<or> state = StateDrained then patch(''state'' \<mapsto> StateAsleep) else patch)
      in if sleepReason \<in> set [SleepReasonUserHold, SleepReasonWaitHold, SleepReasonQuarantine,
              SleepReasonContextChurn, SleepReasonRateLimit, SleepReasonDrained]
         then patch1(''sleep_reason'' \<mapsto> []) else patch1)"

definition ClearExpiredHoldPatch :: "string \<Rightarrow> MetadataPatch" where
  "ClearExpiredHoldPatch sleepReason =
     (let patch = map_of [(''held_until'', [])]
      in if sleepReason = SleepReasonUserHold then patch(''sleep_reason'' \<mapsto> []) else patch)"

definition ClearExpiredQuarantinePatch :: "string \<Rightarrow> MetadataPatch" where
  "ClearExpiredQuarantinePatch sleepReason =
     (let patch = map_of [(''quarantined_until'', []), (''wake_attempts'', ''0''), (''churn_count'', ''0'')]
      in if sleepReason \<in> set [SleepReasonQuarantine, SleepReasonContextChurn, SleepReasonRateLimit]
         then patch(''sleep_reason'' \<mapsto> []) else patch)"

definition ConfirmStartedPatch :: "gtime \<Rightarrow> gtime \<Rightarrow> MetadataPatch" where
  "ConfirmStartedPatch clock now =
     map_of [(''state'', StateActive), (''state_reason'', ''creation_complete''),
             (''creation_complete_at'', FormatRFC3339 now),
             (''awake_started_at'', awakeIntervalStartedAt clock now), (''pending_create_claim'', []),
             (''pending_create_started_at'', []), (''sleep_reason'', [])]"

record CommitStartedPatchInput =
  csCoreHash :: string
  csLiveHash :: string
  csProvisionHash :: string
  csLaunchHash :: string
  csCoreBreakdown :: string
  csConfirmState :: bool
  csClearSleepReason :: bool
  csClearPendingCreateClaim :: bool
  csStartsAwakeInterval :: bool
  csNow :: gtime
  csPrimedAt :: gtime
  csPromptHash :: string

definition CommitStartedPatch :: "gtime \<Rightarrow> CommitStartedPatchInput \<Rightarrow> MetadataPatch" where
  "CommitStartedPatch clock input =
     (let p0 = map_of [(''started_config_hash'', csCoreHash input), (''live_hash'', csLiveHash input),
            (''started_live_hash'', csLiveHash input), (''started_provision_hash'', csProvisionHash input),
            (''started_launch_hash'', csLaunchHash input), (''continuation_reset_pending'', []),
            (ResetCommittedAtKey, [])];
          p1 = (if csCoreBreakdown input \<noteq> [] then p0(''core_hash_breakdown'' \<mapsto> csCoreBreakdown input) else p0);
          p2 = (if csConfirmState input
                then p1(''state'' \<mapsto> StateActive, ''state_reason'' \<mapsto> ''creation_complete'',
                        ''pending_create_started_at'' \<mapsto> [])
                else p1);
          p3 = (if \<not> IsZero (csNow input) then p2(''creation_complete_at'' \<mapsto> FormatRFC3339 (csNow input)) else p2);
          p4 = (if csClearSleepReason input then p3(''sleep_reason'' \<mapsto> []) else p3);
          p5 = (if csClearPendingCreateClaim input
                then p4(''pending_create_claim'' \<mapsto> [], ''pending_create_started_at'' \<mapsto> []) else p4);
          p6 = (if csStartsAwakeInterval input
                then p5(''awake_started_at'' \<mapsto> awakeIntervalStartedAt clock (csNow input)) else p5)
      in if \<not> IsZero (csPrimedAt input) \<and> csPromptHash input \<noteq> []
         then p6(PrimedAtMetadataKey \<mapsto> FormatRFC3339 (csPrimedAt input), PromptHashMetadataKey \<mapsto> csPromptHash input)
         else p6)"

section \<open>Drains, sleep, restarts\<close>

definition BeginDrainPatch :: "gtime \<Rightarrow> string \<Rightarrow> MetadataPatch" where
  "BeginDrainPatch now reason =
     map_of [(''state'', StateDraining), (''state_reason'', reason), (''drain_at'', FormatRFC3339 now)]"

definition DrainAckStopPendingReason :: string where
  "DrainAckStopPendingReason = ''drain-ack-stop-pending''"

definition DrainAckStopPendingPatch :: "gtime \<Rightarrow> MetadataPatch" where
  "DrainAckStopPendingPatch now =
     (BeginDrainPatch now DrainAckStopPendingReason)(''pending_create_claim'' \<mapsto> [], ''pending_create_started_at'' \<mapsto> [])"

definition SleepPatch :: "gtime \<Rightarrow> string \<Rightarrow> MetadataPatch" where
  "SleepPatch now reason =
     map_of [(''state'', StateAsleep), (''state_reason'', []), (''sleep_reason'', reason), (''last_woke_at'', []),
             (''pending_create_claim'', []), (''pending_create_started_at'', []), (''sleep_intent'', []),
             (''slept_at'', FormatRFC3339 now)]"

definition AcknowledgeDrainPatch :: "bool \<Rightarrow> MetadataPatch" where
  "AcknowledgeDrainPatch freshWake =
     (let patch = map_of [(''state'', StateDrained), (''state_reason'', []), (''last_woke_at'', []),
            (''pending_create_claim'', []), (''pending_create_started_at'', [])]
      in if freshWake
         then (applyFreshWakeConversationReset (patch(''session_key'' \<mapsto> [])))(''continuation_reset_pending'' \<mapsto> ''true'')
         else patch)"

definition CompleteDrainPatch :: "gtime \<Rightarrow> string \<Rightarrow> bool \<Rightarrow> MetadataPatch" where
  "CompleteDrainPatch now reason freshWake =
     (let patch = (SleepPatch now reason)(''state_reason'' \<mapsto> [])
      in if freshWake
         then (applyFreshWakeConversationReset (patch(''session_key'' \<mapsto> [])))(''continuation_reset_pending'' \<mapsto> ''true'')
         else patch)"

definition RestartRequestPatch :: "gtime \<Rightarrow> string \<Rightarrow> gtime \<Rightarrow> MetadataPatch" where
  "RestartRequestPatch clock sessionKey now =
     (let patch = clearPrimingMarkers (map_of [(''restart_requested'', []), (''started_config_hash'', []),
            (''continuation_reset_pending'', ''true''),
            (ResetCommittedAtKey, FormatRFC3339 (if IsZero now then clock else now)),
            (''last_woke_at'', []), (''pending_create_claim'', []), (''pending_create_started_at'', [])])
      in if sessionKey \<noteq> [] then patch(''session_key'' \<mapsto> sessionKey) else patch)"

definition ConfigDriftResetPatch :: "gtime \<Rightarrow> State \<Rightarrow> string \<Rightarrow> gtime \<Rightarrow> MetadataPatch" where
  "ConfigDriftResetPatch clock nextState sessionKey now =
     (let p0 = applyFreshWakeConversationReset (map_of [(''state'', nextState), (''last_woke_at'', []),
            (''restart_requested'', []), (''continuation_reset_pending'', ''true''),
            (''pending_create_claim'', []), (''pending_create_started_at'', [])]);
          p1 = (if nextState = StateCreating \<or> nextState = StateStartPending
                then p0(''pending_create_claim'' \<mapsto> ''true'',
                        ''pending_create_started_at'' \<mapsto> pendingCreateStartedAt clock now)
                else p0)
      in if sessionKey \<noteq> [] then p1(''session_key'' \<mapsto> sessionKey) else p1)"

section \<open>Archive, close, retire, quarantine, reactivate\<close>

definition ArchivePatch :: "gtime \<Rightarrow> string \<Rightarrow> bool \<Rightarrow> MetadataPatch" where
  "ArchivePatch now reason continuityEligible =
     map_of [(''state'', StateArchived), (''state_reason'', reason), (''archived_at'', FormatRFC3339 now),
             (''continuity_eligible'', if continuityEligible then ''true'' else ''false''),
             (''pending_create_claim'', []), (''pending_create_started_at'', [])]"

definition canonicalCloseReasons :: "(string \<times> string) list" where
  "canonicalCloseReasons =
     [([], ''session terminated: unknown state''),
      (''gc_swept'', ''session swept: no assigned work in any rig''),
      (''orphaned'', ''session orphaned: configured agent removed''),
      (''drained'', ''session drained: pool slot retired by reconciler''),
      (''failed-create'', ''session create failed: aborted before creation_complete''),
      (''stale-session'', ''session stale: no liveness signal beyond threshold''),
      (''duplicate'', ''session retired: duplicate of canonical bead''),
      (''duplicate-repair'', ''session retired: duplicate-repair canonicalization''),
      (''reconfigured'', ''session reconfigured: superseded by new agent config''),
      (''suspended'', ''session suspended: agent disabled in city config'')]"

definition CanonicalCloseReason :: "string \<Rightarrow> string" where
  "CanonicalCloseReason stateCode =
     (case map_of canonicalCloseReasons stateCode of
        Some r \<Rightarrow> r
      | None \<Rightarrow> if length stateCode \<ge> 20 then stateCode else ''session terminated: '' @ stateCode)"

definition ClosePatch :: "gtime \<Rightarrow> string \<Rightarrow> MetadataPatch" where
  "ClosePatch now stateCode =
     (let ts = FormatRFC3339 now
      in map_of [(''state'', stateCode), (''close_reason'', CanonicalCloseReason stateCode),
                 (''closed_at'', ts), (''synced_at'', ts)])"

definition freeCanonicalIdentityMetadata :: "strmap \<Rightarrow> strmap" where
  "freeCanonicalIdentityMetadata meta = meta(CanonicalInstanceNameMetadata \<mapsto> [], CanonicalPoolSlotMetadata \<mapsto> [])"

definition RetireNamedSessionPatch :: "gtime \<Rightarrow> string \<Rightarrow> string \<Rightarrow> MetadataPatch" where
  "RetireNamedSessionPatch now reason identity =
     (let p0 = (ArchivePatch now reason False)(''alias'' \<mapsto> [], ''session_name'' \<mapsto> [], ''session_name_explicit'' \<mapsto> []);
          p1 = (freeCanonicalIdentityMetadata p0)(''synced_at'' \<mapsto> FormatRFC3339 now, ''held_until'' \<mapsto> [],
            ''quarantined_until'' \<mapsto> [], ''wait_hold'' \<mapsto> [], ''sleep_intent'' \<mapsto> [], ''sleep_reason'' \<mapsto> [])
      in if identity \<noteq> [] then p1(''retired_named_identity'' \<mapsto> identity) else p1)"

definition QuarantinePatch :: "gtime \<Rightarrow> int \<Rightarrow> MetadataPatch" where
  "QuarantinePatch until cycle =
     map_of [(''state'', StateQuarantined), (''state_reason'', ''crash-loop''),
             (''quarantined_until'', FormatRFC3339 until), (''quarantine_cycle'', itoa cycle), (''last_woke_at'', [])]"

definition ReactivatePatch :: "bool \<Rightarrow> MetadataPatch" where
  "ReactivatePatch continuityEligible =
     map_of [(''state'', StateAsleep), (''state_reason'', ''reactivated''), (''pending_create_claim'', []),
             (''pending_create_started_at'', []),
             (''continuity_eligible'', if continuityEligible then ''true'' else ''false''),
             (''quarantined_until'', []), (''crash_count'', ''0''), (''archived_at'', [])]"

section \<open>Crash and churn accrual\<close>

record ExitAccrual =
  eaPatch :: MetadataPatch
  eaQuarantined :: bool

definition exitAccrual :: "string \<Rightarrow> int \<Rightarrow> int \<Rightarrow> string \<Rightarrow> gtime \<Rightarrow> ExitAccrual" where
  "exitAccrual counterKey next_count threshold sleepReason until =
     (let count = itoa next_count
      in if next_count \<ge> threshold
         then \<lparr>eaPatch = (map_of [(counterKey, count)])(''quarantined_until'' \<mapsto> FormatRFC3339 until,
                 ''sleep_reason'' \<mapsto> sleepReason), eaQuarantined = True\<rparr>
         else \<lparr>eaPatch = map_of [(counterKey, count)], eaQuarantined = False\<rparr>)"

definition WakeFailureAccrualPatch :: "int \<Rightarrow> int \<Rightarrow> gtime \<Rightarrow> ExitAccrual" where
  "WakeFailureAccrualPatch priorAttempts maxAttempts until =
     exitAccrual ''wake_attempts'' (wrap64 (priorAttempts + 1)) maxAttempts SleepReasonQuarantine until"

definition ChurnAccrualPatch :: "int \<Rightarrow> int \<Rightarrow> gtime \<Rightarrow> ExitAccrual" where
  "ChurnAccrualPatch priorCycles maxCycles until =
     exitAccrual ''churn_count'' (wrap64 (priorCycles + 1)) maxCycles SleepReasonContextChurn until"

definition ConversationResetPatch :: "bool \<Rightarrow> MetadataPatch" where
  "ConversationResetPatch clearStartedConfigHash =
     (let patch = map_of [(''session_key'', []), (''continuation_reset_pending'', ''true'')]
      in if clearStartedConfigHash then clearPrimingMarkers (patch(''started_config_hash'' \<mapsto> [])) else patch)"

definition RateLimitQuarantinePatch :: "gtime \<Rightarrow> MetadataPatch" where
  "RateLimitQuarantinePatch until =
     map_of [(''state'', StateAsleep), (''quarantined_until'', FormatRFC3339 until),
             (''sleep_reason'', SleepReasonRateLimit), (''last_woke_at'', []), (''pending_create_claim'', []),
             (''pending_create_started_at'', [])]"

section \<open>Canonical identity\<close>

record CanonicalIdentity =
  QualifiedInstanceName :: string
  PoolSlot :: int
  Present :: bool

definition zero_CanonicalIdentity :: CanonicalIdentity where
  "zero_CanonicalIdentity = \<lparr>QualifiedInstanceName = [], PoolSlot = 0, Present = False\<rparr>"

definition parseCanonicalSlot :: "string \<Rightarrow> int" where
  "parseCanonicalSlot raw =
     (let v = TrimSpace raw
      in if v \<noteq> [] then (case atoi v of Some n \<Rightarrow> if n > 0 then n else 0 | None \<Rightarrow> 0) else 0)"

definition canonicalIdentityFrom :: "string \<Rightarrow> string \<Rightarrow> CanonicalIdentity" where
  "canonicalIdentityFrom rawName rawSlot =
     (let name = TrimSpace rawName
      in if name = [] then zero_CanonicalIdentity
         else \<lparr>QualifiedInstanceName = name, PoolSlot = parseCanonicalSlot rawSlot, Present = True\<rparr>)"

definition CanonicalIdentityFromMetadata :: "strmap \<Rightarrow> CanonicalIdentity" where
  "CanonicalIdentityFromMetadata meta =
     canonicalIdentityFrom (mget meta CanonicalInstanceNameMetadata) (mget meta CanonicalPoolSlotMetadata)"

end
