(* ===== verification/Session_Projection.thy ===== *)
theory Session_Projection
  imports Session_Patches
begin

text \<open>
  The lifecycle projection (\<open>internal/session/lifecycle_projection.go\<close>): what the controller concludes
  from a session bead's stored metadata together with runtime and configuration facts.  Base
  states, wake causes and blockers stay strings because stored values are passed through; the
  closed enumerations are datatypes.  The variants that read a typed \<open>Info\<close> snapshot instead of the
  metadata map are not modelled.
\<close>

section \<open>Vocabulary\<close>

type_synonym BaseState = string
type_synonym LifecycleBlocker = string
type_synonym WakeCause = string

definition BaseStateNone :: BaseState where "BaseStateNone = []"
definition BaseStateCreating :: BaseState where "BaseStateCreating = ''creating''"
definition BaseStateStartPending :: BaseState where "BaseStateStartPending = ''start-pending''"
definition BaseStateActive :: BaseState where "BaseStateActive = ''active''"
definition BaseStateAsleep :: BaseState where "BaseStateAsleep = ''asleep''"
definition BaseStateSuspended :: BaseState where "BaseStateSuspended = ''suspended''"
definition BaseStateFailedCreate :: BaseState where "BaseStateFailedCreate = ''failed-create''"
definition BaseStateDraining :: BaseState where "BaseStateDraining = ''draining''"
definition BaseStateDrained :: BaseState where "BaseStateDrained = ''drained''"
definition BaseStateArchived :: BaseState where "BaseStateArchived = ''archived''"
definition BaseStateOrphaned :: BaseState where "BaseStateOrphaned = ''orphaned''"
definition BaseStateClosed :: BaseState where "BaseStateClosed = ''closed''"
definition BaseStateClosing :: BaseState where "BaseStateClosing = ''closing''"
definition BaseStateQuarantined :: BaseState where "BaseStateQuarantined = ''quarantined''"
definition BaseStateStopped :: BaseState where "BaseStateStopped = ''stopped''"

lemmas base_defs = BaseStateNone_def BaseStateCreating_def BaseStateStartPending_def BaseStateActive_def
  BaseStateAsleep_def BaseStateSuspended_def BaseStateFailedCreate_def BaseStateDraining_def
  BaseStateDrained_def BaseStateArchived_def BaseStateOrphaned_def BaseStateClosed_def
  BaseStateClosing_def BaseStateQuarantined_def BaseStateStopped_def

datatype DesiredState = DesiredStateUndesired | DesiredStateAsleep | DesiredStateRunning | DesiredStateBlocked

datatype RuntimeProjection = RuntimeProjectionUnknown | RuntimeProjectionAlive | RuntimeProjectionMissing
  | RuntimeProjectionFreshCreating | RuntimeProjectionStaleCreating | RuntimeProjectionStartRequested

datatype IdentityProjection = IdentityNone | IdentityConcrete | IdentityCanonical | IdentityHistorical
  | IdentityReservedUnmaterialized | IdentityConflict

definition BlockerHeld :: LifecycleBlocker where "BlockerHeld = ''held''"
definition BlockerQuarantined :: LifecycleBlocker where "BlockerQuarantined = ''quarantined''"
definition BlockerMissingConfig :: LifecycleBlocker where "BlockerMissingConfig = ''missing-config''"
definition BlockerIdentityConflict :: LifecycleBlocker where "BlockerIdentityConflict = ''identity-conflict''"
definition BlockerDuplicateCanonical :: LifecycleBlocker where "BlockerDuplicateCanonical = ''duplicate-canonical''"

lemmas blocker_defs = BlockerHeld_def BlockerQuarantined_def BlockerMissingConfig_def
  BlockerIdentityConflict_def BlockerDuplicateCanonical_def

definition WakeCausePendingCreate :: WakeCause where "WakeCausePendingCreate = ''pending-create''"
definition WakeCausePinned :: WakeCause where "WakeCausePinned = ''pin''"
definition WakeCauseAttached :: WakeCause where "WakeCauseAttached = ''attached''"
definition WakeCausePending :: WakeCause where "WakeCausePending = ''pending''"
definition WakeCauseNamedAlways :: WakeCause where "WakeCauseNamedAlways = ''named-always''"
definition WakeCauseWork :: WakeCause where "WakeCauseWork = ''work''"
definition WakeCauseScaleDemand :: WakeCause where "WakeCauseScaleDemand = ''scale-demand''"
definition WakeCauseExplicit :: WakeCause where "WakeCauseExplicit = ''explicit''"

lemmas cause_defs = WakeCausePendingCreate_def WakeCausePinned_def WakeCauseAttached_def WakeCausePending_def
  WakeCauseNamedAlways_def WakeCauseWork_def WakeCauseScaleDemand_def WakeCauseExplicit_def

record RuntimeFacts =
  rfObserved :: bool
  rfAlive :: bool
  rfAttached :: bool
  rfPending :: bool

record NamedIdentityInput =
  niIdentity :: string
  niConfigured :: bool
  niHasCanonicalBead :: bool
  niConflict :: bool
  niDuplicateCanonical :: bool

record LifecycleInput =
  liStatus :: string
  liStoredState :: string
  liSleepReason :: string
  liContinuityEligible :: string
  liConfiguredNamedIdentity :: string
  liHeldUntil :: string
  liQuarantinedUntil :: string
  liPendingCreateClaim :: bool
  liLastWokeAt :: string
  liSessionKey :: string
  liStartedConfigHash :: string
  liPendingCreateStartedAt :: string
  liPinAwake :: string
  liWakeRequest :: string
  liRuntime :: RuntimeFacts
  liNamedIdentity :: NamedIdentityInput
  liWakeCauses :: "WakeCause list"
  liPreserveIdentity :: bool
  liConfigMissing :: bool
  liCreatedAt :: gtime
  liStaleCreatingAfter :: int
  liNow :: gtime

definition NamedSessionIdentityMetadata :: string where
  "NamedSessionIdentityMetadata = ''configured_named_identity''"

definition zero_RuntimeFacts :: RuntimeFacts where
  "zero_RuntimeFacts = \<lparr>rfObserved = False, rfAlive = False, rfAttached = False, rfPending = False\<rparr>"

definition zero_NamedIdentityInput :: NamedIdentityInput where
  "zero_NamedIdentityInput = \<lparr>niIdentity = [], niConfigured = False, niHasCanonicalBead = False,
     niConflict = False, niDuplicateCanonical = False\<rparr>"

definition LifecycleInputFromMetadata :: "string \<Rightarrow> strmap \<Rightarrow> LifecycleInput" where
  "LifecycleInputFromMetadata status meta =
     \<lparr>liStatus = status, liStoredState = mget meta ''state'', liSleepReason = mget meta ''sleep_reason'',
      liContinuityEligible = mget meta ''continuity_eligible'',
      liConfiguredNamedIdentity = mget meta NamedSessionIdentityMetadata,
      liHeldUntil = mget meta ''held_until'', liQuarantinedUntil = mget meta ''quarantined_until'',
      liPendingCreateClaim = (TrimSpace (mget meta ''pending_create_claim'') = ''true''),
      liLastWokeAt = mget meta ''last_woke_at'', liSessionKey = mget meta ''session_key'',
      liStartedConfigHash = mget meta ''started_config_hash'',
      liPendingCreateStartedAt = mget meta ''pending_create_started_at'',
      liPinAwake = mget meta ''pin_awake'', liWakeRequest = mget meta ''wake_request'',
      liRuntime = zero_RuntimeFacts, liNamedIdentity = zero_NamedIdentityInput, liWakeCauses = [],
      liPreserveIdentity = False, liConfigMissing = False, liCreatedAt = zero_time,
      liStaleCreatingAfter = 0, liNow = zero_time\<rparr>"

record LifecycleView =
  vBaseState :: BaseState
  vCompatState :: State
  vStoredState :: string
  vDesiredState :: DesiredState
  vRuntimeProjection :: RuntimeProjection
  vIdentity :: IdentityProjection
  vNamedIdentity :: string
  vBlockers :: "LifecycleBlocker list"
  vWakeCauses :: "WakeCause list"
  vHeldUntil :: gtime
  vQuarantinedUntil :: gtime
  vContinuityEligible :: bool
  vTerminal :: bool
  vCountsAgainstCap :: bool
  vRuntimeAlive :: bool
  vRuntimeAttached :: bool
  vReconciledState :: State
  vResetContinuation :: bool

fun HasBlocker_loop :: "LifecycleBlocker list \<Rightarrow> LifecycleBlocker \<Rightarrow> bool" where
  "HasBlocker_loop [] blocker = False"
| "HasBlocker_loop (got # bs) blocker = (if got = blocker then True else HasBlocker_loop bs blocker)"

definition HasBlocker :: "LifecycleView \<Rightarrow> LifecycleBlocker \<Rightarrow> bool" where
  "HasBlocker v blocker = HasBlocker_loop (vBlockers v) blocker"

fun hasWakeCause :: "WakeCause list \<Rightarrow> WakeCause \<Rightarrow> bool" where
  "hasWakeCause [] cause = False"
| "hasWakeCause (existing # cs) cause = (if existing = cause then True else hasWakeCause cs cause)"

definition HasWakeCause :: "LifecycleView \<Rightarrow> WakeCause \<Rightarrow> bool" where
  "HasWakeCause v cause = hasWakeCause (vWakeCauses v) cause"

section \<open>The parts of the projection\<close>

definition projectBaseState :: "string \<Rightarrow> string \<Rightarrow> string \<Rightarrow> BaseState" where
  "projectBaseState status storedState sleepReason =
     (if TrimSpace status = ''closed'' then BaseStateClosed
      else let s = TrimSpace storedState in
        if s = [] then BaseStateNone
        else if s = StateStartPending then BaseStateStartPending
        else if s = StateCreating then BaseStateCreating
        else if s = StateActive \<or> s = StateAwake then BaseStateActive
        else if s = StateAsleep then (if sleepReason = ''drained'' then BaseStateDrained else BaseStateAsleep)
        else if s = StateSuspended then BaseStateSuspended
        else if s = StateFailedCreate then BaseStateFailedCreate
        else if s = StateDraining then BaseStateDraining
        else if s = ''drained'' then BaseStateDrained
        else if s = StateArchived then BaseStateArchived
        else if s = ''orphaned'' then BaseStateOrphaned
        else if s = ''closed'' then BaseStateClosed
        else if s = ''closing'' then BaseStateClosing
        else if s = StateQuarantined then BaseStateQuarantined
        else if s = ''stopped'' then BaseStateStopped
        else s)"

definition compatStateForBase :: "BaseState \<Rightarrow> State" where
  "compatStateForBase base =
     (if base = BaseStateStartPending then StateStartPending
      else if base = BaseStateCreating then StateCreating
      else if base = BaseStateActive then StateActive
      else if base = BaseStateAsleep \<or> base = BaseStateDrained \<or> base = BaseStateStopped then StateAsleep
      else if base = BaseStateSuspended then StateSuspended
      else if base = BaseStateFailedCreate then StateFailedCreate
      else if base = BaseStateDraining then StateDraining
      else if base = BaseStateArchived then StateArchived
      else if base = BaseStateQuarantined then StateQuarantined
      else if base = BaseStateClosed then ''closed''
      else if base = BaseStateClosing then ''closing''
      else if base = BaseStateOrphaned then ''orphaned''
      else base)"

definition projectContinuityEligibility :: "BaseState \<Rightarrow> string \<Rightarrow> bool" where
  "projectContinuityEligibility base raw =
     (if base = BaseStateNone \<or> base = BaseStateClosed \<or> base = BaseStateClosing then False
      else if raw = ''false'' then False
      else if base = BaseStateArchived then raw = ''true''
      else True)"

definition projectIdentity :: "LifecycleInput \<Rightarrow> string \<Rightarrow> BaseState \<Rightarrow> bool \<Rightarrow> IdentityProjection" where
  "projectIdentity input namedIdentity base continuityEligible =
     (let hasBead = (base \<noteq> BaseStateNone); ni = liNamedIdentity input in
      if namedIdentity \<noteq> [] \<and> hasBead then (if continuityEligible then IdentityCanonical else IdentityHistorical)
      else if niConfigured ni \<and> niConflict ni \<and> \<not> niHasCanonicalBead ni then IdentityConflict
      else if niConfigured ni \<and> \<not> niHasCanonicalBead ni then IdentityReservedUnmaterialized
      else if hasBead then IdentityConcrete
      else IdentityNone)"

fun blocker_known :: "LifecycleBlocker list \<Rightarrow> LifecycleBlocker \<Rightarrow> bool" where
  "blocker_known [] blocker = False"
| "blocker_known (existing # bs) blocker = (if existing = blocker then True else blocker_known bs blocker)"

definition appendUniqueBlocker :: "LifecycleBlocker list \<Rightarrow> LifecycleBlocker \<Rightarrow> LifecycleBlocker list" where
  "appendUniqueBlocker blockers blocker =
     (if blocker = [] then blockers else if blocker_known blockers blocker then blockers else blockers @ [blocker])"

definition appendUniqueWakeCause :: "WakeCause list \<Rightarrow> WakeCause \<Rightarrow> WakeCause list" where
  "appendUniqueWakeCause causes cause =
     (if cause = [] then causes else if hasWakeCause causes cause then causes else causes @ [cause])"

text \<open>A stored deadline counts when it parses and is not the zero time.\<close>

definition stored_deadline :: "string \<Rightarrow> gtime" where
  "stored_deadline raw =
     (case ParseRFC3339 (TrimSpace raw) of Some t \<Rightarrow> if \<not> IsZero t then t else zero_time | None \<Rightarrow> zero_time)"

definition projectBlockers ::
    "LifecycleInput \<Rightarrow> gtime \<Rightarrow> BaseState \<Rightarrow> IdentityProjection \<Rightarrow> LifecycleBlocker list \<times> gtime \<times> gtime" where
  "projectBlockers input now base identity =
     (let b0 = (if liConfigMissing input \<or> base = BaseStateOrphaned
                then appendUniqueBlocker [] BlockerMissingConfig else []);
          b1 = (if identity = IdentityConflict \<or> (niConfigured (liNamedIdentity input) \<and> niConflict (liNamedIdentity input))
                then appendUniqueBlocker b0 BlockerIdentityConflict else b0);
          b2 = (if niDuplicateCanonical (liNamedIdentity input)
                then appendUniqueBlocker b1 BlockerDuplicateCanonical else b1);
          heldUntil = stored_deadline (liHeldUntil input);
          b3 = (if \<not> IsZero heldUntil \<and> now < heldUntil then appendUniqueBlocker b2 BlockerHeld else b2);
          quarantinedUntil = stored_deadline (liQuarantinedUntil input);
          b4 = (if \<not> IsZero quarantinedUntil \<and> now < quarantinedUntil
                then appendUniqueBlocker b3 BlockerQuarantined else b3)
      in (b4, heldUntil, quarantinedUntil))"

definition creatingStateIsStale :: "gtime \<Rightarrow> LifecycleInput \<Rightarrow> bool" where
  "creatingStateIsStale clock input =
     (if liStaleCreatingAfter input \<le> 0 then False
      else let now = (if IsZero (liNow input) then clock else liNow input);
               v = TrimSpace (liPendingCreateStartedAt input);
               startedAt = (if v \<noteq> []
                            then (case ParseRFC3339 v of
                                    Some t \<Rightarrow> if \<not> IsZero t then t else liCreatedAt input
                                  | None \<Rightarrow> liCreatedAt input)
                            else liCreatedAt input)
           in if IsZero startedAt then True else \<not> now < startedAt + liStaleCreatingAfter input)"

definition shouldResetContinuation :: "BaseState \<Rightarrow> LifecycleInput \<Rightarrow> string \<Rightarrow> bool" where
  "shouldResetContinuation base input sleepReason =
     (if TrimSpace (liSessionKey input) = [] \<and> TrimSpace (liStartedConfigHash input) = [] then False
      else if TrimSpace sleepReason \<in> set [SleepReasonIdle, SleepReasonIdleTimeout, SleepReasonNoWakeReason,
          SleepReasonConfigDrift, SleepReasonDrained, SleepReasonCityStop, SleepReasonUserHold,
          SleepReasonWaitHold, SleepReasonRateLimit, SleepReasonRuntimeMissing] then False
      else base = BaseStateActive \<or> base = BaseStateCreating)"

definition projectRuntimeProjection ::
    "gtime \<Rightarrow> LifecycleInput \<Rightarrow> BaseState \<Rightarrow> State \<Rightarrow> string \<Rightarrow> WakeCause list \<Rightarrow> RuntimeProjection \<times> State \<times> bool" where
  "projectRuntimeProjection clock input base compatState sleepReason wakeCauses =
     (if \<not> rfObserved (liRuntime input) then (RuntimeProjectionUnknown, compatState, False)
      else if rfAlive (liRuntime input) then (RuntimeProjectionAlive, StateAwake, False)
      else if base = BaseStateNone \<or> base = BaseStateClosed \<or> base = BaseStateClosing
      then (RuntimeProjectionMissing, compatState, False)
      else if base = BaseStateStartPending then (RuntimeProjectionStartRequested, StateStartPending, False)
      else if base = BaseStateCreating then
        (if liPendingCreateClaim input \<and> TrimSpace (liLastWokeAt input) = []
         then (RuntimeProjectionStartRequested, StateStartPending, False)
         else if \<not> creatingStateIsStale clock input then
           (if hasWakeCause wakeCauses WakeCausePendingCreate
            then (RuntimeProjectionStartRequested, StateCreating, False)
            else (RuntimeProjectionFreshCreating, StateCreating, False))
         else (RuntimeProjectionStaleCreating, StateAsleep, shouldResetContinuation base input sleepReason))
      else if base = BaseStateFailedCreate then (RuntimeProjectionMissing, StateFailedCreate, False)
      else if hasWakeCause wakeCauses WakeCausePendingCreate
      then (RuntimeProjectionStartRequested, StateStartPending, False)
      else (RuntimeProjectionMissing, StateAsleep, shouldResetContinuation base input sleepReason))"

definition projectWakeCauses :: "LifecycleInput \<Rightarrow> WakeCause list" where
  "projectWakeCauses input =
     (let c0 = foldl appendUniqueWakeCause [] (liWakeCauses input);
          c1 = (if liPendingCreateClaim input then appendUniqueWakeCause c0 WakeCausePendingCreate else c0);
          c2 = (if TrimSpace (liWakeRequest input) = WakeCauseExplicit
                then appendUniqueWakeCause c1 WakeCauseExplicit else c1);
          c3 = (if TrimSpace (liPinAwake input) = ''true'' then appendUniqueWakeCause c2 WakeCausePinned else c2);
          c4 = (if rfAttached (liRuntime input) then appendUniqueWakeCause c3 WakeCauseAttached else c3)
      in if rfPending (liRuntime input) then appendUniqueWakeCause c4 WakeCausePending else c4)"

definition projectDesiredState ::
    "LifecycleInput \<Rightarrow> bool \<Rightarrow> LifecycleBlocker list \<Rightarrow> WakeCause list \<Rightarrow> DesiredState" where
  "projectDesiredState input terminal blockers wakeCauses =
     (if terminal then DesiredStateUndesired
      else if length wakeCauses > 0 then
        (if length blockers > 0 then DesiredStateBlocked else DesiredStateRunning)
      else if liPreserveIdentity input then DesiredStateAsleep
      else DesiredStateUndesired)"

definition countsAgainstCapacity :: "BaseState \<Rightarrow> bool" where
  "countsAgainstCapacity base \<longleftrightarrow>
     base \<in> set [BaseStateStartPending, BaseStateCreating, BaseStateActive, BaseStateDraining, BaseStateQuarantined]"

section \<open>The projection\<close>

definition ProjectLifecycle :: "gtime \<Rightarrow> LifecycleInput \<Rightarrow> LifecycleView" where
  "ProjectLifecycle clock input =
     (let now = (if IsZero (liNow input) then clock else liNow input);
          storedState = TrimSpace (liStoredState input);
          sleepReason = TrimSpace (liSleepReason input);
          baseState = projectBaseState (liStatus input) storedState sleepReason;
          compatState = compatStateForBase baseState;
          terminal = (baseState = BaseStateClosed \<or> baseState = BaseStateClosing);
          continuityEligible = projectContinuityEligibility baseState (TrimSpace (liContinuityEligible input));
          ni = TrimSpace (niIdentity (liNamedIdentity input));
          namedIdentity = (if ni = [] then TrimSpace (liConfiguredNamedIdentity input) else ni);
          identity = projectIdentity input namedIdentity baseState continuityEligible;
          wakeCauses = projectWakeCauses input;
          (runtimeProjection, reconciledState, resetContinuation) =
            projectRuntimeProjection clock input baseState compatState sleepReason wakeCauses;
          (blockers, heldUntil, quarantinedUntil) = projectBlockers input now baseState identity;
          desired = projectDesiredState input terminal blockers wakeCauses
      in \<lparr>vBaseState = baseState, vCompatState = compatState, vStoredState = storedState, vDesiredState = desired,
          vRuntimeProjection = runtimeProjection, vIdentity = identity, vNamedIdentity = namedIdentity,
          vBlockers = blockers, vWakeCauses = wakeCauses, vHeldUntil = heldUntil,
          vQuarantinedUntil = quarantinedUntil, vContinuityEligible = continuityEligible, vTerminal = terminal,
          vCountsAgainstCap = countsAgainstCapacity baseState, vRuntimeAlive = rfAlive (liRuntime input),
          vRuntimeAttached = rfAttached (liRuntime input), vReconciledState = reconciledState,
          vResetContinuation = resetContinuation\<rparr>)"

section \<open>Display reasons and identity release\<close>

definition LifecycleReasonResetPending :: string where "LifecycleReasonResetPending = ''reset-pending''"
definition LifecycleReasonCircuitOpen :: string where "LifecycleReasonCircuitOpen = ''circuit-open''"
definition SessionCircuitStateMetadataKey :: string where "SessionCircuitStateMetadataKey = ''session_circuit_state''"
definition SessionCircuitStateOpen :: string where "SessionCircuitStateOpen = ''CIRCUIT_OPEN''"

definition lifecycleDisplayReasonFromView :: "LifecycleView \<Rightarrow> strmap \<Rightarrow> string" where
  "lifecycleDisplayReasonFromView view metadata =
     (let raw = TrimSpace (mget metadata ''sleep_reason'');
          staleTimedQuarantine = ((raw = SleepReasonQuarantine \<or> raw = SleepReasonContextChurn \<or> raw = SleepReasonRateLimit)
            \<and> TrimSpace (mget metadata ''quarantined_until'') \<noteq> [] \<and> \<not> HasBlocker view BlockerQuarantined);
          staleTimedHold = (raw = SleepReasonUserHold \<and> TrimSpace (mget metadata ''held_until'') \<noteq> []
            \<and> \<not> HasBlocker view BlockerHeld)
      in if vTerminal view then []
         else if vBaseState view = BaseStateArchived \<and> \<not> vContinuityEligible view then []
         else if TrimSpace (mget metadata SessionCircuitStateMetadataKey) = SessionCircuitStateOpen
         then LifecycleReasonCircuitOpen
         else if raw \<noteq> [] \<and> \<not> staleTimedQuarantine \<and> \<not> staleTimedHold then raw
         else if HasBlocker view BlockerQuarantined then SleepReasonQuarantine
         else if TrimSpace (mget metadata ''wait_hold'') \<noteq> [] then SleepReasonWaitHold
         else if HasBlocker view BlockerHeld then SleepReasonUserHold
         else [])"

text \<open>The metadata argument of the display functions is a map that may be nil; the running check is a
  function that may be nil.\<close>

definition lifecycleResetPendingReasonVisible ::
    "LifecycleView \<Rightarrow> strmap \<Rightarrow> string \<Rightarrow> (string \<Rightarrow> bool) option \<Rightarrow> bool" where
  "lifecycleResetPendingReasonVisible view metadata sessionName isRunning =
     (if vTerminal view \<or> (vBaseState view = BaseStateArchived \<and> \<not> vContinuityEligible view) then False
      else (case isRunning of
              None \<Rightarrow> False
            | Some running \<Rightarrow>
                if TrimSpace (mget metadata ''restart_requested'') \<noteq> ''true''
                   \<and> TrimSpace (mget metadata ''continuation_reset_pending'') \<noteq> ''true'' then False
                else let sn = TrimSpace sessionName;
                         name = (if sn = [] then TrimSpace (mget metadata ''session_name'') else sn)
                     in name \<noteq> [] \<and> running name))"

definition LifecycleDisplayReason :: "gtime \<Rightarrow> string \<Rightarrow> strmap option \<Rightarrow> gtime \<Rightarrow> string" where
  "LifecycleDisplayReason clock status metadata now =
     (case metadata of
        None \<Rightarrow> []
      | Some md \<Rightarrow>
          let view = ProjectLifecycle clock ((LifecycleInputFromMetadata status md)\<lparr>liNow := now\<rparr>)
          in lifecycleDisplayReasonFromView view md)"

definition LifecycleDisplayReasonWithLiveness ::
    "gtime \<Rightarrow> string \<Rightarrow> strmap option \<Rightarrow> gtime \<Rightarrow> string \<Rightarrow> (string \<Rightarrow> bool) option \<Rightarrow> string" where
  "LifecycleDisplayReasonWithLiveness clock status metadata now sessionName isRunning =
     (case metadata of
        None \<Rightarrow> []
      | Some md \<Rightarrow>
          let view = ProjectLifecycle clock ((LifecycleInputFromMetadata status md)\<lparr>liNow := now\<rparr>)
          in if lifecycleResetPendingReasonVisible view md sessionName isRunning then LifecycleReasonResetPending
             else lifecycleDisplayReasonFromView view md)"

definition LifecycleResetPendingReasonVisible ::
    "gtime \<Rightarrow> string \<Rightarrow> strmap option \<Rightarrow> gtime \<Rightarrow> string \<Rightarrow> (string \<Rightarrow> bool) option \<Rightarrow> bool" where
  "LifecycleResetPendingReasonVisible clock status metadata now sessionName isRunning =
     (case metadata of
        None \<Rightarrow> False
      | Some md \<Rightarrow>
          lifecycleResetPendingReasonVisible
            (ProjectLifecycle clock ((LifecycleInputFromMetadata status md)\<lparr>liNow := now\<rparr>)) md sessionName isRunning)"

definition lifecycleWakeConflictState :: "LifecycleView \<Rightarrow> string \<times> bool" where
  "lifecycleWakeConflictState view =
     (if vBaseState view = BaseStateClosed then (BaseStateClosed, True)
      else if vBaseState view = BaseStateClosing then
        (if vStoredState view \<noteq> [] then (vStoredState view, True) else (vBaseState view, True))
      else if vBaseState view = BaseStateArchived then
        (if \<not> vContinuityEligible view then (BaseStateArchived, True) else ([], False))
      else ([], False))"

definition LifecycleWakeConflictState :: "gtime \<Rightarrow> string \<Rightarrow> strmap \<Rightarrow> string \<times> bool" where
  "LifecycleWakeConflictState clock status metadata =
     lifecycleWakeConflictState (ProjectLifecycle clock (LifecycleInputFromMetadata status metadata))"

definition LifecycleIdentifiersReleased :: "strmap \<Rightarrow> bool" where
  "LifecycleIdentifiersReleased metadata \<longleftrightarrow>
     TrimSpace (mget metadata ''alias'') = [] \<and> TrimSpace (mget metadata ''session_name'') = [] \<and>
     TrimSpace (mget metadata ''session_name_explicit'') = []"

definition LifecycleIdentityReleased :: "gtime \<Rightarrow> string \<Rightarrow> strmap \<Rightarrow> bool" where
  "LifecycleIdentityReleased clock status metadata \<longleftrightarrow>
     (let view = ProjectLifecycle clock (LifecycleInputFromMetadata status metadata)
      in \<not> vContinuityEligible view \<and> LifecycleIdentifiersReleased metadata)"

end
