(* ===== verification/Session_Decide.thy ===== *)
theory Session_Decide
  imports Session_Patches
begin

text \<open>
  The pure deciders of the session reconciler: the lifecycle timers (\<open>lifecycle_timers.go\<close>), the
  classification of a dead session's exit (\<open>lifecycle_exits.go\<close>) and the pending-create lease
  (\<open>pending_create_lease.go\<close>).  Facts that cost a probe are three-valued; a decider that needs an
  unknown one answers with the action that gathers it.
\<close>

section \<open>Timers\<close>

datatype PendingFact = PendingUnknown | PendingNo | PendingYes
datatype AssignedWorkFact = AssignedWorkUnknown | AssignedWorkNone | AssignedWorkHas
datatype TimerAction = TimerActionNone | TimerActionGatherPending | TimerActionGatherAssignedWork
  | TimerActionDefer | TimerActionStop

record TimerFacts =
  tfTriggered :: bool
  tfBlocker :: string
  tfPending :: PendingFact
  tfAssignedWork :: AssignedWorkFact

record TimerDecision =
  tdAction :: TimerAction
  tdTraceReason :: string
  tdTraceOutcome :: string
  tdSleepReason :: string
  tdCancelDrain :: bool
  tdSkipWakePass :: bool

definition timer_action :: "TimerAction \<Rightarrow> TimerDecision" where
  "timer_action a = \<lparr>tdAction = a, tdTraceReason = [], tdTraceOutcome = [], tdSleepReason = [],
     tdCancelDrain = False, tdSkipWakePass = False\<rparr>"

definition deferDecision :: "string \<Rightarrow> string \<Rightarrow> TimerDecision" where
  "deferDecision reason outcome =
     (timer_action TimerActionDefer)\<lparr>tdTraceReason := reason, tdTraceOutcome := outcome\<rparr>"

definition stop_decision :: "string \<Rightarrow> string \<Rightarrow> string \<Rightarrow> TimerDecision" where
  "stop_decision reason outcome sleepReason =
     (timer_action TimerActionStop)\<lparr>tdTraceReason := reason, tdTraceOutcome := outcome, tdSleepReason := sleepReason\<rparr>"

definition DecideMaxSessionAge :: "TimerFacts \<Rightarrow> TimerDecision" where
  "DecideMaxSessionAge f =
     (if \<not> tfTriggered f then timer_action TimerActionNone
      else if tfBlocker f \<noteq> [] then deferDecision (tfBlocker f) (''deferred_'' @ tfBlocker f)
      else case tfPending f of
             PendingUnknown \<Rightarrow> timer_action TimerActionGatherPending
           | PendingYes \<Rightarrow> deferDecision ''pending'' ''deferred_pending''
           | PendingNo \<Rightarrow>
               (case tfAssignedWork f of
                  AssignedWorkUnknown \<Rightarrow> timer_action TimerActionGatherAssignedWork
                | AssignedWorkHas \<Rightarrow> deferDecision ''assigned_work'' ''deferred_busy''
                | AssignedWorkNone \<Rightarrow> stop_decision ''max_session_age'' ''stop'' SleepReasonMaxSessionAge))"

definition DecideIdleTimeout :: "TimerFacts \<Rightarrow> TimerDecision" where
  "DecideIdleTimeout f =
     (if \<not> tfTriggered f then timer_action TimerActionNone
      else if tfBlocker f \<noteq> [] then deferDecision (tfBlocker f) (''deferred_'' @ tfBlocker f)
      else case tfPending f of
             PendingUnknown \<Rightarrow> timer_action TimerActionGatherPending
           | PendingYes \<Rightarrow>
               (deferDecision ''pending'' ''deferred_pending'')\<lparr>tdCancelDrain := True, tdSkipWakePass := True\<rparr>
           | PendingNo \<Rightarrow>
               (case tfAssignedWork f of
                  AssignedWorkUnknown \<Rightarrow> timer_action TimerActionGatherAssignedWork
                | AssignedWorkHas \<Rightarrow> deferDecision ''assigned_work'' ''deferred_busy''
                | AssignedWorkNone \<Rightarrow> stop_decision ''idle_timeout'' ''stop'' SleepReasonIdleTimeout))"

definition DecideAssignedWorkExhausted :: TimerDecision where
  "DecideAssignedWorkExhausted =
     stop_decision ''assigned_work_exhausted'' ''stop_defer_exhausted'' SleepReasonAssignedWorkExhausted"

section \<open>Exits\<close>

datatype ScreenFact = ScreenUnknown | ScreenRateLimit | ScreenOther
datatype ExitOutcome = ExitNone | ExitGatherScreen | ExitRateLimitQuarantine | ExitRapidCrash | ExitChurn
  | ExitProductiveDeath

record ExitFacts =
  efAlive :: bool
  efSubprocessProvider :: bool
  efDrainPending :: bool
  efPendingCreateClaim :: bool
  efPendingCreateStartInFlight :: bool
  efSleepReason :: string
  efLastWokeAt :: string
  efNow :: gtime
  efStabilityThreshold :: int
  efProductivityThreshold :: int
  efScreenAvailable :: bool
  efScreen :: ScreenFact

definition parseWakeStamp :: "string \<Rightarrow> gtime \<times> bool" where
  "parseWakeStamp raw =
     (if raw = [] then (zero_time, False)
      else case ParseRFC3339 raw of None \<Rightarrow> (zero_time, False) | Some t \<Rightarrow> (t, True))"

definition DecideSessionExit :: "ExitFacts \<Rightarrow> ExitOutcome" where
  "DecideSessionExit f =
     (if efAlive f then ExitNone
      else case parseWakeStamp (efLastWokeAt f) of (woke, wokeValid) \<Rightarrow>
        let crashCandidate = (\<not> efSubprocessProvider f \<and> \<not> efDrainPending f \<and> wokeValid
              \<and> \<not> efPendingCreateStartInFlight f);
            elapsed = time_sub (efNow f) woke
        in if crashCandidate \<and> efScreenAvailable f \<and> efScreen f = ScreenUnknown then ExitGatherScreen
           else if crashCandidate \<and> efScreenAvailable f \<and> efScreen f = ScreenRateLimit then ExitRateLimitQuarantine
           else if crashCandidate \<and> elapsed < efStabilityThreshold f then ExitRapidCrash
           else if efPendingCreateClaim f \<or> efSubprocessProvider f \<or> efDrainPending f
                   \<or> IsDeliberateSleepReason (efSleepReason f) \<or> \<not> wokeValid then ExitNone
           else if elapsed < efStabilityThreshold f then ExitNone
           else if elapsed \<ge> efProductivityThreshold f then ExitProductiveDeath
           else ExitChurn)"

section \<open>The pending-create lease\<close>

record PendingCreateLease =
  lcClosed :: bool
  lcInstanceToken :: string
  lcGeneration :: string
  lcClaim :: bool
  lcState :: State

datatype LeaseCommitVerdict = LeaseCommit | LeaseDiscardStopRuntime

definition StateConfirmsPendingStart :: "State \<Rightarrow> bool" where
  "StateConfirmsPendingStart s \<longleftrightarrow> s \<in> set [[], StateStartPending, StateCreating, StateAsleep, StateDrained]"

definition SameIdentity :: "PendingCreateLease \<Rightarrow> PendingCreateLease \<Rightarrow> bool" where
  "SameIdentity l current =
     (if lcInstanceToken l \<noteq> [] then lcInstanceToken current = lcInstanceToken l
      else if lcGeneration l = [] then True
      else lcGeneration current = lcGeneration l)"

definition CommitVerdict :: "PendingCreateLease \<Rightarrow> PendingCreateLease \<Rightarrow> LeaseCommitVerdict" where
  "CommitVerdict l current =
     (if lcClosed current then LeaseDiscardStopRuntime
      else if \<not> SameIdentity l current then LeaseDiscardStopRuntime
      else if lcState current = StateAwake \<or> lcState current = StateActive then LeaseCommit
      else if lcClaim l \<and> \<not> lcClaim current then LeaseDiscardStopRuntime
      else if StateConfirmsPendingStart (lcState current) then LeaseCommit
      else LeaseDiscardStopRuntime)"

section \<open>Committing a start\<close>

text \<open>The two callers of \<open>CommitStartedPatch\<close> in \<open>cmd/gc/session_lifecycle_parallel.go\<close>: the commit of a start result and the
  recovery of a runtime that came up before its start was recorded.  Both read the session record through \<open>Info\<close>, whose fields
  are the metadata values.  A prepared start has the hash \<open>CoreFingerprint\<close> of its configuration; the hex digest in it, the JSON texts and
  the clock readings are arguments.\<close>

definition FingerprintVersion :: string where
  "FingerprintVersion = ''v5''"

definition CoreFingerprint :: "string \<Rightarrow> string" where
  "CoreFingerprint digest = FingerprintVersion @ '':'' @ digest"

record preparedStart =
  psCoreDigest :: string
  psLiveHash :: string
  psProvisionHash :: string
  psLaunchHash :: string
  psCoreBreakdown :: string
  psPromptDelivered :: bool
  psPromptHash :: string

definition confirmPendingStart :: "string \<Rightarrow> bool" where
  "confirmPendingStart currentState \<longleftrightarrow> StateConfirmsPendingStart (TrimSpace currentState)"

definition shouldRollbackPendingCreateInfo :: "strmap \<Rightarrow> bool" where
  "shouldRollbackPendingCreateInfo info \<longleftrightarrow> TrimSpace (mget info ''pending_create_claim'') = ''true''"

fun firstNonEmptyGCString :: "string list \<Rightarrow> string" where
  "firstNonEmptyGCString [] = []"
| "firstNonEmptyGCString (v # vs) = (if TrimSpace v \<noteq> [] then v else firstNonEmptyGCString vs)"

definition commitStartInput :: "strmap \<Rightarrow> preparedStart \<Rightarrow> gtime \<Rightarrow> gtime \<Rightarrow> CommitStartedPatchInput" where
  "commitStartInput info prepared t1 t2 =
     \<lparr>csCoreHash = CoreFingerprint (psCoreDigest prepared), csLiveHash = psLiveHash prepared,
      csProvisionHash = psProvisionHash prepared, csLaunchHash = psLaunchHash prepared,
      csCoreBreakdown = psCoreBreakdown prepared,
      csConfirmState = confirmPendingStart (mget info ''state''),
      csClearSleepReason = (mget info ''sleep_reason'' \<noteq> []),
      csClearPendingCreateClaim = shouldRollbackPendingCreateInfo info,
      csStartsAwakeInterval = confirmPendingStart (mget info ''state''), csNow = t2,
      csPrimedAt = (if psPromptDelivered prepared then t1 else zero_time),
      csPromptHash = (if psPromptDelivered prepared then psPromptHash prepared else [])\<rparr>"

definition commitStartMetadata :: "gtime \<Rightarrow> strmap \<Rightarrow> preparedStart \<Rightarrow> bool \<Rightarrow> string \<Rightarrow> gtime \<Rightarrow> gtime \<Rightarrow> MetadataPatch" where
  "commitStartMetadata clock info prepared isACP storedMCPSnapshot t1 t2 =
     (let metadata = CommitStartedPatch clock (commitStartInput info prepared t1 t2);
          mcpIdentity = mget info ''mcp_identity''; mcpServersSnapshot = mget info ''mcp_servers_snapshot'';
          metadata1 = (if storedMCPSnapshot \<noteq> [] \<or> mcpServersSnapshot \<noteq> []
                       then metadata(''mcp_servers_snapshot'' \<mapsto> storedMCPSnapshot) else metadata);
          storedMCPIdentity = firstNonEmptyGCString [mcpIdentity, mget info ''configured_named_identity'', mget info ''agent_name'']
      in if (isACP \<or> mcpIdentity \<noteq> [] \<or> mcpServersSnapshot \<noteq> []) \<and> (storedMCPIdentity \<noteq> [] \<or> mcpIdentity \<noteq> [])
         then metadata1(''mcp_identity'' \<mapsto> storedMCPIdentity) else metadata1)"

definition recoverRunningInput :: "strmap \<Rightarrow> preparedStart \<Rightarrow> gtime \<Rightarrow> CommitStartedPatchInput" where
  "recoverRunningInput info prepared now =
     \<lparr>csCoreHash = CoreFingerprint (psCoreDigest prepared), csLiveHash = psLiveHash prepared,
      csProvisionHash = psProvisionHash prepared, csLaunchHash = psLaunchHash prepared,
      csCoreBreakdown = psCoreBreakdown prepared,
      csConfirmState = (confirmPendingStart (mget info ''state'') \<or> TrimSpace (mget info ''state'') = StateAwake),
      csClearSleepReason = (mget info ''sleep_reason'' \<noteq> []), csClearPendingCreateClaim = True,
      csStartsAwakeInterval = confirmPendingStart (mget info ''state''), csNow = now,
      csPrimedAt = (if psPromptDelivered prepared then now else zero_time),
      csPromptHash = (if psPromptDelivered prepared then psPromptHash prepared else [])\<rparr>"

definition clearStaleResumeKeyMetadata :: MetadataPatch where
  "clearStaleResumeKeyMetadata =
     map_of [(''session_key'', []), (''started_config_hash'', []), (''continuation_reset_pending'', ''true''),
       (PrimedAtMetadataKey, []), (PrimingAttemptedAtMetadataKey, []), (PromptHashMetadataKey, [])]"

end
