(* ===== verification/Session_Properties.thy ===== *)
theory Session_Properties
  imports Session_Projection Session_Decide
begin

text \<open>
  Properties of the session lifecycle: invariants of stored metadata under the patches, and what
  the projection concludes after a patch has been applied.
\<close>

section \<open>Reading a patched map\<close>

lemma mget_Apply: "mget (Apply p m) k = (case p k of None \<Rightarrow> mget m k | Some v \<Rightarrow> v)"
  by (simp add: mget_def Apply_def map_add_def split: option.splits)

lemma clearPrimingMarkers_apply:
  "clearPrimingMarkers p k =
     (if k = ''primed_at'' \<or> k = ''priming_attempted_at'' \<or> k = ''prompt_hash'' then Some [] else p k)"
  by (simp add: clearPrimingMarkers_def primingResetKeys_def key_defs)

lemma applyFreshWake_apply:
  "applyFreshWakeConversationReset p k =
     (if k = ''primed_at'' \<or> k = ''priming_attempted_at'' \<or> k = ''prompt_hash'' \<or> k = ''started_config_hash''
         \<or> k = ''started_live_hash'' \<or> k = ''live_hash'' \<or> k = ''startup_dialog_verified'' then Some [] else p k)"
  by (simp add: applyFreshWakeConversationReset_def clearPrimingMarkers_apply key_defs)

lemmas patch_defs = RequestExplicitWakePatch_def RequestWakePatch_def PreWakePatch_def ContinuationResetWakePatch_def
  ClearWakeBlockersPatch_def ClearExpiredHoldPatch_def ClearExpiredQuarantinePatch_def ConfirmStartedPatch_def
  BeginDrainPatch_def DrainAckStopPendingPatch_def SleepPatch_def AcknowledgeDrainPatch_def
  CompleteDrainPatch_def RestartRequestPatch_def ConfigDriftResetPatch_def ArchivePatch_def ClosePatch_def
  RetireNamedSessionPatch_def freeCanonicalIdentityMetadata_def QuarantinePatch_def ReactivatePatch_def
  exitAccrual_def WakeFailureAccrualPatch_def ChurnAccrualPatch_def ConversationResetPatch_def
  RateLimitQuarantinePatch_def clearStaleResumeKeyMetadata_def Let_def

lemmas patch_apply = clearPrimingMarkers_apply applyFreshWake_apply

section \<open>Invariants of the stored metadata\<close>

text \<open>Every patch of the lifecycle as a step of the stored metadata, each with any arguments.  A start is committed by one of its
  two callers, from the metadata it is applied to; the clearing of a stale resume key precedes a start.\<close>

inductive patch_step :: "strmap \<Rightarrow> strmap \<Rightarrow> bool" where
  "patch_step m (Apply (RequestExplicitWakePatch clock reason now) m)"
| "patch_step m (Apply (RequestWakePatch clock reason now) m)"
| "patch_step m (Apply (PreWakePatch clock pw) m)"
| "patch_step m (Apply (ContinuationResetWakePatch clock now) m)"
| "patch_step m (Apply (ClearWakeBlockersPatch st sr) m)"
| "patch_step m (Apply (ClearExpiredHoldPatch sr) m)"
| "patch_step m (Apply (ClearExpiredQuarantinePatch sr) m)"
| "patch_step m (Apply (ConfirmStartedPatch clock now) m)"
| "patch_step m (Apply (commitStartMetadata clock m prepared acp mcp t1 t2) m)"
| "patch_step m (Apply (CommitStartedPatch clock (recoverRunningInput m prepared now)) m)"
| "patch_step m (Apply clearStaleResumeKeyMetadata m)"
| "patch_step m (Apply (BeginDrainPatch now reason) m)"
| "patch_step m (Apply (DrainAckStopPendingPatch now) m)"
| "patch_step m (Apply (SleepPatch now reason) m)"
| "patch_step m (Apply (AcknowledgeDrainPatch fresh) m)"
| "patch_step m (Apply (CompleteDrainPatch now reason fresh) m)"
| "patch_step m (Apply (RestartRequestPatch clock sk now) m)"
| "patch_step m (Apply (ConfigDriftResetPatch clock nst sk now) m)"
| "patch_step m (Apply (ArchivePatch now reason ce) m)"
| "patch_step m (Apply (ClosePatch now code) m)"
| "patch_step m (Apply (RetireNamedSessionPatch now reason ident) m)"
| "patch_step m (Apply (QuarantinePatch until cycle) m)"
| "patch_step m (Apply (ReactivatePatch ce) m)"
| "patch_step m (Apply (eaPatch (WakeFailureAccrualPatch a mx until)) m)"
| "patch_step m (Apply (eaPatch (ChurnAccrualPatch a mx until)) m)"
| "patch_step m (Apply (ConversationResetPatch c) m)"
| "patch_step m (Apply (RateLimitQuarantinePatch until) m)"

definition lease_inv :: "strmap \<Rightarrow> bool" where
  "lease_inv m \<longleftrightarrow> TrimSpace (mget m ''pending_create_claim'') = ''true'' \<longrightarrow> mget m ''pending_create_started_at'' \<noteq> []"

definition priming_inv :: "strmap \<Rightarrow> bool" where
  "priming_inv m \<longleftrightarrow> (mget m ''primed_at'' = [] \<longleftrightarrow> mget m ''prompt_hash'' = [])
     \<and> (mget m ''started_config_hash'' = [] \<longrightarrow> mget m ''primed_at'' = [])"

lemma pendingCreateStartedAt_not_Nil [simp]: "pendingCreateStartedAt clock now \<noteq> []"
  by (simp add: pendingCreateStartedAt_def)

lemma CoreFingerprint_not_Nil [simp]: "CoreFingerprint d \<noteq> []"
  by (simp add: CoreFingerprint_def FingerprintVersion_def)

text \<open>What a committed start writes to the keys of the two invariants.\<close>

lemma CommitStarted_keys:
  "CommitStartedPatch clock cs ''pending_create_claim'' = (if csClearPendingCreateClaim cs then Some [] else None)"
  "CommitStartedPatch clock cs ''pending_create_started_at'' = (if csConfirmState cs \<or> csClearPendingCreateClaim cs then Some [] else None)"
  "CommitStartedPatch clock cs ''started_config_hash'' = Some (csCoreHash cs)"
  "CommitStartedPatch clock cs ''primed_at'' =
     (if \<not> IsZero (csPrimedAt cs) \<and> csPromptHash cs \<noteq> [] then Some (FormatRFC3339 (csPrimedAt cs)) else None)"
  "CommitStartedPatch clock cs ''prompt_hash'' = (if \<not> IsZero (csPrimedAt cs) \<and> csPromptHash cs \<noteq> [] then Some (csPromptHash cs) else None)"
  by (simp_all add: CommitStartedPatch_def Let_def key_defs ResetCommittedAtKey_def)

text \<open>A committed start keeps the invariants when it records a hash and clears the claim it finds; both callers do.\<close>

lemma committed_start:
  assumes "csCoreHash cs \<noteq> []" and "TrimSpace (mget m ''pending_create_claim'') = ''true'' \<Longrightarrow> csClearPendingCreateClaim cs"
    and "\<And>k. k \<in> {''pending_create_claim'', ''pending_create_started_at'', ''started_config_hash'', ''primed_at'', ''prompt_hash''} \<Longrightarrow>
      p k = CommitStartedPatch clock cs k"
  shows "lease_inv m \<Longrightarrow> lease_inv (Apply p m)" and "priming_inv m \<Longrightarrow> priming_inv (Apply p m)"
  using assms by (auto simp: lease_inv_def priming_inv_def mget_Apply CommitStarted_keys)

lemma commit_steps:
  "lease_inv m \<Longrightarrow> lease_inv (Apply (commitStartMetadata clock m ps acp mcp t1 t2) m)"
  "priming_inv m \<Longrightarrow> priming_inv (Apply (commitStartMetadata clock m ps acp mcp t1 t2) m)"
  "lease_inv m \<Longrightarrow> lease_inv (Apply (CommitStartedPatch clock (recoverRunningInput m ps now)) m)"
  "priming_inv m \<Longrightarrow> priming_inv (Apply (CommitStartedPatch clock (recoverRunningInput m ps now)) m)"
proof -
  have c: "csCoreHash (commitStartInput m ps t1 t2) \<noteq> []"
    "TrimSpace (mget m ''pending_create_claim'') = ''true'' \<Longrightarrow> csClearPendingCreateClaim (commitStartInput m ps t1 t2)"
    by (simp_all add: commitStartInput_def shouldRollbackPendingCreateInfo_def)
  have "commitStartMetadata clock m ps acp mcp t1 t2 k = CommitStartedPatch clock (commitStartInput m ps t1 t2) k"
    if "k \<in> {''pending_create_claim'', ''pending_create_started_at'', ''started_config_hash'', ''primed_at'', ''prompt_hash''}" for k
    using that by (auto simp: commitStartMetadata_def Let_def)
  from committed_start [OF c this] show "lease_inv m \<Longrightarrow> lease_inv (Apply (commitStartMetadata clock m ps acp mcp t1 t2) m)"
    "priming_inv m \<Longrightarrow> priming_inv (Apply (commitStartMetadata clock m ps acp mcp t1 t2) m)" by blast+
  have "csCoreHash (recoverRunningInput m ps now) \<noteq> []" "csClearPendingCreateClaim (recoverRunningInput m ps now)"
    by (simp_all add: recoverRunningInput_def)
  from committed_start [OF this(1) this(2) refl] show "lease_inv m \<Longrightarrow> lease_inv (Apply (CommitStartedPatch clock (recoverRunningInput m ps now)) m)"
    "priming_inv m \<Longrightarrow> priming_inv (Apply (CommitStartedPatch clock (recoverRunningInput m ps now)) m)" by blast+
qed

lemma trimmed_true [simp]: "TrimSpace [] = []" "TrimSpace ''true'' = ''true''"
  by code_simp+

lemma lease_inv_step: "patch_step m m' \<Longrightarrow> lease_inv m \<Longrightarrow> lease_inv m'"
  by (induction rule: patch_step.induct; (erule commit_steps | auto simp: lease_inv_def mget_Apply patch_defs patch_apply key_defs))

lemma priming_inv_step: "patch_step m m' \<Longrightarrow> priming_inv m \<Longrightarrow> priming_inv m'"
  by (induction rule: patch_step.induct; (erule commit_steps | auto simp: priming_inv_def mget_Apply patch_defs patch_apply key_defs))

definition claimed_meta :: strmap where
  "claimed_meta = Apply (RequestWakePatch 0 ''demand'' 1000000000) Map.empty"

text \<open>C15: over any sequence of lifecycle patches, each applied to the metadata it was computed from, two invariants
  survive.  A pending create claim always carries the time it was taken, so it can go stale.  The
  priming markers, when the prompt was delivered and its hash, are both set or both empty, and they are empty whenever no configuration
  hash of a start is recorded.  A start is committed as its two callers do it, which matters: \<open>CommitStartedPatch\<close> itself would drop the time
  of a claim it does not clear.  A start that delivers no prompt keeps the markers of an earlier delivery under its own hash.\<close>

theorem session_metadata_invariants:
  assumes "patch_step\<^sup>*\<^sup>* m m'" and "lease_inv m" and "priming_inv m"
  shows "lease_inv m' \<and> priming_inv m'"
  using assms by (induction rule: rtranclp_induct) (auto intro: lease_inv_step priming_inv_step)

theorem session_metadata_invariants_witness:
  "lease_inv Map.empty \<and> priming_inv Map.empty \<and> patch_step\<^sup>*\<^sup>* Map.empty claimed_meta
   \<and> mget claimed_meta ''pending_create_claim'' = ''true'' \<and> mget claimed_meta ''pending_create_started_at'' \<noteq> []"
proof -
  have i: "lease_inv Map.empty" "priming_inv Map.empty" by (simp_all add: lease_inv_def priming_inv_def)
  have r: "patch_step\<^sup>*\<^sup>* Map.empty claimed_meta"
    unfolding claimed_meta_def by (rule r_into_rtranclp) (rule patch_step.intros)
  have c: "mget claimed_meta ''pending_create_claim'' = ''true''"
    by (simp add: claimed_meta_def mget_Apply RequestWakePatch_def)
  from session_metadata_invariants [OF r i] i r c show ?thesis by (simp add: lease_inv_def)
qed

section \<open>The projection\<close>

definition proj_base :: "LifecycleInput \<Rightarrow> BaseState" where
  "proj_base i = projectBaseState (liStatus i) (TrimSpace (liStoredState i)) (TrimSpace (liSleepReason i))"

definition proj_identity :: "LifecycleInput \<Rightarrow> IdentityProjection" where
  "proj_identity i =
     projectIdentity i
       (if TrimSpace (niIdentity (liNamedIdentity i)) = [] then TrimSpace (liConfiguredNamedIdentity i)
        else TrimSpace (niIdentity (liNamedIdentity i)))
       (proj_base i) (projectContinuityEligibility (proj_base i) (TrimSpace (liContinuityEligible i)))"

lemma ProjectLifecycle_sels [simp]:
  "vBaseState (ProjectLifecycle clock i) = proj_base i"
  "vTerminal (ProjectLifecycle clock i) \<longleftrightarrow> proj_base i = BaseStateClosed \<or> proj_base i = BaseStateClosing"
  "vWakeCauses (ProjectLifecycle clock i) = projectWakeCauses i"
  "vStoredState (ProjectLifecycle clock i) = TrimSpace (liStoredState i)"
  "vContinuityEligible (ProjectLifecycle clock i) = projectContinuityEligibility (proj_base i) (TrimSpace (liContinuityEligible i))"
  "vDesiredState (ProjectLifecycle clock i) =
     projectDesiredState i (vTerminal (ProjectLifecycle clock i)) (vBlockers (ProjectLifecycle clock i)) (projectWakeCauses i)"
  by (simp_all add: ProjectLifecycle_def Let_def proj_base_def case_prod_beta)

lemma ProjectLifecycle_runtime:
  "(vRuntimeProjection (ProjectLifecycle clock i), vReconciledState (ProjectLifecycle clock i),
      vResetContinuation (ProjectLifecycle clock i)) =
     projectRuntimeProjection clock i (proj_base i) (compatStateForBase (proj_base i)) (TrimSpace (liSleepReason i)) (projectWakeCauses i)"
  by (simp add: ProjectLifecycle_def Let_def proj_base_def case_prod_beta)

lemma ProjectLifecycle_blockers:
  "vBlockers (ProjectLifecycle clock i) =
     fst (projectBlockers i (if IsZero (liNow i) then clock else liNow i) (proj_base i) (proj_identity i))"
  by (simp add: ProjectLifecycle_def Let_def proj_base_def proj_identity_def case_prod_beta)

lemma blocker_known_iff [simp]: "blocker_known bs b \<longleftrightarrow> b \<in> set bs"
  by (induction bs) auto

lemma HasBlocker_iff [simp]: "HasBlocker v b \<longleftrightarrow> b \<in> set (vBlockers v)"
proof -
  have "HasBlocker_loop bs b \<longleftrightarrow> b \<in> set bs" for bs by (induction bs) auto
  then show ?thesis by (simp add: HasBlocker_def)
qed

lemma hasWakeCause_iff [simp]: "hasWakeCause cs c \<longleftrightarrow> c \<in> set cs"
  by (induction cs) auto

lemma set_appendUniqueBlocker [simp]: "b \<noteq> [] \<Longrightarrow> set (appendUniqueBlocker bs b) = insert b (set bs)"
  by (auto simp: appendUniqueBlocker_def)

lemma distinct_appendUniqueBlocker [simp]: "distinct (appendUniqueBlocker bs b) \<longleftrightarrow> distinct bs"
  by (auto simp: appendUniqueBlocker_def)


lemma distinct_appendUniqueWakeCause [simp]: "distinct (appendUniqueWakeCause cs c) \<longleftrightarrow> distinct cs"
  by (auto simp: appendUniqueWakeCause_def)


lemma distinct_fold_causes: "distinct (foldl appendUniqueWakeCause acc cs) \<longleftrightarrow> distinct acc"
  by (induction cs arbitrary: acc) auto

lemma projectBlockers_set:
  "set (fst (projectBlockers i now base identity)) =
     (if liConfigMissing i \<or> base = BaseStateOrphaned then {BlockerMissingConfig} else {})
     \<union> (if identity = IdentityConflict \<or> niConfigured (liNamedIdentity i) \<and> niConflict (liNamedIdentity i)
        then {BlockerIdentityConflict} else {})
     \<union> (if niDuplicateCanonical (liNamedIdentity i) then {BlockerDuplicateCanonical} else {})
     \<union> (if \<not> IsZero (stored_deadline (liHeldUntil i)) \<and> now < stored_deadline (liHeldUntil i) then {BlockerHeld} else {})
     \<union> (if \<not> IsZero (stored_deadline (liQuarantinedUntil i)) \<and> now < stored_deadline (liQuarantinedUntil i)
        then {BlockerQuarantined} else {})"
  by (auto simp: projectBlockers_def Let_def blocker_defs)


text \<open>C27: the contract of the projection.  A session is wanted running exactly when it is not terminal, has
  a wake cause and no blocker; with a cause and a blocker it is blocked; a terminal one is never
  wanted.  Blockers and causes are listed once each.  An observed live runtime is reconciled to
  awake and never resets its continuation; a failed create whose runtime is gone stays failed, also
  when a claim is still set.\<close>

theorem projection_contract:
  assumes "v = ProjectLifecycle clock i"
  shows "(vDesiredState v = DesiredStateRunning \<longleftrightarrow> \<not> vTerminal v \<and> vWakeCauses v \<noteq> [] \<and> vBlockers v = [])
    \<and> (vDesiredState v = DesiredStateBlocked \<longleftrightarrow> \<not> vTerminal v \<and> vWakeCauses v \<noteq> [] \<and> vBlockers v \<noteq> [])
    \<and> (vTerminal v \<longrightarrow> vDesiredState v = DesiredStateUndesired)
    \<and> distinct (vBlockers v) \<and> distinct (vWakeCauses v)
    \<and> (rfObserved (liRuntime i) \<and> rfAlive (liRuntime i) \<longrightarrow> vReconciledState v = StateAwake \<and> \<not> vResetContinuation v)
    \<and> (vBaseState v = BaseStateFailedCreate \<and> rfObserved (liRuntime i) \<and> \<not> rfAlive (liRuntime i)
        \<longrightarrow> vReconciledState v = StateFailedCreate)"
proof -
  have "distinct (vBlockers v)" using assms by (simp add: ProjectLifecycle_blockers projectBlockers_def Let_def)
  moreover have "distinct (vWakeCauses v)"
    using assms by (simp add: projectWakeCauses_def Let_def distinct_fold_causes)
  moreover have "vDesiredState v = projectDesiredState i (vTerminal v) (vBlockers v) (vWakeCauses v)"
    using assms by simp
  moreover have "rfObserved (liRuntime i) \<and> rfAlive (liRuntime i) \<longrightarrow> vReconciledState v = StateAwake \<and> \<not> vResetContinuation v"
    using ProjectLifecycle_runtime [of clock i] assms by (auto simp: projectRuntimeProjection_def)
  moreover have "vBaseState v = BaseStateFailedCreate \<and> rfObserved (liRuntime i) \<and> \<not> rfAlive (liRuntime i)
        \<longrightarrow> vReconciledState v = StateFailedCreate"
    using ProjectLifecycle_runtime [of clock i] assms by (auto simp: projectRuntimeProjection_def base_defs)
  ultimately show ?thesis by (auto simp: projectDesiredState_def)
qed

definition demo_input :: LifecycleInput where
  "demo_input = (LifecycleInputFromMetadata ''open'' claimed_meta)\<lparr>liNow := 5000000000\<rparr>"

theorem projection_contract_witness:
  "vDesiredState (ProjectLifecycle 0 demo_input) = DesiredStateRunning \<longleftrightarrow>
     \<not> vTerminal (ProjectLifecycle 0 demo_input) \<and> vWakeCauses (ProjectLifecycle 0 demo_input) \<noteq> []
     \<and> vBlockers (ProjectLifecycle 0 demo_input) = []"
  using projection_contract [OF refl, of 0 demo_input] by blast

section \<open>Patches seen through the projection\<close>

lemma TrimSpace_lits [simp]:
  "TrimSpace ''true'' = ''true''" "TrimSpace ''false'' = ''false''" "TrimSpace ''explicit'' = ''explicit''"
  "TrimSpace ''archived'' = ''archived''" "TrimSpace ''start-pending'' = ''start-pending''"
  "TrimSpace ''creating'' = ''creating''" "TrimSpace ''active'' = ''active''"
  by (simp_all add: TrimSpace_graph graph_char_def)

lemma stored_deadline_Nil [simp]: "stored_deadline [] = zero_time"
proof -
  have "ParseRFC3339 [] = None" by (simp add: ParseRFC3339_def get_year_def)
  then show ?thesis by (simp add: stored_deadline_def)
qed

lemma stored_deadline_Format:
  "printable_time t \<Longrightarrow> stored_deadline (FormatRFC3339 t) = t - t mod nanos"
  by (simp add: stored_deadline_def Parse_Format IsZero_def zero_time_def)

lemmas input_simps = LifecycleInputFromMetadata_def NamedSessionIdentityMetadata_def zero_NamedIdentityInput_def
  mget_Apply

definition quarantine_patches :: "gtime \<Rightarrow> MetadataPatch set" where
  "quarantine_patches until =
     {RateLimitQuarantinePatch until} \<union> range (QuarantinePatch until)
     \<union> {eaPatch (WakeFailureAccrualPatch a mx until) | a mx. eaQuarantined (WakeFailureAccrualPatch a mx until)}
     \<union> {eaPatch (ChurnAccrualPatch a mx until) | a mx. eaQuarantined (ChurnAccrualPatch a mx until)}"

lemma quarantine_patches_key: "p \<in> quarantine_patches until \<Longrightarrow> p ''quarantined_until'' = Some (FormatRFC3339 until)"
  by (auto simp: quarantine_patches_def patch_defs split: if_splits)

text \<open>C28: a quarantine holds exactly until its deadline.  After any of the four patches that quarantine a
  session (crash loop, rate limit, wake-failure and churn accrual past their limits), and whatever
  the other metadata, wake causes and runtime facts are, the projection reports the quarantine
  blocker exactly while the clock is before the deadline cut to whole seconds, and until then the
  session is not wanted running.\<close>

theorem quarantine_blocks_wake:
  assumes "printable_time until" and "p \<in> quarantine_patches until" and "0 < now"
    and "v = ProjectLifecycle clock ((LifecycleInputFromMetadata status (Apply p m))\<lparr>liNow := now, liRuntime := rt, liWakeCauses := cs\<rparr>)"
  shows "(HasBlocker v BlockerQuarantined \<longleftrightarrow> now < until - until mod nanos)
    \<and> (now < until - until mod nanos \<longrightarrow> vDesiredState v \<noteq> DesiredStateRunning)"
proof -
  let ?i = "(LifecycleInputFromMetadata status (Apply p m))\<lparr>liNow := now, liRuntime := rt, liWakeCauses := cs\<rparr>"
  have q: "stored_deadline (liQuarantinedUntil ?i) = until - until mod nanos"
    using quarantine_patches_key [OF assms(2)] assms(1) by (simp add: input_simps stored_deadline_Format)
  have now: "liNow ?i = now" by simp
  have b: "HasBlocker v BlockerQuarantined \<longleftrightarrow> now < until - until mod nanos"
    unfolding HasBlocker_iff assms(4) ProjectLifecycle_blockers projectBlockers_set q now
    using assms(3) by (auto simp: blocker_defs IsZero_def zero_time_def)
  moreover have "now < until - until mod nanos \<longrightarrow> vDesiredState v \<noteq> DesiredStateRunning"
    using b assms(4) by (auto simp: projectDesiredState_def)
  ultimately show ?thesis by blast
qed

theorem quarantine_blocks_wake_witness:
  "HasBlocker (ProjectLifecycle 0 ((LifecycleInputFromMetadata ''open'' (Apply (QuarantinePatch 9000000000 1) Map.empty))
     \<lparr>liNow := 5000000000, liRuntime := zero_RuntimeFacts, liWakeCauses := [WakeCauseWork]\<rparr>)) BlockerQuarantined"
proof -
  have "printable_time 9000000000" by (simp add: printable_time_def nanos_def)
  moreover have "QuarantinePatch 9000000000 1 \<in> quarantine_patches 9000000000" by (simp add: quarantine_patches_def)
  ultimately show ?thesis
    using quarantine_blocks_wake [OF _ _ _ refl, where until = 9000000000 and p = "QuarantinePatch 9000000000 1"
        and now = 5000000000 and clock = 0 and status = "''open''" and m = Map.empty and rt = zero_RuntimeFacts
        and cs = "[WakeCauseWork]"]
    by (simp add: nanos_def)
qed




text \<open>Retiring a named session frees its identity for good: whatever metadata and status the bead has,
  after the retire patch its identifiers count as released, its canonical-identity record is gone, no
  timed blocker is left, and an explicit wake is refused.\<close>

theorem retire_releases_identity:
  fixes now :: gtime and reason ident :: string and m :: strmap
  defines "m' \<equiv> Apply (RetireNamedSessionPatch now reason ident) m"
  shows "LifecycleIdentityReleased clock status m'
    \<and> CanonicalIdentityFromMetadata m' = zero_CanonicalIdentity
    \<and> snd (LifecycleWakeConflictState clock status m')
    \<and> \<not> HasBlocker (ProjectLifecycle clock (LifecycleInputFromMetadata status m')) BlockerHeld
    \<and> \<not> HasBlocker (ProjectLifecycle clock (LifecycleInputFromMetadata status m')) BlockerQuarantined"
proof -
  have keys: "mget m' ''state'' = ''archived''" "mget m' ''continuity_eligible'' = ''false''" "mget m' ''alias'' = []"
    "mget m' ''session_name'' = []" "mget m' ''session_name_explicit'' = []"
    "mget m' CanonicalInstanceNameMetadata = []" "mget m' ''held_until'' = []" "mget m' ''quarantined_until'' = []"
    unfolding m'_def by (simp_all add: mget_Apply patch_defs key_defs StateArchived_def)
  have base: "proj_base (LifecycleInputFromMetadata status m') = (if TrimSpace status = ''closed'' then BaseStateClosed else BaseStateArchived)"
    by (simp add: proj_base_def LifecycleInputFromMetadata_def keys projectBaseState_def Let_def state_defs)
  have "\<not> projectContinuityEligibility (proj_base (LifecycleInputFromMetadata status m'))
      (TrimSpace (liContinuityEligible (LifecycleInputFromMetadata status m')))"
    by (simp add: projectContinuityEligibility_def LifecycleInputFromMetadata_def keys)
  moreover have "BlockerHeld \<notin> set (vBlockers (ProjectLifecycle clock (LifecycleInputFromMetadata status m')))"
    "BlockerQuarantined \<notin> set (vBlockers (ProjectLifecycle clock (LifecycleInputFromMetadata status m')))"
    unfolding ProjectLifecycle_blockers projectBlockers_set
    by (auto simp: LifecycleInputFromMetadata_def keys IsZero_def blocker_defs)
  ultimately show ?thesis
    by (auto simp: LifecycleIdentityReleased_def LifecycleIdentifiersReleased_def keys CanonicalIdentityFromMetadata_def
        canonicalIdentityFrom_def LifecycleWakeConflictState_def lifecycleWakeConflictState_def base split: if_splits)
qed






lemma canonical_tables:
  "list_all (\<lambda>r. 20 \<le> length r) (map snd canonicalCloseReasons)" "list_all (\<lambda>k. length k < 20) (map fst canonicalCloseReasons)"
  by code_simp+

lemma canonical_long: "20 \<le> length r \<Longrightarrow> map_of canonicalCloseReasons r = None"
  using canonical_tables(2) by (auto simp: map_of_eq_None_iff list_all_iff not_less [symmetric])

text \<open>Every close reason the session code writes passes the close validator of twenty characters, also
  for unknown and empty codes, and canonicalising twice changes nothing.\<close>

theorem close_reason_long_enough:
  "20 \<le> length (CanonicalCloseReason code)
   \<and> CanonicalCloseReason (CanonicalCloseReason code) = CanonicalCloseReason code
   \<and> ClosePatch now code ''close_reason'' = Some (CanonicalCloseReason code)"
proof (cases "map_of canonicalCloseReasons code")
  case (Some r)
  from map_of_SomeD [OF this] have "20 \<le> length r" using canonical_tables(1) by (fastforce simp: list_all_iff)
  with Some canonical_long [of r] show ?thesis
    by (simp add: CanonicalCloseReason_def ClosePatch_def Let_def)
next
  case None
  have "map_of canonicalCloseReasons (''session terminated: '' @ code) = None" by (rule canonical_long) simp
  with None show ?thesis by (simp add: CanonicalCloseReason_def ClosePatch_def Let_def)
qed

section \<open>Deciders\<close>

text \<open>A timer stops a session only when that is safe and always reaches a decision.  A stop is decided
  exactly when the timer fired, nothing blocks it, no interaction is pending and no work is
  assigned; a decider asks for a fact only while that fact is unknown, so with both facts gathered
  it never asks again.  This holds for the age and the idle timer.\<close>

theorem timer_stops_only_when_safe:
  assumes "decide = DecideMaxSessionAge \<or> decide = DecideIdleTimeout"
  shows "(tdAction (decide f) = TimerActionStop \<longleftrightarrow>
      tfTriggered f \<and> tfBlocker f = [] \<and> tfPending f = PendingNo \<and> tfAssignedWork f = AssignedWorkNone)
    \<and> (tdAction (decide f) = TimerActionGatherPending \<longrightarrow> tfPending f = PendingUnknown)
    \<and> (tdAction (decide f) = TimerActionGatherAssignedWork \<longrightarrow> tfAssignedWork f = AssignedWorkUnknown \<and> tfPending f = PendingNo)
    \<and> (tdCancelDrain (decide f) \<longrightarrow> tfPending f = PendingYes)"
  using assms
  by (auto simp: DecideMaxSessionAge_def DecideIdleTimeout_def timer_action_def deferDecision_def stop_decision_def
      split: PendingFact.splits AssignedWorkFact.splits if_splits)

theorem timer_stops_only_when_safe_witness:
  "tdAction (DecideIdleTimeout \<lparr>tfTriggered = True, tfBlocker = [], tfPending = PendingNo, tfAssignedWork = AssignedWorkNone\<rparr>)
     = TimerActionStop"
  using timer_stops_only_when_safe [of DecideIdleTimeout] by simp

text \<open>A dead session is charged only for a genuine failure.  A rapid crash or a churn event is recorded
  only for a session that is dead, woke at a valid time, is not drained on purpose and does not run
  under the subprocess provider; a rapid crash died inside the stability window and not during its own
  create, a churn event between the stability and the productivity window, without a create claim
  and without a deliberate sleep reason.  Once the screen fact is known the classifier never asks
  for it again.\<close>

theorem exit_charged_only_for_failures:
  assumes "parseWakeStamp (efLastWokeAt f) = (woke, valid)"
  shows "(DecideSessionExit f \<in> {ExitRapidCrash, ExitChurn, ExitRateLimitQuarantine} \<longrightarrow>
      \<not> efAlive f \<and> valid \<and> \<not> efSubprocessProvider f \<and> \<not> efDrainPending f)
    \<and> (DecideSessionExit f = ExitRapidCrash \<longrightarrow>
        \<not> efPendingCreateStartInFlight f \<and> time_sub (efNow f) woke < efStabilityThreshold f)
    \<and> (DecideSessionExit f = ExitChurn \<longrightarrow> \<not> efPendingCreateClaim f \<and> \<not> IsDeliberateSleepReason (efSleepReason f)
        \<and> efStabilityThreshold f \<le> time_sub (efNow f) woke \<and> time_sub (efNow f) woke < efProductivityThreshold f)
    \<and> (efScreen f \<noteq> ScreenUnknown \<longrightarrow> DecideSessionExit f \<noteq> ExitGatherScreen)"
proof (cases "efAlive f")
  case True
  then show ?thesis by (simp add: DecideSessionExit_def)
next
  case False
  let ?cand = "\<not> efSubprocessProvider f \<and> \<not> efDrainPending f \<and> valid \<and> \<not> efPendingCreateStartInFlight f"
  have "DecideSessionExit f =
      (if ?cand \<and> efScreenAvailable f \<and> efScreen f = ScreenUnknown then ExitGatherScreen
       else if ?cand \<and> efScreenAvailable f \<and> efScreen f = ScreenRateLimit then ExitRateLimitQuarantine
       else if ?cand \<and> time_sub (efNow f) woke < efStabilityThreshold f then ExitRapidCrash
       else if efPendingCreateClaim f \<or> efSubprocessProvider f \<or> efDrainPending f
          \<or> IsDeliberateSleepReason (efSleepReason f) \<or> \<not> valid then ExitNone
       else if time_sub (efNow f) woke < efStabilityThreshold f then ExitNone
       else if efProductivityThreshold f \<le> time_sub (efNow f) woke then ExitProductiveDeath else ExitChurn)"
    using False assms by (simp add: DecideSessionExit_def Let_def)
  then show ?thesis using False by (simp split: if_splits)
qed

definition demo_exit :: ExitFacts where
  "demo_exit = \<lparr>efAlive = False, efSubprocessProvider = False, efDrainPending = False, efPendingCreateClaim = False,
     efPendingCreateStartInFlight = False, efSleepReason = [], efLastWokeAt = FormatRFC3339 1000000000,
     efNow = 4000000000, efStabilityThreshold = 30000000000, efProductivityThreshold = 300000000000,
     efScreenAvailable = False, efScreen = ScreenUnknown\<rparr>"

theorem exit_charged_only_for_failures_witness:
  "DecideSessionExit demo_exit = ExitRapidCrash \<and> time_sub (efNow demo_exit) 1000000000 < efStabilityThreshold demo_exit"
proof -
  have "printable_time 1000000000" by (simp add: printable_time_def nanos_def)
  then have p: "parseWakeStamp (efLastWokeAt demo_exit) = (1000000000, True)"
    by (simp add: parseWakeStamp_def demo_exit_def Parse_Format nanos_def)
  then have "DecideSessionExit demo_exit = ExitRapidCrash"
    by (simp add: DecideSessionExit_def Let_def) (simp add: demo_exit_def time_sub_def)
  with exit_charged_only_for_failures [OF p] show ?thesis by blast
qed

text \<open>The reconciler's use of the accrual: it reads the stored counter, builds the patch for one more event and
  stores it.\<close>

definition stored_count :: "strmap \<Rightarrow> string \<Rightarrow> int" where
  "stored_count m key = (case atoi (mget m key) of Some n \<Rightarrow> n | None \<Rightarrow> 0)"

fun wake_failures :: "nat \<Rightarrow> int \<Rightarrow> gtime \<Rightarrow> strmap \<Rightarrow> strmap \<times> bool" where
  "wake_failures 0 mx until m = (m, False)"
| "wake_failures (Suc n) mx until m =
     (case wake_failures n mx until m of (m1, _) \<Rightarrow>
        let a = WakeFailureAccrualPatch (stored_count m1 ''wake_attempts'') mx until
        in (Apply (eaPatch a) m1, eaQuarantined a))"

lemma wake_failures_count:
  assumes "int n < 2 ^ 63" and "stored_count m ''wake_attempts'' = 0"
  shows "stored_count (fst (wake_failures n mx until m)) ''wake_attempts'' = int n"
  using assms
proof (induction n)
  case (Suc n)
  obtain m1 q where w: "wake_failures n mx until m = (m1, q)" by fastforce
  with Suc have "stored_count m1 ''wake_attempts'' = int n" by simp
  moreover have "in_int64 (1 + int n)" using Suc.prems(1) by (simp add: in_int64_def)
  ultimately show ?case using w
    by (simp add: stored_count_def [of "Apply _ _"] mget_Apply WakeFailureAccrualPatch_def exitAccrual_def Let_def
        atoi_itoa add.commute wrap64_id)
qed simp

text \<open>Counting wake failures through the stored metadata quarantines at the configured limit, neither
  before nor after: starting without recorded failures, the n-th failure is a quarantine exactly when
  n has reached the limit, and the counter read back is n.\<close>

theorem wake_failure_limit:
  assumes "stored_count m ''wake_attempts'' = 0" and "0 < n" and "int n < 2 ^ 63"
  shows "(snd (wake_failures n mx until m) \<longleftrightarrow> mx \<le> int n)
    \<and> stored_count (fst (wake_failures n mx until m)) ''wake_attempts'' = int n"
proof -
  obtain k where n: "n = Suc k" using assms(2) by (cases n) auto
  obtain m1 q where w: "wake_failures k mx until m = (m1, q)" by fastforce
  have "stored_count m1 ''wake_attempts'' = int k"
    using wake_failures_count [of k m mx until] w assms n by simp
  moreover have "in_int64 (1 + int k)" using assms(3) n by (simp add: in_int64_def)
  ultimately have "snd (wake_failures n mx until m) \<longleftrightarrow> mx \<le> int n"
    using n w by (simp add: WakeFailureAccrualPatch_def exitAccrual_def Let_def add.commute wrap64_id)
  moreover have "stored_count (fst (wake_failures n mx until m)) ''wake_attempts'' = int n"
    using wake_failures_count assms by blast
  ultimately show ?thesis by blast
qed

theorem wake_failure_limit_witness:
  "snd (wake_failures 3 3 9000000000 Map.empty) \<and> stored_count Map.empty ''wake_attempts'' = 0"
proof -
  have "stored_count Map.empty ''wake_attempts'' = 0" by (simp add: stored_count_def atoi_def atoi_abs_def)
  with wake_failure_limit [OF this, of 3 3 9000000000] show ?thesis by simp
qed

text \<open>An asynchronous start result is committed exactly for an open session of the prepared identity that is live already, whatever became of the
  claim, or that still waits for a start with its claim not taken away.\<close>

lemma commit_verdict_iff:
  "CommitVerdict l cur = LeaseCommit \<longleftrightarrow> \<not> lcClosed cur \<and> SameIdentity l cur
     \<and> (lcState cur \<in> {StateAwake, StateActive} \<or> (lcClaim l \<longrightarrow> lcClaim cur) \<and> StateConfirmsPendingStart (lcState cur))"
  by (simp add: CommitVerdict_def)

end
