(* ===== verification/Pool_Plan.thy ===== *)
theory Pool_Plan
  imports GC_Prelude "HOL-Library.Word"
begin

text \<open>
  The create budget of agent pools (\<open>internal/poolplan/create_budget.go\<close>): fair shares of a limited
  number of session creates across pool templates, and the claims and refunds against them.  A nil
  budget is the unlimited one.  The maps of shares count a missing template as zero; the seed is the
  source's 64-bit unsigned integer.
\<close>

record Demand =
  Template :: string
  FreshCreates :: int
  HasFloor :: bool

record CreateBudget =
  remaining :: int
  templateRemaining :: "(string \<Rightarrow> int) option"
  spare :: int

definition NewCreateBudget :: "int \<Rightarrow> CreateBudget option" where
  "NewCreateBudget limit =
     (if limit \<le> 0 then None else Some \<lparr>remaining = limit, templateRemaining = None, spare = 0\<rparr>)"

section \<open>Fair shares\<close>

text \<open>The loops visit the active demands from a start index around the ring.\<close>

definition rotated :: "nat \<Rightarrow> 'a list \<Rightarrow> 'a list" where
  "rotated start active = map (\<lambda>offset. active ! ((start + offset) mod length active)) [0..<length active]"

definition bump :: "(string \<Rightarrow> int) \<Rightarrow> string \<Rightarrow> (string \<Rightarrow> int)" where
  "bump shares t = shares(t := shares t + 1)"

text \<open>One token per floor-bearing template, up to the floor budget.\<close>

fun floor_pass :: "int \<Rightarrow> Demand list \<Rightarrow> (string \<Rightarrow> int) \<times> int \<times> int \<Rightarrow> (string \<Rightarrow> int) \<times> int \<times> int" where
  "floor_pass floorBudget [] st = st"
| "floor_pass floorBudget (demand # ds) (shares, rem, floorUsed) =
     (if floorUsed \<ge> floorBudget then (shares, rem, floorUsed)
      else if HasFloor demand
      then floor_pass floorBudget ds (bump shares (Template demand), rem - 1, floorUsed + 1)
      else floor_pass floorBudget ds (shares, rem, floorUsed))"

text \<open>One round of the elastic reserve, and of the general round-robin.\<close>

fun elastic_pass :: "int \<Rightarrow> Demand list \<Rightarrow> (string \<Rightarrow> int) \<times> int \<times> int \<times> bool \<Rightarrow> (string \<Rightarrow> int) \<times> int \<times> int \<times> bool" where
  "elastic_pass elasticReserve [] st = st"
| "elastic_pass elasticReserve (demand # ds) (shares, rem, elasticGiven, progressed) =
     (if \<not> (rem > 0 \<and> elasticGiven < elasticReserve) then (shares, rem, elasticGiven, progressed)
      else if HasFloor demand \<or> shares (Template demand) \<ge> FreshCreates demand
      then elastic_pass elasticReserve ds (shares, rem, elasticGiven, progressed)
      else elastic_pass elasticReserve ds (bump shares (Template demand), rem - 1, elasticGiven + 1, True))"

fun general_pass :: "Demand list \<Rightarrow> (string \<Rightarrow> int) \<times> int \<times> bool \<Rightarrow> (string \<Rightarrow> int) \<times> int \<times> bool" where
  "general_pass [] st = st"
| "general_pass (demand # ds) (shares, rem, progressed) =
     (if \<not> rem > 0 then (shares, rem, progressed)
      else if shares (Template demand) \<ge> FreshCreates demand then general_pass ds (shares, rem, progressed)
      else general_pass ds (bump shares (Template demand), rem - 1, True))"

lemma elastic_pass_progress:
  "elastic_pass r ds (sh, rem, g, p) = (sh', rem', g', p') \<Longrightarrow>
     rem' \<le> rem \<and> (0 \<le> rem \<longrightarrow> 0 \<le> rem') \<and> (\<not> p \<and> p' \<longrightarrow> rem' < rem)"
proof (induction ds arbitrary: sh rem g p)
  case (Cons d ds)
  then show ?case by (fastforce split: if_splits)
qed simp

lemma general_pass_progress:
  "general_pass ds (sh, rem, p) = (sh', rem', p') \<Longrightarrow>
     rem' \<le> rem \<and> (0 \<le> rem \<longrightarrow> 0 \<le> rem') \<and> (\<not> p \<and> p' \<longrightarrow> rem' < rem)"
proof (induction ds arbitrary: sh rem p)
  case (Cons d ds)
  then show ?case by (fastforce split: if_splits)
qed simp

function elastic_loop :: "int \<Rightarrow> Demand list \<Rightarrow> (string \<Rightarrow> int) \<Rightarrow> int \<Rightarrow> int \<Rightarrow> (string \<Rightarrow> int) \<times> int \<times> int" where
  "elastic_loop elasticReserve ds shares rem elasticGiven =
     (if elasticGiven < elasticReserve \<and> rem > 0
      then (case elastic_pass elasticReserve ds (shares, rem, elasticGiven, False) of (sh, r, g, progressed) \<Rightarrow>
              if \<not> progressed then (sh, r, g) else elastic_loop elasticReserve ds sh r g)
      else (shares, rem, elasticGiven))"
  by pat_completeness auto
termination
  by (relation "measure (\<lambda>(_, _, _, rem, _). nat rem)")
    (auto dest!: elastic_pass_progress [OF sym])

function general_loop :: "Demand list \<Rightarrow> (string \<Rightarrow> int) \<Rightarrow> int \<Rightarrow> (string \<Rightarrow> int) \<times> int" where
  "general_loop ds shares rem =
     (if rem > 0
      then (case general_pass ds (shares, rem, False) of (sh, r, progressed) \<Rightarrow>
              if \<not> progressed then (sh, r) else general_loop ds sh r)
      else (shares, rem))"
  by pat_completeness auto
termination
  by (relation "measure (\<lambda>(_, _, rem). nat rem)")
    (auto dest!: general_pass_progress [OF sym])

declare elastic_loop.simps [simp del] general_loop.simps [simp del]

definition elastic_demand :: "Demand list \<Rightarrow> int" where
  "elastic_demand active = foldl (\<lambda>n d. if \<not> HasFloor d then wrap64 (n + FreshCreates d) else n) 0 active"

definition fairShares :: "Demand list \<Rightarrow> int \<Rightarrow> 64 word \<Rightarrow> (string \<Rightarrow> int) option \<times> int" where
  "fairShares demands limit seed =
     (if limit \<le> 0 then (None, 0)
      else let active = filter (\<lambda>d. FreshCreates d > 0) demands in
        if length active \<le> 1 then (None, 0)
        else let start = unat (seed mod of_nat (length active));
                 ring = rotated start active;
                 elasticReserve = min (limit div 4) (elastic_demand active);
                 floorBudget = wrap64 (limit - elasticReserve);
                 (sh1, rem1, _) = floor_pass floorBudget ring (\<lambda>_. 0, limit, 0);
                 (sh2, rem2, _) = elastic_loop elasticReserve ring sh1 rem1 0;
                 (sh3, rem3) = general_loop ring sh2 rem2
             in (Some sh3, rem3))"

section \<open>The budget\<close>

definition ConfigureFairShare :: "CreateBudget option \<Rightarrow> Demand list \<Rightarrow> 64 word \<Rightarrow> CreateBudget option" where
  "ConfigureFairShare b demands seed =
     (case b of
        None \<Rightarrow> None
      | Some c \<Rightarrow> (case fairShares demands (remaining c) seed of (tr, sp) \<Rightarrow>
                     Some (c\<lparr>templateRemaining := tr, spare := sp\<rparr>)))"

definition TryClaim :: "CreateBudget option \<Rightarrow> string \<Rightarrow> bool \<times> CreateBudget option" where
  "TryClaim b template =
     (case b of
        None \<Rightarrow> (True, None)
      | Some c \<Rightarrow>
          if remaining c \<le> 0 then (False, b)
          else (case templateRemaining c of
                  None \<Rightarrow> (True, Some (c\<lparr>remaining := remaining c - 1\<rparr>))
                | Some tr \<Rightarrow>
                    if tr template > 0
                    then (True, Some (c\<lparr>templateRemaining := Some (tr(template := tr template - 1)),
                            remaining := remaining c - 1\<rparr>))
                    else if spare c > 0
                    then (True, Some (c\<lparr>spare := spare c - 1, remaining := remaining c - 1\<rparr>))
                    else (False, b)))"

definition Release :: "CreateBudget option \<Rightarrow> CreateBudget option" where
  "Release b =
     (case b of
        None \<Rightarrow> None
      | Some c \<Rightarrow> Some (case templateRemaining c of
                          None \<Rightarrow> c\<lparr>remaining := remaining c + 1\<rparr>
                        | Some _ \<Rightarrow> c\<lparr>remaining := remaining c + 1, spare := spare c + 1\<rparr>))"

section \<open>Facts about the passes\<close>

lemma rotated_rotate: "rotated start xs = rotate start xs"
  by (rule nth_equalityI) (simp_all add: rotated_def nth_rotate)

lemma mset_rotate1 [simp]: "mset (rotate1 xs) = mset xs"
  by (cases xs) simp_all

lemma mset_rotate [simp]: "mset (rotate n xs) = mset xs"
  by (induction n) simp_all

definition pool_inv :: "int \<Rightarrow> Demand list \<Rightarrow> (string \<Rightarrow> int) \<Rightarrow> int \<Rightarrow> bool" where
  "pool_inv limit ring sh rem \<longleftrightarrow>
     0 \<le> rem \<and> (\<forall>d \<in> set ring. 0 \<le> sh (Template d) \<and> sh (Template d) \<le> FreshCreates d)
     \<and> (\<forall>t. t \<notin> Template ` set ring \<longrightarrow> sh t = 0) \<and> (\<Sum>t \<in> Template ` set ring. sh t) + rem = limit"

text \<open>What the templates without a floor hold.\<close>

definition elastic_total :: "Demand list \<Rightarrow> (string \<Rightarrow> int) \<Rightarrow> int" where
  "elastic_total ring sh = (\<Sum>t \<in> Template ` {d \<in> set ring. \<not> HasFloor d}. sh t)"

lemma sum_bump: "finite A \<Longrightarrow> (\<Sum>t \<in> A. bump sh x t) = (\<Sum>t \<in> A. sh t) + (if x \<in> A then 1 else 0)"
proof (cases "x \<in> A")
  case True
  assume "finite A"
  have "(\<Sum>t \<in> A - {x}. bump sh x t) = (\<Sum>t \<in> A - {x}. sh t)"
    by (rule sum.cong) (auto simp: bump_def)
  with True \<open>finite A\<close> show ?thesis by (simp add: sum.remove [of A x]) (simp add: bump_def)
next
  case False
  then have "(\<Sum>t \<in> A. bump sh x t) = (\<Sum>t \<in> A. sh t)" by (intro sum.cong) (auto simp: bump_def)
  with False show ?thesis by simp
qed

lemma template_inj: "distinct (map Template ring) \<Longrightarrow> d \<in> set ring \<Longrightarrow> e \<in> set ring \<Longrightarrow> Template d = Template e \<Longrightarrow> d = e"
  by (simp add: distinct_map inj_on_def)

lemma bump_inv:
  assumes "pool_inv limit ring sh rem" and "distinct (map Template ring)" and "d \<in> set ring"
    and "sh (Template d) < FreshCreates d" and "0 < rem"
  shows "pool_inv limit ring (bump sh (Template d)) (rem - 1)"
proof -
  have "0 \<le> bump sh (Template d) (Template e) \<and> bump sh (Template d) (Template e) \<le> FreshCreates e" if "e \<in> set ring" for e
    using assms template_inj [OF assms(2) that assms(3)] that by (auto simp: pool_inv_def bump_def)
  moreover have "(\<Sum>t \<in> Template ` set ring. bump sh (Template d) t) = (\<Sum>t \<in> Template ` set ring. sh t) + 1"
    using assms(3) by (simp add: sum_bump)
  ultimately show ?thesis
    using assms by (auto simp: pool_inv_def) (auto simp: bump_def)
qed

lemma elastic_total_bump:
  assumes "distinct (map Template ring)" and "d \<in> set ring"
  shows "elastic_total ring (bump sh (Template d)) = elastic_total ring sh + (if HasFloor d then 0 else 1)"
proof -
  have "Template d \<in> Template ` {e \<in> set ring. \<not> HasFloor e} \<longleftrightarrow> \<not> HasFloor d"
    using assms template_inj [OF assms(1)] by blast
  then show ?thesis by (simp add: elastic_total_def sum_bump)
qed

lemma elastic_pass_inv:
  assumes "elastic_pass r ds (sh, rem, g, p) = (sh', rem', g', p')" and "set ds \<subseteq> set ring"
    and "distinct (map Template ring)" and "pool_inv limit ring sh rem" and "g = elastic_total ring sh" and "g \<le> r"
  shows "pool_inv limit ring sh' rem' \<and> g' = elastic_total ring sh' \<and> g' \<le> r \<and> rem' + g' = rem + g \<and> (\<forall>t. sh t \<le> sh' t)"
  using assms
proof (induction ds arbitrary: sh rem g p)
  case (Cons d ds)
  show ?case
  proof (cases "\<not> (rem > 0 \<and> g < r) \<or> HasFloor d \<or> sh (Template d) \<ge> FreshCreates d")
    case True
    with Cons show ?thesis by (auto split: if_splits)
  next
    case False
    with Cons.prems have e: "elastic_pass r ds (bump sh (Template d), rem - 1, g + 1, True) = (sh', rem', g', p')"
      and d: "d \<in> set ring" and l: "sh (Template d) < FreshCreates d" "0 < rem" by auto
    have "g + 1 = elastic_total ring (bump sh (Template d))"
      using elastic_total_bump [OF Cons.prems(3) d] False Cons.prems(5) by simp
    with Cons.IH [OF e _ Cons.prems(3) bump_inv [OF Cons.prems(4,3) d l]] Cons.prems(2) False
    have IH: "pool_inv limit ring sh' rem' \<and> g' = elastic_total ring sh' \<and> g' \<le> r \<and> rem' + g' = rem - 1 + (g + 1)
        \<and> (\<forall>t. bump sh (Template d) t \<le> sh' t)" by auto
    have "sh t \<le> bump sh (Template d) t" for t by (simp add: bump_def)
    then have "\<forall>t. sh t \<le> sh' t" using IH order_trans by blast
    with IH show ?thesis by simp
  qed
qed simp

lemma elastic_pass_stuck:
  "elastic_pass r ds (sh, rem, g, False) = (sh', rem', g', False) \<Longrightarrow>
     sh' = sh \<and> rem' = rem \<and> g' = g \<and> (0 < rem \<and> g < r \<longrightarrow> (\<forall>d \<in> set ds. HasFloor d \<or> FreshCreates d \<le> sh (Template d)))"
proof (induction ds)
  case (Cons d ds)
  have "elastic_pass r es (s, m, h, True) \<noteq> (sh', rem', g', False)" for es s m h
    by (induction es arbitrary: s m h) auto
  with Cons show ?case by (auto split: if_splits)
qed simp

lemma general_pass_inv:
  assumes "general_pass ds (sh, rem, p) = (sh', rem', p')" and "set ds \<subseteq> set ring"
    and "distinct (map Template ring)" and "pool_inv limit ring sh rem"
  shows "pool_inv limit ring sh' rem' \<and> (\<forall>t. sh t \<le> sh' t)"
  using assms
proof (induction ds arbitrary: sh rem p)
  case (Cons d ds)
  show ?case
  proof (cases "\<not> rem > 0 \<or> sh (Template d) \<ge> FreshCreates d")
    case True
    with Cons show ?thesis by (auto split: if_splits)
  next
    case False
    with Cons.prems have e: "general_pass ds (bump sh (Template d), rem - 1, True) = (sh', rem', p')"
      and d: "d \<in> set ring" and l: "sh (Template d) < FreshCreates d" "0 < rem" by auto
    from Cons.IH [OF e _ Cons.prems(3) bump_inv [OF Cons.prems(4,3) d l]] Cons.prems(2)
    have IH: "pool_inv limit ring sh' rem' \<and> (\<forall>t. bump sh (Template d) t \<le> sh' t)" by auto
    have "sh t \<le> bump sh (Template d) t" for t by (simp add: bump_def)
    with IH show ?thesis by (meson order_trans)
  qed
qed simp

lemma general_pass_stuck:
  "general_pass ds (sh, rem, False) = (sh', rem', False) \<Longrightarrow>
     sh' = sh \<and> rem' = rem \<and> (0 < rem \<longrightarrow> (\<forall>d \<in> set ds. FreshCreates d \<le> sh (Template d)))"
proof (induction ds)
  case (Cons d ds)
  have "general_pass es (s, m, True) \<noteq> (sh', rem', False)" for es s m
    by (induction es arbitrary: s m) auto
  with Cons show ?case by (auto split: if_splits)
qed simp

section \<open>The loops and the shares\<close>

lemma elastic_loop_inv:
  assumes "elastic_loop r ring sh rem g = (sh', rem', g')" and "distinct (map Template ring)"
    and "pool_inv limit ring sh rem" and "g = elastic_total ring sh" and "g \<le> r"
  shows "pool_inv limit ring sh' rem' \<and> g' = elastic_total ring sh' \<and> rem' + g' = rem + g \<and> (\<forall>t. sh t \<le> sh' t)
    \<and> (g' < r \<and> 0 < rem' \<longrightarrow> (\<forall>d \<in> set ring. HasFloor d \<or> FreshCreates d \<le> sh' (Template d)))"
  using assms
proof (induction r ring sh rem g rule: elastic_loop.induct)
  case (1 r ring sh rem g)
  show ?case
  proof (cases "g < r \<and> rem > 0")
    case False
    with "1.prems"(1) have "sh' = sh" "rem' = rem" "g' = g" by (simp_all only: elastic_loop.simps [of r ring sh rem g] if_False prod.inject)
    with "1.prems" False show ?thesis by auto
  next
    case True
    obtain s1 m1 g1 p where pass: "elastic_pass r ring (sh, rem, g, False) = (s1, m1, g1, p)"
      by (metis prod_cases4)
    note inv = elastic_pass_inv [OF pass subset_refl "1.prems"(2-5)]
    show ?thesis
    proof (cases p)
      case False
      with True pass "1.prems"(1) have res: "sh' = s1" "rem' = m1" "g' = g1" by (simp_all add: elastic_loop.simps)
      from pass False have "elastic_pass r ring (sh, rem, g, False) = (s1, m1, g1, False)" by simp
      from elastic_pass_stuck [OF this] inv res True show ?thesis by auto
    next
      case p: True
      with True pass "1.prems"(1) have rec: "elastic_loop r ring s1 m1 g1 = (sh', rem', g')"
        by (simp add: elastic_loop.simps [of r ring sh])
      have "pool_inv limit ring sh' rem' \<and> g' = elastic_total ring sh' \<and> rem' + g' = m1 + g1 \<and> (\<forall>t. s1 t \<le> sh' t)
          \<and> (g' < r \<and> 0 < rem' \<longrightarrow> (\<forall>d \<in> set ring. HasFloor d \<or> FreshCreates d \<le> sh' (Template d)))"
        using "1.IH" [OF True pass [symmetric] refl refl _ rec "1.prems"(2)] inv p by blast
      with inv show ?thesis by (auto intro: order_trans)
    qed
  qed
qed

lemma general_loop_inv:
  assumes "general_loop ring sh rem = (sh', rem')" and "distinct (map Template ring)" and "pool_inv limit ring sh rem"
  shows "pool_inv limit ring sh' rem' \<and> (\<forall>t. sh t \<le> sh' t)
    \<and> (0 < rem' \<longrightarrow> (\<forall>d \<in> set ring. FreshCreates d \<le> sh' (Template d)))"
  using assms
proof (induction ring sh rem rule: general_loop.induct)
  case (1 ring sh rem)
  show ?case
  proof (cases "rem > 0")
    case False
    with "1.prems" show ?thesis by (simp add: general_loop.simps)
  next
    case True
    obtain s1 m1 p where pass: "general_pass ring (sh, rem, False) = (s1, m1, p)" by (metis prod_cases3)
    note inv = general_pass_inv [OF pass subset_refl "1.prems"(2,3)]
    show ?thesis
    proof (cases p)
      case False
      with True pass "1.prems"(1) have res: "sh' = s1" "rem' = m1" by (simp_all add: general_loop.simps)
      from pass False have "general_pass ring (sh, rem, False) = (s1, m1, False)" by simp
      from general_pass_stuck [OF this] inv res True show ?thesis by auto
    next
      case p: True
      with True pass "1.prems"(1) have rec: "general_loop ring s1 m1 = (sh', rem')"
        by (simp add: general_loop.simps [of ring sh])
      have "pool_inv limit ring sh' rem' \<and> (\<forall>t. s1 t \<le> sh' t)
          \<and> (0 < rem' \<longrightarrow> (\<forall>d \<in> set ring. FreshCreates d \<le> sh' (Template d)))"
        using "1.IH" [OF True pass [symmetric] refl _ rec "1.prems"(2)] inv p by blast
      with inv show ?thesis by (auto intro: order_trans)
    qed
  qed
qed

lemma floor_pass_inv:
  assumes "floor_pass fb ds (sh, rem, u) = (sh', rem', u')" and "set ds \<subseteq> set ring"
    and "distinct (map Template ring)" and "distinct (map Template ds)" and "\<forall>d \<in> set ds. sh (Template d) = 0"
    and "\<forall>d \<in> set ring. 0 < FreshCreates d" and "pool_inv limit ring sh rem" and "rem + u = limit"
    and "u \<le> fb" and "fb \<le> limit" and "elastic_total ring sh = 0"
  shows "pool_inv limit ring sh' rem' \<and> rem' + u' = limit \<and> u' \<le> fb \<and> elastic_total ring sh' = 0 \<and> (\<forall>t. sh t \<le> sh' t)
    \<and> (u + int (length (filter HasFloor ds)) \<le> fb \<longrightarrow> (\<forall>d \<in> set ds. HasFloor d \<longrightarrow> 1 \<le> sh' (Template d)))"
  using assms
proof (induction ds arbitrary: sh rem u)
  case (Cons d ds)
  show ?case
  proof (cases "u \<ge> fb \<or> \<not> HasFloor d")
    case True
    with Cons show ?thesis by (auto simp: filter_empty_conv split: if_splits)
  next
    case False
    let ?sh = "bump sh (Template d)"
    from False Cons.prems(1) have rec: "floor_pass fb ds (?sh, rem - 1, u + 1) = (sh', rem', u')" by simp
    have d: "d \<in> set ring" using Cons.prems(2) by simp
    have b: "pool_inv limit ring ?sh (rem - 1)"
      using False Cons.prems d by (intro bump_inv) auto
    have z: "\<forall>e \<in> set ds. ?sh (Template e) = 0"
      using Cons.prems(4,5) by (auto simp: bump_def image_iff)
    have e: "elastic_total ring ?sh = 0"
      using elastic_total_bump [OF Cons.prems(3) d] False Cons.prems(11) by simp
    have IH: "pool_inv limit ring sh' rem' \<and> rem' + u' = limit \<and> u' \<le> fb \<and> elastic_total ring sh' = 0 \<and> (\<forall>t. ?sh t \<le> sh' t)
      \<and> (u + 1 + int (length (filter HasFloor ds)) \<le> fb \<longrightarrow> (\<forall>d \<in> set ds. HasFloor d \<longrightarrow> 1 \<le> sh' (Template d)))"
      using Cons.IH [OF rec _ Cons.prems(3) _ z Cons.prems(6) b _ _ Cons.prems(10) e] Cons.prems False by auto
    have mono: "sh t \<le> ?sh t" for t by (simp add: bump_def)
    have "1 \<le> ?sh (Template d)" using Cons.prems(5) by (simp add: bump_def)
    with IH have "1 \<le> sh' (Template d)" by (meson order_trans)
    with IH mono False show ?thesis by (auto intro: order_trans)
  qed
qed simp

text \<open>The elastic demand as a number, and that the sum the code forms is this number as long as it fits.\<close>

definition elastic_need :: "Demand list \<Rightarrow> int" where
  "elastic_need active = sum_list (map FreshCreates (filter (\<lambda>d. \<not> HasFloor d) active))"

lemma elastic_need_nonneg: "\<forall>d \<in> set ds. 0 < FreshCreates d \<Longrightarrow> 0 \<le> elastic_need ds"
  unfolding elastic_need_def by (rule sum_list_nonneg) auto

lemma elastic_demand_need:
  assumes "\<forall>d \<in> set ds. 0 < FreshCreates d" and "elastic_need ds < 2 ^ 63"
  shows "elastic_demand ds = elastic_need ds"
proof -
  have "foldl (\<lambda>n d. if \<not> HasFloor d then wrap64 (n + FreshCreates d) else n) n ds = n + elastic_need ds"
    if "0 \<le> n" "n + elastic_need ds < 2 ^ 63" for n
    using that assms(1)
  proof (induction ds arbitrary: n)
    case (Cons d ds)
    show ?case
    proof (cases "HasFloor d")
      case True
      with Cons show ?thesis by (simp add: elastic_need_def)
    next
      case False
      then have need: "elastic_need (d # ds) = FreshCreates d + elastic_need ds" by (simp add: elastic_need_def)
      have "in_int64 (n + FreshCreates d)"
        using Cons.prems need elastic_need_nonneg [of ds] by (auto simp: in_int64_def)
      with Cons.IH [of "n + FreshCreates d"] Cons.prems need False show ?thesis by (simp add: wrap64_id)
    qed
  qed (simp add: elastic_need_def)
  from this [of 0] assms(2) show ?thesis by (simp add: elastic_demand_def)
qed

definition active_demands :: "Demand list \<Rightarrow> Demand list" where
  "active_demands demands = filter (\<lambda>d. FreshCreates d > 0) demands"

lemma elastic_total_full:
  assumes "distinct (map Template ring)" and "\<forall>d \<in> set ring. HasFloor d \<or> FreshCreates d \<le> sh (Template d)"
  shows "elastic_need ring \<le> elastic_total ring sh"
proof -
  let ?xs = "filter (\<lambda>d. \<not> HasFloor d) ring"
  have d: "distinct (map Template ?xs)" using assms(1) by (rule distinct_map_filter)
  have "elastic_need ring = sum_list (map FreshCreates ?xs)" by (simp add: elastic_need_def)
  also have "\<dots> \<le> sum_list (map (sh \<circ> Template) ?xs)"
    using assms(2) by (intro sum_list_mono) auto
  also have "\<dots> = sum_list (map sh (map Template ?xs))" by simp
  also have "\<dots> = (\<Sum>t \<in> set (map Template ?xs). sh t)" using d by (rule sum_list_distinct_conv_sum_set)
  also have "\<dots> = elastic_total ring sh" by (simp add: elastic_total_def)
  finally show ?thesis .
qed

lemma elastic_need_perm: "mset xs = mset ys \<Longrightarrow> elastic_need xs = elastic_need ys"
  by (simp only: elastic_need_def sum_mset_sum_list [symmetric] mset_map mset_filter)

lemma fairShares_correct:
  assumes ds: "distinct (map Template demands)" and fs: "fairShares demands limit seed = (Some sh, sp)"
    and fit: "limit < 2 ^ 63" "elastic_need (active_demands demands) < 2 ^ 63"
  defines "act \<equiv> active_demands demands"
  defines "reserve \<equiv> min (limit div 4) (elastic_need act)"
  shows "pool_inv limit act sh sp \<and> (0 < sp \<longrightarrow> (\<forall>d \<in> set act. sh (Template d) = FreshCreates d))
    \<and> reserve \<le> elastic_total act sh
    \<and> (int (length (filter HasFloor act)) \<le> limit - reserve \<longrightarrow> (\<forall>d \<in> set act. HasFloor d \<longrightarrow> 1 \<le> sh (Template d)))"
proof -
  let ?ring = "rotated (unat (seed mod of_nat (length act))) act"
  have lim: "0 < limit" and two: "\<not> length act \<le> 1"
    using fs by (auto simp: fairShares_def act_def active_demands_def Let_def split: if_splits)
  have ring: "?ring = rotate (unat (seed mod of_nat (length act))) act" by (rule rotated_rotate)
  have set: "set ?ring = set act" by (simp add: ring)
  have dact: "distinct (map Template act)" using ds by (simp add: act_def active_demands_def distinct_map_filter)
  then have dring: "distinct (map Template ?ring)" by (simp add: ring rotate_map [symmetric])
  have mring: "mset ?ring = mset act" by (simp add: ring)
  have pos: "\<forall>d \<in> set ?ring. 0 < FreshCreates d" unfolding set by (simp add: act_def active_demands_def)
  have act: "\<forall>d \<in> set act. 0 < FreshCreates d" by (simp add: act_def active_demands_def)
  have need: "elastic_demand act = elastic_need act" using elastic_demand_need [OF act] fit(2) by (simp add: act_def)
  have res: "0 \<le> reserve" "reserve \<le> limit"
    using lim elastic_need_nonneg [OF act] by (auto simp: reserve_def)
  then have fb: "wrap64 (limit - reserve) = limit - reserve" using lim fit(1) by (intro wrap64_id) (auto simp: in_int64_def)
  obtain s1 m1 u1 where f: "floor_pass (limit - reserve) ?ring (\<lambda>_. 0, limit, 0) = (s1, m1, u1)" by (metis prod_cases3)
  obtain s2 m2 g2 where e: "elastic_loop reserve ?ring s1 m1 0 = (s2, m2, g2)" by (metis prod_cases3)
  have g: "general_loop ?ring s2 m2 = (sh, sp)"
    using fs lim two f e
    by (simp add: fairShares_def Let_def act_def [symmetric] active_demands_def [symmetric] need reserve_def [symmetric] fb split: prod.splits)
  have "pool_inv limit ?ring (\<lambda>_. 0) limit" using lim pos by (auto simp: pool_inv_def less_imp_le)
  from floor_pass_inv [OF f subset_refl dring dring _ pos this] res
  have F: "pool_inv limit ?ring s1 m1" "m1 + u1 = limit" "u1 \<le> limit - reserve" "elastic_total ?ring s1 = 0"
    and fl: "int (length (filter HasFloor ?ring)) \<le> limit - reserve \<longrightarrow> (\<forall>d \<in> set ?ring. HasFloor d \<longrightarrow> 1 \<le> s1 (Template d))"
    by (auto simp: elastic_total_def)
  from elastic_loop_inv [OF e dring F(1)] F(4) res
  have E: "pool_inv limit ?ring s2 m2" "g2 = elastic_total ?ring s2" "m2 + g2 = m1" "\<forall>t. s1 t \<le> s2 t"
    and stuck: "g2 < reserve \<and> 0 < m2 \<longrightarrow> (\<forall>d \<in> set ?ring. HasFloor d \<or> FreshCreates d \<le> s2 (Template d))" by auto
  from general_loop_inv [OF g dring E(1)]
  have G: "pool_inv limit ?ring sh sp" "\<forall>t. s2 t \<le> sh t" "0 < sp \<longrightarrow> (\<forall>d \<in> set ?ring. FreshCreates d \<le> sh (Template d))"
    by auto
  have "reserve \<le> g2"
  proof (rule ccontr)
    assume lt: "\<not> reserve \<le> g2"
    show False
    proof (cases "0 < m2")
      case True
      with stuck lt have "elastic_need ?ring \<le> elastic_total ?ring s2" using elastic_total_full [OF dring] by auto
      then show False using lt E(2) elastic_need_perm [OF mring] by (simp add: reserve_def)
    next
      case False
      with E F lt show False by linarith
    qed
  qed
  moreover have "elastic_total ?ring s2 \<le> elastic_total ?ring sh"
    unfolding elastic_total_def using G(2) by (intro sum_mono) auto
  moreover have "elastic_total ?ring sh = elastic_total act sh" by (simp only: elastic_total_def set)
  moreover have "pool_inv limit act sh sp" using G(1) unfolding pool_inv_def set .
  moreover have "0 < sp \<longrightarrow> (\<forall>d \<in> set act. sh (Template d) = FreshCreates d)"
    using G(3,1) unfolding set pool_inv_def by force
  moreover have "int (length (filter HasFloor act)) \<le> limit - reserve \<longrightarrow> (\<forall>d \<in> set act. HasFloor d \<longrightarrow> 1 \<le> sh (Template d))"
  proof (intro impI ballI)
    fix d
    assume a: "int (length (filter HasFloor act)) \<le> limit - reserve" and d: "d \<in> set act" "HasFloor d"
    have "length (filter HasFloor ?ring) = length (filter HasFloor act)"
      using mring by (metis mset_filter size_mset)
    with fl a d set have "1 \<le> s1 (Template d)" by simp
    moreover have "s1 (Template d) \<le> s2 (Template d)" "s2 (Template d) \<le> sh (Template d)" using E(4) G(2) by simp_all
    ultimately show "1 \<le> sh (Template d)" by linarith
  qed
  ultimately show ?thesis using E(2) by auto
qed

section \<open>Runs of the budget\<close>

text \<open>Clients claim for a template, and refund a claim they hold.\<close>

datatype budget_op = OpClaim string | OpRelease

fun run_ops :: "budget_op list \<Rightarrow> CreateBudget option \<times> int \<Rightarrow> CreateBudget option \<times> int" where
  "run_ops [] st = st"
| "run_ops (OpClaim t # ops) (b, out) =
     (case TryClaim b t of (ok, b') \<Rightarrow> run_ops ops (b', if ok then out + 1 else out))"
| "run_ops (OpRelease # ops) (b, out) =
     (if 0 < out then run_ops ops (Release b, out - 1) else run_ops ops (b, out))"

definition claims_of :: "string \<Rightarrow> budget_op list \<Rightarrow> int" where
  "claims_of t ops = int (length (filter (\<lambda>op. op = OpClaim t) ops))"

lemma run_ops_total:
  assumes "run_ops ops (Some c, out) = (b, out')" and "0 \<le> remaining c" and "remaining c + out = limit"
  shows "\<exists>c'. b = Some c' \<and> 0 \<le> remaining c' \<and> remaining c' + out' = limit"
  using assms
proof (induction ops arbitrary: c out)
  case (Cons op ops)
  show ?case
  proof (cases op)
    case (OpClaim t)
    obtain ok b' where t: "TryClaim (Some c) t = (ok, b')" by fastforce
    then obtain c' where c': "b' = Some c'" "0 \<le> remaining c'" "remaining c' + (if ok then out + 1 else out) = limit"
      using Cons.prems(2,3) by (auto simp: TryClaim_def split: if_splits option.splits)
    have "run_ops ops (Some c', if ok then out + 1 else out) = (b, out')"
      using Cons.prems(1) OpClaim t c'(1) by simp
    from Cons.IH [OF this c'(2,3)] show ?thesis .
  next
    case OpRelease
    show ?thesis
    proof (cases "0 < out")
      case True
      obtain c' where c': "Release (Some c) = Some c'" "remaining c' = remaining c + 1"
        by (auto simp: Release_def split: option.splits)
      have "run_ops ops (Some c', out - 1) = (b, out')" using Cons.prems(1) OpRelease True c'(1) by simp
      from Cons.IH [OF this] c'(2) Cons.prems(2,3) show ?thesis by simp
    next
      case False
      with Cons OpRelease show ?thesis by simp
    qed
  qed
qed auto

text \<open>While shares are configured: what is left is shares plus spare, over the finite set of templates that
  hold one.\<close>

definition share_state :: "string set \<Rightarrow> CreateBudget \<Rightarrow> (string \<Rightarrow> int) \<Rightarrow> bool" where
  "share_state T c tr \<longleftrightarrow> finite T \<and> templateRemaining c = Some tr \<and> 0 \<le> spare c \<and> (\<forall>t. 0 \<le> tr t)
     \<and> (\<forall>t. t \<notin> T \<longrightarrow> tr t = 0) \<and> (\<Sum>t \<in> T. tr t) + spare c = remaining c"

lemma sum_dec: "finite A \<Longrightarrow> x \<in> A \<Longrightarrow> (\<Sum>t \<in> A. (f(x := f x - (1::int))) t) = (\<Sum>t \<in> A. f t) - 1"
proof -
  assume A: "finite A" "x \<in> A"
  have "(\<Sum>t \<in> A - {x}. (f(x := f x - 1)) t) = (\<Sum>t \<in> A - {x}. f t)" by (rule sum.cong) auto
  with A show ?thesis by (simp add: sum.remove [of A x])
qed

lemma TryClaim_share:
  assumes "share_state T c tr" and "TryClaim (Some c) u = (ok, b)"
  shows "\<exists>c' tr'. b = Some c' \<and> share_state T c' tr' \<and> (\<forall>t. t \<noteq> u \<longrightarrow> tr' t = tr t) \<and> tr u - 1 \<le> tr' u \<and> (0 < tr u \<longrightarrow> ok)"
proof (cases "0 < tr u")
  case True
  then have u: "u \<in> T" using assms(1) by (auto simp: share_state_def)
  have "tr u \<le> (\<Sum>t \<in> T. tr t)" using assms(1) u by (intro member_le_sum) (auto simp: share_state_def)
  then have pos: "\<not> remaining c \<le> 0" using True assms(1) by (auto simp: share_state_def)
  let ?c = "c\<lparr>templateRemaining := Some (tr(u := tr u - 1)), remaining := remaining c - 1\<rparr>"
  have "TryClaim (Some c) u = (True, Some ?c)"
    using pos True assms(1) by (simp add: TryClaim_def share_state_def)
  moreover have "share_state T ?c (tr(u := tr u - 1))"
    using assms(1) True u sum_dec [of T u tr] by (auto simp: share_state_def)
  ultimately show ?thesis using assms(2) by auto
next
  case False
  with assms show ?thesis
    by (auto simp: TryClaim_def share_state_def split: if_splits)
qed

lemma Release_share:
  assumes "share_state T c tr"
  shows "\<exists>c'. Release (Some c) = Some c' \<and> share_state T c' tr"
  using assms by (auto simp: Release_def share_state_def)

lemma run_ops_share:
  assumes "run_ops ops (Some c, out) = (b, out')" and "share_state T c tr"
  shows "\<exists>c' tr'. b = Some c' \<and> share_state T c' tr' \<and> tr t - claims_of t ops \<le> tr' t"
  using assms
proof (induction ops arbitrary: c out tr)
  case (Cons op ops)
  show ?case
  proof (cases op)
    case (OpClaim u)
    obtain ok b' where t: "TryClaim (Some c) u = (ok, b')" by fastforce
    from TryClaim_share [OF Cons.prems(2) t] obtain c' tr' where c': "b' = Some c'" "share_state T c' tr'"
      and tr: "\<forall>t. t \<noteq> u \<longrightarrow> tr' t = tr t" "tr u - 1 \<le> tr' u" by blast
    have "run_ops ops (Some c', if ok then out + 1 else out) = (b, out')"
      using Cons.prems(1) OpClaim t c'(1) by simp
    from Cons.IH [OF this c'(2)] tr OpClaim show ?thesis by (fastforce simp: claims_of_def)
  next
    case OpRelease
    show ?thesis
    proof (cases "0 < out")
      case True
      obtain c' where c': "Release (Some c) = Some c'" "share_state T c' tr" using Release_share [OF Cons.prems(2)] by blast
      have "run_ops ops (Some c', out - 1) = (b, out')" using Cons.prems(1) OpRelease True c'(1) by simp
      from Cons.IH [OF this c'(2)] OpRelease show ?thesis by (simp add: claims_of_def)
    next
      case False
      with Cons OpRelease show ?thesis by (simp add: claims_of_def)
    qed
  qed
qed (auto simp: claims_of_def)

section \<open>Properties\<close>

text \<open>C20: fair shares neither invent nor lose tokens and are work-conserving.  Shares and spare add up to the
  limit, no template gets more than it asked for or less than nothing, only active templates get
  any, and tokens are left over only when every demand is met in full.  The limit is a 64-bit integer, and
  the demand of the templates without a floor is assumed to add up to one: the code forms that sum, and past
  the limit it wraps.\<close>

theorem fair_shares_conserve:
  assumes "distinct (map Template demands)" and "fairShares demands limit seed = (Some sh, sp)"
    and "limit < 2 ^ 63" and "elastic_need (active_demands demands) < 2 ^ 63"
  shows "(\<Sum>t \<in> Template ` set (active_demands demands). sh t) + sp = limit \<and> 0 \<le> sp
    \<and> (\<forall>d \<in> set (active_demands demands). 0 \<le> sh (Template d) \<and> sh (Template d) \<le> FreshCreates d)
    \<and> (\<forall>t. t \<notin> Template ` set (active_demands demands) \<longrightarrow> sh t = 0)
    \<and> (0 < sp \<longrightarrow> (\<forall>d \<in> set (active_demands demands). sh (Template d) = FreshCreates d))"
  using fairShares_correct [OF assms] by (auto simp: pool_inv_def)

definition demo_demands :: "Demand list" where
  "demo_demands = [\<lparr>Template = ''a'', FreshCreates = 5, HasFloor = True\<rparr>, \<lparr>Template = ''b'', FreshCreates = 2, HasFloor = False\<rparr>]"

lemma demo_shares: "\<exists>sh sp. fairShares demo_demands 4 0 = (Some sh, sp)"
  by (simp add: fairShares_def demo_demands_def Let_def split: prod.splits)

lemma demo_parts:
  "active_demands demo_demands = demo_demands" "elastic_total demo_demands sh = sh ''b''"
  "elastic_need demo_demands = 2" "filter HasFloor demo_demands = [\<lparr>Template = ''a'', FreshCreates = 5, HasFloor = True\<rparr>]"
  "distinct (map Template demo_demands)"
proof -
  have "{d \<in> set demo_demands. \<not> HasFloor d} = {\<lparr>Template = ''b'', FreshCreates = 2, HasFloor = False\<rparr>}"
    by (auto simp: demo_demands_def)
  then show "elastic_total demo_demands sh = sh ''b''" by (simp add: elastic_total_def)
qed (simp_all add: active_demands_def demo_demands_def elastic_need_def)

theorem fair_shares_conserve_witness:
  "\<exists>sh sp. fairShares demo_demands 4 0 = (Some sh, sp)
     \<and> (\<Sum>t \<in> Template ` set (active_demands demo_demands). sh t) + sp = 4"
proof -
  obtain sh sp where f: "fairShares demo_demands 4 0 = (Some sh, sp)" using demo_shares by blast
  from fair_shares_conserve [OF demo_parts(5) f] f show ?thesis by (auto simp: demo_parts)
qed

text \<open>C29: no starvation in either direction.  A quarter of the limit, or all elastic demand if that is less,
  goes to templates without a floor; and when the floor-bearing templates fit in the rest of the
  limit, each of them gets at least one token.  As before, the limit and the elastic demand fit in 64 bits.\<close>

theorem fair_shares_no_starvation:
  assumes "distinct (map Template demands)" and "fairShares demands limit seed = (Some sh, sp)"
    and "limit < 2 ^ 63" and "elastic_need (active_demands demands) < 2 ^ 63"
    and "reserve = min (limit div 4) (elastic_need (active_demands demands))"
  shows "reserve \<le> elastic_total (active_demands demands) sh
    \<and> (int (length (filter HasFloor (active_demands demands))) \<le> limit - reserve \<longrightarrow>
        (\<forall>d \<in> set (active_demands demands). HasFloor d \<longrightarrow> 1 \<le> sh (Template d)))"
  using fairShares_correct [OF assms(1-4)] assms(5) by simp

theorem fair_shares_no_starvation_witness:
  "\<exists>sh sp. fairShares demo_demands 4 0 = (Some sh, sp) \<and> 1 \<le> sh ''a'' \<and> 1 \<le> sh ''b''"
proof -
  obtain sh sp where f: "fairShares demo_demands 4 0 = (Some sh, sp)" using demo_shares by blast
  from fair_shares_no_starvation [OF demo_parts(5) f _ _ refl] have "1 \<le> sh ''b''"
    "\<forall>d \<in> set demo_demands. HasFloor d \<longrightarrow> 1 \<le> sh (Template d)"
    by (simp_all add: demo_parts)
  with f show ?thesis by (auto simp: demo_demands_def)
qed

text \<open>C21: the limit is never exceeded.  Whatever claims and refunds follow, with or without configured
  shares, the claims held at any time plus the tokens left are the limit, so at most limit claims
  are held at once.\<close>

theorem budget_never_exceeded:
  assumes "NewCreateBudget limit = Some c" and "b = Some c \<or> b = ConfigureFairShare (Some c) demands seed"
    and "run_ops ops (b, 0) = (b', out)"
  shows "\<exists>c'. b' = Some c' \<and> remaining c' + out = limit \<and> out \<le> limit \<and> 0 \<le> remaining c'"
proof -
  obtain c0 where c0: "b = Some c0" "remaining c0 = limit" "0 \<le> remaining c0"
    using assms(1,2) by (auto simp: NewCreateBudget_def ConfigureFairShare_def split: if_splits prod.splits)
  from run_ops_total [OF _ c0(3), of ops 0 b' out limit] assms(3) c0 show ?thesis by auto
qed

theorem budget_never_exceeded_witness:
  "\<exists>b' out. run_ops [OpClaim ''a'', OpClaim ''a'', OpRelease] (NewCreateBudget 1, 0) = (b', out) \<and> out \<le> 1"
proof -
  obtain c where c: "NewCreateBudget 1 = Some c" by (simp add: NewCreateBudget_def)
  obtain b' out where r: "run_ops [OpClaim ''a'', OpClaim ''a'', OpRelease] (Some c, 0) = (b', out)" by fastforce
  from budget_never_exceeded [OF c _ r, of "[]" 0] r c show ?thesis by auto
qed

text \<open>A configured share is guaranteed: whatever other templates claim and whoever refunds, a template
  that has tried fewer claims than its share gets the next one.\<close>

theorem share_guaranteed:
  assumes "distinct (map Template demands)" and "fairShares demands (remaining c) seed = (Some sh, sp)"
    and "run_ops ops (ConfigureFairShare (Some c) demands seed, 0) = (b', out)" and "claims_of t ops < sh t"
    and "remaining c < 2 ^ 63" and "elastic_need (active_demands demands) < 2 ^ 63"
  shows "fst (TryClaim b' t)"
proof -
  let ?T = "Template ` set (active_demands demands)"
  let ?c = "c\<lparr>templateRemaining := Some sh, spare := sp\<rparr>"
  have p: "pool_inv (remaining c) (active_demands demands) sh sp" using fairShares_correct [OF assms(1,2,5,6)] by blast
  have "0 \<le> sh u" for u using p by (cases "u \<in> ?T") (auto simp: pool_inv_def)
  with p have s: "share_state ?T ?c sh" by (auto simp: share_state_def pool_inv_def)
  have "run_ops ops (Some ?c, 0) = (b', out)" using assms(2,3) by (simp add: ConfigureFairShare_def)
  from run_ops_share [OF this s, of t] obtain c' tr' where c': "b' = Some c'" "share_state ?T c' tr'" "0 < tr' t"
    using assms(4) by fastforce
  obtain ok b2 where t: "TryClaim (Some c') t = (ok, b2)" by fastforce
  from TryClaim_share [OF c'(2) t] c' t show ?thesis by auto
qed

theorem share_guaranteed_witness:
  "\<exists>b' out. run_ops [OpClaim ''a'', OpClaim ''a'', OpClaim ''a''] (ConfigureFairShare (NewCreateBudget 4) demo_demands 0, 0) = (b', out)
     \<and> fst (TryClaim b' ''b'')"
proof -
  obtain c where c: "NewCreateBudget 4 = Some c" "remaining c = 4" by (simp add: NewCreateBudget_def)
  obtain sh sp where f: "fairShares demo_demands 4 0 = (Some sh, sp)" using demo_shares by blast
  obtain b' out where r: "run_ops [OpClaim ''a'', OpClaim ''a'', OpClaim ''a''] (ConfigureFairShare (Some c) demo_demands 0, 0) = (b', out)"
    by fastforce
  note d = demo_parts(5)
  have "1 \<le> sh ''b''" using fairShares_correct [OF d f] by (simp add: demo_parts)
  then have "claims_of ''b'' [OpClaim ''a'', OpClaim ''a'', OpClaim ''a''] < sh ''b''" by (simp add: claims_of_def)
  moreover have "fairShares demo_demands (remaining c) 0 = (Some sh, sp)" using f c by simp
  ultimately have "fst (TryClaim b' ''b'')" using share_guaranteed [OF d _ r] c by (simp add: demo_parts)
  with r c show ?thesis by auto
qed

end
