(* ===== verification/Breaker.thy ===== *)
theory Breaker
  imports Go_Time
begin

text \<open>
  The circuit breaker for transport failures (\<open>internal/resilience/breaker.go\<close>) and its registry
  (\<open>registry.go\<close>).  The clock reading of a call is its argument \<open>now\<close>; \<open>draw\<close> stands for
  \<open>rand.Int64N\<close>.  The transition callback, when installed, is the list of the transitions delivered to it.
  Durations are 64-bit signed integers, with the wrap-around of the doubling written out.
\<close>

datatype BreakerState = BreakerClosed | BreakerOpen | BreakerHalfOpen

definition String :: "BreakerState \<Rightarrow> string" where
  "String s = (case s of BreakerClosed \<Rightarrow> ''closed'' | BreakerOpen \<Rightarrow> ''open'' | BreakerHalfOpen \<Rightarrow> ''half-open'')"

definition DefaultConsecutiveFailures :: int where "DefaultConsecutiveFailures = 3"
definition DefaultOpenBase :: int where "DefaultOpenBase = nanos"
definition DefaultOpenMax :: int where "DefaultOpenMax = 60 * nanos"
definition DefaultHalfOpenInterval :: int where "DefaultHalfOpenInterval = 15 * nanos"

record Settings =
  Enabled :: bool
  ConsecutiveFailures :: int
  OpenBase :: int
  OpenMax :: int
  HalfOpenInterval :: int

definition withDefaults :: "Settings \<Rightarrow> Settings" where
  "withDefaults s =
     (let s1 = (if ConsecutiveFailures s \<le> 0 then s\<lparr>ConsecutiveFailures := DefaultConsecutiveFailures\<rparr> else s);
          s2 = (if OpenBase s1 \<le> 0 then s1\<lparr>OpenBase := DefaultOpenBase\<rparr> else s1);
          s3 = (if OpenMax s2 \<le> 0 then s2\<lparr>OpenMax := DefaultOpenMax\<rparr> else s2);
          s4 = (if OpenMax s3 < OpenBase s3 then s3\<lparr>OpenMax := OpenBase s3\<rparr> else s3)
      in if HalfOpenInterval s4 \<le> 0 then s4\<lparr>HalfOpenInterval := DefaultHalfOpenInterval\<rparr> else s4)"

definition DefaultSettings :: Settings where
  "DefaultSettings = withDefaults \<lparr>Enabled = True, ConsecutiveFailures = 0, OpenBase = 0, OpenMax = 0, HalfOpenInterval = 0\<rparr>"

record BreakerTransition =
  trScope :: string
  trOpClass :: string
  trFrom :: BreakerState
  trTo :: BreakerState
  trFailures :: int
  trBackoff :: int
  trAt :: gtime

record Breaker =
  scope :: string
  opClass :: string
  settings :: Settings
  onChange :: "BreakerTransition list option"
  state :: BreakerState
  failures :: int
  trips :: int
  deadline :: gtime
  lastProbeAt :: gtime

definition newBreaker :: "string \<Rightarrow> string \<Rightarrow> Settings \<Rightarrow> BreakerTransition list option \<Rightarrow> Breaker" where
  "newBreaker sc op st oc =
     \<lparr>scope = sc, opClass = op, settings = withDefaults st, onChange = oc, state = BreakerClosed, failures = 0,
      trips = 0, deadline = zero_time, lastProbeAt = zero_time\<rparr>"

definition fullJitter :: "(int \<Rightarrow> int) \<Rightarrow> int \<Rightarrow> int" where
  "fullJitter draw capDur = (if capDur \<le> 0 then 0 else draw capDur + 1)"

definition transitionLocked :: "BreakerState \<Rightarrow> int \<Rightarrow> gtime \<Rightarrow> Breaker \<Rightarrow> Breaker" where
  "transitionLocked to backoff now b =
     (let from = state b in
      if from = to then b
      else let b1 = b\<lparr>state := to\<rparr> in
        case onChange b of
          None \<Rightarrow> b1
        | Some seen \<Rightarrow>
            b1\<lparr>onChange := Some (seen @ [\<lparr>trScope = scope b, trOpClass = opClass b, trFrom = from, trTo = to,
                 trFailures = failures b, trBackoff = backoff, trAt = now\<rparr>])\<rparr>)"

text \<open>\<open>backoffCapLocked\<close>: the loop runs for i from 1 below the trip count.\<close>

fun backoff_loop :: "nat \<Rightarrow> int \<Rightarrow> int \<Rightarrow> int" where
  "backoff_loop 0 openMax capDur = (if capDur > openMax then openMax else capDur)"
| "backoff_loop (Suc n) openMax capDur =
     (let c = wrap64 (capDur * 2) in if c \<ge> openMax \<or> c \<le> 0 then openMax else backoff_loop n openMax c)"

definition backoffCapLocked :: "Breaker \<Rightarrow> int" where
  "backoffCapLocked b = backoff_loop (nat (trips b - 1)) (OpenMax (settings b)) (OpenBase (settings b))"

definition openLocked :: "(int \<Rightarrow> int) \<Rightarrow> gtime \<Rightarrow> Breaker \<Rightarrow> Breaker" where
  "openLocked draw now b =
     (let backoff = fullJitter draw (backoffCapLocked b)
      in transitionLocked BreakerOpen backoff now (b\<lparr>deadline := now + backoff\<rparr>))"

section \<open>Operations\<close>

definition Allow :: "gtime \<Rightarrow> Breaker \<Rightarrow> bool \<times> Breaker" where
  "Allow now b =
     (if \<not> Enabled (settings b) then (True, b)
      else case state b of
             BreakerOpen \<Rightarrow>
               if now < deadline b then (False, b)
               else (True, (transitionLocked BreakerHalfOpen 0 now b)\<lparr>lastProbeAt := now\<rparr>)
           | BreakerHalfOpen \<Rightarrow>
               if time_sub now (lastProbeAt b) < HalfOpenInterval (settings b) then (False, b)
               else (True, b\<lparr>lastProbeAt := now\<rparr>)
           | BreakerClosed \<Rightarrow> (True, b))"

definition Available :: "Breaker \<Rightarrow> bool" where
  "Available b = (if \<not> Enabled (settings b) then True else state b = BreakerClosed)"

definition ProbeDue :: "gtime \<Rightarrow> Breaker \<Rightarrow> bool" where
  "ProbeDue now b =
     (if \<not> Enabled (settings b) then False
      else case state b of
             BreakerOpen \<Rightarrow> \<not> now < deadline b
           | BreakerHalfOpen \<Rightarrow> time_sub now (lastProbeAt b) \<ge> HalfOpenInterval (settings b)
           | BreakerClosed \<Rightarrow> False)"

definition RecordSuccess :: "gtime \<Rightarrow> Breaker \<Rightarrow> Breaker" where
  "RecordSuccess now b =
     (if \<not> Enabled (settings b) then b
      else let b1 = b\<lparr>failures := 0, trips := 0\<rparr>
           in if state b \<noteq> BreakerClosed then transitionLocked BreakerClosed 0 now b1 else b1)"

definition RecordFailure :: "(int \<Rightarrow> int) \<Rightarrow> gtime \<Rightarrow> Breaker \<Rightarrow> Breaker" where
  "RecordFailure draw now b =
     (if \<not> Enabled (settings b) then b
      else case state b of
             BreakerOpen \<Rightarrow> b
           | BreakerHalfOpen \<Rightarrow> openLocked draw now (b\<lparr>trips := trips b + 1\<rparr>)
           | BreakerClosed \<Rightarrow>
               let b1 = b\<lparr>failures := failures b + 1\<rparr>
               in if failures b1 \<ge> ConsecutiveFailures (settings b)
                  then openLocked draw now (b1\<lparr>trips := 1\<rparr>) else b1)"

definition Trip :: "(int \<Rightarrow> int) \<Rightarrow> gtime \<Rightarrow> Breaker \<Rightarrow> Breaker" where
  "Trip draw now b =
     (if \<not> Enabled (settings b) then b
      else case state b of
             BreakerOpen \<Rightarrow> b
           | BreakerHalfOpen \<Rightarrow> openLocked draw now (b\<lparr>trips := trips b + 1\<rparr>)
           | BreakerClosed \<Rightarrow> openLocked draw now (b\<lparr>trips := 1\<rparr>))"

definition StateOf :: "Breaker \<Rightarrow> BreakerState" where
  "StateOf b = (if \<not> Enabled (settings b) then BreakerClosed else state b)"

definition setOnChangeForRegistry :: "BreakerTransition list option \<Rightarrow> Breaker \<Rightarrow> Breaker" where
  "setOnChangeForRegistry fn b = b\<lparr>onChange := fn\<rparr>"

section \<open>Registry\<close>

text \<open>Breakers are shared by reference: the registry's map holds each breaker's current state.\<close>

record Registry =
  rgSettings :: Settings
  rgOnChange :: "BreakerTransition list option"
  rgBreakers :: "string \<times> string \<rightharpoonup> Breaker"

definition NewRegistry :: "Settings \<Rightarrow> Registry" where
  "NewRegistry st = \<lparr>rgSettings = withDefaults st, rgOnChange = None, rgBreakers = Map.empty\<rparr>"

definition SetOnStateChange :: "BreakerTransition list option \<Rightarrow> Registry \<Rightarrow> Registry" where
  "SetOnStateChange fn r =
     r\<lparr>rgOnChange := fn, rgBreakers := (\<lambda>k. map_option (setOnChangeForRegistry fn) (rgBreakers r k))\<rparr>"

definition GetBreaker :: "string \<Rightarrow> string \<Rightarrow> Registry \<Rightarrow> Breaker \<times> Registry" where
  "GetBreaker sc op r =
     (case rgBreakers r (sc, op) of
        Some b \<Rightarrow> (b, r)
      | None \<Rightarrow> let b = newBreaker sc op (rgSettings r) (rgOnChange r)
                in (b, r\<lparr>rgBreakers := (rgBreakers r)((sc, op) \<mapsto> b)\<rparr>))"

definition States :: "Registry \<Rightarrow> (string \<times> string \<rightharpoonup> BreakerState)" where
  "States r = (\<lambda>k. map_option StateOf (rgBreakers r k))"

section \<open>Back-off\<close>

lemma wrap64_double: "2 ^ 62 \<le> c \<Longrightarrow> c < 2 ^ 63 \<Longrightarrow> wrap64 (c * 2) < 0"
proof -
  assume c: "2 ^ 62 \<le> c" "c < 2 ^ 63"
  have "(c * 2 + 2 ^ 63) mod 2 ^ 64 = c * 2 + 2 ^ 63 - 2 ^ 64"
    using c by (intro int_mod_pos_eq [where q = 1]) auto
  with c show ?thesis by (simp add: wrap64_def)
qed

lemma backoff_loop_exact:
  "0 < c \<Longrightarrow> c \<le> mx \<Longrightarrow> mx < 2 ^ 63 \<Longrightarrow> backoff_loop n mx c = min mx (c * 2 ^ n)"
proof (induction n arbitrary: c)
  case (Suc n)
  show ?case
  proof (cases "c < 2 ^ 62")
    case True
    with Suc.prems have w: "wrap64 (c * 2) = c * 2" by (intro wrap64_id) (auto simp: in_int64_def)
    show ?thesis
    proof (cases "c * 2 \<ge> mx")
      case True
      moreover have "c * 2 \<le> c * 2 ^ Suc n" using Suc.prems(1) by simp
      ultimately show ?thesis by (simp add: w min_def)
    next
      case False
      with Suc.IH [of "c * 2"] Suc.prems show ?thesis by (simp add: w mult.assoc)
    qed
  next
    case False
    with Suc.prems have "wrap64 (c * 2) < 0" by (intro wrap64_double) auto
    moreover have "mx \<le> c * 2 ^ Suc n"
    proof -
      have "c * 2 \<le> c * 2 ^ Suc n" using Suc.prems(1) by simp
      moreover have "2 ^ 63 \<le> c * 2" using False by simp
      ultimately show ?thesis using Suc.prems(3) by linarith
    qed
    ultimately show ?thesis by (simp add: min_def)
  qed
qed (simp add: min_def)

definition settings_ok :: "Settings \<Rightarrow> bool" where
  "settings_ok s \<longleftrightarrow> 0 < ConsecutiveFailures s \<and> 0 < OpenBase s \<and> OpenBase s \<le> OpenMax s \<and> OpenMax s < 2 ^ 63 \<and> 0 < HalfOpenInterval s"

lemma withDefaults_ok:
  "in_int64 (OpenBase s) \<Longrightarrow> in_int64 (OpenMax s) \<Longrightarrow> settings_ok (withDefaults s)"
  by (auto simp: settings_ok_def withDefaults_def Let_def in_int64_def DefaultConsecutiveFailures_def DefaultOpenBase_def
      DefaultOpenMax_def DefaultHalfOpenInterval_def nanos_def)

definition draw_ok :: "(int \<Rightarrow> int) \<Rightarrow> bool" where
  "draw_ok draw \<longleftrightarrow> (\<forall>n > 0. 0 \<le> draw n \<and> draw n < n)"

lemma transitionLocked_sels [simp]:
  "state (transitionLocked to bk now b) = to" "failures (transitionLocked to bk now b) = failures b"
  "trips (transitionLocked to bk now b) = trips b" "deadline (transitionLocked to bk now b) = deadline b"
  "lastProbeAt (transitionLocked to bk now b) = lastProbeAt b" "settings (transitionLocked to bk now b) = settings b"
  by (auto simp: transitionLocked_def Let_def split: option.splits)

lemma openLocked_sels [simp]:
  "state (openLocked draw now b) = BreakerOpen" "failures (openLocked draw now b) = failures b"
  "trips (openLocked draw now b) = trips b" "settings (openLocked draw now b) = settings b"
  "deadline (openLocked draw now b) = now + fullJitter draw (backoffCapLocked b)"
  by (simp_all add: openLocked_def Let_def)

section \<open>Invariant\<close>

inductive breaker_step :: "Breaker \<Rightarrow> Breaker \<Rightarrow> bool" where
  "breaker_step b (snd (Allow now b))"
| "breaker_step b (RecordSuccess now b)"
| "draw_ok draw \<Longrightarrow> breaker_step b (RecordFailure draw now b)"
| "draw_ok draw \<Longrightarrow> breaker_step b (Trip draw now b)"
| "breaker_step b (setOnChangeForRegistry fn b)"

definition breaker_inv :: "Settings \<Rightarrow> Breaker \<Rightarrow> bool" where
  "breaker_inv st b \<longleftrightarrow> settings b = st \<and> 0 \<le> failures b \<and> 0 \<le> trips b
     \<and> (state b = BreakerClosed \<longrightarrow> failures b < ConsecutiveFailures st) \<and> (state b \<noteq> BreakerClosed \<longrightarrow> 1 \<le> trips b)
     \<and> (\<not> Enabled st \<longrightarrow> state b = BreakerClosed)"

lemma breaker_inv_new: "settings_ok (withDefaults st) \<Longrightarrow> breaker_inv (withDefaults st) (newBreaker sc op st oc)"
  by (simp add: breaker_inv_def newBreaker_def settings_ok_def)

lemma breaker_inv_step: "breaker_step b b' \<Longrightarrow> settings_ok st \<Longrightarrow> breaker_inv st b \<Longrightarrow> breaker_inv st b'"
  by (induction rule: breaker_step.induct)
    (auto simp: breaker_inv_def settings_ok_def Allow_def RecordSuccess_def RecordFailure_def Trip_def
      setOnChangeForRegistry_def Let_def split: BreakerState.splits)

lemma breaker_inv_run: "breaker_step\<^sup>*\<^sup>* b b' \<Longrightarrow> settings_ok st \<Longrightarrow> breaker_inv st b \<Longrightarrow> breaker_inv st b'"
  by (induction rule: rtranclp_induct) (auto intro: breaker_inv_step)

text \<open>Failures recorded one after the other.\<close>

fun record_failures :: "(int \<Rightarrow> int) \<Rightarrow> gtime list \<Rightarrow> Breaker \<Rightarrow> Breaker" where
  "record_failures draw [] b = b"
| "record_failures draw (now # ts) b = record_failures draw ts (RecordFailure draw now b)"

lemma record_failures_open: "state b = BreakerOpen \<Longrightarrow> state (record_failures draw ts b) = BreakerOpen"
  by (induction ts arbitrary: b) (simp_all add: RecordFailure_def)

lemma record_failures_closed:
  assumes "Enabled (settings b)" and "state b = BreakerClosed" and "failures b < ConsecutiveFailures (settings b)"
  shows "state (record_failures draw ts b) =
    (if failures b + int (length ts) < ConsecutiveFailures (settings b) then BreakerClosed else BreakerOpen)"
  using assms
proof (induction ts arbitrary: b)
  case (Cons t ts)
  show ?case
  proof (cases "failures b + 1 < ConsecutiveFailures (settings b)")
    case True
    with Cons.prems have r: "RecordFailure draw t b = b\<lparr>failures := failures b + 1\<rparr>" by (simp add: RecordFailure_def)
    from Cons.IH [of "b\<lparr>failures := failures b + 1\<rparr>"] True Cons.prems show ?thesis by (simp add: r algebra_simps)
  next
    case False
    with Cons.prems have "state (RecordFailure draw t b) = BreakerOpen" by (simp add: RecordFailure_def Let_def)
    with False show ?thesis by (simp add: record_failures_open)
  qed
qed simp

text \<open>Calls of Allow at the given times, with the times at which they were admitted.\<close>

fun allow_run :: "gtime list \<Rightarrow> Breaker \<Rightarrow> gtime list" where
  "allow_run [] b = []"
| "allow_run (now # ts) b = (case Allow now b of (ok, b') \<Rightarrow> if ok then now # allow_run ts b' else allow_run ts b')"

lemma allow_run_spaced:
  assumes "Enabled (settings b)" and "state b = BreakerHalfOpen" and "settings_ok (settings b)"
  shows "(\<forall>t \<in> set (allow_run ts b). lastProbeAt b + HalfOpenInterval (settings b) \<le> t)
    \<and> sorted_wrt (\<lambda>t u. t + HalfOpenInterval (settings b) \<le> u) (allow_run ts b)"
  using assms
proof (induction ts arbitrary: b)
  case (Cons now ts)
  show ?case
  proof (cases "time_sub now (lastProbeAt b) < HalfOpenInterval (settings b)")
    case True
    with Cons show ?thesis by (simp add: Allow_def)
  next
    case False
    with Cons.prems have a: "Allow now b = (True, b\<lparr>lastProbeAt := now\<rparr>)" by (simp add: Allow_def)
    from False Cons.prems(3) have gap: "lastProbeAt b + HalfOpenInterval (settings b) \<le> now"
      by (auto simp: time_sub_def settings_ok_def)
    from Cons.IH [of "b\<lparr>lastProbeAt := now\<rparr>"] Cons.prems a gap show ?thesis
      by (auto simp: settings_ok_def)
  qed
qed simp

section \<open>Properties\<close>

text \<open>C34: the breaker opens at its threshold.  In every state a breaker reaches it is closed with fewer failures
  than the threshold, or not closed with at least one trip counted; a disabled breaker is always
  closed; and an enabled closed breaker is open after further failures in a row exactly when they
  bring the count to the threshold.\<close>

theorem breaker_opens_at_threshold:
  assumes "in_int64 (OpenBase st)" and "in_int64 (OpenMax st)" and "breaker_step\<^sup>*\<^sup>* (newBreaker sc op st oc) b"
  shows "(state b = BreakerClosed \<longrightarrow> 0 \<le> failures b \<and> failures b < ConsecutiveFailures (settings b))
    \<and> (state b \<noteq> BreakerClosed \<longrightarrow> 1 \<le> trips b)
    \<and> (\<not> Enabled st \<longrightarrow> state b = BreakerClosed \<and> fst (Allow now b))
    \<and> (Enabled st \<and> state b = BreakerClosed \<longrightarrow>
        (state (record_failures draw ts b) = BreakerOpen \<longleftrightarrow> ConsecutiveFailures (settings b) \<le> failures b + int (length ts)))"
proof -
  have ok: "settings_ok (withDefaults st)" using assms(1,2) by (rule withDefaults_ok)
  have inv: "breaker_inv (withDefaults st) b"
    using breaker_inv_run [OF assms(3) ok breaker_inv_new [OF ok]] .
  have en: "Enabled (withDefaults st) = Enabled st" by (simp add: withDefaults_def Let_def)
  show ?thesis
    using inv record_failures_closed [of b draw ts] by (auto simp: breaker_inv_def en Allow_def not_less)
qed

theorem breaker_opens_at_threshold_witness:
  "state (record_failures (\<lambda>n. 0) [1, 2, 3] (newBreaker ''s'' ''bd'' DefaultSettings None)) = BreakerOpen
   \<and> state (record_failures (\<lambda>n. 0) [1, 2] (newBreaker ''s'' ''bd'' DefaultSettings None)) \<noteq> BreakerOpen"
proof -
  have s: "in_int64 (OpenBase DefaultSettings)" "in_int64 (OpenMax DefaultSettings)" "Enabled DefaultSettings"
    by (simp_all add: DefaultSettings_def withDefaults_def Let_def in_int64_def DefaultOpenBase_def DefaultOpenMax_def nanos_def)
  have p: "ConsecutiveFailures (settings (newBreaker ''s'' ''bd'' DefaultSettings None)) = 3"
    "failures (newBreaker ''s'' ''bd'' DefaultSettings None) = 0" "state (newBreaker ''s'' ''bd'' DefaultSettings None) = BreakerClosed"
    by (simp_all add: newBreaker_def DefaultSettings_def withDefaults_def Let_def DefaultConsecutiveFailures_def)
  note t = breaker_opens_at_threshold [OF s(1,2) rtranclp.rtrancl_refl, of "''s''" "''bd''" None 0 "\<lambda>n. 0"]
  from t [of "[1, 2, 3]"] t [of "[1, 2]"] s(3) p show ?thesis by simp
qed

text \<open>C18: the open back-off is exactly exponential and never overflows.  In every state a breaker reaches, the cap
  computed with 64-bit doubling is the smaller of the maximum and the base times two to the number of
  earlier trips; when a failure or a trip opens the breaker, its deadline lies after the call by at
  least one nanosecond and at most that cap.\<close>

theorem breaker_backoff_bounded:
  assumes "in_int64 (OpenBase st)" and "in_int64 (OpenMax st)" and "breaker_step\<^sup>*\<^sup>* (newBreaker sc op st oc) b"
    and "draw_ok draw" and "b' = RecordFailure draw now b \<or> b' = Trip draw now b"
    and "state b \<noteq> BreakerOpen" and "state b' = BreakerOpen"
  shows "backoffCapLocked b' = min (OpenMax (settings b')) (OpenBase (settings b') * 2 ^ nat (trips b' - 1))
    \<and> now < deadline b' \<and> deadline b' \<le> now + backoffCapLocked b'"
proof -
  have ok: "settings_ok (withDefaults st)" using assms(1,2) by (rule withDefaults_ok)
  have inv: "breaker_inv (withDefaults st) b"
    using breaker_inv_run [OF assms(3) ok breaker_inv_new [OF ok]] .
  from assms(5-7) inv have st: "settings b' = withDefaults st" "deadline b' = now + fullJitter draw (backoffCapLocked b')"
    by (auto simp: RecordFailure_def Trip_def Let_def breaker_inv_def backoffCapLocked_def split: if_splits BreakerState.splits)
  have cap: "backoffCapLocked b' = min (OpenMax (settings b')) (OpenBase (settings b') * 2 ^ nat (trips b' - 1))"
    using ok st(1) unfolding backoffCapLocked_def by (intro backoff_loop_exact) (auto simp: settings_ok_def)
  then have pos: "0 < backoffCapLocked b'" using ok st(1) by (auto simp: settings_ok_def min_def)
  with assms(4) have "0 \<le> draw (backoffCapLocked b')" "draw (backoffCapLocked b') < backoffCapLocked b'"
    by (auto simp: draw_ok_def)
  with cap st pos show ?thesis by (simp add: fullJitter_def)
qed

theorem breaker_backoff_bounded_witness:
  "\<exists>b'. b' = Trip (\<lambda>n. 0) 5 (newBreaker ''s'' ''bd'' DefaultSettings None) \<and> state b' = BreakerOpen \<and> 5 < deadline b'"
proof -
  let ?b = "newBreaker ''s'' ''bd'' DefaultSettings None"
  have s: "in_int64 (OpenBase DefaultSettings)" "in_int64 (OpenMax DefaultSettings)" "Enabled (settings ?b)"
    by (simp_all add: newBreaker_def DefaultSettings_def withDefaults_def Let_def in_int64_def DefaultOpenBase_def DefaultOpenMax_def nanos_def)
  have c: "state ?b \<noteq> BreakerOpen" by (simp add: newBreaker_def)
  have o: "state (Trip (\<lambda>n. 0) 5 ?b) = BreakerOpen" using s(3) by (simp add: Trip_def split: BreakerState.splits)
  have "draw_ok (\<lambda>n. 0)" by (simp add: draw_ok_def)
  from breaker_backoff_bounded [OF s(1,2) rtranclp.rtrancl_refl this _ c o, of 5] o show ?thesis by auto
qed

text \<open>C33: probes are rationed and never lost.  An enabled breaker that is not closed admits an operation exactly when
  ProbeDue says so, that is from its deadline on when open, and then becomes half-open; while it is
  half-open and nothing is recorded, any two admitted probes are at least the half-open interval apart,
  whatever the clock readings are.\<close>

theorem breaker_probes_rationed:
  assumes "Enabled (settings b)" and "settings_ok (settings b)" and "state b \<noteq> BreakerClosed"
  shows "(fst (Allow now b) \<longleftrightarrow> ProbeDue now b) \<and> (fst (Allow now b) \<longrightarrow> state (snd (Allow now b)) = BreakerHalfOpen)
    \<and> (state b = BreakerOpen \<longrightarrow> (fst (Allow now b) \<longleftrightarrow> deadline b \<le> now))
    \<and> (fst (Allow now b) \<longrightarrow> sorted_wrt (\<lambda>t u. t + HalfOpenInterval (settings b) \<le> u) (now # allow_run ts (snd (Allow now b))))"
proof -
  have "(fst (Allow now b) \<longleftrightarrow> ProbeDue now b) \<and> (state b = BreakerOpen \<longrightarrow> (fst (Allow now b) \<longleftrightarrow> deadline b \<le> now))"
    using assms by (cases "state b") (auto simp: Allow_def ProbeDue_def)
  moreover have "state (snd (Allow now b)) = BreakerHalfOpen \<and> lastProbeAt (snd (Allow now b)) = now
      \<and> settings (snd (Allow now b)) = settings b" if "fst (Allow now b)"
    using that assms by (cases "state b") (auto simp: Allow_def split: if_splits)
  ultimately show ?thesis using allow_run_spaced [of "snd (Allow now b)" ts] assms(1,2) by auto
qed

theorem breaker_probes_rationed_witness:
  "fst (Allow 9 (Trip (\<lambda>n. 0) 5 (newBreaker ''s'' ''bd'' DefaultSettings None)))
   \<longleftrightarrow> ProbeDue 9 (Trip (\<lambda>n. 0) 5 (newBreaker ''s'' ''bd'' DefaultSettings None))"
proof -
  let ?b = "newBreaker ''s'' ''bd'' DefaultSettings None"
  have s: "settings_ok (settings ?b)" "Enabled (settings ?b)"
    by (simp_all add: newBreaker_def DefaultSettings_def withDefaults_def Let_def settings_ok_def DefaultOpenBase_def
        DefaultOpenMax_def DefaultConsecutiveFailures_def DefaultHalfOpenInterval_def nanos_def)
  have t: "settings (Trip (\<lambda>n. 0) 5 ?b) = settings ?b" "state (Trip (\<lambda>n. 0) 5 ?b) \<noteq> BreakerClosed"
    using s(2) by (simp_all add: Trip_def split: BreakerState.splits)
  from breaker_probes_rationed [of "Trip (\<lambda>n. 0) 5 ?b" 9 "[]"] s t show ?thesis by simp
qed

end
