(* ===== verification/Close_Order.thy ===== *)
theory Close_Order
  imports Mem_Store
begin

text \<open>
  The blocker-first close order of internal/beads/closeorder/closeorder.go.  \<open>Order\<close> reads the
  dependencies of a batch of ids through the store's \<open>DepList\<close>, which is an argument here (None is the
  nil store), and emits the ids one at a time.  The map \<open>emitted\<close> and the sets of blockers are finite
  sets; the loop over the batch is a recursive function whose termination is proved.

  The locale \<open>dep_reader\<close> is what \<open>Order\<close> relies on: listing "down" succeeds and gives the edges of the
  issue.  Its client lemmas are interpreted at the in-memory store.
\<close>

datatype OrderError = ListingCloseDependencies string StoreError

type_synonym depLister = "string \<Rightarrow> string \<Rightarrow> Dep list result"

section \<open>The code\<close>

fun priority_loop :: "int \<Rightarrow> string list \<Rightarrow> (string \<rightharpoonup> int) \<Rightarrow> (string \<rightharpoonup> int)" where
  "priority_loop i [] priority = priority"
| "priority_loop i (bid # ids) priority = priority_loop (i + 1) ids (priority(bid \<mapsto> i))"

definition priority_at :: "(string \<rightharpoonup> int) \<Rightarrow> string \<Rightarrow> int" where
  "priority_at priority bid = (case priority bid of None \<Rightarrow> 0 | Some i \<Rightarrow> i)"

fun blockers_loop :: "string set \<Rightarrow> string \<Rightarrow> Dep list \<Rightarrow> string set \<Rightarrow> string set" where
  "blockers_loop inSet bid [] acc = acc"
| "blockers_loop inSet bid (d # ds) acc =
     (if IssueID d \<noteq> bid \<or> DepType d \<noteq> ''blocks'' then blockers_loop inSet bid ds acc
      else if DependsOnID d \<notin> inSet \<or> DependsOnID d = bid then blockers_loop inSet bid ds acc
      else blockers_loop inSet bid ds (insert (DependsOnID d) acc))"

definition blockers_at :: "(string \<rightharpoonup> string set) \<Rightarrow> string \<Rightarrow> string set" where
  "blockers_at blockedBy bid = (case blockedBy bid of None \<Rightarrow> {} | Some s \<Rightarrow> s)"

fun blockedBy_loop ::
  "depLister \<Rightarrow> string set \<Rightarrow> string list \<Rightarrow> (string \<rightharpoonup> string set) \<Rightarrow> OrderError + (string \<rightharpoonup> string set)" where
  "blockedBy_loop depList inSet [] blockedBy = Inr blockedBy"
| "blockedBy_loop depList inSet (bid # ids) blockedBy =
     (case depList bid ''down'' of
        Inl err \<Rightarrow> Inl (ListingCloseDependencies bid err)
      | Inr ds \<Rightarrow> blockedBy_loop depList inSet ids
          (blockedBy(bid \<mapsto> blockers_loop inSet bid ds (blockers_at blockedBy bid))))"

definition ready_in :: "(string \<rightharpoonup> string set) \<Rightarrow> string set \<Rightarrow> string \<Rightarrow> bool" where
  "ready_in blockedBy emitted bid \<longleftrightarrow> (\<forall>blocker \<in> blockers_at blockedBy bid. blocker \<in> emitted)"

fun pick_loop ::
  "(string \<rightharpoonup> int) \<Rightarrow> (string \<rightharpoonup> string set) \<Rightarrow> string set \<Rightarrow> string list \<Rightarrow> string \<Rightarrow> int \<Rightarrow> string" where
  "pick_loop priority blockedBy emitted [] pick pickPrio = pick"
| "pick_loop priority blockedBy emitted (bid # ids) pick pickPrio =
     (if bid \<in> emitted then pick_loop priority blockedBy emitted ids pick pickPrio
      else if \<not> ready_in blockedBy emitted bid then pick_loop priority blockedBy emitted ids pick pickPrio
      else if pick = [] \<or> priority_at priority bid < pickPrio
      then pick_loop priority blockedBy emitted ids bid (priority_at priority bid)
      else pick_loop priority blockedBy emitted ids pick pickPrio)"

fun append_rest :: "string list \<Rightarrow> string set \<Rightarrow> string list \<Rightarrow> string list" where
  "append_rest [] emitted out = out"
| "append_rest (bid # ids) emitted out =
     (if bid \<in> emitted then append_rest ids emitted out else append_rest ids (insert bid emitted) (out @ [bid]))"

lemma pick_loop_in:
  "pick_loop pr bb em ids pick pp = pick \<or> (pick_loop pr bb em ids pick pp \<in> set ids - em)"
  by (induction pr bb em ids pick pp rule: pick_loop.induct) auto

function order_loop ::
  "(string \<rightharpoonup> int) \<Rightarrow> (string \<rightharpoonup> string set) \<Rightarrow> string list \<Rightarrow> string list \<Rightarrow> string set \<Rightarrow> string list" where
  "order_loop priority blockedBy ids out emitted =
     (if length out < length ids
      then let pick = pick_loop priority blockedBy emitted ids [] (-1) in
        if pick = [] then append_rest ids emitted out
        else order_loop priority blockedBy ids (out @ [pick]) (insert pick emitted)
      else out)"
  by pat_completeness auto
termination
proof (relation "measure (\<lambda>(pr, bb, ids, out, em). card (set ids - em))")
  fix pr bb ids out em pick
  assume "pick = pick_loop pr bb em ids [] (- 1)" and "pick \<noteq> []"
  with pick_loop_in [of pr bb em ids "[]" "-1"] have "pick \<in> set ids - em" by auto
  then have "card (set ids - insert pick em) < card (set ids - em)" by (intro psubset_card_mono) auto
  then show "((pr, bb, ids, out @ [pick], insert pick em), pr, bb, ids, out, em)
      \<in> measure (\<lambda>(pr, bb, ids, out, em). card (set ids - em))" by simp
qed simp

declare order_loop.simps [simp del]

definition Order :: "depLister option \<Rightarrow> string list \<Rightarrow> OrderError + string list" where
  "Order store ids =
     (case store of
        None \<Rightarrow> Inr ids
      | Some depList \<Rightarrow>
          if length ids \<le> 1 then Inr ids
          else (case blockedBy_loop depList (set ids) ids Map.empty of
              Inl err \<Rightarrow> Inl err
            | Inr blockedBy \<Rightarrow> Inr (order_loop (priority_loop 0 ids Map.empty) blockedBy ids [] {})))"

section \<open>Picking\<close>

lemma priority_loop_other: "bid \<notin> set ids \<Longrightarrow> priority_loop i ids pr bid = pr bid"
  by (induction i ids pr rule: priority_loop.induct) auto

lemma priority_loop_ge:
  "bid \<in> set ids \<Longrightarrow> \<exists>j. priority_loop i ids pr bid = Some j \<and> i \<le> j"
proof (induction i ids pr rule: priority_loop.induct)
  case (2 i x ids pr)
  show ?case
  proof (cases "bid \<in> set ids")
    case True
    from 2(1) [OF this] obtain j where "priority_loop (i + 1) ids (pr(x \<mapsto> i)) bid = Some j" "i + 1 \<le> j" by blast
    then show ?thesis by (intro exI [of _ j]) simp
  next
    case False
    with 2(2) show ?thesis by (auto simp: priority_loop_other)
  qed
qed simp

lemma priority_sorted:
  "distinct ids \<Longrightarrow> sorted_wrt (\<lambda>a b. priority_at (priority_loop i ids pr) a < priority_at (priority_loop i ids pr) b) ids"
proof (induction i ids pr rule: priority_loop.induct)
  case (2 i x ids pr)
  have "priority_at (priority_loop (i + 1) ids (pr(x \<mapsto> i))) x = i"
    using 2(2) by (simp add: priority_at_def priority_loop_other)
  moreover have "i < priority_at (priority_loop (i + 1) ids (pr(x \<mapsto> i))) b" if "b \<in> set ids" for b
    using priority_loop_ge [OF that, of "i + 1" "pr(x \<mapsto> i)"] by (auto simp: priority_at_def)
  ultimately show ?case using 2 by (simp del: fun_upd_apply)
qed simp

lemma pick_loop_keep:
  "pick \<noteq> [] \<Longrightarrow> (\<forall>b \<in> set ids. pp \<le> priority_at pr b) \<Longrightarrow> pick_loop pr bb em ids pick pp = pick"
  by (induction pr bb em ids pick pp rule: pick_loop.induct) auto

lemma pick_loop_find:
  assumes "sorted_wrt (\<lambda>a b. priority_at pr a < priority_at pr b) ids" and "[] \<notin> set ids"
  shows "pick_loop pr bb em ids [] pp =
    (case find (\<lambda>b. b \<notin> em \<and> ready_in bb em b) ids of None \<Rightarrow> [] | Some b \<Rightarrow> b)"
  using assms by (induction ids) (auto intro!: pick_loop_keep less_imp_le)

lemma append_rest_filter:
  "distinct ids \<Longrightarrow> append_rest ids em out = out @ filter (\<lambda>b. b \<notin> em) ids"
proof (induction ids em out rule: append_rest.induct)
  case (2 b ids em out)
  have "filter (\<lambda>a. a \<noteq> b \<and> a \<notin> em) ids = filter (\<lambda>a. a \<notin> em) ids"
    using 2(3) by (intro filter_cong) auto
  with 2 show ?case by auto
qed simp

section \<open>Blockers\<close>

lemma blockers_loop_set:
  "blockers_loop inSet bid ds acc =
     acc \<union> {a. \<exists>d \<in> set ds. IssueID d = bid \<and> DepType d = ''blocks'' \<and> DependsOnID d = a \<and> a \<in> inSet \<and> a \<noteq> bid}"
  by (induction inSet bid ds acc rule: blockers_loop.induct) auto

definition block_edges :: "Dep list \<Rightarrow> string list \<Rightarrow> string \<Rightarrow> string set" where
  "block_edges E ids b =
     {a. b \<in> set ids \<and> (\<exists>d \<in> set E. IssueID d = b \<and> DepType d = ''blocks'' \<and> DependsOnID d = a \<and> a \<in> set ids \<and> a \<noteq> b)}"

text \<open>An id is resolvable when every blocker of it in the batch is resolvable: no chain of blockers
  leads from it into a cycle.\<close>

inductive resolvable :: "(string \<Rightarrow> string set) \<Rightarrow> string \<Rightarrow> bool" for B where
  "(\<And>a. a \<in> B b \<Longrightarrow> resolvable B a) \<Longrightarrow> resolvable B b"

inductive_cases resolvableE: "resolvable B b"

text \<open>The order \<open>out\<close> of the ids is greedy for \<open>B\<close> up to position \<open>n\<close>: each of its first n elements is the
  first id of the batch that is not yet emitted and has every blocker emitted.\<close>

definition greedy_upto :: "(string \<Rightarrow> string set) \<Rightarrow> string list \<Rightarrow> nat \<Rightarrow> string list \<Rightarrow> bool" where
  "greedy_upto B ids n out \<longleftrightarrow> (\<forall>k < n.
     find (\<lambda>b. b \<notin> set (take k out) \<and> B b \<subseteq> set (take k out)) ids = Some (out ! k))"

lemma greedy_upto_0 [simp]: "greedy_upto B ids 0 out"
  by (simp add: greedy_upto_def)

lemma greedy_upto_snoc:
  "greedy_upto B ids (length out) out \<Longrightarrow>
   find (\<lambda>b. b \<notin> set out \<and> B b \<subseteq> set out) ids = Some p \<Longrightarrow> greedy_upto B ids (Suc (length out)) (out @ [p])"
  by (auto simp: greedy_upto_def less_Suc_eq nth_append)

lemma greedy_upto_append: "greedy_upto B ids (length out) out \<Longrightarrow> greedy_upto B ids (length out) (out @ r)"
  by (auto simp: greedy_upto_def nth_append)

lemma greedy_blockers:
  "greedy_upto B ids n out \<Longrightarrow> k < n \<Longrightarrow> B (out ! k) \<subseteq> set (take k out) \<and> out ! k \<in> set ids \<and> out ! k \<notin> set (take k out)"
  unfolding greedy_upto_def by (drule spec [of _ k]) (auto simp: find_Some_iff)

lemma greedy_resolvable:
  assumes "greedy_upto B ids n out" and "n \<le> length out" and "k < n"
  shows "resolvable B (out ! k)"
  using assms(3)
proof (induction k rule: less_induct)
  case (less k)
  show ?case
  proof (rule resolvable.intros)
    fix a assume "a \<in> B (out ! k)"
    with greedy_blockers [OF assms(1) less.prems] have "a \<in> set (take k out)" by blast
    then obtain j where "j < k" "a = out ! j" by (auto simp: in_set_conv_nth)
    with less show "resolvable B a" by simp
  qed
qed

text \<open>When nothing more can be picked, the resolvable ids of the batch have all been emitted.\<close>

lemma stuck_resolvable:
  assumes "\<And>b. B b \<subseteq> set ids" and "\<And>b. b \<in> set ids \<Longrightarrow> B b \<subseteq> em \<Longrightarrow> b \<in> em" and "resolvable B b" and "b \<in> set ids"
  shows "b \<in> em"
  using assms(3,4)
proof (induction rule: resolvable.induct)
  case (1 b)
  with assms(1) [of b] have "B b \<subseteq> em" by blast
  with 1 assms(2) show ?case by blast
qed

section \<open>The order\<close>

definition ordered_by :: "(string \<Rightarrow> string set) \<Rightarrow> string list \<Rightarrow> string list \<Rightarrow> bool" where
  "ordered_by B ids out \<longleftrightarrow> (\<exists>xs. out = xs @ filter (\<lambda>b. \<not> resolvable B b) ids \<and> distinct xs
     \<and> set xs = {b \<in> set ids. resolvable B b} \<and> greedy_upto B ids (length xs) out)"

lemma ordered_byI:
  assumes "distinct ids" and "\<And>b. B b \<subseteq> set ids" and "greedy_upto B ids (length xs) xs" and "distinct xs"
    and "\<And>b. b \<in> set ids \<Longrightarrow> B b \<subseteq> set xs \<Longrightarrow> b \<in> set xs"
  shows "ordered_by B ids (xs @ filter (\<lambda>b. b \<notin> set xs) ids)"
proof -
  have "resolvable B b \<and> b \<in> set ids" if "b \<in> set xs" for b
    using that greedy_resolvable [OF assms(3)] greedy_blockers [OF assms(3)] by (auto simp: in_set_conv_nth)
  moreover have "b \<in> set xs" if "resolvable B b" "b \<in> set ids" for b
    using stuck_resolvable [OF assms(2) assms(5) that] .
  ultimately have s: "set xs = {b \<in> set ids. resolvable B b}" by blast
  then have f: "filter (\<lambda>b. b \<notin> set xs) ids = filter (\<lambda>b. \<not> resolvable B b) ids" by (intro filter_cong) auto
  show ?thesis unfolding ordered_by_def
    using s f assms(3,4) greedy_upto_append by (intro exI [of _ xs]) auto
qed

lemma order_loop_ordered:
  assumes "distinct ids" and "[] \<notin> set ids" and "sorted_wrt (\<lambda>a b. priority_at pr a < priority_at pr b) ids"
    and "\<And>b. blockers_at bb b \<subseteq> set ids"
    and "greedy_upto (blockers_at bb) ids (length out) out" and "distinct out" and "em = set out" and "set out \<subseteq> set ids"
  shows "ordered_by (blockers_at bb) ids (order_loop pr bb ids out em)"
  using assms
proof (induction pr bb ids out em rule: order_loop.induct)
  case (1 pr bb ids out em)
  let ?P = "\<lambda>b. b \<notin> set out \<and> blockers_at bb b \<subseteq> set out"
  have ready: "(\<lambda>b. b \<notin> em \<and> ready_in bb em b) = ?P" using "1.prems"(7) by (auto simp: ready_in_def fun_eq_iff)
  have pick: "pick_loop pr bb em ids [] (- 1) = (case find ?P ids of None \<Rightarrow> [] | Some b \<Rightarrow> b)"
    using pick_loop_find [OF "1.prems"(3,2)] ready by simp
  show ?case
  proof (cases "length out < length ids")
    case False
    have "set out = set ids"
      using False "1.prems"(1,6,8) by (intro card_seteq) (auto simp: distinct_card)
    then show ?thesis
      using ordered_byI [OF "1.prems"(1,4,5,6)] False by (simp add: order_loop.simps)
  next
    case len: True
    show ?thesis
    proof (cases "find ?P ids")
      case None
      then have "b \<in> set out" if "b \<in> set ids" "blockers_at bb b \<subseteq> set out" for b
        using that by (auto simp: find_None_iff)
      from ordered_byI [OF "1.prems"(1,4,5,6) this] show ?thesis
        using len None pick "1.prems"(1,7) by (simp add: order_loop.simps append_rest_filter)
    next
      case (Some p)
      then have p: "?P p" "p \<in> set ids" by (auto simp: find_Some_iff)
      with "1.prems"(2) have ne: "p \<noteq> []" by auto
      have e: "pick_loop pr bb em ids [] (- 1) = p" using pick Some by simp
      have r: "order_loop pr bb ids out em = order_loop pr bb ids (out @ [p]) (insert p em)"
        by (subst order_loop.simps) (simp add: len e ne)
      have g: "greedy_upto (blockers_at bb) ids (length (out @ [p])) (out @ [p])"
        using greedy_upto_snoc [OF "1.prems"(5) Some] by simp
      show ?thesis unfolding r
        using len e ne "1.prems" p g by (intro "1.IH") auto
    qed
  qed
qed

lemma ordered_permutation: "ordered_by B ids out \<Longrightarrow> distinct ids \<Longrightarrow> mset out = mset ids"
proof -
  assume o: "ordered_by B ids out" and d: "distinct ids"
  then obtain xs where xs: "out = xs @ filter (\<lambda>b. \<not> resolvable B b) ids" "distinct xs" "set xs = {b \<in> set ids. resolvable B b}"
    by (auto simp: ordered_by_def)
  with d have "distinct out" "set out = set ids" by auto
  with d show ?thesis by (simp add: set_eq_iff_mset_eq_distinct)
qed

lemma ordered_blocker_first:
  assumes "ordered_by B ids out" and "resolvable B b" and "b \<in> set ids" and "a \<in> B b"
  shows "\<exists>i j. i < j \<and> j < length out \<and> out ! i = a \<and> out ! j = b"
proof -
  from assms(1) obtain xs where xs: "out = xs @ filter (\<lambda>b. \<not> resolvable B b) ids" "set xs = {b \<in> set ids. resolvable B b}"
    "greedy_upto B ids (length xs) out" by (auto simp: ordered_by_def)
  from assms(2,3) xs(2) have "b \<in> set xs" by simp
  then obtain j where j: "j < length xs" "xs ! j = b" by (auto simp: in_set_conv_nth)
  with xs(1) have ob: "out ! j = b" by (simp add: nth_append)
  from greedy_blockers [OF xs(3) j(1)] assms(4) ob have "a \<in> set (take j out)" by auto
  then obtain i where "i < j" "out ! i = a" by (auto simp: in_set_conv_nth)
  with j ob xs(1) show ?thesis by (intro exI [of _ i] exI [of _ j]) auto
qed

lemma ordered_by_short: "length ids \<le> 1 \<Longrightarrow> ordered_by (block_edges E ids) ids ids"
proof -
  assume "length ids \<le> 1"
  then consider "ids = []" | i where "ids = [i]" by (cases ids) auto
  then show ?thesis
  proof cases
    case 2
    have e: "block_edges E [i] b = {}" for b by (auto simp: block_edges_def)
    have "resolvable (block_edges E [i]) i" by (rule resolvable.intros) (simp add: e)
    then show ?thesis unfolding 2 ordered_by_def by (intro exI [of _ "[i]"]) (auto simp: greedy_upto_def e)
  qed (simp add: ordered_by_def)
qed

section \<open>The interface to the store\<close>

locale dep_reader =
  fixes depList :: depLister and E :: "Dep list"
  assumes down: "\<exists>ds. depList i ''down'' = Inr ds \<and> (\<forall>d. IssueID d = i \<longrightarrow> d \<in> set ds \<longleftrightarrow> d \<in> set E)"
begin

lemma blockedBy_loop_edges:
  "set ids \<subseteq> set batch \<Longrightarrow> \<exists>bb. blockedBy_loop depList (set batch) ids bb0 = Inr bb
     \<and> (\<forall>b. blockers_at bb b = blockers_at bb0 b \<union> (if b \<in> set ids then block_edges E batch b else {}))"
proof (induction ids arbitrary: bb0)
  case (Cons i ids)
  from down [of i] obtain ds where ds: "depList i ''down'' = Inr ds" "\<And>d. IssueID d = i \<Longrightarrow> d \<in> set ds \<longleftrightarrow> d \<in> set E" by blast
  with Cons.prems have l: "blockers_loop (set batch) i ds acc = acc \<union> block_edges E batch i" for acc
    by (auto simp: blockers_loop_set block_edges_def)
  let ?bb1 = "bb0(i \<mapsto> blockers_at bb0 i \<union> block_edges E batch i)"
  have "set ids \<subseteq> set batch" using Cons.prems by simp
  from Cons.IH [OF this, of ?bb1] obtain bb where
    bb: "blockedBy_loop depList (set batch) ids ?bb1 = Inr bb"
    "\<And>b. blockers_at bb b = blockers_at ?bb1 b \<union> (if b \<in> set ids then block_edges E batch b else {})" by blast
  show ?case
    using bb ds(1) by (intro exI [of _ bb]) (auto simp: l blockers_at_def)
qed simp

lemma order_ordered:
  assumes "distinct ids" and "[] \<notin> set ids"
  shows "\<exists>out. Order (Some depList) ids = Inr out \<and> ordered_by (block_edges E ids) ids out"
proof -
  from blockedBy_loop_edges [of ids ids Map.empty] obtain bb where
    bb: "blockedBy_loop depList (set ids) ids Map.empty = Inr bb"
    "\<And>b. blockers_at bb b = (if b \<in> set ids then block_edges E ids b else {})" by (auto simp: blockers_at_def)
  then have B: "blockers_at bb = block_edges E ids" by (auto simp: block_edges_def fun_eq_iff)
  have sub: "blockers_at bb b \<subseteq> set ids" for b by (auto simp: block_edges_def B)
  have o: "ordered_by (block_edges E ids) ids (order_loop (priority_loop 0 ids Map.empty) bb ids [] {})"
    using order_loop_ordered [OF assms priority_sorted [OF assms(1)] sub, of "[]" "{}"] by (simp add: B)
  show ?thesis
  proof (cases "length ids \<le> 1")
    case False
    then show ?thesis using o bb(1) by (simp add: Order_def)
  next
    case True
    then have "ordered_by (block_edges E ids) ids ids" by (rule ordered_by_short)
    with True show ?thesis by (simp add: Order_def)
  qed
qed

end

interpretation mem_deps: dep_reader "\<lambda>i dir. DepList i dir m" "deps m" for m
  by unfold_locales (simp add: DepList_def)

section \<open>Acyclic batches\<close>

lemma acyclic_resolvable:
  assumes "acyclic {(a, b). a \<in> block_edges E ids b}"
  shows "resolvable (block_edges E ids) b"
proof -
  have "{(a, b). a \<in> block_edges E ids b} \<subseteq> set ids \<times> set ids" by (auto simp: block_edges_def)
  then have "finite {(a, b). a \<in> block_edges E ids b}" by (rule finite_subset) simp
  then have "wf {(a, b). a \<in> block_edges E ids b}" using assms by (rule finite_acyclic_wf)
  then show ?thesis by (induction b rule: wf_induct_rule) (auto intro: resolvable.intros)
qed

lemma ordered_unresolvable:
  "ordered_by B ids out \<Longrightarrow> filter (\<lambda>b. \<not> resolvable B b) out = filter (\<lambda>b. \<not> resolvable B b) ids"
  by (auto simp: ordered_by_def filter_empty_conv)

lemma ordered_input_order:
  assumes "ordered_by B ids out" and "\<And>b. B b = {}" and "distinct ids"
  shows "out = ids"
proof -
  have r: "resolvable B b" for b by (rule resolvable.intros) (simp add: assms(2))
  with assms(1) have g: "greedy_upto B ids (length out) out" and l: "mset out = mset ids"
    using ordered_permutation [OF assms(1,3)] by (auto simp: ordered_by_def)
  have len: "length out = length ids" using l by (metis size_mset)
  have "take k out = take k ids" if "k \<le> length ids" for k
    using that
  proof (induction k)
    case (Suc k)
    then have t: "take k out = take k ids" and k: "k < length ids" by auto
    from g k len have "find (\<lambda>b. b \<notin> set (take k ids) \<and> B b \<subseteq> set (take k ids)) ids = Some (out ! k)"
      by (auto simp: greedy_upto_def t [symmetric])
    then obtain i where i: "i < length ids" "ids ! i \<notin> set (take k ids)" "out ! k = ids ! i"
      "\<And>j. j < i \<Longrightarrow> ids ! j \<in> set (take k ids)" by (auto simp: find_Some_iff assms(2))
    have "\<not> i < k" using i(1,2) by (auto simp: in_set_conv_nth)
    moreover have "\<not> k < i"
    proof
      assume "k < i"
      then obtain j where "j < k" "ids ! j = ids ! k" using i(4) [of k] by (auto simp: in_set_conv_nth)
      with assms(3) k show False by (simp add: nth_eq_iff_index_eq)
    qed
    ultimately have "i = k" by simp
    with i(3) t k len show ?case by (simp add: take_Suc_conv_app_nth)
  qed simp
  from this [of "length ids"] len show ?thesis by simp
qed

section \<open>Properties\<close>

text \<open>C26: the close order always returns every id once.  For a batch of distinct, non-empty ids over the in-memory
  store the call succeeds and returns a permutation of the batch, dependency cycles or not; the ids on or
  behind a cycle keep their input order; without edges inside the batch the input order is returned.\<close>

theorem close_order_permutation:
  assumes "distinct ids" and "[] \<notin> set ids"
  shows "\<exists>out. Order (Some (\<lambda>i dir. DepList i dir m)) ids = Inr out \<and> mset out = mset ids
    \<and> filter (\<lambda>b. \<not> resolvable (block_edges (deps m) ids) b) out = filter (\<lambda>b. \<not> resolvable (block_edges (deps m) ids) b) ids
    \<and> ((\<forall>b. block_edges (deps m) ids b = {}) \<longrightarrow> out = ids)"
proof -
  from mem_deps.order_ordered [OF assms, of m] obtain out where
    o: "Order (Some (\<lambda>i dir. DepList i dir m)) ids = Inr out" "ordered_by (block_edges (deps m) ids) ids out" by blast
  from o ordered_permutation [OF o(2) assms(1)] ordered_unresolvable [OF o(2)] ordered_input_order [OF o(2) _ assms(1)]
  show ?thesis by blast
qed

text \<open>A store with a two-element cycle and one id blocked by another.\<close>

definition order_example :: MemStore where
  "order_example = NewMemStoreFrom 0 [] [\<lparr>IssueID = ''a'', DependsOnID = ''b'', DepType = ''blocks''\<rparr>,
     \<lparr>IssueID = ''c'', DependsOnID = ''d'', DepType = ''blocks''\<rparr>, \<lparr>IssueID = ''d'', DependsOnID = ''c'', DepType = ''blocks''\<rparr>]"

theorem close_order_permutation_witness:
  "\<exists>out. Order (Some (\<lambda>i dir. DepList i dir order_example)) [''c'', ''a'', ''d'', ''b''] = Inr out
     \<and> mset out = mset [''c'', ''a'', ''d'', ''b'']"
proof -
  have d: "distinct [''c'', ''a'', ''d'', ''b'']" "[] \<notin> set [''c'', ''a'', ''d'', ''b'']" by simp_all
  from close_order_permutation [OF d, of order_example] show ?thesis by blast
qed

text \<open>C19: blockers close first.  In the order returned for a batch of distinct, non-empty ids over the in-memory store,
  the blocker of a "blocks" edge inside the batch comes before the blocked id whenever the blocked id is
  not on or behind a cycle, and so for every edge when the edges inside the batch are acyclic.\<close>

theorem close_order_blockers_first:
  assumes "distinct ids" and "[] \<notin> set ids" and "Order (Some (\<lambda>i dir. DepList i dir m)) ids = Inr out"
    and "\<lparr>IssueID = b, DependsOnID = a, DepType = ''blocks''\<rparr> \<in> set (deps m)" and "a \<in> set ids" and "b \<in> set ids" and "a \<noteq> b"
    and "resolvable (block_edges (deps m) ids) b \<or> acyclic {(x, y). x \<in> block_edges (deps m) ids y}"
  shows "\<exists>i j. i < j \<and> j < length out \<and> out ! i = a \<and> out ! j = b"
proof -
  have o: "ordered_by (block_edges (deps m) ids) ids out"
    using mem_deps.order_ordered [OF assms(1,2), of m] assms(3) by auto
  have e: "a \<in> block_edges (deps m) ids b" using assms(4-7) by (force simp: block_edges_def)
  have "resolvable (block_edges (deps m) ids) b" using assms(8) acyclic_resolvable by blast
  from ordered_blocker_first [OF o this assms(6) e] show ?thesis .
qed

theorem close_order_blockers_first_witness:
  "\<exists>i j. i < j \<and> j < length [''b'', ''a'', ''c'', ''d''] \<and> [''b'', ''a'', ''c'', ''d''] ! i = ''b'' \<and> [''b'', ''a'', ''c'', ''d''] ! j = ''a''"
proof -
  let ?ids = "[''c'', ''a'', ''d'', ''b'']"
  have d: "distinct ?ids" "[] \<notin> set ?ids" by simp_all
  have o: "Order (Some (\<lambda>i dir. DepList i dir order_example)) ?ids = Inr [''b'', ''a'', ''c'', ''d'']" by code_simp
  have b: "block_edges (deps order_example) ?ids ''b'' = {}" "block_edges (deps order_example) ?ids ''a'' = {''b''}"
    by (auto simp: block_edges_def order_example_def NewMemStoreFrom_def)
  have "resolvable (block_edges (deps order_example) ?ids) ''b''" by (rule resolvable.intros) (simp add: b)
  then have "resolvable (block_edges (deps order_example) ?ids) ''a''" by (intro resolvable.intros [of _ "''a''"]) (simp add: b)
  with close_order_blockers_first [OF d o, of "''a''" "''b''"] show ?thesis
    by (simp add: order_example_def NewMemStoreFrom_def)
qed

end
