(* ===== verification/Conv_Meta.thy ===== *)
theory Conv_Meta
  imports Go_Time
begin

text \<open>
  Vocabulary and pure helpers of the convergence loop (\<open>internal/convergence\<close>): metadata keys and values
  (metadata.go), verdicts, gate and trigger configuration (gate.go, trigger.go, hybrid.go), idempotency
  keys (handler.go), child statistics (childstats.go), write protection (acl.go), captured output
  (capture.go, gate_output.go), gate execution with its retries (condition.go), template variables
  (template.go, depfilter.go) and events (events.go).

  A gate script is an external program: one execution of it is the argument \<open>exec\<close>, a function of the
  attempt number, so that repeated attempts may differ.
\<close>

named_theorems conv_defs \<open>string constants of the convergence metadata\<close>

section \<open>Metadata keys and values\<close>

definition FieldState :: string where [conv_defs]: "FieldState = ''convergence.state''"
definition FieldIteration :: string where [conv_defs]: "FieldIteration = ''convergence.iteration''"
definition FieldMaxIterations :: string where [conv_defs]: "FieldMaxIterations = ''convergence.max_iterations''"
definition FieldFormula :: string where [conv_defs]: "FieldFormula = ''convergence.formula''"
definition FieldTarget :: string where [conv_defs]: "FieldTarget = ''convergence.target''"
definition FieldGateMode :: string where [conv_defs]: "FieldGateMode = ''convergence.gate_mode''"
definition FieldGateCondition :: string where [conv_defs]: "FieldGateCondition = ''convergence.gate_condition''"
definition FieldGateTimeout :: string where [conv_defs]: "FieldGateTimeout = ''convergence.gate_timeout''"
definition FieldGateTimeoutAction :: string where [conv_defs]: "FieldGateTimeoutAction = ''convergence.gate_timeout_action''"
definition FieldActiveWisp :: string where [conv_defs]: "FieldActiveWisp = ''convergence.active_wisp''"
definition FieldLastProcessedWisp :: string where [conv_defs]: "FieldLastProcessedWisp = ''convergence.last_processed_wisp''"
definition FieldAgentVerdict :: string where [conv_defs]: "FieldAgentVerdict = ''convergence.agent_verdict''"
definition FieldAgentVerdictWisp :: string where [conv_defs]: "FieldAgentVerdictWisp = ''convergence.agent_verdict_wisp''"
definition FieldGateOutcome :: string where [conv_defs]: "FieldGateOutcome = ''convergence.gate_outcome''"
definition FieldGateExitCode :: string where [conv_defs]: "FieldGateExitCode = ''convergence.gate_exit_code''"
definition FieldGateOutcomeWisp :: string where [conv_defs]: "FieldGateOutcomeWisp = ''convergence.gate_outcome_wisp''"
definition FieldGateRetryCount :: string where [conv_defs]: "FieldGateRetryCount = ''convergence.gate_retry_count''"
definition FieldTerminalReason :: string where [conv_defs]: "FieldTerminalReason = ''convergence.terminal_reason''"
definition FieldTerminalActor :: string where [conv_defs]: "FieldTerminalActor = ''convergence.terminal_actor''"
definition FieldWaitingReason :: string where [conv_defs]: "FieldWaitingReason = ''convergence.waiting_reason''"
definition FieldRetrySource :: string where [conv_defs]: "FieldRetrySource = ''convergence.retry_source''"
definition FieldCityPath :: string where [conv_defs]: "FieldCityPath = ''convergence.city_path''"
definition FieldRig :: string where [conv_defs]: "FieldRig = ''convergence.rig''"
definition FieldEvaluatePrompt :: string where [conv_defs]: "FieldEvaluatePrompt = ''convergence.evaluate_prompt''"
definition FieldGateStdout :: string where [conv_defs]: "FieldGateStdout = ''convergence.gate_stdout''"
definition FieldGateStderr :: string where [conv_defs]: "FieldGateStderr = ''convergence.gate_stderr''"
definition FieldGateDurationMs :: string where [conv_defs]: "FieldGateDurationMs = ''convergence.gate_duration_ms''"
definition FieldGateTruncated :: string where [conv_defs]: "FieldGateTruncated = ''convergence.gate_truncated''"
definition FieldPendingNextWisp :: string where [conv_defs]: "FieldPendingNextWisp = ''convergence.pending_next_wisp''"
definition FieldTrigger :: string where [conv_defs]: "FieldTrigger = ''convergence.trigger''"
definition FieldTriggerCondition :: string where [conv_defs]: "FieldTriggerCondition = ''convergence.trigger_condition''"

definition VarPrefix :: string where [conv_defs]: "VarPrefix = ''var.''"

definition ConvStateCreating :: string where [conv_defs]: "ConvStateCreating = ''creating''"
definition ConvStateActive :: string where [conv_defs]: "ConvStateActive = ''active''"
definition ConvStateWaitingManual :: string where [conv_defs]: "ConvStateWaitingManual = ''waiting_manual''"
definition ConvStateWaitingTrigger :: string where [conv_defs]: "ConvStateWaitingTrigger = ''waiting_trigger''"
definition ConvStateTerminated :: string where [conv_defs]: "ConvStateTerminated = ''terminated''"

definition TriggerNone :: string where [conv_defs]: "TriggerNone = []"
definition TriggerEvent :: string where [conv_defs]: "TriggerEvent = ''event''"

definition GateModeManual :: string where [conv_defs]: "GateModeManual = ''manual''"
definition GateModeCondition :: string where [conv_defs]: "GateModeCondition = ''condition''"
definition GateModeHybrid :: string where [conv_defs]: "GateModeHybrid = ''hybrid''"

definition TimeoutActionIterate :: string where [conv_defs]: "TimeoutActionIterate = ''iterate''"
definition TimeoutActionRetry :: string where [conv_defs]: "TimeoutActionRetry = ''retry''"
definition TimeoutActionManual :: string where [conv_defs]: "TimeoutActionManual = ''manual''"
definition TimeoutActionTerminate :: string where [conv_defs]: "TimeoutActionTerminate = ''terminate''"

definition TerminalApproved :: string where [conv_defs]: "TerminalApproved = ''approved''"
definition TerminalNoConvergence :: string where [conv_defs]: "TerminalNoConvergence = ''no_convergence''"
definition TerminalStopped :: string where [conv_defs]: "TerminalStopped = ''stopped''"
definition TerminalPartialCreation :: string where [conv_defs]: "TerminalPartialCreation = ''partial_creation''"

definition GatePass :: string where [conv_defs]: "GatePass = ''pass''"
definition GateFail :: string where [conv_defs]: "GateFail = ''fail''"
definition GateTimeout :: string where [conv_defs]: "GateTimeout = ''timeout''"
definition GateError :: string where [conv_defs]: "GateError = ''error''"

definition WaitManual :: string where [conv_defs]: "WaitManual = ''manual''"
definition WaitHybridNoCondition :: string where [conv_defs]: "WaitHybridNoCondition = ''hybrid_no_condition''"
definition WaitTimeout :: string where [conv_defs]: "WaitTimeout = ''timeout''"
definition WaitSlingFailure :: string where [conv_defs]: "WaitSlingFailure = ''sling_failure''"

definition VerdictApprove :: string where [conv_defs]: "VerdictApprove = ''approve''"
definition VerdictApproveWithRisks :: string where [conv_defs]: "VerdictApproveWithRisks = ''approve-with-risks''"
definition VerdictBlock :: string where [conv_defs]: "VerdictBlock = ''block''"

text \<open>\<open>strings.ToLower\<close> on the ASCII letters and on the two characters outside ASCII whose lower case is
  ASCII (the Kelvin sign and the dotted capital I).  Every other character outside ASCII has its lower
  case outside ASCII; it is left as it is, which no comparison with an ASCII word can tell apart.\<close>

definition lower_char :: "char \<Rightarrow> char" where
  "lower_char c = (let n = of_char c :: nat in if 65 \<le> n \<and> n \<le> 90 then char_of (n + 32) else c)"

fun ToLower :: "string \<Rightarrow> string" where
  "ToLower [] = []"
| "ToLower (c # s) =
     (if starts_with [char_of (226 :: nat), char_of (132 :: nat), char_of (170 :: nat)] (c # s) then CHR ''k'' # ToLower (drop 2 s)
      else if starts_with [char_of (196 :: nat), char_of (176 :: nat)] (c # s) then CHR ''i'' # ToLower (drop 1 s)
      else lower_char c # ToLower s)"

definition pastTenseMap :: strmap where
  "pastTenseMap =
     [''approved'' \<mapsto> VerdictApprove, ''blocked'' \<mapsto> VerdictBlock, ''approve-with-risk'' \<mapsto> VerdictApproveWithRisks,
      ''approved-with-risks'' \<mapsto> VerdictApproveWithRisks, ''approved-with-risk'' \<mapsto> VerdictApproveWithRisks]"

definition NormalizeVerdict :: "string \<Rightarrow> string" where
  "NormalizeVerdict raw =
     (let v = ToLower (TrimSpace raw) in
      if v = [] then VerdictBlock
      else case pastTenseMap v of
             Some mapped \<Rightarrow> mapped
           | None \<Rightarrow> if v \<in> {VerdictApprove, VerdictApproveWithRisks, VerdictBlock} then v else VerdictBlock)"

definition EncodeInt :: "int \<Rightarrow> string" where
  "EncodeInt n = itoa n"

definition DecodeInt :: "string \<Rightarrow> int \<times> bool" where
  "DecodeInt s = (if s = [] then (0, False) else case atoi s of None \<Rightarrow> (0, False) | Some n \<Rightarrow> (n, True))"

definition MetadataPresent :: "strmap \<Rightarrow> string \<Rightarrow> string \<times> bool" where
  "MetadataPresent meta key = (mget meta key, meta key \<noteq> None)"

section \<open>time.ParseDuration\<close>

text \<open>A value with a fraction is computed in float64, as \<open>float64(f) * (float64(unit) / scale)\<close>.
  A positive quotient n / d rounded to the nearest float64, ties to even, is \<open>(m, e)\<close>, meaning m * 2^e;
  no value here leaves the normal range.\<close>

function bit_len :: "int \<Rightarrow> int" where
  "bit_len n = (if n \<le> 0 then 0 else 1 + bit_len (n div 2))"
  by pat_completeness auto
termination by (relation "measure nat") auto

declare bit_len.simps [simp del]

definition float_round :: "int \<Rightarrow> int \<Rightarrow> int \<times> int" where
  "float_round n d =
     (let scaled = (\<lambda>e :: int. if 0 \<le> e then (n, d * 2 ^ nat e) else (n * 2 ^ nat (- e), d));
          e0 = bit_len n - bit_len d - 53;
          e = (if fst (scaled e0) div snd (scaled e0) < 2 ^ 53 then e0 else e0 + 1);
          q = fst (scaled e) div snd (scaled e);
          r = fst (scaled e) mod snd (scaled e)
      in (if 2 * r > snd (scaled e) \<or> 2 * r = snd (scaled e) \<and> odd q then q + 1 else q, e))"

definition float_frac :: "int \<Rightarrow> int \<Rightarrow> int \<Rightarrow> int" where
  "float_frac f unit scale =
     (let (mf, ef) = float_round f 1; (mu, eu) = float_round unit scale;
          (mp, ep) = (if ef + eu \<ge> 0 then float_round (mf * mu * 2 ^ nat (ef + eu)) 1 else float_round (mf * mu) (2 ^ nat (- (ef + eu))))
      in if ep \<ge> 0 then mp * 2 ^ nat ep else mp div 2 ^ nat (- ep))"

fun leadingInt :: "int \<Rightarrow> string \<Rightarrow> (int \<times> string) option" where
  "leadingInt x [] = Some (x, [])"
| "leadingInt x (c # s) =
     (if \<not> is_digit c then Some (x, c # s)
      else if x > 2 ^ 63 div 10 then None
      else let x' = x * 10 + int (digit_val c) in if x' > 2 ^ 63 then None else leadingInt x' s)"

fun leadingFraction :: "int \<Rightarrow> int \<Rightarrow> bool \<Rightarrow> string \<Rightarrow> int \<times> int \<times> string" where
  "leadingFraction x scale overflow [] = (x, scale, [])"
| "leadingFraction x scale overflow (c # s) =
     (if \<not> is_digit c then (x, scale, c # s)
      else if overflow then leadingFraction x scale True s
      else if x > (2 ^ 63 - 1) div 10 then leadingFraction x scale True s
      else let y = x * 10 + int (digit_val c) in
        if y > 2 ^ 63 then leadingFraction x scale True s else leadingFraction y (scale * 10) False s)"

text \<open>The micro sign and the Greek letter mu in UTF-8.\<close>

definition unitMap :: "string \<rightharpoonup> int" where
  "unitMap =
     [''ns'' \<mapsto> 1, ''us'' \<mapsto> 1000, [char_of (194 :: nat), char_of (181 :: nat), CHR ''s''] \<mapsto> 1000,
      [char_of (206 :: nat), char_of (188 :: nat), CHR ''s''] \<mapsto> 1000, ''ms'' \<mapsto> 1000000, ''s'' \<mapsto> 1000000000,
      ''m'' \<mapsto> 60000000000, ''h'' \<mapsto> 3600000000000]"

text \<open>One value with its unit: the nanoseconds and the rest of the text.\<close>

definition parse_term :: "string \<Rightarrow> (int \<times> string) option" where
  "parse_term s =
     (if s = [] \<or> \<not> (hd s = CHR ''.'' \<or> is_digit (hd s)) then None
      else case leadingInt 0 s of
             None \<Rightarrow> None
           | Some (v, s1) \<Rightarrow>
               let (f, scale, s2) = (if s1 \<noteq> [] \<and> hd s1 = CHR ''.'' then leadingFraction 0 1 False (tl s1) else (0, 1, s1));
                   pre = length s \<noteq> length s1;
                   post = (s1 \<noteq> [] \<and> hd s1 = CHR ''.'' \<and> length (tl s1) \<noteq> length s2);
                   u = takeWhile (\<lambda>c. c \<noteq> CHR ''.'' \<and> \<not> is_digit c) s2
               in if \<not> pre \<and> \<not> post then None
                  else if u = [] then None
                  else case unitMap u of
                         None \<Rightarrow> None
                       | Some unit \<Rightarrow>
                           if v > 2 ^ 63 div unit then None
                           else let v' = (if f > 0 then v * unit + float_frac f unit scale else v * unit)
                                in if f > 0 \<and> v' > 2 ^ 63 then None else Some (v', drop (length u) s2))"

lemma leadingInt_length: "leadingInt x s = Some (v, s') \<Longrightarrow> length s' \<le> length s"
  by (induction x s rule: leadingInt.induct) (fastforce simp: Let_def split: if_splits)+

lemma leadingFraction_length: "leadingFraction x sc ov s = (f, sc', s') \<Longrightarrow> length s' \<le> length s"
  by (induction x sc ov s rule: leadingFraction.induct) (fastforce simp: Let_def split: if_splits)+

lemma unit_rest:
  assumes "u = takeWhile P t" and "u \<noteq> []" and "length t \<le> n"
  shows "length (drop (length u) t) < n"
proof -
  have "length u \<le> length t" using assms(1) by (simp add: length_takeWhile_le)
  with assms(2,3) show ?thesis by (cases u) auto
qed

lemma parse_term_length: "parse_term s = Some (v, s') \<Longrightarrow> length s' < length s"
proof -
  assume p: "parse_term s = Some (v, s')"
  then obtain v0 s1 where 1: "leadingInt 0 s = Some (v0, s1)" by (auto simp: parse_term_def split: if_splits option.splits)
  obtain f scale s2 where 2: "(if s1 \<noteq> [] \<and> hd s1 = CHR ''.'' then leadingFraction 0 1 False (tl s1) else (0, 1, s1)) = (f, scale, s2)"
    by (metis prod_cases3)
  have "length s2 \<le> length s1"
    using 2 leadingFraction_length [of 0 1 False "tl s1" f scale s2] by (auto split: if_splits)
  with leadingInt_length [OF 1] have "length s2 \<le> length s" by simp
  moreover have "s' = drop (length (takeWhile (\<lambda>c. c \<noteq> CHR ''.'' \<and> \<not> is_digit c) s2)) s2
      \<and> takeWhile (\<lambda>c. c \<noteq> CHR ''.'' \<and> \<not> is_digit c) s2 \<noteq> []"
    using p unfolding parse_term_def 1 by (auto simp: 2 Let_def split: if_splits option.splits)
  ultimately show ?thesis using unit_rest by blast
qed

function parse_terms :: "int \<Rightarrow> string \<Rightarrow> int option" where
  "parse_terms d s =
     (if s = [] then Some d
      else case parse_term s of
             None \<Rightarrow> None
           | Some (v, s') \<Rightarrow> if d + v > 2 ^ 63 then None else parse_terms (d + v) s')"
  by pat_completeness auto
termination by (relation "measure (\<lambda>(d, s). length s)") (auto dest: parse_term_length)

declare parse_terms.simps [simp del]

definition ParseDuration :: "string \<Rightarrow> int option" where
  "ParseDuration s0 =
     (let neg = (s0 \<noteq> [] \<and> hd s0 = CHR ''-'');
          s = (if s0 \<noteq> [] \<and> (hd s0 = CHR ''-'' \<or> hd s0 = CHR ''+'') then tl s0 else s0)
      in if s = ''0'' then Some 0
         else if s = [] then None
         else case parse_terms 0 s of
                None \<Rightarrow> None
              | Some d \<Rightarrow> if neg then Some (- d) else if d > 2 ^ 63 - 1 then None else Some d)"

definition DecodeDuration :: "string \<Rightarrow> int \<times> bool" where
  "DecodeDuration s = (if s = [] then (0, False) else case ParseDuration s of None \<Rightarrow> (0, False) | Some d \<Rightarrow> (d, True))"

section \<open>Gate and trigger configuration\<close>

text \<open>Errors of the package: the store's not-found error, any other store error, an error wrapped with
  context (\<open>fmt.Errorf\<close> with \<open>%w\<close>), and an error the package itself raises with its arguments.
  \<open>IsNotFound\<close> is \<open>errors.Is\<close> with the not-found error.\<close>

datatype ConvError =
    ConvNotFound string
  | ConvStore string
  | ConvWrap string ConvError
  | ConvErrorf string "string list"

fun IsNotFound :: "ConvError \<Rightarrow> bool" where
  "IsNotFound (ConvNotFound i) = True"
| "IsNotFound (ConvStore msg) = False"
| "IsNotFound (ConvWrap msg e) = IsNotFound e"
| "IsNotFound (ConvErrorf msg args) = False"

definition DefaultGateTimeout :: int where
  "DefaultGateTimeout = 5 * 60 * nanos"

definition MaxGateRetries :: nat where
  "MaxGateRetries = 3"

record GateConfig =
  gcMode :: string
  gcCondition :: string
  gcTimeout :: int
  gcTimeoutAction :: string

record GateResult =
  grOutcome :: string
  grExitCode :: "int option"
  grRetryCount :: int
  grStdout :: string
  grStderr :: string
  grDuration :: int
  grTruncated :: bool

definition zero_GateResult :: GateResult where
  "zero_GateResult = \<lparr>grOutcome = [], grExitCode = None, grRetryCount = 0, grStdout = [], grStderr = [], grDuration = 0, grTruncated = False\<rparr>"

definition GateManualResult :: GateResult where
  "GateManualResult = zero_GateResult\<lparr>grOutcome := GatePass\<rparr>"

definition ParseGateConfig :: "strmap \<Rightarrow> ConvError + GateConfig" where
  "ParseGateConfig meta =
     (let mode = (if mget meta FieldGateMode = [] then GateModeManual else mget meta FieldGateMode) in
      if mode \<notin> {GateModeManual, GateModeCondition, GateModeHybrid}
      then Inl (ConvErrorf ''parsing gate config: invalid gate mode'' [mode])
      else let raw = mget meta FieldGateTimeout; (d, valid) = DecodeDuration raw in
        if raw \<noteq> [] \<and> \<not> valid then Inl (ConvErrorf ''parsing gate config: invalid gate timeout'' [raw])
        else if raw \<noteq> [] \<and> d \<le> 0 then Inl (ConvErrorf ''parsing gate config: gate timeout must be positive'' [raw])
        else let timeout = (if raw \<noteq> [] then d else DefaultGateTimeout); act = mget meta FieldGateTimeoutAction in
          if act \<noteq> [] \<and> act \<notin> {TimeoutActionIterate, TimeoutActionRetry, TimeoutActionManual, TimeoutActionTerminate}
          then Inl (ConvErrorf ''parsing gate config: invalid gate timeout action'' [act])
          else Inr \<lparr>gcMode = mode, gcCondition = mget meta FieldGateCondition, gcTimeout = timeout,
                 gcTimeoutAction = (if act \<noteq> [] then act else TimeoutActionIterate)\<rparr>)"

definition NeedsConditionExecution :: "GateConfig \<Rightarrow> bool" where
  "NeedsConditionExecution gc =
     (if gcMode gc = GateModeManual then False
      else if gcMode gc \<in> {GateModeCondition, GateModeHybrid} then gcCondition gc \<noteq> [] else False)"

record TriggerConfig =
  tcMode :: string
  tcCondition :: string

definition TriggerEnabled :: "TriggerConfig \<Rightarrow> bool" where
  "TriggerEnabled tc \<longleftrightarrow> tcMode tc = TriggerEvent"

definition ParseTriggerConfig :: "strmap \<Rightarrow> ConvError + TriggerConfig" where
  "ParseTriggerConfig meta =
     (let mode = mget meta FieldTrigger; condition = mget meta FieldTriggerCondition in
      if mode = TriggerNone then Inr \<lparr>tcMode = TriggerNone, tcCondition = []\<rparr>
      else if mode = TriggerEvent
      then if condition = [] then Inl (ConvErrorf ''parsing trigger config: trigger mode requires a trigger condition path'' [TriggerEvent])
           else Inr \<lparr>tcMode = TriggerEvent, tcCondition = condition\<rparr>
      else Inl (ConvErrorf ''parsing trigger config: invalid trigger mode'' [mode]))"

definition HybridNeedsManual :: "GateConfig \<Rightarrow> bool" where
  "HybridNeedsManual cfg \<longleftrightarrow> gcCondition cfg = []"

section \<open>Idempotency keys\<close>

definition IdempotencyKeyPrefix :: "string \<Rightarrow> string" where
  "IdempotencyKeyPrefix beadID = ''converge:'' @ beadID @ '':iter:''"

definition IdempotencyKey :: "string \<Rightarrow> int \<Rightarrow> string" where
  "IdempotencyKey beadID iteration = ''converge:'' @ beadID @ '':iter:'' @ itoa iteration"

definition ParseIterationFromKey :: "string \<Rightarrow> int \<times> bool" where
  "ParseIterationFromKey key =
     (case after_last '':iter:'' key of
        None \<Rightarrow> (0, False)
      | Some numStr \<Rightarrow> (case atoi numStr of
            None \<Rightarrow> (0, False)
          | Some n \<Rightarrow> if n < 0 then (0, False) else (n, True)))"

record BeadInfo =
  biID :: string
  biStatus :: string
  biParentID :: string
  biIdempotencyKey :: string
  biCreatedAt :: gtime
  biClosedAt :: gtime

definition zero_BeadInfo :: BeadInfo where
  "zero_BeadInfo = \<lparr>biID = [], biStatus = [], biParentID = [], biIdempotencyKey = [], biCreatedAt = zero_time, biClosedAt = zero_time\<rparr>"

section \<open>Child statistics\<close>

record ChildStats =
  csClosedCount :: int
  csCumulativeDur :: int
  csHighestClosed :: BeadInfo
  csHighestClosedIter :: int
  csHighestClosedFound :: bool
  csHighestOpen :: BeadInfo
  csHighestOpenIter :: int
  csHighestOpenFound :: bool

definition stats_child :: "string \<Rightarrow> BeadInfo \<Rightarrow> ChildStats \<Rightarrow> ChildStats" where
  "stats_child prefix child st =
     (if \<not> has_prefix prefix (biIdempotencyKey child) then st
      else let (iter, iterOK) = ParseIterationFromKey (biIdempotencyKey child) in
        if biStatus child = ''closed''
        then let st1 = st\<lparr>csClosedCount := csClosedCount st + 1\<rparr>;
                 st2 = (if \<not> IsZero (biClosedAt child) \<and> \<not> IsZero (biCreatedAt child)
                        then st1\<lparr>csCumulativeDur := wrap64 (csCumulativeDur st1 + time_sub (biClosedAt child) (biCreatedAt child))\<rparr> else st1)
             in if iterOK \<and> iter > csHighestClosedIter st2
                then st2\<lparr>csHighestClosed := child, csHighestClosedIter := iter, csHighestClosedFound := True\<rparr> else st2
        else if biStatus child = ''open'' \<or> biStatus child = ''in_progress''
        then if iterOK \<and> iter > csHighestOpenIter st
             then st\<lparr>csHighestOpen := child, csHighestOpenIter := iter, csHighestOpenFound := True\<rparr> else st
        else st)"

definition childStats :: "BeadInfo list \<Rightarrow> string \<Rightarrow> ChildStats" where
  "childStats children beadID =
     foldl (\<lambda>st child. stats_child (IdempotencyKeyPrefix beadID) child st)
       \<lparr>csClosedCount = 0, csCumulativeDur = 0, csHighestClosed = zero_BeadInfo, csHighestClosedIter = -1, csHighestClosedFound = False,
        csHighestOpen = zero_BeadInfo, csHighestOpenIter = -1, csHighestOpenFound = False\<rparr> children"

section \<open>Write protection\<close>

definition ProtectedPrefix :: string where [conv_defs]: "ProtectedPrefix = ''convergence.''"
definition TokenEnvVar :: string where [conv_defs]: "TokenEnvVar = ''GC_CONTROLLER_TOKEN''"

definition agentWritableKeys :: "string set" where
  "agentWritableKeys = {FieldAgentVerdict, FieldAgentVerdictWisp}"

definition RequiresToken :: "string \<Rightarrow> bool" where
  "RequiresToken key =
     (if has_prefix VarPrefix key then True else if \<not> has_prefix ProtectedPrefix key then False else key \<notin> agentWritableKeys)"

definition ScrubTokenEnv :: "strmap option \<Rightarrow> strmap option" where
  "ScrubTokenEnv env = (case env of None \<Rightarrow> None | Some e \<Rightarrow> Some (\<lambda>k. if k \<noteq> TokenEnvVar then e k else None))"

section \<open>Template variables and dependency filters\<close>

definition ExtractVars :: "strmap \<Rightarrow> strmap" where
  "ExtractVars meta = (\<lambda>k. meta (VarPrefix @ k))"

definition MatchesDependencyFilter :: "strmap \<Rightarrow> kvs \<Rightarrow> bool" where
  "MatchesDependencyFilter meta flt = list_all (\<lambda>(k, expected). meta k = Some expected) flt"

text \<open>\<open>filepath.Join\<close> and \<open>filepath.Clean\<close> on slash-separated paths.\<close>

fun split_slash :: "string \<Rightarrow> string \<Rightarrow> string list" where
  "split_slash acc [] = [rev acc]"
| "split_slash acc (c # s) = (if c = CHR ''/'' then rev acc # split_slash [] s else split_slash (c # acc) s)"

fun clean_parts :: "bool \<Rightarrow> string list \<Rightarrow> string list \<Rightarrow> string list" where
  "clean_parts rooted out [] = rev out"
| "clean_parts rooted out (p # ps) =
     (if p = [] \<or> p = ''.'' then clean_parts rooted out ps
      else if p = ''..''
      then (case out of
              [] \<Rightarrow> if rooted then clean_parts rooted [] ps else clean_parts rooted [p] ps
            | q # qs \<Rightarrow> if q = ''..'' then clean_parts rooted (p # out) ps else clean_parts rooted qs ps)
      else clean_parts rooted (p # out) ps)"

fun join_slash :: "string list \<Rightarrow> string" where
  "join_slash [] = []"
| "join_slash [p] = p"
| "join_slash (p # q # ps) = p @ ''/'' @ join_slash (q # ps)"

definition Clean :: "string \<Rightarrow> string" where
  "Clean path =
     (let rooted = (path \<noteq> [] \<and> hd path = CHR ''/'');
          r = (if rooted then ''/'' else []) @ join_slash (clean_parts rooted [] (split_slash [] path))
      in if r = [] then ''.'' else r)"

definition Join :: "string list \<Rightarrow> string" where
  "Join elems = (let es = dropWhile (\<lambda>e. e = []) elems in if es = [] then [] else Clean (join_slash es))"

definition ArtifactDirFor :: "string \<Rightarrow> string \<Rightarrow> int \<Rightarrow> string" where
  "ArtifactDirFor cityPath beadID iteration = Join [cityPath, ''.gc'', ''artifacts'', beadID, ''iter-'' @ itoa iteration]"

section \<open>Captured output\<close>

definition MaxOutputBytes :: int where "MaxOutputBytes = 4096"
definition UTFMax :: int where "UTFMax = 4"

record boundedBuffer =
  bbBuf :: string
  bbMaxBytes :: int
  bbOverflow :: bool

definition newBoundedBuffer :: "int \<Rightarrow> boundedBuffer" where
  "newBoundedBuffer maxBytes = \<lparr>bbBuf = [], bbMaxBytes = maxBytes, bbOverflow = False\<rparr>"

definition BufWrite :: "string \<Rightarrow> boundedBuffer \<Rightarrow> int \<times> boundedBuffer" where
  "BufWrite p b =
     (let remaining = bbMaxBytes b - int (length (bbBuf b)) in
      if remaining \<le> 0 then (int (length p), b\<lparr>bbOverflow := True\<rparr>)
      else if int (length p) > remaining
      then (int (length p), b\<lparr>bbBuf := bbBuf b @ take (nat remaining) p, bbOverflow := True\<rparr>)
      else (int (length p), b\<lparr>bbBuf := bbBuf b @ p\<rparr>))"

text \<open>\<open>utf8.RuneStart\<close>: the byte is not a continuation byte.\<close>

definition RuneStart :: "char \<Rightarrow> bool" where
  "RuneStart c \<longleftrightarrow> (of_char c :: nat) div 64 \<noteq> 2"

fun truncate_end :: "nat \<Rightarrow> string \<Rightarrow> int \<Rightarrow> nat \<Rightarrow> nat" where
  "truncate_end 0 data maxBytes n = n"
| "truncate_end (Suc fuel) data maxBytes n =
     (if n > 0 \<and> int n > maxBytes - UTFMax \<and> \<not> RuneStart (data ! n) then truncate_end fuel data maxBytes (n - 1) else n)"

text \<open>The loop runs at most four times, since it stops four bytes below the limit.\<close>

definition TruncateOutput :: "string \<Rightarrow> int \<Rightarrow> string \<times> bool" where
  "TruncateOutput data maxBytes =
     (if maxBytes \<le> 0 then if length data = 0 then ([], False) else ([], True)
      else if int (length data) \<le> maxBytes then (data, False)
      else (take (truncate_end 4 data maxBytes (nat maxBytes)) data, True))"

record GateOutput =
  goDurationMs :: string
  goExitCode :: string
  goStdout :: string
  goStderr :: string

definition GateOutputFromMetadata :: "strmap \<Rightarrow> GateOutput" where
  "GateOutputFromMetadata meta =
     \<lparr>goDurationMs = mget meta FieldGateDurationMs, goExitCode = mget meta FieldGateExitCode,
      goStdout = mget meta FieldGateStdout, goStderr = mget meta FieldGateStderr\<rparr>"

definition HasOutput :: "GateOutput \<Rightarrow> bool" where
  "HasOutput g \<longleftrightarrow> goStdout g \<noteq> [] \<or> goStderr g \<noteq> []"

definition CombinedOutput :: "GateOutput \<Rightarrow> string" where
  "CombinedOutput g =
     (if goStderr g \<noteq> [] then (if goStdout g \<noteq> [] then goStdout g @ [CHR 0x0A] else goStdout g) @ goStderr g else goStdout g)"

section \<open>Running a gate condition\<close>

record ConditionEnv =
  ceBeadID :: string
  ceIteration :: int
  ceCityPath :: string
  ceStorePath :: string
  ceWorkDir :: string
  ceWispID :: string
  ceDocPath :: string
  ceMoleculeDir :: string
  ceArtifactDir :: string
  ceIterationDurationMs :: int
  ceCumulativeDurationMs :: int
  ceMaxIterations :: int
  ceAgentVerdict :: string
  ceAgentProvider :: string
  ceAgentModel :: string

definition zero_ConditionEnv :: ConditionEnv where
  "zero_ConditionEnv = \<lparr>ceBeadID = [], ceIteration = 0, ceCityPath = [], ceStorePath = [], ceWorkDir = [], ceWispID = [], ceDocPath = [],
     ceMoleculeDir = [], ceArtifactDir = [], ceIterationDurationMs = 0, ceCumulativeDurationMs = 0, ceMaxIterations = 0,
     ceAgentVerdict = [], ceAgentProvider = [], ceAgentModel = []\<rparr>"

definition textFileBusyRetryAttempts :: nat where "textFileBusyRetryAttempts = 5"

fun contains_sub :: "string \<Rightarrow> string \<Rightarrow> bool" where
  "contains_sub p [] = (p = [])"
| "contains_sub p (c # s) = (has_prefix p (c # s) \<or> contains_sub p s)"

definition isTextFileBusyPreExecError :: "GateResult \<Rightarrow> bool" where
  "isTextFileBusyPreExecError r \<longleftrightarrow> grOutcome r = GateError \<and> contains_sub ''text file busy'' (ToLower (grStderr r))"

text \<open>\<open>runOnce\<close>: the i-th execution is \<open>exec i\<close>; \<open>done i\<close> says whether the context is cancelled before
  the pause after it ends.  The loop of \<open>RunCondition\<close> numbers the attempts in the same way; the numbers
  of its executions are pairs (attempt, execution within the attempt).\<close>

fun runOnce_loop :: "(nat \<Rightarrow> GateResult) \<Rightarrow> (nat \<Rightarrow> bool) \<Rightarrow> nat \<Rightarrow> nat \<Rightarrow> GateResult" where
  "runOnce_loop exec ctxDone attempt 0 = exec attempt"
| "runOnce_loop exec ctxDone attempt (Suc left) =
     (if \<not> isTextFileBusyPreExecError (exec attempt) then exec attempt
      else if ctxDone attempt then exec attempt
      else runOnce_loop exec ctxDone (Suc attempt) left)"

definition runOnce :: "(nat \<Rightarrow> GateResult) \<Rightarrow> (nat \<Rightarrow> bool) \<Rightarrow> GateResult" where
  "runOnce exec ctxDone = runOnce_loop exec ctxDone 0 textFileBusyRetryAttempts"

fun RunCondition_loop :: "(nat \<Rightarrow> GateResult) \<Rightarrow> nat \<Rightarrow> nat \<Rightarrow> GateResult" where
  "RunCondition_loop run attempt 0 = (run attempt)\<lparr>grRetryCount := int attempt\<rparr>"
| "RunCondition_loop run attempt (Suc left) =
     (if grOutcome (run attempt) \<noteq> GateTimeout then (run attempt)\<lparr>grRetryCount := int attempt\<rparr>
      else RunCondition_loop run (Suc attempt) left)"

definition RunCondition :: "(nat \<Rightarrow> nat \<Rightarrow> GateResult) \<Rightarrow> (nat \<Rightarrow> nat \<Rightarrow> bool) \<Rightarrow> nat \<Rightarrow> GateResult" where
  "RunCondition exec ctxDone retryBudget = RunCondition_loop (\<lambda>a. runOnce (exec a) (ctxDone a)) 0 retryBudget"

text \<open>A condition script under the arguments it is started with: script path, environment, timeout,
  attempt and execution.  The record also has the cancellation of the surrounding context.\<close>

record GateRunner =
  runScript :: "string \<Rightarrow> ConditionEnv \<Rightarrow> int \<Rightarrow> nat \<Rightarrow> nat \<Rightarrow> GateResult"
  runCancelled :: "nat \<Rightarrow> nat \<Rightarrow> bool"

definition run_condition :: "GateRunner \<Rightarrow> string \<Rightarrow> ConditionEnv \<Rightarrow> int \<Rightarrow> nat \<Rightarrow> GateResult" where
  "run_condition rn script env timeout retryBudget = RunCondition (runScript rn script env timeout) (runCancelled rn) retryBudget"

definition EvaluateHybrid :: "GateRunner \<Rightarrow> GateConfig \<Rightarrow> ConditionEnv \<Rightarrow> string \<Rightarrow> GateResult" where
  "EvaluateHybrid rn cfg env verdict =
     (if HybridNeedsManual cfg then GateManualResult
      else let env1 = env\<lparr>ceAgentVerdict := verdict\<rparr>;
               retryBudget = (if gcTimeoutAction cfg = TimeoutActionRetry then MaxGateRetries else 0)
           in run_condition rn (gcCondition cfg) env1 (gcTimeout cfg) retryBudget)"

definition TriggerConditionEnv :: "strmap \<Rightarrow> string \<Rightarrow> string \<Rightarrow> string \<Rightarrow> int \<Rightarrow> ConditionEnv" where
  "TriggerConditionEnv meta beadID cityPath storePath nextIteration =
     (let env = zero_ConditionEnv\<lparr>ceBeadID := beadID, ceIteration := nextIteration, ceCityPath := cityPath, ceStorePath := storePath,
            ceDocPath := mget meta (VarPrefix @ ''doc_path''), ceArtifactDir := ArtifactDirFor cityPath beadID nextIteration\<rparr>;
          (maxIter, ok) = DecodeInt (mget meta FieldMaxIterations)
      in if ok then env\<lparr>ceMaxIterations := maxIter\<rparr> else env)"

section \<open>Events\<close>

definition EventCreated :: string where [conv_defs]: "EventCreated = ''convergence.created''"
definition EventIteration :: string where [conv_defs]: "EventIteration = ''convergence.iteration''"
definition EventTerminated :: string where [conv_defs]: "EventTerminated = ''convergence.terminated''"
definition EventWaitingManual :: string where [conv_defs]: "EventWaitingManual = ''convergence.waiting_manual''"
definition EventManualApprove :: string where [conv_defs]: "EventManualApprove = ''convergence.manual_approve''"
definition EventManualIterate :: string where [conv_defs]: "EventManualIterate = ''convergence.manual_iterate''"
definition EventManualStop :: string where [conv_defs]: "EventManualStop = ''convergence.manual_stop''"
definition EventTriggerAdvance :: string where [conv_defs]: "EventTriggerAdvance = ''convergence.trigger_advance''"

definition EventIDCreated :: "string \<Rightarrow> string" where
  "EventIDCreated b = ''converge:'' @ b @ '':created''"
definition EventIDIteration :: "string \<Rightarrow> int \<Rightarrow> string" where
  "EventIDIteration b n = ''converge:'' @ b @ '':iter:'' @ itoa n @ '':iteration''"
definition EventIDWaitingManual :: "string \<Rightarrow> int \<Rightarrow> string" where
  "EventIDWaitingManual b n = ''converge:'' @ b @ '':iter:'' @ itoa n @ '':waiting_manual''"
definition EventIDTerminated :: "string \<Rightarrow> string" where
  "EventIDTerminated b = ''converge:'' @ b @ '':terminated''"
definition EventIDManualApprove :: "string \<Rightarrow> string" where
  "EventIDManualApprove b = ''converge:'' @ b @ '':manual_approve''"
definition EventIDManualIterate :: "string \<Rightarrow> int \<Rightarrow> string" where
  "EventIDManualIterate b n = ''converge:'' @ b @ '':iter:'' @ itoa n @ '':manual_iterate''"
definition EventIDManualStop :: "string \<Rightarrow> string" where
  "EventIDManualStop b = ''converge:'' @ b @ '':manual_stop''"
definition EventIDTriggerAdvance :: "string \<Rightarrow> int \<Rightarrow> string" where
  "EventIDTriggerAdvance b n = ''converge:'' @ b @ '':iter:'' @ itoa n @ '':trigger_advance''"

record CreatedPayload =
  cpFormula :: string
  cpTarget :: string
  cpRig :: string
  cpGateMode :: string
  cpMaxIterations :: int
  cpTitle :: string
  cpFirstWispID :: string
  cpRetrySource :: "string option"

record GateResultPayload =
  gpExitCode :: "int option"
  gpStdout :: string
  gpStderr :: string
  gpDurationMs :: int
  gpTruncated :: bool

record IterationPayload =
  ipRig :: string
  ipIteration :: int
  ipWispID :: string
  ipAgentVerdict :: string
  ipGateMode :: string
  ipGateOutcome :: "string option"
  ipGateResult :: "GateResultPayload option"
  ipGateRetryCount :: int
  ipAction :: string
  ipWaitingReason :: "string option"
  ipNextWispID :: "string option"
  ipIterationDurationMs :: int
  ipCumulativeDurationMs :: int
  ipIterationTokens :: "int option"
  ipCumulativeTokens :: "int option"

record TerminatedPayload =
  tpRig :: string
  tpTerminalReason :: string
  tpTotalIterations :: int
  tpFinalStatus :: string
  tpActor :: string
  tpCumulativeDurationMs :: int

record WaitingManualPayload =
  wpRig :: string
  wpIteration :: int
  wpWispID :: string
  wpAgentVerdict :: string
  wpGateMode :: string
  wpGateOutcome :: "string option"
  wpGateResult :: "GateResultPayload option"
  wpReason :: string
  wpIterationDurationMs :: int
  wpCumulativeDurationMs :: int

record ManualActionPayload =
  mpRig :: string
  mpActor :: string
  mpPriorState :: string
  mpNewState :: string
  mpIteration :: int
  mpWispID :: "string option"
  mpNextWispID :: "string option"

datatype Payload =
    PCreated CreatedPayload
  | PIteration IterationPayload
  | PTerminated TerminatedPayload
  | PWaitingManual WaitingManualPayload
  | PManualAction ManualActionPayload

text \<open>An emitted event; the payload is kept as a value instead of its JSON text.\<close>

record EmittedEvent =
  evType :: string
  evEventID :: string
  evBeadID :: string
  evPayload :: Payload
  evRecovery :: bool

definition NullableString :: "string \<Rightarrow> string option" where
  "NullableString s = (if s = [] then None else Some s)"

text \<open>\<open>Duration.Milliseconds\<close> divides toward zero.\<close>

definition Milliseconds :: "int \<Rightarrow> int" where
  "Milliseconds d = (if d < 0 then - ((- d) div 1000000) else d div 1000000)"

definition GateResultToPayload :: "GateResult \<Rightarrow> GateResultPayload option" where
  "GateResultToPayload r =
     (if grOutcome r = [] then None
      else Some \<lparr>gpExitCode = grExitCode r, gpStdout = grStdout r, gpStderr = grStderr r,
             gpDurationMs = Milliseconds (grDuration r), gpTruncated = grTruncated r\<rparr>)"

definition with_rig :: "string \<Rightarrow> Payload \<Rightarrow> Payload" where
  "with_rig rig payload =
     (case payload of
        PCreated p \<Rightarrow> PCreated (p\<lparr>cpRig := rig\<rparr>)
      | PIteration p \<Rightarrow> PIteration (p\<lparr>ipRig := rig\<rparr>)
      | PTerminated p \<Rightarrow> PTerminated (p\<lparr>tpRig := rig\<rparr>)
      | PWaitingManual p \<Rightarrow> PWaitingManual (p\<lparr>wpRig := rig\<rparr>)
      | PManualAction p \<Rightarrow> PManualAction (p\<lparr>mpRig := rig\<rparr>))"

section \<open>Actions and close reasons\<close>

definition CloseReasonCreateRollback :: string where [conv_defs]: "CloseReasonCreateRollback = ''convergence: bead-create rollback after error''"
definition CloseReasonRetryRollback :: string where [conv_defs]: "CloseReasonRetryRollback = ''convergence: retry-create rollback after error''"
definition CloseReasonManualApprove :: string where [conv_defs]: "CloseReasonManualApprove = ''convergence: iteration closed by manual approve''"
definition CloseReasonManualSupersede :: string where [conv_defs]: "CloseReasonManualSupersede = ''convergence: active wisp superseded during manual stop''"
definition CloseReasonManualStop :: string where [conv_defs]: "CloseReasonManualStop = ''convergence: iteration closed by manual stop''"
definition CloseReasonReconcileDone :: string where [conv_defs]: "CloseReasonReconcileDone = ''convergence reconcile: terminated-state bead closed''"
definition CloseReasonHandlerCleanup :: string where [conv_defs]: "CloseReasonHandlerCleanup = ''convergence: terminated state observed; closing root''"
definition CloseReasonHandlerRoot :: string where [conv_defs]: "CloseReasonHandlerRoot = ''convergence: workflow handler closing root after terminate''"
definition ActionIterate :: string where [conv_defs]: "ActionIterate = ''iterate''"
definition ActionApproved :: string where [conv_defs]: "ActionApproved = ''approved''"
definition ActionNoConvergence :: string where [conv_defs]: "ActionNoConvergence = ''no_convergence''"
definition ActionWaitingManual :: string where [conv_defs]: "ActionWaitingManual = ''waiting_manual''"
definition ActionWaitingTrigger :: string where [conv_defs]: "ActionWaitingTrigger = ''waiting_trigger''"
definition ActionStopped :: string where [conv_defs]: "ActionStopped = ''stopped''"
definition ActionSkipped :: string where [conv_defs]: "ActionSkipped = ''skipped''"

end
