(* ===== verification/Conv_Handler.thy ===== *)
theory Conv_Handler
  imports Conv_Meta
begin

text \<open>
  The wisp-closed handler of the convergence loop (\<open>internal/convergence/handler.go\<close>).  The store is
  the Go interface \<open>Store\<close>: a record of operations on a store state of any type, each returning an error
  or a value with the new state, so that an operation may fail at any call.  A handler step is an action
  on the store state and the list of emitted events; \<open>attempt\<close> is a call whose error is inspected,
  \<open>bindE\<close> a call whose error is returned, \<open>wrap\<close> adds the context of \<open>fmt.Errorf\<close>, \<open>ignore\<close> drops it.

  The handler's clock is read once and the reading is passed along but used nowhere, so it is left out.
  The recursion of \<open>deleteBeadSubtree\<close> follows the children of a bead; its depth is bounded by the field
  \<open>hDepth\<close> and running out of it is an error like any other.
\<close>

section \<open>Store interface and actions\<close>

record 's Store =
  sGetBead :: "string \<Rightarrow> 's \<Rightarrow> (ConvError + BeadInfo) \<times> 's"
  sGetMetadata :: "string \<Rightarrow> 's \<Rightarrow> (ConvError + strmap) \<times> 's"
  sSetMetadata :: "string \<Rightarrow> string \<Rightarrow> string \<Rightarrow> 's \<Rightarrow> (ConvError + unit) \<times> 's"
  sCloseBead :: "string \<Rightarrow> string \<Rightarrow> 's \<Rightarrow> (ConvError + unit) \<times> 's"
  sDeleteBead :: "string \<Rightarrow> 's \<Rightarrow> (ConvError + unit) \<times> 's"
  sChildren :: "string \<Rightarrow> 's \<Rightarrow> (ConvError + BeadInfo list) \<times> 's"
  sPourWisp :: "string \<Rightarrow> string \<Rightarrow> string \<Rightarrow> strmap \<Rightarrow> string \<Rightarrow> 's \<Rightarrow> (ConvError + string) \<times> 's"
  sPourSpeculativeWisp :: "string \<Rightarrow> string \<Rightarrow> string \<Rightarrow> strmap \<Rightarrow> string \<Rightarrow> 's \<Rightarrow> (ConvError + string) \<times> 's"
  sActivateWisp :: "string \<Rightarrow> 's \<Rightarrow> (ConvError + unit) \<times> 's"
  sFindByIdempotencyKey :: "string \<Rightarrow> 's \<Rightarrow> (ConvError + string \<times> bool) \<times> 's"
  sCountActiveConvergenceLoops :: "string \<Rightarrow> 's \<Rightarrow> (ConvError + int) \<times> 's"
  sCreateConvergenceBead :: "string \<Rightarrow> 's \<Rightarrow> (ConvError + string) \<times> 's"

record 's Handler =
  hStore :: "'s Store"
  hStorePath :: string
  hEmitter :: bool
  hDepth :: nat

type_synonym ('s, 'a) act = "'s \<times> EmittedEvent list \<Rightarrow> (ConvError + 'a) \<times> 's \<times> EmittedEvent list"

definition ret :: "'a \<Rightarrow> ('s, 'a) act" where
  "ret x w = (Inr x, w)"

definition fail :: "ConvError \<Rightarrow> ('s, 'a) act" where
  "fail e w = (Inl e, w)"

definition call :: "('s \<Rightarrow> (ConvError + 'a) \<times> 's) \<Rightarrow> ('s, 'a) act" where
  "call f w = (case f (fst w) of (r, s) \<Rightarrow> (r, s, snd w))"

definition attempt :: "('s, 'a) act \<Rightarrow> (ConvError + 'a \<Rightarrow> ('s, 'b) act) \<Rightarrow> ('s, 'b) act" where
  "attempt m k w = (case m w of (r, w') \<Rightarrow> k r w')"

definition bindE :: "('s, 'a) act \<Rightarrow> ('a \<Rightarrow> ('s, 'b) act) \<Rightarrow> ('s, 'b) act" where
  "bindE m k = attempt m (\<lambda>r. case r of Inl e \<Rightarrow> fail e | Inr x \<Rightarrow> k x)"

definition wrap :: "string \<Rightarrow> ('s, 'a) act \<Rightarrow> ('s, 'a) act" where
  "wrap msg m = attempt m (\<lambda>r. case r of Inl e \<Rightarrow> fail (ConvWrap msg e) | Inr x \<Rightarrow> ret x)"

definition ignore :: "('s, 'a) act \<Rightarrow> ('s, 'b) act \<Rightarrow> ('s, 'b) act" where
  "ignore m k = attempt m (\<lambda>r. k)"

definition lift :: "ConvError + 'a \<Rightarrow> ('s, 'a) act" where
  "lift r w = (r, w)"

definition emit :: "EmittedEvent \<Rightarrow> ('s, unit) act" where
  "emit e w = (Inr (), fst w, snd w @ [e])"

text \<open>The store calls of a handler.\<close>

definition GetBead :: "'s Handler \<Rightarrow> string \<Rightarrow> ('s, BeadInfo) act" where
  "GetBead h i = call (sGetBead (hStore h) i)"
definition GetMetadata :: "'s Handler \<Rightarrow> string \<Rightarrow> ('s, strmap) act" where
  "GetMetadata h i = call (sGetMetadata (hStore h) i)"
definition PutMetadata :: "'s Handler \<Rightarrow> string \<Rightarrow> string \<Rightarrow> string \<Rightarrow> ('s, unit) act" where
  "PutMetadata h i k v = call (sSetMetadata (hStore h) i k v)"
definition CloseBead :: "'s Handler \<Rightarrow> string \<Rightarrow> string \<Rightarrow> ('s, unit) act" where
  "CloseBead h i reason = call (sCloseBead (hStore h) i reason)"
definition DeleteBead :: "'s Handler \<Rightarrow> string \<Rightarrow> ('s, unit) act" where
  "DeleteBead h i = call (sDeleteBead (hStore h) i)"
definition ChildrenOf :: "'s Handler \<Rightarrow> string \<Rightarrow> ('s, BeadInfo list) act" where
  "ChildrenOf h i = call (sChildren (hStore h) i)"
definition PourWisp :: "'s Handler \<Rightarrow> string \<Rightarrow> string \<Rightarrow> string \<Rightarrow> strmap \<Rightarrow> string \<Rightarrow> ('s, string) act" where
  "PourWisp h parent formula key vars prompt = call (sPourWisp (hStore h) parent formula key vars prompt)"
definition PourSpeculativeWisp :: "'s Handler \<Rightarrow> string \<Rightarrow> string \<Rightarrow> string \<Rightarrow> strmap \<Rightarrow> string \<Rightarrow> ('s, string) act" where
  "PourSpeculativeWisp h parent formula key vars prompt = call (sPourSpeculativeWisp (hStore h) parent formula key vars prompt)"
definition ActivateWisp :: "'s Handler \<Rightarrow> string \<Rightarrow> ('s, unit) act" where
  "ActivateWisp h i = call (sActivateWisp (hStore h) i)"
definition FindByIdempotencyKey :: "'s Handler \<Rightarrow> string \<Rightarrow> ('s, string \<times> bool) act" where
  "FindByIdempotencyKey h key = call (sFindByIdempotencyKey (hStore h) key)"
definition CountActiveConvergenceLoops :: "'s Handler \<Rightarrow> string \<Rightarrow> ('s, int) act" where
  "CountActiveConvergenceLoops h target = call (sCountActiveConvergenceLoops (hStore h) target)"
definition CreateConvergenceBead :: "'s Handler \<Rightarrow> string \<Rightarrow> ('s, string) act" where
  "CreateConvergenceBead h title = call (sCreateConvergenceBead (hStore h) title)"

lemmas store_calls = GetBead_def GetMetadata_def PutMetadata_def CloseBead_def DeleteBead_def ChildrenOf_def PourWisp_def
  PourSpeculativeWisp_def ActivateWisp_def FindByIdempotencyKey_def CountActiveConvergenceLoops_def CreateConvergenceBead_def

section \<open>Helpers of the handler\<close>

record HandlerResult =
  hrAction :: string
  hrIteration :: int
  hrGateOutcome :: string
  hrNextWispID :: string
  hrWaitingReason :: string

definition zero_HandlerResult :: HandlerResult where
  "zero_HandlerResult = \<lparr>hrAction = [], hrIteration = 0, hrGateOutcome = [], hrNextWispID = [], hrWaitingReason = []\<rparr>"

record metaWrite =
  mwKey :: string
  mwValue :: string
  mwDesc :: string

fun commit_writes :: "'s Handler \<Rightarrow> string \<Rightarrow> metaWrite list \<Rightarrow> ('s, unit) act" where
  "commit_writes h rootID [] = ret ()"
| "commit_writes h rootID (w # ws) =
     bindE (wrap (mwDesc w) (PutMetadata h rootID (mwKey w) (mwValue w))) (\<lambda>_. commit_writes h rootID ws)"

definition commit :: "'s Handler \<Rightarrow> string \<Rightarrow> metaWrite list \<Rightarrow> ('s, unit) act option \<Rightarrow> metaWrite \<Rightarrow> ('s, unit) act" where
  "commit h rootID writes preMarker marker =
     bindE (commit_writes h rootID writes) (\<lambda>_.
     bindE (case preMarker of None \<Rightarrow> ret () | Some p \<Rightarrow> p) (\<lambda>_.
       if mwValue marker = [] then ret ()
       else wrap (mwDesc marker) (PutMetadata h rootID (mwKey marker) (mwValue marker))))"

definition mw :: "string \<Rightarrow> string \<Rightarrow> string \<Rightarrow> metaWrite" where
  "mw k v d = \<lparr>mwKey = k, mwValue = v, mwDesc = d\<rparr>"

definition persistGateOutcome :: "'s Handler \<Rightarrow> string \<Rightarrow> string \<Rightarrow> GateResult \<Rightarrow> ('s, unit) act" where
  "persistGateOutcome h rootBeadID wispID result =
     (let exitCode = (case grExitCode result of None \<Rightarrow> [] | Some c \<Rightarrow> EncodeInt c);
          truncated = (if grTruncated result then ''true'' else [])
      in commit h rootBeadID
           [mw FieldGateOutcome (grOutcome result) ''setting gate outcome'',
            mw FieldGateExitCode exitCode ''setting gate exit code'',
            mw FieldGateRetryCount (EncodeInt (grRetryCount result)) ''setting gate retry count'',
            mw FieldGateStdout (grStdout result) ''setting gate stdout'',
            mw FieldGateStderr (grStderr result) ''setting gate stderr'',
            mw FieldGateDurationMs (itoa (Milliseconds (grDuration result))) ''setting gate duration'',
            mw FieldGateTruncated truncated ''setting gate truncated'']
           None
           (mw FieldGateOutcomeWisp wispID ''setting gate outcome wisp''))"

definition deriveIterationCount :: "'s Handler \<Rightarrow> string \<Rightarrow> ('s, int) act" where
  "deriveIterationCount h rootBeadID =
     bindE (ChildrenOf h rootBeadID) (\<lambda>children. ret (csClosedCount (childStats children rootBeadID)))"

definition computeDurations :: "'s Handler \<Rightarrow> string \<Rightarrow> string \<Rightarrow> ('s, int \<times> int) act" where
  "computeDurations h rootBeadID wispID =
     bindE (if wispID \<noteq> []
            then attempt (GetBead h wispID) (\<lambda>r. ret (case r of Inl e \<Rightarrow> 0
                   | Inr info \<Rightarrow> if \<not> IsZero (biClosedAt info) \<and> \<not> IsZero (biCreatedAt info)
                                 then time_sub (biClosedAt info) (biCreatedAt info) else 0))
            else ret 0) (\<lambda>iterDur.
     attempt (ChildrenOf h rootBeadID) (\<lambda>r. ret (iterDur, case r of Inl e \<Rightarrow> 0
         | Inr children \<Rightarrow> csCumulativeDur (childStats children rootBeadID))))"

definition eventRig :: "'s Handler \<Rightarrow> string \<Rightarrow> ('s, string) act" where
  "eventRig h beadID =
     (if beadID = [] then ret []
      else attempt (GetMetadata h beadID) (\<lambda>r. ret (case r of Inl e \<Rightarrow> [] | Inr meta \<Rightarrow> mget meta FieldRig)))"

definition withEventRig :: "'s Handler \<Rightarrow> string \<Rightarrow> Payload \<Rightarrow> ('s, Payload) act" where
  "withEventRig h beadID payload =
     bindE (eventRig h beadID) (\<lambda>rig. ret (if rig = [] then payload else with_rig rig payload))"

definition emit_with :: "bool \<Rightarrow> 's Handler \<Rightarrow> string \<Rightarrow> string \<Rightarrow> string \<Rightarrow> Payload \<Rightarrow> ('s, unit) act" where
  "emit_with recovery h eventType eventID beadID payload =
     (if \<not> hEmitter h then ret ()
      else bindE (withEventRig h beadID payload) (\<lambda>p.
        emit \<lparr>evType = eventType, evEventID = eventID, evBeadID = beadID, evPayload = p, evRecovery = recovery\<rparr>))"

definition emitEvent :: "'s Handler \<Rightarrow> string \<Rightarrow> string \<Rightarrow> string \<Rightarrow> Payload \<Rightarrow> ('s, unit) act" where
  "emitEvent = emit_with False"

primrec delete_subtree :: "nat \<Rightarrow> 's Handler \<Rightarrow> string \<Rightarrow> ('s, unit) act" where
  "delete_subtree 0 h i = fail (ConvErrorf ''recursion depth'' [i])"
| "delete_subtree (Suc n) h i =
     bindE (wrap ''listing children for delete'' (ChildrenOf h i)) (\<lambda>children.
     bindE (foldr (\<lambda>child rest. bindE (delete_subtree n h (biID child)) (\<lambda>_. rest)) children (ret ())) (\<lambda>_.
       wrap ''deleting bead'' (DeleteBead h i)))"

definition deleteBeadSubtree :: "'s Handler \<Rightarrow> string \<Rightarrow> ('s, unit) act" where
  "deleteBeadSubtree h i = delete_subtree (hDepth h) h i"

definition burnSpeculativeWisp :: "'s Handler \<Rightarrow> string \<Rightarrow> string \<Rightarrow> ('s, unit) act" where
  "burnSpeculativeWisp h rootBeadID speculativeWispID =
     (if speculativeWispID = [] then ret ()
      else bindE (deleteBeadSubtree h speculativeWispID) (\<lambda>_.
        ignore (PutMetadata h rootBeadID FieldPendingNextWisp []) (ret ())))"

definition validPendingNextWisp :: "'s Handler \<Rightarrow> string \<Rightarrow> string \<Rightarrow> string \<Rightarrow> ('s, string) act" where
  "validPendingNextWisp h rootBeadID nextKey pendingID =
     (if pendingID = [] then ret []
      else attempt (GetBead h pendingID) (\<lambda>r.
        if (case r of Inl e \<Rightarrow> True
            | Inr info \<Rightarrow> biParentID info \<noteq> rootBeadID \<or> biIdempotencyKey info \<noteq> nextKey \<or> biStatus info = ''closed'')
        then ignore (PutMetadata h rootBeadID FieldPendingNextWisp []) (ret [])
        else ret pendingID))"

text \<open>Pouring a wisp; when the pour fails, a wisp with the key that exists nevertheless is taken.  None means
  that there is none and carries the error of the pour.\<close>

definition pour_or_find :: "'s Handler \<Rightarrow> ('s, string) act \<Rightarrow> string \<Rightarrow> ('s, string \<times> ConvError option) act" where
  "pour_or_find h pour nextKey =
     attempt pour (\<lambda>r. case r of
         Inr i \<Rightarrow> ret (i, None)
       | Inl err \<Rightarrow> attempt (FindByIdempotencyKey h nextKey) (\<lambda>l. case l of
             Inr (existingID, found) \<Rightarrow> if found then ret (existingID, None) else ret ([], Some err)
           | Inl e \<Rightarrow> ret ([], Some err)))"

definition scoped_verdict :: "strmap \<Rightarrow> string \<Rightarrow> string" where
  "scoped_verdict meta wispID =
     (if mget meta FieldAgentVerdictWisp = wispID then NormalizeVerdict (mget meta FieldAgentVerdict) else [])"

definition clear_verdict :: "'s Handler \<Rightarrow> string \<Rightarrow> ('s, unit) act" where
  "clear_verdict h rootBeadID =
     bindE (wrap ''clearing agent verdict'' (PutMetadata h rootBeadID FieldAgentVerdict [])) (\<lambda>_.
       wrap ''clearing agent verdict wisp'' (PutMetadata h rootBeadID FieldAgentVerdictWisp []))"

section \<open>Transitions\<close>

definition zero_IterationPayload :: IterationPayload where
  "zero_IterationPayload = \<lparr>ipRig = [], ipIteration = 0, ipWispID = [], ipAgentVerdict = [], ipGateMode = [], ipGateOutcome = None,
     ipGateResult = None, ipGateRetryCount = 0, ipAction = [], ipWaitingReason = None, ipNextWispID = None,
     ipIterationDurationMs = 0, ipCumulativeDurationMs = 0, ipIterationTokens = None, ipCumulativeTokens = None\<rparr>"

definition iteration_payload ::
  "int \<Rightarrow> string \<Rightarrow> string \<Rightarrow> GateConfig \<Rightarrow> string option \<Rightarrow> GateResult \<Rightarrow> string \<Rightarrow> int \<times> int \<Rightarrow> IterationPayload" where
  "iteration_payload iteration wispID verdict gateConfig gateOutcome gateResult action durs =
     zero_IterationPayload\<lparr>ipIteration := iteration, ipWispID := wispID, ipAgentVerdict := verdict, ipGateMode := gcMode gateConfig,
       ipGateOutcome := gateOutcome, ipGateResult := GateResultToPayload gateResult, ipGateRetryCount := grRetryCount gateResult,
       ipAction := action, ipIterationDurationMs := Milliseconds (fst durs), ipCumulativeDurationMs := Milliseconds (snd durs)\<rparr>"

definition transitionToWaitingManual ::
  "'s Handler \<Rightarrow> string \<Rightarrow> string \<Rightarrow> int \<Rightarrow> GateConfig \<Rightarrow> GateResult \<Rightarrow> string \<Rightarrow> string \<Rightarrow> strmap \<Rightarrow> ('s, HandlerResult) act" where
  "transitionToWaitingManual h rootBeadID wispID iteration gateConfig gateResult reason gateOutcome meta =
     bindE (computeDurations h rootBeadID wispID) (\<lambda>durs.
     let verdict = scoped_verdict meta wispID;
         iterPayload = (iteration_payload iteration wispID verdict gateConfig (NullableString gateOutcome) gateResult ActionWaitingManual durs)
           \<lparr>ipWaitingReason := NullableString reason\<rparr>;
         wmPayload = \<lparr>wpRig = [], wpIteration = iteration, wpWispID = wispID, wpAgentVerdict = verdict, wpGateMode = gcMode gateConfig,
           wpGateOutcome = NullableString gateOutcome, wpGateResult = GateResultToPayload gateResult, wpReason = reason,
           wpIterationDurationMs = Milliseconds (fst durs), wpCumulativeDurationMs = Milliseconds (snd durs)\<rparr>
     in bindE (emitEvent h EventIteration (EventIDIteration rootBeadID iteration) rootBeadID (PIteration iterPayload)) (\<lambda>_.
        bindE (commit h rootBeadID
          [mw FieldActiveWisp [] ''clearing active wisp'', mw FieldWaitingReason reason ''setting waiting reason'',
           mw FieldState ConvStateWaitingManual ''setting state to waiting_manual'']
          None (mw FieldLastProcessedWisp wispID ''setting last processed wisp'')) (\<lambda>_.
        bindE (emitEvent h EventWaitingManual (EventIDWaitingManual rootBeadID iteration) rootBeadID (PWaitingManual wmPayload)) (\<lambda>_.
          ret (zero_HandlerResult\<lparr>hrAction := ActionWaitingManual, hrIteration := iteration, hrGateOutcome := gateOutcome,
            hrWaitingReason := reason\<rparr>)))))"

definition handleSlingFailure ::
  "'s Handler \<Rightarrow> string \<Rightarrow> string \<Rightarrow> int \<Rightarrow> GateConfig \<Rightarrow> GateResult \<Rightarrow> strmap \<Rightarrow> ('s, HandlerResult) act" where
  "handleSlingFailure h rootBeadID wispID iteration gateConfig gateResult meta =
     transitionToWaitingManual h rootBeadID wispID iteration gateConfig gateResult WaitSlingFailure (grOutcome gateResult) meta"

definition iterate_next ::
  "'s Handler \<Rightarrow> string \<Rightarrow> int \<Rightarrow> strmap \<Rightarrow> string \<Rightarrow> ('s, string \<times> ConvError option) act" where
  "iterate_next h rootBeadID iteration meta speculativeWispID =
     (let nextKey = IdempotencyKey rootBeadID (iteration + 1) in
      if speculativeWispID \<noteq> [] then ret (speculativeWispID, None)
      else pour_or_find h (PourWisp h rootBeadID (mget meta FieldFormula) nextKey (ExtractVars meta) (mget meta FieldEvaluatePrompt)) nextKey)"

definition iterate_adopt ::
  "'s Handler \<Rightarrow> string \<Rightarrow> string \<Rightarrow> int \<Rightarrow> GateConfig \<Rightarrow> GateResult \<Rightarrow> strmap \<Rightarrow> string \<Rightarrow> ('s, HandlerResult) act" where
  "iterate_adopt h rootBeadID wispID iteration gateConfig gateResult meta nextWispID =
     bindE (wrap ''activating next wisp'' (ActivateWisp h nextWispID)) (\<lambda>_.
     bindE (computeDurations h rootBeadID wispID) (\<lambda>durs.
     let iterPayload = (iteration_payload iteration wispID (scoped_verdict meta wispID) gateConfig (NullableString (grOutcome gateResult))
           gateResult ActionIterate durs)\<lparr>ipNextWispID := NullableString nextWispID\<rparr>
     in bindE (emitEvent h EventIteration (EventIDIteration rootBeadID iteration) rootBeadID (PIteration iterPayload)) (\<lambda>_.
        bindE (commit h rootBeadID [mw FieldActiveWisp nextWispID ''setting active wisp''] None
          (mw FieldLastProcessedWisp wispID ''setting last processed wisp'')) (\<lambda>_.
        ignore (PutMetadata h rootBeadID FieldPendingNextWisp [])
          (ret (zero_HandlerResult\<lparr>hrAction := ActionIterate, hrIteration := iteration, hrGateOutcome := grOutcome gateResult,
            hrNextWispID := nextWispID\<rparr>))))))"

definition iterate ::
  "'s Handler \<Rightarrow> string \<Rightarrow> string \<Rightarrow> int \<Rightarrow> GateConfig \<Rightarrow> GateResult \<Rightarrow> strmap \<Rightarrow> string \<Rightarrow> ('s, HandlerResult) act" where
  "iterate h rootBeadID wispID iteration gateConfig gateResult meta speculativeWispID =
     bindE (if mget meta FieldAgentVerdictWisp = wispID then clear_verdict h rootBeadID else ret ()) (\<lambda>_.
     bindE (iterate_next h rootBeadID iteration meta speculativeWispID) (\<lambda>(nextWispID, pourErr).
       if pourErr \<noteq> None then handleSlingFailure h rootBeadID wispID iteration gateConfig gateResult meta
       else iterate_adopt h rootBeadID wispID iteration gateConfig gateResult meta nextWispID))"

definition transitionToWaitingTrigger ::
  "'s Handler \<Rightarrow> string \<Rightarrow> string \<Rightarrow> int \<Rightarrow> GateConfig \<Rightarrow> GateResult \<Rightarrow> strmap \<Rightarrow> ('s, HandlerResult) act" where
  "transitionToWaitingTrigger h rootBeadID wispID iteration gateConfig gateResult meta =
     bindE (if mget meta FieldAgentVerdictWisp = wispID then clear_verdict h rootBeadID else ret ()) (\<lambda>_.
     bindE (computeDurations h rootBeadID wispID) (\<lambda>durs.
     let iterPayload = iteration_payload iteration wispID (scoped_verdict meta wispID) gateConfig (NullableString (grOutcome gateResult))
           gateResult ActionWaitingTrigger durs
     in bindE (emitEvent h EventIteration (EventIDIteration rootBeadID iteration) rootBeadID (PIteration iterPayload)) (\<lambda>_.
        bindE (commit h rootBeadID
          [mw FieldActiveWisp [] ''clearing active wisp'', mw FieldState ConvStateWaitingTrigger ''setting state to waiting_trigger'']
          None (mw FieldLastProcessedWisp wispID ''setting last processed wisp'')) (\<lambda>_.
          ret (zero_HandlerResult\<lparr>hrAction := ActionWaitingTrigger, hrIteration := iteration, hrGateOutcome := grOutcome gateResult\<rparr>)))))"

definition terminate ::
  "'s Handler \<Rightarrow> string \<Rightarrow> string \<Rightarrow> int \<Rightarrow> GateConfig \<Rightarrow> GateResult \<Rightarrow> string \<Rightarrow> string \<Rightarrow> int \<Rightarrow> strmap \<Rightarrow> ('s, HandlerResult) act" where
  "terminate h rootBeadID wispID iteration gateConfig gateResult reason actor globalIteration meta =
     bindE (computeDurations h rootBeadID wispID) (\<lambda>durs.
     let iterPayload = iteration_payload iteration wispID (scoped_verdict meta wispID) gateConfig (NullableString (grOutcome gateResult))
           gateResult reason durs;
         termPayload = \<lparr>tpRig = [], tpTerminalReason = reason, tpTotalIterations = globalIteration, tpFinalStatus = ''closed'',
           tpActor = actor, tpCumulativeDurationMs = Milliseconds (snd durs)\<rparr>
     in bindE (emitEvent h EventIteration (EventIDIteration rootBeadID iteration) rootBeadID (PIteration iterPayload)) (\<lambda>_.
        bindE (emitEvent h EventTerminated (EventIDTerminated rootBeadID) rootBeadID (PTerminated termPayload)) (\<lambda>_.
        bindE (commit h rootBeadID
          [mw FieldTerminalReason reason ''setting terminal reason'', mw FieldTerminalActor actor ''setting terminal actor'',
           mw FieldState ConvStateTerminated ''setting state to terminated'']
          (Some (wrap ''closing root bead'' (CloseBead h rootBeadID CloseReasonHandlerRoot)))
          (mw FieldLastProcessedWisp wispID ''setting last processed wisp'')) (\<lambda>_.
          ret (zero_HandlerResult\<lparr>hrAction := reason, hrIteration := iteration, hrGateOutcome := grOutcome gateResult\<rparr>)))))"

definition evaluateGate ::
  "'s Handler \<Rightarrow> GateRunner \<Rightarrow> GateConfig \<Rightarrow> strmap \<Rightarrow> string \<Rightarrow> int \<Rightarrow> string \<Rightarrow> string \<Rightarrow> ('s, GateResult) act" where
  "evaluateGate h rn gateConfig meta wispID iteration verdict rootBeadID =
     (let retryBudget = (if gcTimeoutAction gateConfig = TimeoutActionRetry then MaxGateRetries else 0);
          cityPath = mget meta FieldCityPath
      in bindE (computeDurations h rootBeadID wispID) (\<lambda>durs.
         let env = zero_ConditionEnv\<lparr>ceBeadID := rootBeadID, ceIteration := iteration, ceCityPath := cityPath, ceStorePath := hStorePath h,
               ceWispID := wispID, ceDocPath := mget meta (VarPrefix @ ''doc_path''), ceArtifactDir := ArtifactDirFor cityPath rootBeadID iteration,
               ceIterationDurationMs := Milliseconds (fst durs), ceCumulativeDurationMs := Milliseconds (snd durs),
               ceMaxIterations := fst (DecodeInt (mget meta FieldMaxIterations))\<rparr>
         in ret (if gcMode gateConfig = GateModeCondition
                 then run_condition rn (gcCondition gateConfig) env (gcTimeout gateConfig) retryBudget
                 else if gcMode gateConfig = GateModeHybrid then EvaluateHybrid rn gateConfig env verdict
                 else zero_GateResult\<lparr>grOutcome := GateError, grStderr := ''unexpected gate mode: '' @ gcMode gateConfig\<rparr>)))"

section \<open>HandleWispClosed\<close>

text \<open>Step 2: the iteration of the last processed wisp, 0 when it is missing or its key does not parse.\<close>

definition last_processed_iteration :: "'s Handler \<Rightarrow> strmap \<Rightarrow> ('s, int) act" where
  "last_processed_iteration h meta =
     (let lpw = mget meta FieldLastProcessedWisp in
      if lpw = [] then ret 0
      else attempt (GetBead h lpw) (\<lambda>r. ret (case r of Inl e \<Rightarrow> 0
        | Inr info \<Rightarrow> (case ParseIterationFromKey (biIdempotencyKey info) of (n, ok) \<Rightarrow> if ok then n else 0))))"

text \<open>Step 3b: the speculative pour.  The result is the id of the speculative wisp, empty when there is none,
  and the error of a failed pour.\<close>

definition record_pending :: "'s Handler \<Rightarrow> string \<Rightarrow> string \<Rightarrow> ConvError option \<Rightarrow> ('s, string \<times> ConvError option) act" where
  "record_pending h rootBeadID i pourErr =
     (if i \<noteq> []
      then attempt (PutMetadata h rootBeadID FieldPendingNextWisp i) (\<lambda>r. case r of
             Inr _ \<Rightarrow> ret (i, pourErr)
           | Inl e \<Rightarrow> attempt (burnSpeculativeWisp h rootBeadID i) (\<lambda>b. case b of
                 Inl e' \<Rightarrow> fail (ConvWrap ''setting pending next wisp; additionally burning speculative wisp'' e)
               | Inr _ \<Rightarrow> fail (ConvWrap ''setting pending next wisp'' e)))
      else ret (i, pourErr))"

definition speculate ::
  "'s Handler \<Rightarrow> string \<Rightarrow> string \<Rightarrow> strmap \<Rightarrow> bool \<Rightarrow> ('s, string \<times> ConvError option) act" where
  "speculate h rootBeadID nextKey meta pourWanted =
     bindE (validPendingNextWisp h rootBeadID nextKey (mget meta FieldPendingNextWisp)) (\<lambda>pending.
     if pourWanted \<and> pending = []
     then bindE (pour_or_find h (PourSpeculativeWisp h rootBeadID (mget meta FieldFormula) nextKey (ExtractVars meta) (mget meta FieldEvaluatePrompt)) nextKey)
       (\<lambda>(i, pourErr). record_pending h rootBeadID i pourErr)
     else ret (pending, None))"

text \<open>Step 4, replay: the gate result persisted by an earlier, interrupted run.\<close>

definition replay_result :: "strmap \<Rightarrow> GateResult" where
  "replay_result meta =
     zero_GateResult\<lparr>grOutcome := mget meta FieldGateOutcome,
       grExitCode := (case DecodeInt (mget meta FieldGateExitCode) of (code, ok) \<Rightarrow> if mget meta FieldGateExitCode \<noteq> [] \<and> ok then Some code else None),
       grRetryCount := (case DecodeInt (mget meta FieldGateRetryCount) of (rc, ok) \<Rightarrow> if ok then rc else 0),
       grStdout := mget meta FieldGateStdout, grStderr := mget meta FieldGateStderr,
       grDuration := (case DecodeInt (mget meta FieldGateDurationMs) of (ms, ok) \<Rightarrow>
          if mget meta FieldGateDurationMs \<noteq> [] \<and> ok then wrap64 (ms * 1000000) else 0),
       grTruncated := mget meta FieldGateTruncated = ''true''\<rparr>"

definition burn_then :: "'s Handler \<Rightarrow> string \<Rightarrow> string \<Rightarrow> string \<Rightarrow> ('s, 'a) act \<Rightarrow> ('s, 'a) act" where
  "burn_then h rootBeadID speculativeWispID msg k = bindE (wrap msg (burnSpeculativeWisp h rootBeadID speculativeWispID)) (\<lambda>_. k)"

text \<open>Step 7: what follows from the gate result.\<close>

definition terminal_reason :: "GateConfig \<Rightarrow> GateResult \<Rightarrow> int \<Rightarrow> int \<Rightarrow> string option" where
  "terminal_reason gateConfig gateResult wispIteration maxIterations =
     (if grOutcome gateResult = GatePass then Some TerminalApproved
      else if grOutcome gateResult = GateTimeout \<and> gcTimeoutAction gateConfig = TimeoutActionTerminate then Some TerminalNoConvergence
      else if wispIteration \<ge> maxIterations then Some TerminalNoConvergence
      else None)"

definition conclude ::
  "'s Handler \<Rightarrow> string \<Rightarrow> string \<Rightarrow> int \<Rightarrow> int \<Rightarrow> int \<Rightarrow> GateConfig \<Rightarrow> TriggerConfig \<Rightarrow> GateResult \<Rightarrow> strmap
    \<Rightarrow> string \<Rightarrow> ConvError option \<Rightarrow> ('s, HandlerResult) act" where
  "conclude h rootBeadID wispID wispIteration maxIterations globalIteration gateConfig triggerConfig gateResult meta spec pourErr =
     (if grOutcome gateResult = GateTimeout \<and> gcTimeoutAction gateConfig = TimeoutActionManual
      then burn_then h rootBeadID spec ''burning speculative wisp before waiting_manual''
        (transitionToWaitingManual h rootBeadID wispID wispIteration gateConfig gateResult WaitTimeout (grOutcome gateResult) meta)
      else case terminal_reason gateConfig gateResult wispIteration maxIterations of
          None \<Rightarrow>
            if pourErr \<noteq> None then handleSlingFailure h rootBeadID wispID wispIteration gateConfig gateResult meta
            else if TriggerEnabled triggerConfig then transitionToWaitingTrigger h rootBeadID wispID wispIteration gateConfig gateResult meta
            else iterate h rootBeadID wispID wispIteration gateConfig gateResult meta spec
        | Some reason \<Rightarrow>
            burn_then h rootBeadID spec ''burning speculative wisp before terminal transition''
              (terminate h rootBeadID wispID wispIteration gateConfig gateResult reason ''controller'' globalIteration meta))"

definition persist_or_burn :: "'s Handler \<Rightarrow> string \<Rightarrow> string \<Rightarrow> GateResult \<Rightarrow> string \<Rightarrow> ('s, 'a) act \<Rightarrow> ('s, 'a) act" where
  "persist_or_burn h rootBeadID wispID gateResult spec k =
     attempt (persistGateOutcome h rootBeadID wispID gateResult) (\<lambda>r. case r of
         Inr _ \<Rightarrow> k
       | Inl e \<Rightarrow> attempt (burnSpeculativeWisp h rootBeadID spec) (\<lambda>b. case b of
             Inl e' \<Rightarrow> fail (ConvWrap ''persisting gate outcome; additionally burning speculative wisp'' e)
           | Inr _ \<Rightarrow> fail (ConvWrap ''persisting gate outcome'' e)))"

text \<open>Steps 3b to 9 for a wisp that is neither terminated nor already processed.\<close>

definition process_wisp ::
  "'s Handler \<Rightarrow> GateRunner \<Rightarrow> string \<Rightarrow> string \<Rightarrow> strmap \<Rightarrow> int \<Rightarrow> int \<Rightarrow> GateConfig \<Rightarrow> TriggerConfig \<Rightarrow> ('s, HandlerResult) act" where
  "process_wisp h rn rootBeadID wispID meta wispIteration globalIteration gateConfig triggerConfig =
     (let maxIterations = fst (DecodeInt (mget meta FieldMaxIterations));
          nextKey = IdempotencyKey rootBeadID (wispIteration + 1);
          skipGateEval = (mget meta FieldGateOutcomeWisp = wispID);
          needsManual = (gcMode gateConfig = GateModeManual \<or> gcMode gateConfig = GateModeHybrid \<and> HybridNeedsManual gateConfig)
      in if \<not> skipGateEval \<and> gcMode gateConfig = GateModeCondition \<and> gcCondition gateConfig = []
         then bindE (validPendingNextWisp h rootBeadID nextKey (mget meta FieldPendingNextWisp)) (\<lambda>pending.
           bindE (if pending \<noteq> []
                  then wrap ''gate mode but no condition path configured; additionally burning pending wisp'' (burnSpeculativeWisp h rootBeadID pending)
                  else ret ()) (\<lambda>_.
             fail (ConvErrorf ''gate mode but no condition path configured'' [GateModeCondition])))
         else bindE (speculate h rootBeadID nextKey meta
             (wispIteration < maxIterations \<and> \<not> (needsManual \<or> TriggerEnabled triggerConfig))) (\<lambda>(spec, pourErr).
           if skipGateEval
           then conclude h rootBeadID wispID wispIteration maxIterations globalIteration gateConfig triggerConfig (replay_result meta) meta spec pourErr
           else if gcMode gateConfig = GateModeManual
           then burn_then h rootBeadID spec ''burning speculative wisp before waiting_manual''
             (transitionToWaitingManual h rootBeadID wispID wispIteration gateConfig zero_GateResult WaitManual [] meta)
           else if gcMode gateConfig = GateModeHybrid \<and> HybridNeedsManual gateConfig
           then burn_then h rootBeadID spec ''burning speculative wisp before waiting_manual''
             (transitionToWaitingManual h rootBeadID wispID wispIteration gateConfig zero_GateResult WaitHybridNoCondition [] meta)
           else let verdict = (if mget meta FieldAgentVerdictWisp = wispID then NormalizeVerdict (mget meta FieldAgentVerdict) else VerdictBlock)
                in bindE (evaluateGate h rn gateConfig meta wispID wispIteration verdict rootBeadID) (\<lambda>gateResult.
                   persist_or_burn h rootBeadID wispID gateResult spec
                     (conclude h rootBeadID wispID wispIteration maxIterations globalIteration gateConfig triggerConfig gateResult meta spec pourErr))))"

text \<open>From the dedup check on, with the wisp's idempotency key read.\<close>

definition dedup_and_process :: "'s Handler \<Rightarrow> GateRunner \<Rightarrow> string \<Rightarrow> string \<Rightarrow> strmap \<Rightarrow> string \<Rightarrow> ('s, HandlerResult) act" where
  "dedup_and_process h rn rootBeadID wispID meta wispKey =
     (case ParseIterationFromKey wispKey of (wispIteration, ok) \<Rightarrow>
      if \<not> ok then fail (ConvErrorf ''parsing iteration from wisp key'' [wispKey])
      else bindE (last_processed_iteration h meta) (\<lambda>lastProcessedIteration.
      if wispIteration \<le> lastProcessedIteration then ret (zero_HandlerResult\<lparr>hrAction := ActionSkipped\<rparr>)
      else bindE (wrap ''deriving iteration count'' (deriveIterationCount h rootBeadID)) (\<lambda>globalIteration.
      bindE (if globalIteration \<noteq> fst (DecodeInt (mget meta FieldIteration))
             then wrap ''updating iteration count'' (PutMetadata h rootBeadID FieldIteration (EncodeInt globalIteration))
             else ret ()) (\<lambda>_.
      bindE (wrap ''parsing gate config'' (lift (ParseGateConfig meta))) (\<lambda>gateConfig.
      bindE (wrap ''parsing trigger config'' (lift (ParseTriggerConfig meta))) (\<lambda>triggerConfig.
        process_wisp h rn rootBeadID wispID meta wispIteration globalIteration gateConfig triggerConfig))))))"

definition HandleWispClosed :: "'s Handler \<Rightarrow> GateRunner \<Rightarrow> string \<Rightarrow> string \<Rightarrow> ('s, HandlerResult) act" where
  "HandleWispClosed h rn rootBeadID wispID =
     bindE (wrap ''reading root bead metadata'' (GetMetadata h rootBeadID)) (\<lambda>meta.
     if mget meta FieldState = ConvStateTerminated
     then ignore (CloseBead h rootBeadID CloseReasonHandlerCleanup) (ret (zero_HandlerResult\<lparr>hrAction := ActionSkipped\<rparr>))
     else bindE (wrap ''reading wisp info'' (GetBead h wispID)) (\<lambda>wispInfo.
       dedup_and_process h rn rootBeadID wispID meta (biIdempotencyKey wispInfo)))"

section \<open>Admission checks\<close>

definition CheckNestedConvergence :: "'s Handler \<Rightarrow> string \<Rightarrow> string \<Rightarrow> ('s, unit) act" where
  "CheckNestedConvergence h callingAgent targetAgent =
     (if callingAgent \<noteq> targetAgent then ret ()
      else bindE (wrap ''checking nested convergence'' (CountActiveConvergenceLoops h targetAgent)) (\<lambda>count.
        if count > 0 then fail (ConvErrorf ''self-targeting convergence would deadlock'' [targetAgent]) else ret ()))"

definition CheckConcurrencyLimits :: "'s Handler \<Rightarrow> string \<Rightarrow> int \<Rightarrow> ('s, unit) act" where
  "CheckConcurrencyLimits h targetAgent maxPerAgent =
     bindE (wrap ''checking concurrency limits'' (CountActiveConvergenceLoops h targetAgent)) (\<lambda>agentCount.
       if agentCount \<ge> maxPerAgent then fail (ConvErrorf ''per-agent limit reached'' [targetAgent, itoa agentCount, itoa maxPerAgent])
       else ret ())"

end
