(* ===== verification/Conv_Manual.thy ===== *)
theory Conv_Manual
  imports Conv_Handler
begin

text \<open>
  The other entry points of the convergence handler: the operator's approve, iterate and stop
  (\<open>manual.go\<close>), the trigger evaluation of the controller tick (\<open>trigger.go\<close>), creation (\<open>create.go\<close>)
  and retry (\<open>retry.go\<close>).
\<close>

section \<open>Operator actions\<close>

definition terminated_payload :: "string \<Rightarrow> int \<Rightarrow> string \<Rightarrow> int \<Rightarrow> TerminatedPayload" where
  "terminated_payload reason iterations actor cumDur =
     \<lparr>tpRig = [], tpTerminalReason = reason, tpTotalIterations = iterations, tpFinalStatus = ''closed'', tpActor = actor,
      tpCumulativeDurationMs = Milliseconds cumDur\<rparr>"

definition ApproveHandler :: "'s Handler \<Rightarrow> string \<Rightarrow> string \<Rightarrow> ('s, HandlerResult) act" where
  "ApproveHandler h beadID username =
     bindE (wrap ''reading bead metadata'' (GetMetadata h beadID)) (\<lambda>meta.
     let state = mget meta FieldState; actor = ''operator:'' @ username in
     if state = ConvStateTerminated \<and> mget meta FieldTerminalReason = TerminalApproved
     then ret (zero_HandlerResult\<lparr>hrAction := ActionApproved\<rparr>)
     else if state \<noteq> ConvStateWaitingManual then fail (ConvErrorf ''cannot approve bead'' [beadID, state, ConvStateWaitingManual])
     else bindE (wrap ''deriving iteration count for bead'' (deriveIterationCount h beadID)) (\<lambda>iterationCount.
     let activeWisp = mget meta FieldActiveWisp; lastProcessedWisp = mget meta FieldLastProcessedWisp;
         eventWispID = (if activeWisp \<noteq> [] then activeWisp else lastProcessedWisp)
     in bindE (computeDurations h beadID eventWispID) (\<lambda>durs.
     let approvePayload = \<lparr>mpRig = [], mpActor = actor, mpPriorState = ConvStateWaitingManual, mpNewState = ConvStateTerminated,
           mpIteration = iterationCount, mpWispID = NullableString eventWispID, mpNextWispID = None\<rparr>
     in bindE (commit h beadID
          [mw FieldTerminalReason TerminalApproved ''setting terminal reason'', mw FieldTerminalActor actor ''setting terminal actor'',
           mw FieldWaitingReason [] ''clearing waiting reason'', mw FieldState ConvStateTerminated ''setting state to terminated'']
          (Some (bindE (emitEvent h EventTerminated (EventIDTerminated beadID) beadID
               (PTerminated (terminated_payload TerminalApproved iterationCount actor (snd durs)))) (\<lambda>_.
             bindE (wrap ''closing bead'' (CloseBead h beadID CloseReasonManualApprove)) (\<lambda>_.
               emitEvent h EventManualApprove (EventIDManualApprove beadID) beadID (PManualAction approvePayload)))))
          (mw FieldLastProcessedWisp lastProcessedWisp ''setting last processed wisp'')) (\<lambda>_.
       ret (zero_HandlerResult\<lparr>hrAction := ActionApproved, hrIteration := iterationCount\<rparr>)))))"

definition IterateHandler :: "'s Handler \<Rightarrow> string \<Rightarrow> string \<Rightarrow> ('s, HandlerResult) act" where
  "IterateHandler h beadID username =
     bindE (wrap ''reading bead metadata'' (GetMetadata h beadID)) (\<lambda>meta.
     let state = mget meta FieldState in
     if state \<noteq> ConvStateWaitingManual then fail (ConvErrorf ''cannot iterate bead'' [beadID, state, ConvStateWaitingManual])
     else bindE (wrap ''deriving iteration count for bead'' (deriveIterationCount h beadID)) (\<lambda>iterationCount.
     let maxIterations = fst (DecodeInt (mget meta FieldMaxIterations)) in
     if iterationCount \<ge> maxIterations
     then fail (ConvErrorf ''cannot iterate bead: at max iterations'' [beadID, itoa iterationCount, itoa maxIterations])
     else let lastProcessedWisp = mget meta FieldLastProcessedWisp; nextIteration = iterationCount + 1;
              nextKey = IdempotencyKey beadID nextIteration
     in bindE (pour_or_find h (PourWisp h beadID (mget meta FieldFormula) nextKey (ExtractVars meta) (mget meta FieldEvaluatePrompt)) nextKey)
          (\<lambda>(nextWispID, pourErr). case pourErr of
             Some err \<Rightarrow> fail (ConvWrap ''pouring next wisp for bead'' err)
           | None \<Rightarrow>
     bindE (if lastProcessedWisp \<noteq> [] \<and> mget meta FieldAgentVerdictWisp = lastProcessedWisp then clear_verdict h beadID else ret ()) (\<lambda>_.
     bindE (wrap ''clearing waiting reason'' (PutMetadata h beadID FieldWaitingReason [])) (\<lambda>_.
     bindE (wrap ''setting state to active'' (PutMetadata h beadID FieldState ConvStateActive)) (\<lambda>_.
     bindE (wrap ''setting active wisp'' (PutMetadata h beadID FieldActiveWisp nextWispID)) (\<lambda>_.
     bindE (emitEvent h EventManualIterate (EventIDManualIterate beadID nextIteration) beadID
       (PManualAction \<lparr>mpRig = [], mpActor = ''operator:'' @ username, mpPriorState = ConvStateWaitingManual, mpNewState = ConvStateActive,
          mpIteration = nextIteration, mpWispID = NullableString lastProcessedWisp, mpNextWispID = NullableString nextWispID\<rparr>)) (\<lambda>_.
       ret (zero_HandlerResult\<lparr>hrAction := ActionIterate, hrIteration := nextIteration, hrNextWispID := nextWispID\<rparr>)))))))))"

section \<open>Stop\<close>

definition recoverCurrentActiveWisp :: "'s Handler \<Rightarrow> string \<Rightarrow> string \<Rightarrow> ('s, BeadInfo \<times> bool) act" where
  "recoverCurrentActiveWisp h beadID lastProcessedWisp =
     bindE (wrap ''listing children for stale active wisp recovery'' (ChildrenOf h beadID)) (\<lambda>children.
     bindE (if lastProcessedWisp = [] then ret None
            else attempt (GetBead h lastProcessedWisp) (\<lambda>r. case r of
                Inl e \<Rightarrow> if \<not> IsNotFound e then fail (ConvWrap ''reading last processed wisp'' e) else ret None
              | Inr info \<Rightarrow> ret (case ParseIterationFromKey (biIdempotencyKey info) of (iter, ok) \<Rightarrow> if ok then Some (iter + 1) else None)))
     (\<lambda>nextIter. case nextIter of
         Some n \<Rightarrow>
           bindE (wrap ''looking up replacement active wisp'' (FindByIdempotencyKey h (IdempotencyKey beadID n))) (\<lambda>(candidateID, found).
             if found
             then attempt (GetBead h candidateID) (\<lambda>r. case r of
                 Inl e \<Rightarrow> if IsNotFound e then ret (zero_BeadInfo, False) else fail (ConvWrap ''reading replacement active wisp'' e)
               | Inr info \<Rightarrow> ret (info, True))
             else ret (zero_BeadInfo, False))
       | None \<Rightarrow>
           let stats = childStats children beadID in
           if csHighestOpenFound stats then ret (csHighestOpen stats, True)
           else if csHighestClosedFound stats then ret (csHighestClosed stats, True)
           else ret (zero_BeadInfo, False)))"

text \<open>Reading the active wisp in steps 2 and 3 of a stop: the wisp, or the recovered one, or none when it is
  gone for good.\<close>

definition read_active_wisp :: "'s Handler \<Rightarrow> string \<Rightarrow> string \<Rightarrow> string \<Rightarrow> string \<Rightarrow> ('s, (string \<times> BeadInfo) option) act" where
  "read_active_wisp h beadID activeWisp lastProcessedWisp msg =
     attempt (GetBead h activeWisp) (\<lambda>r. case r of
         Inr info \<Rightarrow> ret (Some (activeWisp, info))
       | Inl e \<Rightarrow> if \<not> IsNotFound e then fail (ConvWrap msg e)
           else bindE (recoverCurrentActiveWisp h beadID lastProcessedWisp) (\<lambda>(info, found).
             ret (if found then Some (biID info, info) else None)))"

text \<open>Step 2.  None: the loop has been terminated while draining.  Otherwise the metadata, active wisp and
  last processed wisp to go on with.\<close>

definition stop_drain ::
  "'s Handler \<Rightarrow> GateRunner \<Rightarrow> string \<Rightarrow> strmap \<Rightarrow> ('s, (strmap \<times> string \<times> string) option) act" where
  "stop_drain h rn beadID meta =
     (let activeWisp = mget meta FieldActiveWisp; lastProcessedWisp = mget meta FieldLastProcessedWisp in
      if activeWisp = [] then ret (Some (meta, [], lastProcessedWisp))
      else bindE (read_active_wisp h beadID activeWisp lastProcessedWisp ''reading active wisp'') (\<lambda>found. case found of
          None \<Rightarrow> ret (Some (meta, [], lastProcessedWisp))
        | Some (i, info) \<Rightarrow>
            if i \<noteq> [] \<and> biStatus info = ''closed''
            then bindE (wrap ''draining completed wisp'' (HandleWispClosed h rn beadID i)) (\<lambda>_.
              bindE (wrap ''re-reading metadata after drain'' (GetMetadata h beadID)) (\<lambda>meta'.
                if mget meta' FieldState = ConvStateTerminated then ret None
                else ret (Some (meta', mget meta' FieldActiveWisp, mget meta' FieldLastProcessedWisp))))
            else ret (Some (meta, i, lastProcessedWisp))))"

text \<open>Step 3: the active wisp and whether it was closed by force.\<close>

definition stop_force_close :: "'s Handler \<Rightarrow> string \<Rightarrow> string \<Rightarrow> string \<Rightarrow> ('s, string \<times> bool) act" where
  "stop_force_close h beadID activeWisp lastProcessedWisp =
     (if activeWisp = [] then ret ([], False)
      else bindE (read_active_wisp h beadID activeWisp lastProcessedWisp ''reading active wisp for force-close'') (\<lambda>found. case found of
          None \<Rightarrow> ret ([], False)
        | Some (i, info) \<Rightarrow>
            if i \<noteq> [] \<and> biStatus info \<noteq> ''closed''
            then bindE (wrap ''force-closing active wisp'' (CloseBead h i CloseReasonManualSupersede)) (\<lambda>_. ret (i, True))
            else ret (i, False)))"

text \<open>Steps 7a to 9, run between the state writes and the marker.\<close>

definition stop_pre_marker :: "'s Handler \<Rightarrow> string \<Rightarrow> strmap \<Rightarrow> string \<Rightarrow> bool \<Rightarrow> int \<Rightarrow> string \<Rightarrow> int \<Rightarrow> ManualActionPayload \<Rightarrow> ('s, unit) act" where
  "stop_pre_marker h beadID meta activeWisp forced iterationCount actor cumDur stopPayload =
     bindE (if forced \<and> activeWisp \<noteq> []
            then bindE (computeDurations h beadID activeWisp) (\<lambda>d.
              emitEvent h EventIteration (EventIDIteration beadID iterationCount) beadID
                (PIteration (zero_IterationPayload\<lparr>ipIteration := iterationCount, ipWispID := activeWisp, ipAction := ActionStopped,
                   ipGateMode := (if mget meta FieldGateMode = [] then GateModeManual else mget meta FieldGateMode),
                   ipIterationDurationMs := Milliseconds (fst d), ipCumulativeDurationMs := Milliseconds (snd d)\<rparr>)))
            else ret ()) (\<lambda>_.
     bindE (emitEvent h EventTerminated (EventIDTerminated beadID) beadID
       (PTerminated (terminated_payload TerminalStopped iterationCount actor cumDur))) (\<lambda>_.
     bindE (wrap ''closing bead'' (CloseBead h beadID CloseReasonManualStop)) (\<lambda>_.
       emitEvent h EventManualStop (EventIDManualStop beadID) beadID (PManualAction stopPayload))))"

definition StopHandler :: "'s Handler \<Rightarrow> GateRunner \<Rightarrow> string \<Rightarrow> string \<Rightarrow> ('s, HandlerResult) act" where
  "StopHandler h rn beadID username =
     bindE (wrap ''reading bead metadata'' (GetMetadata h beadID)) (\<lambda>meta0.
     let state0 = mget meta0 FieldState; actor = ''operator:'' @ username in
     if state0 = ConvStateTerminated \<and> mget meta0 FieldTerminalReason = TerminalStopped
     then ret (zero_HandlerResult\<lparr>hrAction := ActionStopped\<rparr>)
     else if state0 \<notin> {ConvStateActive, ConvStateWaitingManual, ConvStateWaitingTrigger}
     then fail (ConvErrorf ''cannot stop bead'' [beadID, state0])
     else bindE (stop_drain h rn beadID meta0) (\<lambda>drained. case drained of
         None \<Rightarrow> ret (zero_HandlerResult\<lparr>hrAction := ActionStopped\<rparr>)
       | Some (meta, activeWisp0, lastProcessedWisp) \<Rightarrow>
     bindE (stop_force_close h beadID activeWisp0 lastProcessedWisp) (\<lambda>(activeWisp, forced).
     bindE (wrap ''deriving iteration count for bead'' (deriveIterationCount h beadID)) (\<lambda>iterationCount.
     bindE (wrap ''clearing stale agent verdict'' (PutMetadata h beadID FieldAgentVerdict [])) (\<lambda>_.
     bindE (wrap ''clearing stale agent verdict wisp'' (PutMetadata h beadID FieldAgentVerdictWisp [])) (\<lambda>_.
     let eventWispID = (if activeWisp \<noteq> [] then activeWisp else lastProcessedWisp) in
     bindE (computeDurations h beadID eventWispID) (\<lambda>durs.
     let stopPayload = \<lparr>mpRig = [], mpActor = actor, mpPriorState = mget meta FieldState, mpNewState = ConvStateTerminated,
           mpIteration = iterationCount, mpWispID = NullableString eventWispID, mpNextWispID = None\<rparr>;
         finalLPW = (if forced \<and> activeWisp \<noteq> [] then activeWisp else lastProcessedWisp)
     in bindE (commit h beadID
          [mw FieldTerminalReason TerminalStopped ''setting terminal reason'', mw FieldTerminalActor actor ''setting terminal actor'',
           mw FieldWaitingReason [] ''clearing waiting reason'', mw FieldState ConvStateTerminated ''setting state to terminated'']
          (Some (stop_pre_marker h beadID meta activeWisp forced iterationCount actor (snd durs) stopPayload))
          (mw FieldLastProcessedWisp finalLPW ''setting last processed wisp'')) (\<lambda>_.
       ret (zero_HandlerResult\<lparr>hrAction := ActionStopped, hrIteration := iterationCount\<rparr>)))))))))"

section \<open>Trigger\<close>

definition advanceFromTrigger :: "'s Handler \<Rightarrow> string \<Rightarrow> strmap \<Rightarrow> int \<Rightarrow> ('s, HandlerResult) act" where
  "advanceFromTrigger h rootBeadID meta nextIteration =
     (let nextKey = IdempotencyKey rootBeadID nextIteration in
      bindE (pour_or_find h (PourWisp h rootBeadID (mget meta FieldFormula) nextKey (ExtractVars meta) (mget meta FieldEvaluatePrompt)) nextKey)
        (\<lambda>(nextWispID, pourErr). case pourErr of
           Some err \<Rightarrow> fail (ConvWrap ''pouring wisp for iteration'' err)
         | None \<Rightarrow>
      bindE (wrap ''activating wisp'' (ActivateWisp h nextWispID)) (\<lambda>_.
      bindE (wrap ''setting iteration'' (PutMetadata h rootBeadID FieldIteration (EncodeInt nextIteration))) (\<lambda>_.
      bindE (wrap ''setting active wisp'' (PutMetadata h rootBeadID FieldActiveWisp nextWispID)) (\<lambda>_.
      bindE (wrap ''setting state to active'' (PutMetadata h rootBeadID FieldState ConvStateActive)) (\<lambda>_.
      bindE (emitEvent h EventTriggerAdvance (EventIDTriggerAdvance rootBeadID nextIteration) rootBeadID
        (PManualAction \<lparr>mpRig = [], mpActor = ''controller'', mpPriorState = ConvStateWaitingTrigger, mpNewState = ConvStateActive,
           mpIteration = nextIteration, mpWispID = NullableString (mget meta FieldLastProcessedWisp), mpNextWispID = NullableString nextWispID\<rparr>)) (\<lambda>_.
        ret (zero_HandlerResult\<lparr>hrAction := ActionIterate, hrIteration := nextIteration, hrNextWispID := nextWispID\<rparr>))))))))"

definition HandleTrigger :: "'s Handler \<Rightarrow> GateRunner \<Rightarrow> string \<Rightarrow> ('s, HandlerResult) act" where
  "HandleTrigger h rn rootBeadID =
     bindE (wrap ''reading root bead metadata'' (GetMetadata h rootBeadID)) (\<lambda>meta.
     if mget meta FieldState \<noteq> ConvStateWaitingTrigger then ret (zero_HandlerResult\<lparr>hrAction := ActionSkipped\<rparr>)
     else bindE (wrap ''parsing trigger config'' (lift (ParseTriggerConfig meta))) (\<lambda>triggerConfig.
     if \<not> TriggerEnabled triggerConfig then fail (ConvErrorf ''bead has no trigger configured'' [rootBeadID, ConvStateWaitingTrigger])
     else bindE (wrap ''parsing gate config'' (lift (ParseGateConfig meta))) (\<lambda>gateConfig.
     bindE (wrap ''deriving iteration count'' (deriveIterationCount h rootBeadID)) (\<lambda>closedIterations.
     let cityPath = mget meta FieldCityPath; nextIteration = closedIterations + 1;
         (maxIter, ok) = DecodeInt (mget meta FieldMaxIterations)
     in if ok \<and> maxIter > 0 \<and> nextIteration > maxIter
        then fail (ConvErrorf ''trigger-gated loop exceeds max_iterations; refusing to advance'' [rootBeadID, itoa nextIteration, itoa maxIter])
        else let env = TriggerConditionEnv meta rootBeadID cityPath (hStorePath h) nextIteration;
                 result = run_condition rn (tcCondition triggerConfig) env (gcTimeout gateConfig) 0
             in if grOutcome result \<noteq> GatePass then ret (zero_HandlerResult\<lparr>hrAction := ActionSkipped\<rparr>)
                else advanceFromTrigger h rootBeadID meta nextIteration))))"

section \<open>Create and retry\<close>

record CreateParams =
  crFormula :: string
  crTarget :: string
  crMaxIterations :: int
  crGateMode :: string
  crGateCondition :: string
  crGateTimeout :: string
  crGateTimeoutAction :: string
  crTitle :: string
  crVars :: kvs
  crCityPath :: string
  crEvaluatePrompt :: string
  crTrigger :: string
  crTriggerCondition :: string
  crRig :: string
  crRetrySource :: string

record CreateResult =
  crsBeadID :: string
  crsFirstWispID :: string

text \<open>\<open>closeBead\<close>: roll back a partly created root and return the cause.\<close>

definition create_rollback :: "'s Handler \<Rightarrow> string \<Rightarrow> string \<Rightarrow> ConvError \<Rightarrow> ('s, 'a) act" where
  "create_rollback h beadID closeReason cause =
     ignore (PutMetadata h beadID FieldState ConvStateTerminated) (ignore (CloseBead h beadID closeReason) (fail cause))"

definition or_rollback :: "'s Handler \<Rightarrow> string \<Rightarrow> string \<Rightarrow> string \<Rightarrow> ('s, 'a) act \<Rightarrow> ('a \<Rightarrow> ('s, 'b) act) \<Rightarrow> ('s, 'b) act" where
  "or_rollback h beadID closeReason msg m k =
     attempt m (\<lambda>r. case r of Inl e \<Rightarrow> create_rollback h beadID closeReason (ConvWrap msg e) | Inr x \<Rightarrow> k x)"

fun create_writes :: "'s Handler \<Rightarrow> string \<Rightarrow> string \<Rightarrow> metaWrite list \<Rightarrow> ('s, unit) act" where
  "create_writes h beadID closeReason [] = ret ()"
| "create_writes h beadID closeReason (w # ws) =
     or_rollback h beadID closeReason (mwDesc w) (PutMetadata h beadID (mwKey w) (mwValue w)) (\<lambda>_. create_writes h beadID closeReason ws)"

definition create_fields :: "CreateParams \<Rightarrow> kvs" where
  "create_fields params =
     [(FieldFormula, crFormula params), (FieldTarget, crTarget params), (FieldMaxIterations, EncodeInt (crMaxIterations params)),
      (FieldGateMode, crGateMode params), (FieldGateCondition, crGateCondition params), (FieldGateTimeout, crGateTimeout params),
      (FieldGateTimeoutAction, crGateTimeoutAction params), (FieldCityPath, crCityPath params), (FieldRig, crRig params),
      (FieldEvaluatePrompt, crEvaluatePrompt params), (FieldTrigger, crTrigger params), (FieldTriggerCondition, crTriggerCondition params)]
     @ (if crRetrySource params \<noteq> [] then [(FieldRetrySource, crRetrySource params)] else [])"

definition create_vars :: "CreateParams \<Rightarrow> metaWrite list" where
  "create_vars params = map (\<lambda>(k, v). mw (VarPrefix @ k) v (''setting var '' @ k @ '' on convergence bead'')) (crVars params)"

definition gate_fields :: "string \<Rightarrow> string \<Rightarrow> string \<Rightarrow> string \<Rightarrow> strmap" where
  "gate_fields mode condition timeout act =
     [FieldGateMode \<mapsto> mode, FieldGateCondition \<mapsto> condition, FieldGateTimeout \<mapsto> timeout, FieldGateTimeoutAction \<mapsto> act]"

definition created_payload :: "CreateParams \<Rightarrow> string \<Rightarrow> string \<Rightarrow> CreatedPayload" where
  "created_payload params title firstWispID =
     \<lparr>cpFormula = crFormula params, cpTarget = crTarget params, cpRig = [], cpGateMode = crGateMode params,
      cpMaxIterations = crMaxIterations params, cpTitle = title, cpFirstWispID = firstWispID,
      cpRetrySource = NullableString (crRetrySource params)\<rparr>"

text \<open>Steps 2 to 6 for the created root bead; the template variables are written in the order of the list,
  which stands for the iteration order of the map.\<close>

definition create_root :: "'s Handler \<Rightarrow> CreateParams \<Rightarrow> TriggerConfig \<Rightarrow> string \<Rightarrow> string \<Rightarrow> ('s, CreateResult) act" where
  "create_root h params triggerConfig title beadID =
     (let rb = (if crRetrySource params \<noteq> [] then CloseReasonRetryRollback else CloseReasonCreateRollback) in
      or_rollback h beadID rb ''setting creating state'' (PutMetadata h beadID FieldState ConvStateCreating) (\<lambda>_.
      bindE (create_writes h beadID rb
        (map (\<lambda>(k, v). mw k v (''setting '' @ k @ '' on convergence bead'')) (create_fields params) @ create_vars params)) (\<lambda>_.
      if TriggerEnabled triggerConfig
      then or_rollback h beadID rb ''setting iteration'' (PutMetadata h beadID FieldIteration (EncodeInt 0)) (\<lambda>_.
           or_rollback h beadID rb ''setting waiting_trigger state'' (PutMetadata h beadID FieldState ConvStateWaitingTrigger) (\<lambda>_.
           bindE (emitEvent h EventCreated (EventIDCreated beadID) beadID (PCreated (created_payload params title []))) (\<lambda>_.
             ret \<lparr>crsBeadID = beadID, crsFirstWispID = []\<rparr>)))
      else or_rollback h beadID rb ''setting active state'' (PutMetadata h beadID FieldState ConvStateActive) (\<lambda>_.
           or_rollback h beadID rb ''pouring first wisp''
             (PourWisp h beadID (crFormula params) (IdempotencyKey beadID 1) (map_of (crVars params)) (crEvaluatePrompt params)) (\<lambda>firstWispID.
           or_rollback h beadID rb ''setting active wisp'' (PutMetadata h beadID FieldActiveWisp firstWispID) (\<lambda>_.
           or_rollback h beadID rb ''setting iteration'' (PutMetadata h beadID FieldIteration (EncodeInt 1)) (\<lambda>_.
           bindE (emitEvent h EventCreated (EventIDCreated beadID) beadID (PCreated (created_payload params title firstWispID))) (\<lambda>_.
             ret \<lparr>crsBeadID = beadID, crsFirstWispID = firstWispID\<rparr>))))))))"

definition CreateHandler :: "'s Handler \<Rightarrow> CreateParams \<Rightarrow> ('s, CreateResult) act" where
  "CreateHandler h params0 =
     (if crFormula params0 = [] then fail (ConvErrorf ''formula is required'' [])
      else if crTarget params0 = [] then fail (ConvErrorf ''target is required'' [])
      else if crMaxIterations params0 \<le> 0 then fail (ConvErrorf ''max_iterations must be positive'' [])
      else let params = (if crGateMode params0 = [] then params0\<lparr>crGateMode := GateModeManual\<rparr> else params0) in
        bindE (lift (ParseGateConfig (gate_fields (crGateMode params) (crGateCondition params) (crGateTimeout params) (crGateTimeoutAction params)))) (\<lambda>_.
        bindE (lift (ParseTriggerConfig [FieldTrigger \<mapsto> crTrigger params, FieldTriggerCondition \<mapsto> crTriggerCondition params])) (\<lambda>triggerConfig.
        let title = (if crTitle params = [] then ''Convergence: '' @ crFormula params else crTitle params) in
        bindE (wrap ''creating convergence bead'' (CreateConvergenceBead h title)) (\<lambda>beadID.
          create_root h params triggerConfig title beadID))))"

record RetryResult =
  rrNewBeadID :: string
  rrFirstWispID :: string
  rrIteration :: int

text \<open>The variables extracted from the source are a map; \<open>vars\<close> lists its entries.\<close>

definition RetryHandler :: "'s Handler \<Rightarrow> (strmap \<Rightarrow> kvs) \<Rightarrow> string \<Rightarrow> int \<Rightarrow> ('s, RetryResult) act" where
  "RetryHandler h vars sourceBeadID maxIterations =
     bindE (wrap ''reading source bead metadata'' (GetMetadata h sourceBeadID)) (\<lambda>meta.
     if mget meta FieldState \<noteq> ConvStateTerminated
     then fail (ConvErrorf ''cannot retry bead: not terminated'' [sourceBeadID, mget meta FieldState, ConvStateTerminated])
     else if mget meta FieldTerminalReason = TerminalApproved
     then fail (ConvErrorf ''cannot retry bead: approved'' [sourceBeadID, TerminalApproved])
     else bindE (wrap ''source bead has invalid gate config''
       (lift (ParseGateConfig (gate_fields (mget meta FieldGateMode) (mget meta FieldGateCondition) (mget meta FieldGateTimeout)
          (mget meta FieldGateTimeoutAction))))) (\<lambda>_.
     bindE (CreateHandler h \<lparr>crFormula = mget meta FieldFormula, crTarget = mget meta FieldTarget, crMaxIterations = maxIterations,
         crGateMode = mget meta FieldGateMode, crGateCondition = mget meta FieldGateCondition, crGateTimeout = mget meta FieldGateTimeout,
         crGateTimeoutAction = mget meta FieldGateTimeoutAction, crTitle = ''Retry of '' @ sourceBeadID, crVars = vars (ExtractVars meta),
         crCityPath = mget meta FieldCityPath, crEvaluatePrompt = mget meta FieldEvaluatePrompt, crTrigger = mget meta FieldTrigger,
         crTriggerCondition = mget meta FieldTriggerCondition, crRig = mget meta FieldRig, crRetrySource = sourceBeadID\<rparr>) (\<lambda>result.
       ret \<lparr>rrNewBeadID = crsBeadID result, rrFirstWispID = crsFirstWispID result, rrIteration = 1\<rparr>)))"

end
