(* ===== verification/Conv_Reconcile.thy ===== *)
theory Conv_Reconcile
  imports Conv_Manual
begin

text \<open>
  Startup reconciliation of convergence loops that were interrupted by a crash
  (\<open>internal/convergence/reconcile.go\<close>).  A recovery path returns the action it took together with its
  error, so its value is a pair of the action and an optional error.
\<close>

definition ActionNoAction :: string where [conv_defs]: "ActionNoAction = ''no_action''"
definition ActionCompletedTerminal :: string where [conv_defs]: "ActionCompletedTerminal = ''completed_terminal''"
definition ActionAdoptedWisp :: string where [conv_defs]: "ActionAdoptedWisp = ''adopted_wisp''"
definition ActionPouredWisp :: string where [conv_defs]: "ActionPouredWisp = ''poured_wisp''"
definition ActionRepairedState :: string where [conv_defs]: "ActionRepairedState = ''repaired_state''"

record ReconcileDetail =
  rdBeadID :: string
  rdAction :: string
  rdError :: "ConvError option"

record ReconcileReport =
  rrScanned :: int
  rrRecovered :: int
  rrErrors :: int
  rrDetails :: "ReconcileDetail list"

type_synonym 's recovery = "('s, string \<times> ConvError option) act"

text \<open>A call whose error ends the path with the given action.\<close>

definition orStop :: "string \<Rightarrow> string \<Rightarrow> ('s, 'a) act \<Rightarrow> ('a \<Rightarrow> 's recovery) \<Rightarrow> 's recovery" where
  "orStop action msg m k = attempt m (\<lambda>r. case r of Inl e \<Rightarrow> ret (action, Some (ConvWrap msg e)) | Inr x \<Rightarrow> k x)"

definition finish :: "string \<Rightarrow> 's recovery" where
  "finish action = ret (action, None)"

definition emitRecoveryEvent :: "'s Handler \<Rightarrow> string \<Rightarrow> string \<Rightarrow> string \<Rightarrow> Payload \<Rightarrow> ('s, unit) act" where
  "emitRecoveryEvent = emit_with True"

definition backfillTerminalActor :: "'s Handler \<Rightarrow> string \<Rightarrow> strmap \<Rightarrow> ('s, unit) act" where
  "backfillTerminalActor h beadID meta =
     (if mget meta FieldTerminalActor \<noteq> [] then ret () else PutMetadata h beadID FieldTerminalActor ''recovery'')"

text \<open>\<open>children, _ := Store.Children(beadID)\<close>: no children when the listing fails.\<close>

definition children_or_none :: "'s Handler \<Rightarrow> string \<Rightarrow> ('s, BeadInfo list) act" where
  "children_or_none h beadID = attempt (ChildrenOf h beadID) (\<lambda>r. ret (case r of Inl e \<Rightarrow> [] | Inr cs \<Rightarrow> cs))"

section \<open>Recovery paths\<close>

definition reconcileMissingState :: "'s Handler \<Rightarrow> GateRunner \<Rightarrow> string \<Rightarrow> strmap \<Rightarrow> 's recovery" where
  "reconcileMissingState h rn beadID meta =
     (let key1 = IdempotencyKey beadID 1 in
      orStop ActionNoAction ''looking up iter-1 wisp'' (FindByIdempotencyKey h key1) (\<lambda>(existingID, found).
      if found
      then orStop ActionAdoptedWisp ''reading wisp info'' (GetBead h existingID) (\<lambda>wispInfo.
           orStop ActionAdoptedWisp ''setting active_wisp'' (PutMetadata h beadID FieldActiveWisp existingID) (\<lambda>_.
           orStop ActionAdoptedWisp ''setting iteration''
             (PutMetadata h beadID FieldIteration (EncodeInt (if biStatus wispInfo = ''closed'' then 1 else 0))) (\<lambda>_.
           orStop ActionAdoptedWisp ''setting state'' (PutMetadata h beadID FieldState ConvStateActive) (\<lambda>_.
           if biStatus wispInfo = ''closed''
           then orStop ActionAdoptedWisp ''replaying wisp_closed for adopted wisp'' (HandleWispClosed h rn beadID existingID)
                  (\<lambda>_. finish ActionAdoptedWisp)
           else finish ActionAdoptedWisp))))
      else orStop ActionPouredWisp ''pouring first wisp''
             (PourWisp h beadID (mget meta FieldFormula) key1 (ExtractVars meta) (mget meta FieldEvaluatePrompt)) (\<lambda>wispID.
           orStop ActionPouredWisp ''setting active_wisp'' (PutMetadata h beadID FieldActiveWisp wispID) (\<lambda>_.
           orStop ActionPouredWisp ''setting iteration'' (PutMetadata h beadID FieldIteration (EncodeInt 0)) (\<lambda>_.
           orStop ActionPouredWisp ''setting state'' (PutMetadata h beadID FieldState ConvStateActive) (\<lambda>_.
             finish ActionPouredWisp))))))"

definition reconcileCreating :: "'s Handler \<Rightarrow> string \<Rightarrow> 's recovery" where
  "reconcileCreating h beadID =
     orStop ActionCompletedTerminal ''setting terminal_reason'' (PutMetadata h beadID FieldTerminalReason TerminalPartialCreation) (\<lambda>_.
     orStop ActionCompletedTerminal ''setting terminal_actor'' (PutMetadata h beadID FieldTerminalActor ''recovery'') (\<lambda>_.
     orStop ActionCompletedTerminal ''setting state to terminated'' (PutMetadata h beadID FieldState ConvStateTerminated) (\<lambda>_.
     orStop ActionCompletedTerminal ''closing bead'' (CloseBead h beadID CloseReasonReconcileDone) (\<lambda>_.
       finish ActionCompletedTerminal))))"

definition reconcileTerminatedNotClosed :: "'s Handler \<Rightarrow> string \<Rightarrow> strmap \<Rightarrow> 's recovery" where
  "reconcileTerminatedNotClosed h beadID meta =
     orStop ActionNoAction ''reading bead info'' (GetBead h beadID) (\<lambda>beadInfo.
     if biStatus beadInfo = ''closed'' then finish ActionNoAction
     else orStop ActionCompletedTerminal ''backfilling terminal_actor'' (backfillTerminalActor h beadID meta) (\<lambda>_.
     bindE (children_or_none h beadID) (\<lambda>children.
     let stats = childStats children beadID;
         reason = (if mget meta FieldTerminalReason = [] then TerminalNoConvergence else mget meta FieldTerminalReason);
         actor = (if mget meta FieldTerminalActor = [] then ''recovery'' else mget meta FieldTerminalActor)
     in bindE (emitRecoveryEvent h EventTerminated (EventIDTerminated beadID) beadID
          (PTerminated (terminated_payload reason (csClosedCount stats) actor (csCumulativeDur stats)))) (\<lambda>_.
        orStop ActionCompletedTerminal ''closing bead'' (CloseBead h beadID CloseReasonReconcileDone) (\<lambda>_.
          finish ActionCompletedTerminal)))))"

definition completeTerminalTransition :: "'s Handler \<Rightarrow> string \<Rightarrow> strmap \<Rightarrow> 's recovery" where
  "completeTerminalTransition h beadID meta =
     orStop ActionCompletedTerminal ''backfilling terminal_actor'' (backfillTerminalActor h beadID meta) (\<lambda>_.
     bindE (children_or_none h beadID) (\<lambda>children.
     let stats = childStats children beadID;
         actor = (if mget meta FieldTerminalActor = [] then ''recovery'' else mget meta FieldTerminalActor)
     in bindE (emitRecoveryEvent h EventTerminated (EventIDTerminated beadID) beadID
          (PTerminated (terminated_payload (mget meta FieldTerminalReason) (csClosedCount stats) actor (csCumulativeDur stats)))) (\<lambda>_.
        orStop ActionCompletedTerminal ''setting state to terminated''
          (if mget meta FieldState \<noteq> ConvStateTerminated then PutMetadata h beadID FieldState ConvStateTerminated else ret ()) (\<lambda>_.
        orStop ActionCompletedTerminal ''closing bead'' (CloseBead h beadID CloseReasonReconcileDone) (\<lambda>_.
        ignore (if csHighestClosedFound stats then PutMetadata h beadID FieldLastProcessedWisp (biID (csHighestClosed stats)) else ret ())
          (finish ActionCompletedTerminal))))))"

definition reconcileWaitingManual :: "'s Handler \<Rightarrow> string \<Rightarrow> strmap \<Rightarrow> 's recovery" where
  "reconcileWaitingManual h beadID meta =
     (let waitingReason = mget meta FieldWaitingReason in
      if mget meta FieldTerminalReason \<noteq> [] then completeTerminalTransition h beadID meta
      else if waitingReason \<noteq> []
      then attempt (ChildrenOf h beadID) (\<lambda>r.
           let stats = childStats (case r of Inl e \<Rightarrow> [] | Inr cs \<Rightarrow> cs) beadID;
               iteration = fst (DecodeInt (mget meta FieldIteration));
               wmPayload = \<lparr>wpRig = [], wpIteration = iteration, wpWispID = mget meta FieldLastProcessedWisp, wpAgentVerdict = [],
                 wpGateMode = mget meta FieldGateMode, wpGateOutcome = None, wpGateResult = None, wpReason = waitingReason,
                 wpIterationDurationMs = 0, wpCumulativeDurationMs = Milliseconds (csCumulativeDur stats)\<rparr>
           in bindE (emitRecoveryEvent h EventWaitingManual (EventIDWaitingManual beadID iteration) beadID (PWaitingManual wmPayload)) (\<lambda>_.
              case r of
                Inl e \<Rightarrow> ret (ActionNoAction, Some (ConvWrap ''listing children'' e))
              | Inr cs \<Rightarrow>
                  if csHighestClosedFound stats \<and> mget meta FieldLastProcessedWisp \<noteq> biID (csHighestClosed stats)
                  then orStop ActionRepairedState ''repairing last_processed_wisp''
                         (PutMetadata h beadID FieldLastProcessedWisp (biID (csHighestClosed stats))) (\<lambda>_. finish ActionRepairedState)
                  else finish ActionNoAction))
      else orStop ActionNoAction ''listing children'' (ChildrenOf h beadID) (\<lambda>children.
           if csHighestClosedFound (childStats children beadID)
           then orStop ActionRepairedState ''setting default waiting_reason'' (PutMetadata h beadID FieldWaitingReason WaitManual)
                  (\<lambda>_. finish ActionRepairedState)
           else finish ActionNoAction))"

definition reconcileWaitingTrigger :: "'s Handler \<Rightarrow> string \<Rightarrow> strmap \<Rightarrow> 's recovery" where
  "reconcileWaitingTrigger h beadID meta =
     (if mget meta FieldTerminalReason \<noteq> [] then completeTerminalTransition h beadID meta else finish ActionNoAction)"

text \<open>An active loop whose wisp, possibly recovered, is known.\<close>

definition reconcile_known_wisp :: "'s Handler \<Rightarrow> GateRunner \<Rightarrow> string \<Rightarrow> strmap \<Rightarrow> string \<Rightarrow> BeadInfo \<Rightarrow> bool \<Rightarrow> 's recovery" where
  "reconcile_known_wisp h rn beadID meta activeWispID wispInfo recovered =
     orStop ActionRepairedState ''setting recovered active wisp''
       (if recovered then PutMetadata h beadID FieldActiveWisp activeWispID else ret ()) (\<lambda>_.
     if biStatus wispInfo = ''open'' \<or> biStatus wispInfo = ''in_progress''
     then finish (if recovered then ActionRepairedState else ActionNoAction)
     else if biStatus wispInfo = ''closed''
     then if mget meta FieldLastProcessedWisp = activeWispID then finish ActionNoAction
          else orStop ActionRepairedState ''replaying wisp_closed'' (HandleWispClosed h rn beadID activeWispID) (\<lambda>_. finish ActionRepairedState)
     else ret (ActionNoAction, Some (ConvErrorf ''active wisp has unexpected status'' [activeWispID, biStatus wispInfo])))"

text \<open>An active loop without a wisp: adopt or pour the next one.\<close>

definition reconcile_next_wisp :: "'s Handler \<Rightarrow> string \<Rightarrow> strmap \<Rightarrow> 's recovery" where
  "reconcile_next_wisp h beadID meta =
     orStop ActionNoAction ''listing children'' (ChildrenOf h beadID) (\<lambda>children.
     let nextKey = IdempotencyKey beadID (csClosedCount (childStats children beadID) + 1);
         adopt = (\<lambda>action wispID.
           orStop action ''activating wisp'' (ActivateWisp h wispID) (\<lambda>_.
           orStop action ''setting active_wisp'' (PutMetadata h beadID FieldActiveWisp wispID) (\<lambda>_.
             ignore (PutMetadata h beadID FieldPendingNextWisp []) (finish action))))
     in bindE (validPendingNextWisp h beadID nextKey (mget meta FieldPendingNextWisp)) (\<lambda>pendingID.
        if pendingID \<noteq> [] then adopt ActionAdoptedWisp pendingID
        else orStop ActionNoAction ''looking up next wisp'' (FindByIdempotencyKey h nextKey) (\<lambda>(existingID, found).
          if found then adopt ActionAdoptedWisp existingID
          else orStop ActionPouredWisp ''pouring wisp''
                 (PourWisp h beadID (mget meta FieldFormula) nextKey (ExtractVars meta) (mget meta FieldEvaluatePrompt))
                 (\<lambda>wispID. adopt ActionPouredWisp wispID))))"

definition reconcileActive :: "'s Handler \<Rightarrow> GateRunner \<Rightarrow> string \<Rightarrow> strmap \<Rightarrow> 's recovery" where
  "reconcileActive h rn beadID meta =
     (if mget meta FieldTerminalReason \<noteq> [] then completeTerminalTransition h beadID meta
      else let activeWispID = mget meta FieldActiveWisp in
        if activeWispID = [] then reconcile_next_wisp h beadID meta
        else attempt (GetBead h activeWispID) (\<lambda>r. case r of
            Inr info \<Rightarrow> reconcile_known_wisp h rn beadID meta activeWispID info False
          | Inl e \<Rightarrow>
              if \<not> IsNotFound e then ret (ActionNoAction, Some (ConvWrap ''reading active wisp'' e))
              else attempt (recoverCurrentActiveWisp h beadID (mget meta FieldLastProcessedWisp)) (\<lambda>rec. case rec of
                  Inl e' \<Rightarrow> ret (ActionNoAction, Some e')
                | Inr (info, found) \<Rightarrow>
                    if found \<and> biID info \<noteq> [] then reconcile_known_wisp h rn beadID meta (biID info) info True
                    else reconcile_next_wisp h beadID meta)))"

section \<open>Dispatch\<close>

definition reconcileState :: "'s Handler \<Rightarrow> GateRunner \<Rightarrow> string \<Rightarrow> 's recovery" where
  "reconcileState h rn beadID =
     orStop ActionNoAction ''reading metadata'' (GetMetadata h beadID) (\<lambda>meta.
     let state = mget meta FieldState in
     if state = [] then reconcileMissingState h rn beadID meta
     else if state = ConvStateCreating then reconcileCreating h beadID
     else if state = ConvStateTerminated then reconcileTerminatedNotClosed h beadID meta
     else if state = ConvStateWaitingManual then reconcileWaitingManual h beadID meta
     else if state = ConvStateWaitingTrigger then reconcileWaitingTrigger h beadID meta
     else if state = ConvStateActive then reconcileActive h rn beadID meta
     else ret (ActionNoAction, Some (ConvErrorf ''unknown convergence state'' [state])))"

text \<open>\<open>reconcileBead\<close> never fails: the error of a path is part of the detail.  An action that is itself an
  error cannot occur; it would be reported as such.\<close>

definition reconcileBead :: "'s Handler \<Rightarrow> GateRunner \<Rightarrow> string \<Rightarrow> ('s, ReconcileDetail) act" where
  "reconcileBead h rn beadID =
     attempt (reconcileState h rn beadID) (\<lambda>r. case r of
         Inr (action, err) \<Rightarrow> ret \<lparr>rdBeadID = beadID, rdAction = action, rdError = err\<rparr>
       | Inl e \<Rightarrow> ret \<lparr>rdBeadID = beadID, rdAction = ActionNoAction, rdError = Some e\<rparr>)"

fun reconcile_loop :: "'s Handler \<Rightarrow> GateRunner \<Rightarrow> string list \<Rightarrow> ReconcileReport \<Rightarrow> ('s, ReconcileReport) act" where
  "reconcile_loop h rn [] report = ret report"
| "reconcile_loop h rn (i # ids) report =
     bindE (reconcileBead h rn i) (\<lambda>detail.
       reconcile_loop h rn ids
         (let report1 = report\<lparr>rrDetails := rrDetails report @ [detail]\<rparr> in
          if rdError detail \<noteq> None then report1\<lparr>rrErrors := rrErrors report1 + 1\<rparr>
          else if rdAction detail \<noteq> ActionNoAction then report1\<lparr>rrRecovered := rrRecovered report1 + 1\<rparr> else report1))"

definition ReconcileBeads :: "'s Handler \<Rightarrow> GateRunner \<Rightarrow> string list \<Rightarrow> ('s, ReconcileReport) act" where
  "ReconcileBeads h rn beadIDs =
     reconcile_loop h rn beadIDs \<lparr>rrScanned = int (length beadIDs), rrRecovered = 0, rrErrors = 0, rrDetails = []\<rparr>"

definition deriveIterationFromChildren :: "BeadInfo list \<Rightarrow> string \<Rightarrow> int" where
  "deriveIterationFromChildren children beadID = csClosedCount (childStats children beadID)"

definition highestClosedWisp :: "BeadInfo list \<Rightarrow> string \<Rightarrow> BeadInfo \<times> int \<times> bool" where
  "highestClosedWisp children beadID =
     (let st = childStats children beadID in (csHighestClosed st, csHighestClosedIter st, csHighestClosedFound st))"

end
