(* ===== verification/Conv_Contract.thy ===== *)
theory Conv_Contract
  imports Conv_Reconcile
begin

text \<open>
  What the convergence handler relies on (locale \<open>conv_store\<close>) and a small program logic for handler
  actions.  The contract speaks about a view of the store: for each bead its status, parent, idempotency
  key and \<open>convergence.*\<close> metadata.  Every operation may fail at any call; a failed write has either
  happened or not.  So a statement proved over the contract covers every pattern of store failures,
  a crash included: after a crash all further calls fail.

  \<open>triple look ok P m Q\<close> says that the action m, started in a store state that satisfies the store's
  own invariant and whose view satisfies P, ends with a result and a view that satisfy Q.
\<close>

record LoopBead =
  lbStatus :: string
  lbParent :: string
  lbKey :: string
  lbMeta :: "string \<Rightarrow> string"

type_synonym loopView = "string \<Rightarrow> LoopBead option"

definition protected :: "string \<Rightarrow> bool" where
  "protected k \<longleftrightarrow> has_prefix ProtectedPrefix k"

definition put_meta :: "string \<Rightarrow> string \<Rightarrow> string \<Rightarrow> loopView \<Rightarrow> loopView" where
  "put_meta i k v L = (case L i of None \<Rightarrow> L | Some b \<Rightarrow> L(i \<mapsto> b\<lparr>lbMeta := (lbMeta b)(k := v)\<rparr>))"

definition put_closed :: "string \<Rightarrow> loopView \<Rightarrow> loopView" where
  "put_closed i L = (case L i of None \<Rightarrow> L | Some b \<Rightarrow> L(i \<mapsto> b\<lparr>lbStatus := ''closed''\<rparr>))"

definition extends :: "loopView \<Rightarrow> loopView \<Rightarrow> bool" where
  "extends L L' \<longleftrightarrow> (\<forall>i b. L i = Some b \<longrightarrow> L' i = Some b)"

definition info_of :: "loopView \<Rightarrow> string \<Rightarrow> BeadInfo \<Rightarrow> bool" where
  "info_of L i info \<longleftrightarrow> biID info = i \<and> (\<exists>b. L i = Some b \<and> biStatus info = lbStatus b \<and> biParentID info = lbParent b \<and> biIdempotencyKey info = lbKey b)"

definition meta_of :: "loopView \<Rightarrow> string \<Rightarrow> strmap \<Rightarrow> bool" where
  "meta_of L i meta \<longleftrightarrow> (\<exists>b. L i = Some b \<and> (\<forall>k. protected k \<longrightarrow> mget meta k = lbMeta b k))"

definition has_key :: "loopView \<Rightarrow> string \<Rightarrow> string \<Rightarrow> bool" where
  "has_key L i key \<longleftrightarrow> (\<exists>b. L i = Some b \<and> lbKey b = key)"

text \<open>A write: it has happened, or it has failed without effect.\<close>

definition wrote :: "loopView \<Rightarrow> loopView \<Rightarrow> ConvError + unit \<Rightarrow> loopView \<Rightarrow> bool" where
  "wrote L new r L' \<longleftrightarrow> L' = new \<or> L' = L \<and> (\<exists>e. r = Inl e)"

locale conv_store =
  fixes st :: "'s Store" and look :: "'s \<Rightarrow> loopView" and ok :: "'s \<Rightarrow> bool"
  assumes get_bead: "ok s \<Longrightarrow> sGetBead st i s = (r, s') \<Longrightarrow>
      ok s' \<and> look s' = look s \<and> (\<forall>info. r = Inr info \<longrightarrow> info_of (look s) i info)"
    and get_metadata: "ok s \<Longrightarrow> sGetMetadata st i s = (rm, s') \<Longrightarrow>
      ok s' \<and> look s' = look s \<and> (\<forall>meta. rm = Inr meta \<longrightarrow> meta_of (look s) i meta)"
    and set_metadata: "ok s \<Longrightarrow> sSetMetadata st i k v s = (ru, s') \<Longrightarrow> protected k \<Longrightarrow>
      ok s' \<and> wrote (look s) (put_meta i k v (look s)) ru (look s')"
    and close_bead: "ok s \<Longrightarrow> sCloseBead st i reason s = (ru, s') \<Longrightarrow>
      ok s' \<and> wrote (look s) (put_closed i (look s)) ru (look s')"
    and delete_bead: "ok s \<Longrightarrow> sDeleteBead st i s = (ru, s') \<Longrightarrow>
      ok s' \<and> wrote (look s) ((look s)(i := None)) ru (look s')"
    and children: "ok s \<Longrightarrow> sChildren st i s = (rc, s') \<Longrightarrow>
      ok s' \<and> look s' = look s \<and> (\<forall>cs. rc = Inr cs \<longrightarrow> i \<noteq> [] \<and> (\<forall>c \<in> set cs. info_of (look s) (biID c) c \<and> biParentID c = i))"
    and pour_wisp: "ok s \<Longrightarrow> sPourWisp st p f key vars prompt s = (rw, s') \<Longrightarrow>
      ok s' \<and> extends (look s) (look s') \<and> (\<forall>w. rw = Inr w \<longrightarrow> has_key (look s') w key)"
    and pour_speculative: "ok s \<Longrightarrow> sPourSpeculativeWisp st p f key vars prompt s = (rw, s') \<Longrightarrow>
      ok s' \<and> extends (look s) (look s') \<and> (\<forall>w. rw = Inr w \<longrightarrow> has_key (look s') w key)"
    and activate: "ok s \<Longrightarrow> sActivateWisp st i s = (ru, s') \<Longrightarrow> ok s' \<and> look s' = look s"
    and find_key: "ok s \<Longrightarrow> sFindByIdempotencyKey st key s = (rf, s') \<Longrightarrow>
      ok s' \<and> look s' = look s \<and> (\<forall>w. rf = Inr (w, True) \<longrightarrow> has_key (look s) w key)"

section \<open>Program logic\<close>

definition triple ::
  "('s \<Rightarrow> loopView) \<Rightarrow> ('s \<Rightarrow> bool) \<Rightarrow> (loopView \<Rightarrow> bool) \<Rightarrow> ('s, 'a) act \<Rightarrow> (ConvError + 'a \<Rightarrow> loopView \<Rightarrow> bool) \<Rightarrow> bool" where
  "triple look ok P m Q \<longleftrightarrow>
     (\<forall>s ev r s' ev'. ok s \<longrightarrow> P (look s) \<longrightarrow> m (s, ev) = (r, s', ev') \<longrightarrow> ok s' \<and> Q r (look s'))"

lemma tripleD:
  "triple look ok P m Q \<Longrightarrow> ok s \<Longrightarrow> P (look s) \<Longrightarrow> m (s, ev) = (r, s', ev') \<Longrightarrow> ok s' \<and> Q r (look s')"
  unfolding triple_def by blast

lemma triple_conseq:
  "triple look ok P m Q \<Longrightarrow> (\<And>L. P' L \<Longrightarrow> P L) \<Longrightarrow> (\<And>r L. Q r L \<Longrightarrow> Q' r L) \<Longrightarrow> triple look ok P' m Q'"
  unfolding triple_def by blast

lemma triple_conj:
  "triple look ok P m Q \<Longrightarrow> triple look ok P m Q' \<Longrightarrow> triple look ok P m (\<lambda>r L. Q r L \<and> Q' r L)"
  unfolding triple_def by blast

lemma triple_ret: "(\<And>L. P L \<Longrightarrow> Q (Inr x) L) \<Longrightarrow> triple look ok P (ret x) Q"
  by (auto simp: triple_def ret_def)

lemma triple_fail: "(\<And>L. P L \<Longrightarrow> Q (Inl e) L) \<Longrightarrow> triple look ok P (fail e) Q"
  by (auto simp: triple_def fail_def)

lemma triple_lift: "(\<And>L. P L \<Longrightarrow> Q r L) \<Longrightarrow> triple look ok P (lift r) Q"
  by (auto simp: triple_def lift_def)

lemma triple_emit: "(\<And>L. P L \<Longrightarrow> Q (Inr ()) L) \<Longrightarrow> triple look ok P (emit e) Q"
  by (auto simp: triple_def emit_def)

lemma triple_attempt:
  assumes "triple look ok P m R" and "\<And>r. triple look ok (R r) (k r) Q"
  shows "triple look ok P (attempt m k) Q"
  unfolding triple_def
proof (intro allI impI)
  fix s ev r s' ev'
  assume s: "ok s" "P (look s)" and a: "attempt m k (s, ev) = (r, s', ev')"
  obtain r1 s1 ev1 where m: "m (s, ev) = (r1, s1, ev1)" by (metis prod_cases3)
  with a have k: "k r1 (s1, ev1) = (r, s', ev')" by (simp add: attempt_def)
  from tripleD [OF assms(1) s m] have "ok s1" "R r1 (look s1)" by auto
  from tripleD [OF assms(2) this k] show "ok s' \<and> Q r (look s')" .
qed

lemma triple_bindE:
  assumes "triple look ok P m R" and "\<And>x. triple look ok (R (Inr x)) (k x) Q" and "\<And>e L. R (Inl e) L \<Longrightarrow> Q (Inl e) L"
  shows "triple look ok P (bindE m k) Q"
  unfolding bindE_def
proof (rule triple_attempt [OF assms(1)])
  fix r show "triple look ok (R r) (case r of Inl e \<Rightarrow> fail e | Inr x \<Rightarrow> k x) Q"
    using assms(2,3) by (cases r) (auto intro: triple_fail)
qed

lemma triple_bindE_conseq:
  assumes "triple look ok P m R" and "\<And>x. triple look ok (S x) (k x) Q" and "\<And>x L. R (Inr x) L \<Longrightarrow> S x L" and "\<And>e L. R (Inl e) L \<Longrightarrow> Q (Inl e) L"
  shows "triple look ok P (bindE m k) Q"
proof (rule triple_bindE [OF assms(1)])
  fix x show "triple look ok (R (Inr x)) (k x) Q" by (rule triple_conseq [OF assms(2) [of x]]) (use assms(3) in auto)
qed (rule assms(4))

lemma triple_wrap:
  assumes "triple look ok P m R" and "\<And>x L. R (Inr x) L \<Longrightarrow> Q (Inr x) L" and "\<And>e e' L. R (Inl e) L \<Longrightarrow> Q (Inl e') L"
  shows "triple look ok P (wrap msg m) Q"
  unfolding wrap_def
proof (rule triple_attempt [OF assms(1)])
  fix r show "triple look ok (R r) (case r of Inl e \<Rightarrow> fail (ConvWrap msg e) | Inr x \<Rightarrow> ret x) Q"
    using assms(2,3) by (cases r) (auto intro: triple_fail triple_ret)
qed

text \<open>\<open>into I K m\<close>: from the invariant I the action ends in K, whatever its result; \<open>keeps I m\<close> preserves I.\<close>

definition into :: "('s \<Rightarrow> loopView) \<Rightarrow> ('s \<Rightarrow> bool) \<Rightarrow> (loopView \<Rightarrow> bool) \<Rightarrow> (loopView \<Rightarrow> bool) \<Rightarrow> ('s, 'a) act \<Rightarrow> bool" where
  "into look ok I K m = triple look ok I m (\<lambda>r. K)"

abbreviation keeps :: "('s \<Rightarrow> loopView) \<Rightarrow> ('s \<Rightarrow> bool) \<Rightarrow> (loopView \<Rightarrow> bool) \<Rightarrow> ('s, 'a) act \<Rightarrow> bool" where
  "keeps look ok I m \<equiv> into look ok I I m"

definition weaker :: "(loopView \<Rightarrow> bool) \<Rightarrow> (loopView \<Rightarrow> bool) \<Rightarrow> bool" where
  "weaker I K \<longleftrightarrow> (\<forall>L. I L \<longrightarrow> K L)"

lemma weaker_refl [simp]: "weaker I I"
  by (simp add: weaker_def)

lemma into_weaker: "keeps look ok I m \<Longrightarrow> weaker I K \<Longrightarrow> into look ok I K m"
  unfolding into_def weaker_def by (erule triple_conseq) auto

lemma into_ret: "weaker I K \<Longrightarrow> into look ok I K (ret x)"
  by (auto simp: into_def weaker_def intro: triple_ret)

lemma into_fail: "weaker I K \<Longrightarrow> into look ok I K (fail e)"
  by (auto simp: into_def weaker_def intro: triple_fail)

lemma into_lift: "weaker I K \<Longrightarrow> into look ok I K (lift r)"
  by (auto simp: into_def weaker_def intro: triple_lift)

lemma into_emit: "weaker I K \<Longrightarrow> into look ok I K (emit e)"
  by (auto simp: into_def weaker_def intro: triple_emit)

lemma into_attempt:
  "keeps look ok I m \<Longrightarrow> (\<And>r. into look ok I K (k r)) \<Longrightarrow> into look ok I K (attempt m k)"
  unfolding into_def by (rule triple_attempt [where R = "\<lambda>r. I"]) auto

lemma into_bindE:
  "weaker I K \<Longrightarrow> keeps look ok I m \<Longrightarrow> (\<And>x. into look ok I K (k x)) \<Longrightarrow> into look ok I K (bindE m k)"
  unfolding into_def weaker_def by (rule triple_bindE [where R = "\<lambda>r. I"]) auto

lemma into_ignore: "keeps look ok I m \<Longrightarrow> into look ok I K k \<Longrightarrow> into look ok I K (ignore m k)"
  unfolding ignore_def by (rule into_attempt)

lemma into_wrap: "into look ok I K m \<Longrightarrow> into look ok I K (wrap msg m)"
  unfolding into_def by (rule triple_wrap) auto

lemma into_orStop:
  "weaker I K \<Longrightarrow> keeps look ok I m \<Longrightarrow> (\<And>x. into look ok I K (k x)) \<Longrightarrow> into look ok I K (orStop a msg m k)"
  unfolding orStop_def by (rule into_attempt) (auto split: sum.splits intro: into_ret)

lemma into_finish: "weaker I K \<Longrightarrow> into look ok I K (finish a)"
  unfolding finish_def by (rule into_ret)

lemma into_if: "(c \<Longrightarrow> into look ok I K a) \<Longrightarrow> (\<not> c \<Longrightarrow> into look ok I K b) \<Longrightarrow> into look ok I K (if c then a else b)"
  by simp

lemma into_case_sum:
  "(\<And>e. r = Inl e \<Longrightarrow> into look ok I K (f e)) \<Longrightarrow> (\<And>x. r = Inr x \<Longrightarrow> into look ok I K (g x)) \<Longrightarrow> into look ok I K (case r of Inl e \<Rightarrow> f e | Inr x \<Rightarrow> g x)"
  by (cases r) auto

lemma into_case_option:
  "(x = None \<Longrightarrow> into look ok I K f) \<Longrightarrow> (\<And>y. x = Some y \<Longrightarrow> into look ok I K (g y)) \<Longrightarrow> into look ok I K (case x of None \<Rightarrow> f | Some y \<Rightarrow> g y)"
  by (cases x) auto

lemma into_case_prod: "(\<And>a b. x = (a, b) \<Longrightarrow> into look ok I K (f a b)) \<Longrightarrow> into look ok I K (case x of (a, b) \<Rightarrow> f a b)"
  by (cases x) auto

lemma into_Let: "(\<And>y. y = x \<Longrightarrow> into look ok I K (f y)) \<Longrightarrow> into look ok I K (Let x f)"
  by simp

lemmas into_intros = into_ret into_fail into_lift into_emit into_bindE into_attempt into_ignore into_wrap into_orStop into_finish
  into_if into_case_sum into_case_option into_case_prod into_Let

section \<open>Store calls\<close>

lemma call_result: "call f (s, ev) = (r, s', ev') \<Longrightarrow> f s = (r, s')"
  by (auto simp: call_def split: prod.splits)

context conv_store
begin

lemma t_GetBead:
  assumes "hStore h = st" and "\<And>e L. P L \<Longrightarrow> Q (Inl e) L" and "\<And>info L. P L \<Longrightarrow> info_of L i info \<Longrightarrow> Q (Inr info) L"
  shows "triple look ok P (GetBead h i) Q"
  unfolding triple_def GetBead_def assms(1)
proof (intro allI impI)
  fix s ev r s' ev'
  assume "ok s" and P: "P (look s)" and "call (sGetBead st i) (s, ev) = (r, s', ev')"
  with get_bead [of s i r s'] have "ok s'" "look s' = look s" "\<forall>info. r = Inr info \<longrightarrow> info_of (look s) i info"
    by (auto dest: call_result)
  with P assms(2,3) show "ok s' \<and> Q r (look s')" by (cases r) auto
qed

lemma t_GetMetadata:
  assumes "hStore h = st" and "\<And>e L. P L \<Longrightarrow> Q (Inl e) L" and "\<And>meta L. P L \<Longrightarrow> meta_of L i meta \<Longrightarrow> Q (Inr meta) L"
  shows "triple look ok P (GetMetadata h i) Q"
  unfolding triple_def GetMetadata_def assms(1)
proof (intro allI impI)
  fix s ev r s' ev'
  assume "ok s" and P: "P (look s)" and "call (sGetMetadata st i) (s, ev) = (r, s', ev')"
  with get_metadata [of s i r s'] have "ok s'" "look s' = look s" "\<forall>meta. r = Inr meta \<longrightarrow> meta_of (look s) i meta"
    by (auto dest: call_result)
  with P assms(2,3) show "ok s' \<and> Q r (look s')" by (cases r) auto
qed

lemma t_ChildrenOf:
  assumes "hStore h = st" and "\<And>e L. P L \<Longrightarrow> Q (Inl e) L"
    and "\<And>cs L. P L \<Longrightarrow> i \<noteq> [] \<Longrightarrow> (\<forall>c \<in> set cs. info_of L (biID c) c \<and> biParentID c = i) \<Longrightarrow> Q (Inr cs) L"
  shows "triple look ok P (ChildrenOf h i) Q"
  unfolding triple_def ChildrenOf_def assms(1)
proof (intro allI impI)
  fix s ev r s' ev'
  assume "ok s" and P: "P (look s)" and "call (sChildren st i) (s, ev) = (r, s', ev')"
  with children [of s i r s'] have "ok s'" "look s' = look s"
    "\<forall>cs. r = Inr cs \<longrightarrow> i \<noteq> [] \<and> (\<forall>c \<in> set cs. info_of (look s) (biID c) c \<and> biParentID c = i)"
    by (auto dest: call_result)
  with P assms(2,3) show "ok s' \<and> Q r (look s')" by (cases r) auto
qed

lemma t_Find:
  assumes "hStore h = st" and "\<And>e L. P L \<Longrightarrow> Q (Inl e) L"
    and "\<And>w b L. P L \<Longrightarrow> (b \<Longrightarrow> has_key L w key) \<Longrightarrow> Q (Inr (w, b)) L"
  shows "triple look ok P (FindByIdempotencyKey h key) Q"
  unfolding triple_def FindByIdempotencyKey_def assms(1)
proof (intro allI impI)
  fix s ev r s' ev'
  assume "ok s" and P: "P (look s)" and "call (sFindByIdempotencyKey st key) (s, ev) = (r, s', ev')"
  with find_key [of s key r s'] have f: "ok s'" "look s' = look s" "\<forall>w. r = Inr (w, True) \<longrightarrow> has_key (look s) w key"
    by (auto dest: call_result)
  show "ok s' \<and> Q r (look s')"
  proof (cases r)
    case (Inl e)
    with f P assms(2) show ?thesis by simp
  next
    case (Inr x)
    then obtain w b where "r = Inr (w, b)" by (cases x) auto
    with f P assms(3) show ?thesis by (cases b) auto
  qed
qed

lemma t_PutMetadata:
  assumes "hStore h = st" and "protected k" and "\<And>e L. P L \<Longrightarrow> Q (Inl e) L"
    and "\<And>r L. P L \<Longrightarrow> Q r (put_meta i k v L)"
  shows "triple look ok P (PutMetadata h i k v) Q"
  unfolding triple_def PutMetadata_def assms(1)
proof (intro allI impI)
  fix s ev r s' ev'
  assume "ok s" and P: "P (look s)" and "call (sSetMetadata st i k v) (s, ev) = (r, s', ev')"
  with set_metadata [OF _ _ assms(2), of s i v r s'] have "ok s'" "wrote (look s) (put_meta i k v (look s)) r (look s')"
    by (auto dest: call_result)
  with P assms(3,4) show "ok s' \<and> Q r (look s')" by (auto simp: wrote_def)
qed

lemma t_CloseBead:
  assumes "hStore h = st" and "\<And>e L. P L \<Longrightarrow> Q (Inl e) L" and "\<And>r L. P L \<Longrightarrow> Q r (put_closed i L)"
  shows "triple look ok P (CloseBead h i reason) Q"
  unfolding triple_def CloseBead_def assms(1)
proof (intro allI impI)
  fix s ev r s' ev'
  assume "ok s" and P: "P (look s)" and "call (sCloseBead st i reason) (s, ev) = (r, s', ev')"
  with close_bead [of s i reason r s'] have "ok s'" "wrote (look s) (put_closed i (look s)) r (look s')"
    by (auto dest: call_result)
  with P assms(2,3) show "ok s' \<and> Q r (look s')" by (auto simp: wrote_def)
qed

lemma t_DeleteBead:
  assumes "hStore h = st" and "\<And>e L. P L \<Longrightarrow> Q (Inl e) L" and "\<And>r L. P L \<Longrightarrow> Q r (L(i := None))"
  shows "triple look ok P (DeleteBead h i) Q"
  unfolding triple_def DeleteBead_def assms(1)
proof (intro allI impI)
  fix s ev r s' ev'
  assume "ok s" and P: "P (look s)" and "call (sDeleteBead st i) (s, ev) = (r, s', ev')"
  with delete_bead [of s i r s'] have "ok s'" "wrote (look s) ((look s)(i := None)) r (look s')"
    by (auto dest: call_result)
  with P assms(2,3) show "ok s' \<and> Q r (look s')" by (auto simp: wrote_def)
qed

lemma t_pour:
  assumes "hStore h = st" and "pour = PourWisp h p f key vars prompt \<or> pour = PourSpeculativeWisp h p f key vars prompt"
    and "\<And>e L L'. P L \<Longrightarrow> extends L L' \<Longrightarrow> Q (Inl e) L'" and "\<And>w L L'. P L \<Longrightarrow> extends L L' \<Longrightarrow> has_key L' w key \<Longrightarrow> Q (Inr w) L'"
  shows "triple look ok P pour Q"
  unfolding triple_def
proof (intro allI impI)
  fix s ev r s' ev'
  assume s: "ok s" and P: "P (look s)" and "pour (s, ev) = (r, s', ev')"
  with assms(1,2) have "sPourWisp st p f key vars prompt s = (r, s') \<or> sPourSpeculativeWisp st p f key vars prompt s = (r, s')"
    by (auto simp: PourWisp_def PourSpeculativeWisp_def dest: call_result)
  with pour_wisp [OF s, of p f key vars prompt r s'] pour_speculative [OF s, of p f key vars prompt r s']
  have "ok s'" "extends (look s) (look s')" "\<forall>w. r = Inr w \<longrightarrow> has_key (look s') w key" by auto
  with P assms(3,4) show "ok s' \<and> Q r (look s')" by (cases r) auto
qed

lemma t_Activate:
  assumes "hStore h = st" and "\<And>r L. P L \<Longrightarrow> Q r L"
  shows "triple look ok P (ActivateWisp h i) Q"
  unfolding triple_def ActivateWisp_def assms(1)
proof (intro allI impI)
  fix s ev r s' ev'
  assume "ok s" and P: "P (look s)" and "call (sActivateWisp st i) (s, ev) = (r, s', ev')"
  with activate [of s i r s'] have "ok s'" "look s' = look s" by (auto dest: call_result)
  with P assms(2) show "ok s' \<and> Q r (look s')" by simp
qed

text \<open>Reads keep every invariant, and so do the helpers that only read and emit.\<close>

lemma reads_keep:
  assumes "hStore h = st" and "weaker I K"
  shows "into look ok I K (GetBead h i)" "into look ok I K (GetMetadata h i)" "into look ok I K (ChildrenOf h i)"
    "into look ok I K (FindByIdempotencyKey h key)" "into look ok I K (ActivateWisp h i)"
  using assms unfolding into_def weaker_def
  by (auto intro!: t_GetBead t_GetMetadata t_ChildrenOf t_Find t_Activate)

lemma computeDurations_keeps:
  assumes "hStore h = st"
  shows "keeps look ok I (computeDurations h r w)"
  unfolding computeDurations_def by (intro into_intros reads_keep assms weaker_refl)

lemma emit_with_keeps:
  assumes "hStore h = st"
  shows "keeps look ok I (emit_with b h et ei i p)"
  unfolding emit_with_def withEventRig_def eventRig_def by (intro into_intros reads_keep assms weaker_refl)

lemma deriveIterationCount_keeps:
  assumes "hStore h = st"
  shows "keeps look ok I (deriveIterationCount h r)"
  unfolding deriveIterationCount_def by (intro into_intros reads_keep assms weaker_refl)

lemma last_processed_keeps:
  assumes "hStore h = st"
  shows "keeps look ok I (last_processed_iteration h meta)"
  unfolding last_processed_iteration_def by (intro into_intros reads_keep assms weaker_refl)

lemma evaluateGate_keeps:
  assumes "hStore h = st"
  shows "keeps look ok I (evaluateGate h rn gc meta w n v r)"
  unfolding evaluateGate_def by (intro into_intros computeDurations_keeps reads_keep assms weaker_refl)

end

end
