(* ===== verification/Conv_Invariant.thy ===== *)
theory Conv_Invariant
  imports Conv_Contract
begin

text \<open>
  Invariants of a convergence root over the store contract: the root is live (open, not in the state
  terminated) or ended (terminated with its reason and actor recorded), and it is closed only when
  ended.  The lemmas are proved once for the store contract and hold for every handler and every
  pattern of failing store calls.
\<close>

section \<open>Invariants\<close>

definition rooted :: "string \<Rightarrow> loopView \<Rightarrow> bool" where
  "rooted root L \<longleftrightarrow> root \<noteq> [] \<and> (\<exists>b. L root = Some b \<and> lbParent b = [] \<and> lbKey b = [])"

definition rmeta :: "string \<Rightarrow> string \<Rightarrow> loopView \<Rightarrow> string" where
  "rmeta root k L = (case L root of None \<Rightarrow> [] | Some b \<Rightarrow> lbMeta b k)"

definition rstatus :: "string \<Rightarrow> loopView \<Rightarrow> string" where
  "rstatus root L = (case L root of None \<Rightarrow> [] | Some b \<Rightarrow> lbStatus b)"

definition live :: "string \<Rightarrow> loopView \<Rightarrow> bool" where
  "live root L \<longleftrightarrow> rooted root L \<and> rstatus root L \<noteq> ''closed'' \<and> rmeta root FieldState L \<noteq> ConvStateTerminated
     \<and> rmeta root FieldActiveWisp L \<noteq> root"

definition ended :: "string \<Rightarrow> loopView \<Rightarrow> bool" where
  "ended root L \<longleftrightarrow> rooted root L \<and> rmeta root FieldState L = ConvStateTerminated
     \<and> rmeta root FieldTerminalReason L \<noteq> [] \<and> rmeta root FieldTerminalActor L \<noteq> [] \<and> rmeta root FieldActiveWisp L \<noteq> root"

definition loop_inv :: "string \<Rightarrow> loopView \<Rightarrow> bool" where
  "loop_inv root L \<longleftrightarrow> live root L \<or> ended root L"

text \<open>Keys a handler may write at any time without touching the invariants.\<close>

definition harmless :: "string set" where
  "harmless = {FieldPendingNextWisp, FieldAgentVerdict, FieldAgentVerdictWisp, FieldIteration, FieldGateOutcome, FieldGateExitCode,
     FieldGateRetryCount, FieldGateStdout, FieldGateStderr, FieldGateDurationMs, FieldGateTruncated, FieldGateOutcomeWisp,
     FieldWaitingReason}"

lemma protected_fields [simp]:
  "protected FieldState" "protected FieldIteration" "protected FieldMaxIterations" "protected FieldActiveWisp" "protected FieldLastProcessedWisp"
  "protected FieldAgentVerdict" "protected FieldAgentVerdictWisp" "protected FieldGateOutcome" "protected FieldGateExitCode"
  "protected FieldGateOutcomeWisp" "protected FieldGateRetryCount" "protected FieldTerminalReason" "protected FieldTerminalActor"
  "protected FieldWaitingReason" "protected FieldGateStdout" "protected FieldGateStderr" "protected FieldGateDurationMs"
  "protected FieldGateTruncated" "protected FieldPendingNextWisp" "protected FieldGateMode" "protected FieldTrigger"
  by (simp_all add: protected_def has_prefix_def conv_defs)

lemma harmless_protected: "k \<in> harmless \<Longrightarrow> protected k"
  by (auto simp: harmless_def)

lemma harmless_in [simp]:
  "FieldPendingNextWisp \<in> harmless" "FieldAgentVerdict \<in> harmless" "FieldAgentVerdictWisp \<in> harmless" "FieldIteration \<in> harmless"
  "FieldGateOutcome \<in> harmless" "FieldGateExitCode \<in> harmless" "FieldGateRetryCount \<in> harmless" "FieldGateStdout \<in> harmless"
  "FieldGateStderr \<in> harmless" "FieldGateDurationMs \<in> harmless" "FieldGateTruncated \<in> harmless" "FieldGateOutcomeWisp \<in> harmless"
  "FieldWaitingReason \<in> harmless"
  by (simp_all add: harmless_def)

lemma harmless_not:
  assumes "k \<in> harmless"
  shows "k \<noteq> FieldState" "k \<noteq> FieldTerminalReason" "k \<noteq> FieldTerminalActor" "k \<noteq> FieldActiveWisp" "k \<noteq> FieldLastProcessedWisp"
  using assms unfolding harmless_def by (auto simp: conv_defs)

lemma field_neq [simp]:
  "FieldState \<noteq> FieldTerminalReason" "FieldState \<noteq> FieldTerminalActor" "FieldState \<noteq> FieldActiveWisp" "FieldState \<noteq> FieldLastProcessedWisp"
  "FieldState \<noteq> FieldWaitingReason" "FieldTerminalReason \<noteq> FieldTerminalActor" "FieldTerminalReason \<noteq> FieldActiveWisp"
  "FieldTerminalActor \<noteq> FieldActiveWisp" "FieldTerminalReason \<noteq> FieldState" "FieldTerminalActor \<noteq> FieldState" "FieldActiveWisp \<noteq> FieldState"
  "FieldLastProcessedWisp \<noteq> FieldState" "FieldWaitingReason \<noteq> FieldState" "FieldTerminalActor \<noteq> FieldTerminalReason"
  "FieldActiveWisp \<noteq> FieldTerminalReason" "FieldActiveWisp \<noteq> FieldTerminalActor" "FieldActiveWisp \<noteq> FieldLastProcessedWisp"
  "FieldLastProcessedWisp \<noteq> FieldActiveWisp" "FieldLastProcessedWisp \<noteq> FieldTerminalReason" "FieldLastProcessedWisp \<noteq> FieldTerminalActor"
  "FieldTerminalReason \<noteq> FieldLastProcessedWisp" "FieldTerminalActor \<noteq> FieldLastProcessedWisp" "FieldWaitingReason \<noteq> FieldActiveWisp"
  "FieldActiveWisp \<noteq> FieldWaitingReason" "FieldWaitingReason \<noteq> FieldLastProcessedWisp" "FieldLastProcessedWisp \<noteq> FieldWaitingReason"
  "FieldWaitingReason \<noteq> FieldTerminalReason" "FieldWaitingReason \<noteq> FieldTerminalActor" "FieldTerminalReason \<noteq> FieldWaitingReason"
  "FieldTerminalActor \<noteq> FieldWaitingReason" "FieldPendingNextWisp \<noteq> FieldState" "FieldPendingNextWisp \<noteq> FieldLastProcessedWisp"
  "FieldPendingNextWisp \<noteq> FieldActiveWisp" "FieldPendingNextWisp \<noteq> FieldWaitingReason" "FieldState \<noteq> FieldPendingNextWisp"
  "FieldLastProcessedWisp \<noteq> FieldPendingNextWisp" "FieldActiveWisp \<noteq> FieldPendingNextWisp" "FieldWaitingReason \<noteq> FieldPendingNextWisp"
  "FieldPendingNextWisp \<noteq> FieldTerminalReason" "FieldPendingNextWisp \<noteq> FieldTerminalActor"
  by (simp_all add: conv_defs)

lemma state_neq_conv [simp]:
  "ConvStateActive \<noteq> ConvStateTerminated" "ConvStateWaitingManual \<noteq> ConvStateTerminated" "ConvStateWaitingTrigger \<noteq> ConvStateTerminated"
  "ConvStateCreating \<noteq> ConvStateTerminated" "ConvStateTerminated \<noteq> []" "ConvStateTerminated \<noteq> ConvStateActive"
  "ConvStateTerminated \<noteq> ConvStateWaitingManual" "ConvStateTerminated \<noteq> ConvStateWaitingTrigger" "ConvStateTerminated \<noteq> ConvStateCreating"
  by (simp_all add: conv_defs)

lemma terminal_reasons_not_Nil [simp]:
  "TerminalApproved \<noteq> []" "TerminalNoConvergence \<noteq> []" "TerminalStopped \<noteq> []" "TerminalPartialCreation \<noteq> []"
  "WaitManual \<noteq> []" "WaitHybridNoCondition \<noteq> []" "WaitTimeout \<noteq> []" "WaitSlingFailure \<noteq> []"
  by (simp_all add: conv_defs)

lemma IdempotencyKey_not_Nil [simp]: "IdempotencyKey r n \<noteq> []"
  by (simp add: IdempotencyKey_def)

section \<open>The view under the writes\<close>

lemma rooted_put [simp]: "rooted root (put_meta i k v L) = rooted root L" "rooted root (put_closed i L) = rooted root L"
  by (auto simp: rooted_def put_meta_def put_closed_def split: option.splits)

lemma rmeta_put:
  "rooted root L \<Longrightarrow> rmeta root k' (put_meta root k v L) = (if k' = k then v else rmeta root k' L)"
  by (auto simp: rooted_def rmeta_def put_meta_def)

lemma rmeta_put_other [simp]: "k' \<noteq> k \<Longrightarrow> rmeta root k' (put_meta i k v L) = rmeta root k' L"
  by (auto simp: rmeta_def put_meta_def split: option.splits)

lemma rmeta_put_closed [simp]: "rmeta root k (put_closed i L) = rmeta root k L"
  by (auto simp: rmeta_def put_closed_def split: option.splits)

lemma rstatus_put [simp]:
  "rstatus root (put_meta i k v L) = rstatus root L" "i \<noteq> root \<Longrightarrow> rstatus root (put_closed i L) = rstatus root L"
  by (auto simp: rstatus_def put_meta_def put_closed_def split: option.splits)

lemma rstatus_put_closed: "rooted root L \<Longrightarrow> rstatus root (put_closed root L) = ''closed''"
  by (auto simp: rooted_def rstatus_def put_closed_def)

lemma extends_root: "rooted root L \<Longrightarrow> extends L L' \<Longrightarrow> L' root = L root"
  by (auto simp: rooted_def extends_def)

lemma has_key_put [simp]: "has_key (put_meta i k v L) w key = has_key L w key"
  by (auto simp: has_key_def put_meta_def split: option.splits)

lemma has_key_not_root: "rooted root L \<Longrightarrow> has_key L w key \<Longrightarrow> key \<noteq> [] \<Longrightarrow> w \<noteq> root"
  by (auto simp: rooted_def has_key_def)

lemma info_has_key: "info_of L i info \<Longrightarrow> has_key L i (biIdempotencyKey info)"
  by (auto simp: info_of_def has_key_def)

lemma child_not_root: "rooted root L \<Longrightarrow> info_of L i info \<Longrightarrow> biParentID info = p \<Longrightarrow> p \<noteq> [] \<Longrightarrow> i \<noteq> root"
  by (auto simp: rooted_def info_of_def)

lemma meta_of_rmeta: "meta_of L root meta \<Longrightarrow> protected k \<Longrightarrow> mget meta k = rmeta root k L"
  by (auto simp: meta_of_def rmeta_def)

text \<open>What a component of an invariant must survive: harmless writes to the root, and for the larger class
  also new beads and the deletion of other beads.\<close>

definition put_stable :: "string \<Rightarrow> (loopView \<Rightarrow> bool) \<Rightarrow> bool" where
  "put_stable root I \<longleftrightarrow> (\<forall>L k v. I L \<longrightarrow> k \<in> harmless \<longrightarrow> I (put_meta root k v L))"

definition root_stable :: "string \<Rightarrow> (loopView \<Rightarrow> bool) \<Rightarrow> bool" where
  "root_stable root I \<longleftrightarrow> put_stable root I \<and> (\<forall>L. I L \<longrightarrow> rooted root L) \<and> (\<forall>L L'. I L \<longrightarrow> extends L L' \<longrightarrow> I L')
     \<and> (\<forall>L i. I L \<longrightarrow> i \<noteq> root \<longrightarrow> I (L(i := None)))"

lemma root_stableI:
  assumes "\<And>L. I L \<Longrightarrow> rooted root L" and "\<And>L L'. I L \<Longrightarrow> L' root = L root \<Longrightarrow> I L'"
    and "\<And>L k v. I L \<Longrightarrow> k \<in> harmless \<Longrightarrow> I (put_meta root k v L)"
  shows "root_stable root I"
  unfolding root_stable_def put_stable_def
proof (intro conjI allI impI)
  fix L L' :: loopView assume "I L" and "extends L L'"
  with assms(1,2) show "I L'" by (blast intro: extends_root)
next
  fix L :: loopView and i assume "I L" and "i \<noteq> root"
  with assms(2) show "I (L(i := None))" by simp
qed (use assms in blast)+

lemma rmeta_put_harmless:
  assumes "k \<in> harmless"
  shows "rmeta root FieldState (put_meta i k v L) = rmeta root FieldState L"
    "rmeta root FieldTerminalReason (put_meta i k v L) = rmeta root FieldTerminalReason L"
    "rmeta root FieldTerminalActor (put_meta i k v L) = rmeta root FieldTerminalActor L"
    "rmeta root FieldActiveWisp (put_meta i k v L) = rmeta root FieldActiveWisp L"
    "rmeta root FieldLastProcessedWisp (put_meta i k v L) = rmeta root FieldLastProcessedWisp L"
  using harmless_not [OF assms] by (simp_all add: rmeta_put_other [OF not_sym])

lemma live_stable: "root_stable root (live root)"
proof (rule root_stableI)
  fix L L' :: loopView assume "live root L" and "L' root = L root"
  then show "live root L'" by (simp add: live_def rooted_def rmeta_def rstatus_def)
qed (simp_all add: live_def rmeta_put_harmless)

lemma ended_stable: "root_stable root (ended root)"
proof (rule root_stableI)
  fix L L' :: loopView assume "ended root L" and "L' root = L root"
  then show "ended root L'" by (simp add: ended_def rooted_def rmeta_def)
qed (simp_all add: ended_def rmeta_put_harmless)

lemma loop_inv_weaker [simp]: "weaker (live root) (loop_inv root)" "weaker (ended root) (loop_inv root)"
  by (auto simp: weaker_def loop_inv_def)

section \<open>Helpers of the handler\<close>

lemma triple_pure: "(p \<Longrightarrow> triple look ok P m Q) \<Longrightarrow> triple look ok (\<lambda>L. P L \<and> p) m Q"
  unfolding triple_def by blast

lemma triple_if_cases:
  "(c \<Longrightarrow> triple look ok P a Q) \<Longrightarrow> (\<not> c \<Longrightarrow> triple look ok P b Q) \<Longrightarrow> triple look ok P (if c then a else b) Q"
  by simp

lemma root_stable_put: "root_stable root I \<Longrightarrow> put_stable root I"
  by (simp add: root_stable_def)

lemma put_stable_conj_key: "put_stable root I \<Longrightarrow> put_stable root (\<lambda>L. I L \<and> (x = [] \<or> has_key L x key))"
  by (auto simp: put_stable_def)

text \<open>A wisp id that is safe to delete: none, or the bead with the given key, which is not the root.\<close>

definition safe_id :: "string \<Rightarrow> string \<Rightarrow> string \<Rightarrow> loopView \<Rightarrow> bool" where
  "safe_id root key x L \<longleftrightarrow> x = [] \<or> x \<noteq> root \<and> has_key L x key"

context conv_store
begin

lemma put_into:
  assumes "hStore h = st" and "put_stable root I" and "k \<in> harmless" and "weaker I K"
  shows "into look ok I K (PutMetadata h root k v)"
  using assms unfolding into_def put_stable_def weaker_def by (intro t_PutMetadata) (auto intro: harmless_protected)

lemma clear_verdict_keeps:
  assumes "hStore h = st" and "put_stable root I"
  shows "keeps look ok I (clear_verdict h root)"
  unfolding clear_verdict_def by (intro into_intros put_into assms weaker_refl) simp_all

lemma commit_writes_keeps:
  assumes "hStore h = st" and "put_stable root I" and "\<forall>w \<in> set ws. mwKey w \<in> harmless"
  shows "keeps look ok I (commit_writes h root ws)"
  using assms(3)
proof (induction ws)
  case Nil
  show ?case by (simp add: into_ret)
next
  case (Cons w ws)
  then show ?case unfolding commit_writes.simps by (intro into_intros put_into assms(1,2) weaker_refl) auto
qed

lemma persistGateOutcome_keeps:
  assumes "hStore h = st" and "put_stable root I"
  shows "keeps look ok I (persistGateOutcome h root w g)"
  unfolding persistGateOutcome_def commit_def
  by (intro into_intros commit_writes_keeps put_into assms weaker_refl) (auto simp: mw_def)

lemma delete_children:
  assumes "\<And>i. i \<noteq> root \<Longrightarrow> keeps look ok I (delete_subtree n h i)" and "\<forall>c \<in> set cs. biID c \<noteq> root"
  shows "keeps look ok I (foldr (\<lambda>child rest. bindE (delete_subtree n h (biID child)) (\<lambda>_. rest)) cs (ret ()))"
  using assms(2)
proof (induction cs)
  case Nil
  show ?case by (simp add: into_ret)
next
  case (Cons c cs)
  then show ?case by (auto intro!: into_bindE assms(1))
qed

lemma children_safe:
  assumes "hStore h = st" and "root_stable root I"
  shows "triple look ok I (ChildrenOf h i) (\<lambda>r L. I L \<and> (\<forall>cs. r = Inr cs \<longrightarrow> (\<forall>c \<in> set cs. biID c \<noteq> root)))"
proof (rule t_ChildrenOf [OF assms(1)])
  fix cs L
  assume "I L" and "i \<noteq> []" and "\<forall>c \<in> set cs. info_of L (biID c) c \<and> biParentID c = i"
  then show "I L \<and> (\<forall>csa. Inr cs = Inr csa \<longrightarrow> (\<forall>c \<in> set csa. biID c \<noteq> root))"
    using child_not_root [of root L] assms(2) unfolding root_stable_def by (metis Inr_inject)
qed simp

lemma delete_subtree_keeps:
  assumes "hStore h = st" and "root_stable root I" and "i \<noteq> root"
  shows "keeps look ok I (delete_subtree n h i)"
  using assms(3)
proof (induction n arbitrary: i)
  case 0
  show ?case by (simp add: into_fail)
next
  case (Suc n)
  have c: "triple look ok I (wrap msg (ChildrenOf h i)) (\<lambda>r L. I L \<and> (\<forall>cs. r = Inr cs \<longrightarrow> (\<forall>c \<in> set cs. biID c \<noteq> root)))" for msg
    by (rule triple_wrap [OF children_safe [OF assms(1,2)]]) auto
  have d: "keeps look ok I (DeleteBead h i)"
    using assms(2) Suc.prems unfolding into_def root_stable_def by (intro t_DeleteBead assms(1)) auto
  show ?case unfolding delete_subtree.simps into_def
  proof (rule triple_bindE [OF c])
    fix cs
    have "triple look ok I (bindE (foldr (\<lambda>child rest. bindE (delete_subtree n h (biID child)) (\<lambda>_. rest)) cs (ret ()))
        (\<lambda>_. wrap ''deleting bead'' (DeleteBead h i))) (\<lambda>r. I)" if "\<forall>c \<in> set cs. biID c \<noteq> root"
      using into_bindE [OF weaker_refl delete_children [OF Suc.IH that] into_wrap [OF d]] unfolding into_def .
    from triple_pure [OF this]
    show "triple look ok (\<lambda>L. I L \<and> (\<forall>csa. Inr cs = Inr csa \<longrightarrow> (\<forall>c \<in> set csa. biID c \<noteq> root)))
      (bindE (foldr (\<lambda>child rest. bindE (delete_subtree n h (biID child)) (\<lambda>_. rest)) cs (ret ()))
        (\<lambda>_. wrap ''deleting bead'' (DeleteBead h i))) (\<lambda>r. I)" by simp
  qed simp
qed

lemma burn_keeps:
  assumes "hStore h = st" and "root_stable root I" and "i = [] \<or> i \<noteq> root"
  shows "keeps look ok I (burnSpeculativeWisp h root i)"
  unfolding burnSpeculativeWisp_def deleteBeadSubtree_def
  using assms by (intro into_intros delete_subtree_keeps put_into root_stable_put weaker_refl) auto

lemma valid_pending:
  assumes "hStore h = st" and "root_stable root I" and "key \<noteq> []"
  shows "triple look ok I (validPendingNextWisp h root key p) (\<lambda>r L. I L \<and> (\<forall>x. r = Inr x \<longrightarrow> safe_id root key x L))"
proof (cases "p = []")
  case True
  then show ?thesis by (auto simp: validPendingNextWisp_def safe_id_def intro!: triple_ret)
next
  case False
  let ?Q = "\<lambda>r L. I L \<and> (\<forall>x. r = Inr x \<longrightarrow> safe_id root key x L)"
  have clear: "triple look ok I (ignore (PutMetadata h root FieldPendingNextWisp []) (ret [])) ?Q"
    unfolding ignore_def
    by (rule triple_attempt [where R = "\<lambda>r. I"])
      (use put_into [OF assms(1) root_stable_put [OF assms(2)]] in \<open>auto simp: into_def safe_id_def intro!: triple_ret\<close>)
  show ?thesis unfolding validPendingNextWisp_def using False
  proof (simp, intro triple_attempt [where R = "\<lambda>r L. I L \<and> (\<forall>info. r = Inr info \<longrightarrow> info_of L p info)"] t_GetBead assms(1))
    fix r :: "ConvError + BeadInfo"
    let ?c = "case r of Inl e \<Rightarrow> True | Inr info \<Rightarrow> biParentID info \<noteq> root \<or> biIdempotencyKey info \<noteq> key \<or> biStatus info = ''closed''"
    show "triple look ok (\<lambda>L. I L \<and> (\<forall>info. r = Inr info \<longrightarrow> info_of L p info))
      (if ?c then ignore (PutMetadata h root FieldPendingNextWisp []) (ret []) else ret p) ?Q"
    proof (cases ?c)
      case True
      show ?thesis unfolding if_P [OF True] by (rule triple_conseq [OF clear]) auto
    next
      case False
      then obtain info where r: "r = Inr info" "biIdempotencyKey info = key" by (cases r) auto
      have "safe_id root key p L" if "I L" "info_of L p info" for L
        using info_has_key [OF that(2)] has_key_not_root [of root L p key] that assms(2,3) r(2)
        by (auto simp: safe_id_def root_stable_def)
      with False r show ?thesis by (auto intro!: triple_ret)
    qed
  qed auto
qed

lemma pour_or_find_safe:
  assumes "hStore h = st" and "root_stable root I" and "key \<noteq> []"
    and "pour = PourWisp h p f key vars prompt \<or> pour = PourSpeculativeWisp h p f key vars prompt"
  shows "triple look ok I (pour_or_find h pour key)
    (\<lambda>r L. I L \<and> (\<forall>x e. r = Inr (x, e) \<longrightarrow> safe_id root key x L \<and> (e = None \<longrightarrow> has_key L x key \<and> x \<noteq> root) \<and> (e \<noteq> None \<longrightarrow> x = [])))"
proof -
  have nr: "w \<noteq> root" if "I L" "has_key L w key" for L w
    using that has_key_not_root [of root L w key] assms(2,3) by (auto simp: root_stable_def)
  have ext: "I L'" if "I L" "extends L L'" for L L' using that assms(2) by (auto simp: root_stable_def)
  let ?Q = "\<lambda>r L. I L \<and> (\<forall>x e. r = Inr (x, e) \<longrightarrow> safe_id root key x L \<and> (e = None \<longrightarrow> has_key L x key \<and> x \<noteq> root) \<and> (e \<noteq> None \<longrightarrow> x = []))"
  have find: "triple look ok I (attempt (FindByIdempotencyKey h key) (\<lambda>l. case l of
             Inr (existingID, found) \<Rightarrow> if found then ret (existingID, None) else ret ([], Some err)
           | Inl e \<Rightarrow> ret ([], Some err))) ?Q" for err
    by (rule triple_attempt [where R = "\<lambda>l L. I L \<and> (\<forall>w. l = Inr (w, True) \<longrightarrow> has_key L w key)"])
      (auto intro!: t_Find assms(1) triple_ret dest: nr simp: safe_id_def split: sum.splits prod.splits)
  show ?thesis unfolding pour_or_find_def
  proof (rule triple_attempt [where R = "\<lambda>r L. I L \<and> (\<forall>w. r = Inr w \<longrightarrow> has_key L w key)"])
    show "triple look ok I pour (\<lambda>r L. I L \<and> (\<forall>w. r = Inr w \<longrightarrow> has_key L w key))"
      by (rule t_pour [OF assms(1,4)]) (auto intro: ext)
  next
    fix r
    show "triple look ok (\<lambda>L. I L \<and> (\<forall>w. r = Inr w \<longrightarrow> has_key L w key)) (case r of
         Inr i \<Rightarrow> ret (i, None)
       | Inl err \<Rightarrow> attempt (FindByIdempotencyKey h key) (\<lambda>l. case l of
             Inr (existingID, found) \<Rightarrow> if found then ret (existingID, None) else ret ([], Some err)
           | Inl e \<Rightarrow> ret ([], Some err))) ?Q"
    proof (cases r)
      case (Inl e)
      then show ?thesis by (auto intro: triple_conseq [OF find [of e]])
    next
      case (Inr w)
      then show ?thesis by (auto intro!: triple_ret dest: nr simp: safe_id_def)
    qed
  qed
qed

end

end
