(* ===== verification/Conv_Process.thy ===== *)
theory Conv_Process
  imports Conv_Invariant
begin

text \<open>
  The wisp-closed handler over the store contract: whatever invariant its four transitions lead to, the
  whole handler leads to.  The transitions are then instantiated twice, for the invariant of the root
  and for the statement that the dedup marker is written last.
\<close>

context conv_store
begin

lemma put_stable_safe: "put_stable root I \<Longrightarrow> put_stable root (\<lambda>L. I L \<and> safe_id root key x L)"
  by (auto simp: put_stable_def safe_id_def)

lemma safe_burn:
  assumes "hStore h = st" and "root_stable root I"
  shows "triple look ok (\<lambda>L. I L \<and> safe_id root key x L) (burnSpeculativeWisp h root x) (\<lambda>r. I)"
proof -
  have "triple look ok (\<lambda>L. I L \<and> (x = [] \<or> x \<noteq> root)) (burnSpeculativeWisp h root x) (\<lambda>r. I)"
    by (rule triple_pure) (use burn_keeps [OF assms] in \<open>simp add: into_def\<close>)
  then show ?thesis by (rule triple_conseq) (auto simp: safe_id_def)
qed

lemma burn_then_into:
  assumes "hStore h = st" and "root_stable root I" and "weaker I K" and "into look ok I K k"
  shows "into look ok (\<lambda>L. I L \<and> safe_id root key x L) K (burn_then h root x msg k)"
  unfolding burn_then_def into_def
  by (rule triple_bindE [OF triple_wrap [OF safe_burn [OF assms(1,2)], where Q = "\<lambda>r. I"]])
    (use assms(3,4) in \<open>auto simp: into_def weaker_def\<close>)

text \<open>The two failures after which the speculative wisp is burned.\<close>

lemma burn_and_fail:
  assumes "hStore h = st" and "root_stable root I" and "weaker I K"
  shows "into look ok (\<lambda>L. I L \<and> safe_id root key x L) K
    (attempt (burnSpeculativeWisp h root x) (\<lambda>b. case b of Inl e' \<Rightarrow> fail (f e') | Inr _ \<Rightarrow> fail g))"
  unfolding into_def
  by (rule triple_attempt [OF safe_burn [OF assms(1,2)]])
    (use assms(3) in \<open>auto simp: weaker_def intro: triple_fail split: sum.splits\<close>)

lemma record_pending_safe:
  assumes "hStore h = st" and "root_stable root I"
  shows "triple look ok (\<lambda>L. I L \<and> safe_id root key i L) (record_pending h root i pourErr)
    (\<lambda>r L. I L \<and> (\<forall>x e. r = Inr (x, e) \<longrightarrow> safe_id root key x L))" (is "triple look ok ?P _ ?Q")
proof -
  have p: "triple look ok ?P (PutMetadata h root FieldPendingNextWisp i) (\<lambda>r. ?P)"
    using put_into [OF assms(1) put_stable_safe [OF root_stable_put [OF assms(2)]] _ weaker_refl, of FieldPendingNextWisp key i i]
    by (simp add: into_def)
  show ?thesis unfolding record_pending_def
  proof (rule triple_if_cases [OF triple_attempt [OF p]])
    fix r :: "ConvError + unit"
    show "triple look ok ?P (case r of
           Inr _ \<Rightarrow> ret (i, pourErr)
         | Inl e \<Rightarrow> attempt (burnSpeculativeWisp h root i) (\<lambda>b. case b of
               Inl e' \<Rightarrow> fail (ConvWrap ''setting pending next wisp; additionally burning speculative wisp'' e)
             | Inr _ \<Rightarrow> fail (ConvWrap ''setting pending next wisp'' e))) ?Q"
      by (cases r)
        (auto intro!: triple_ret triple_attempt [OF safe_burn [OF assms(1,2)]] triple_fail split: sum.splits)
  qed (auto intro!: triple_ret)
qed

lemma speculate_safe:
  assumes "hStore h = st" and "root_stable root I" and "key \<noteq> []"
  shows "triple look ok I (speculate h root key meta want) (\<lambda>r L. I L \<and> (\<forall>x e. r = Inr (x, e) \<longrightarrow> safe_id root key x L))"
    (is "triple look ok I _ ?Q")
  unfolding speculate_def
proof (rule triple_bindE [OF valid_pending [OF assms]])
  fix pending
  have pour: "triple look ok I (bindE (pour_or_find h (PourSpeculativeWisp h root f key vars prompt) key)
      (\<lambda>(i, pourErr). record_pending h root i pourErr)) ?Q" for f vars prompt
  proof (rule triple_bindE [OF pour_or_find_safe [OF assms disjI2 [OF refl]]])
    fix x :: "string \<times> ConvError option"
    obtain i e where x: "x = (i, e)" by (cases x)
    show "triple look ok (\<lambda>L. I L \<and> (\<forall>xa ea. Inr x = Inr (xa, ea) \<longrightarrow>
        safe_id root key xa L \<and> (ea = None \<longrightarrow> has_key L xa key \<and> xa \<noteq> root) \<and> (ea \<noteq> None \<longrightarrow> xa = [])))
      (case x of (i, pourErr) \<Rightarrow> record_pending h root i pourErr) ?Q"
      unfolding x prod.case by (rule triple_conseq [OF record_pending_safe [OF assms(1,2), where key = key]]) auto
  qed auto
  show "triple look ok (\<lambda>L. I L \<and> (\<forall>x. Inr pending = Inr x \<longrightarrow> safe_id root key x L))
    (if want \<and> pending = [] then bindE (pour_or_find h (PourSpeculativeWisp h root (mget meta FieldFormula) key (ExtractVars meta)
        (mget meta FieldEvaluatePrompt)) key) (\<lambda>(i, pourErr). record_pending h root i pourErr)
     else ret (pending, None)) ?Q"
    by (rule triple_if_cases) (auto intro: triple_conseq [OF pour] intro!: triple_ret)
qed auto

section \<open>The handler from its transitions\<close>

lemma persist_or_burn_into:
  assumes "hStore h = st" and "root_stable root I" and "weaker I K"
    and "into look ok (\<lambda>L. I L \<and> safe_id root key x L) K k"
  shows "into look ok (\<lambda>L. I L \<and> safe_id root key x L) K (persist_or_burn h root w g x k)"
  unfolding persist_or_burn_def
proof (rule into_attempt [OF persistGateOutcome_keeps [OF assms(1) put_stable_safe [OF root_stable_put [OF assms(2)]]]])
  fix r :: "ConvError + unit"
  show "into look ok (\<lambda>L. I L \<and> safe_id root key x L) K (case r of
         Inr _ \<Rightarrow> k
       | Inl e \<Rightarrow> attempt (burnSpeculativeWisp h root x) (\<lambda>b. case b of
             Inl e' \<Rightarrow> fail (ConvWrap ''persisting gate outcome; additionally burning speculative wisp'' e)
           | Inr _ \<Rightarrow> fail (ConvWrap ''persisting gate outcome'' e)))"
    using assms(4) burn_and_fail [OF assms(1-3)] by (cases r) auto
qed

lemma conclude_into:
  assumes "hStore h = st" and "root_stable root I" and "weaker I K"
    and manual: "\<And>gr reason oc. reason \<noteq> [] \<Longrightarrow> into look ok I K (transitionToWaitingManual h root w n gc gr reason oc meta)"
    and trigger: "\<And>gr. into look ok I K (transitionToWaitingTrigger h root w n gc gr meta)"
    and final: "\<And>gr reason. reason \<noteq> [] \<Longrightarrow> into look ok I K (terminate h root w n gc gr reason ''controller'' g meta)"
    and iter: "\<And>gr. into look ok (\<lambda>L. I L \<and> safe_id root key x L) K (iterate h root w n gc gr meta x)"
  shows "into look ok (\<lambda>L. I L \<and> safe_id root key x L) K (conclude h root w n mx g gc tc gr meta x pe)"
proof -
  have drop: "into look ok (\<lambda>L. I L \<and> safe_id root key x L) K m" if "into look ok I K m" for m :: "('s, HandlerResult) act"
    using that unfolding into_def by (rule triple_conseq) auto
  have reason: "terminal_reason gc gr n mx = Some reason \<Longrightarrow> reason \<noteq> []" for reason
    by (auto simp: terminal_reason_def split: if_splits)
  show ?thesis unfolding conclude_def handleSlingFailure_def
    by (intro into_if into_case_option burn_then_into drop assms(1-3) manual trigger final iter) (auto dest: reason)
qed

lemma process_wisp_into:
  assumes "hStore h = st" and "root_stable root I" and "weaker I K"
    and manual: "\<And>gr reason oc. reason \<noteq> [] \<Longrightarrow> into look ok I K (transitionToWaitingManual h root w n gc gr reason oc meta)"
    and trigger: "\<And>gr. into look ok I K (transitionToWaitingTrigger h root w n gc gr meta)"
    and final: "\<And>gr reason. reason \<noteq> [] \<Longrightarrow> into look ok I K (terminate h root w n gc gr reason ''controller'' g meta)"
    and iter: "\<And>gr x. into look ok (\<lambda>L. I L \<and> safe_id root (IdempotencyKey root (n + 1)) x L) K (iterate h root w n gc gr meta x)"
  shows "into look ok I K (process_wisp h rn root w meta n g gc tc)"
proof -
  let ?key = "IdempotencyKey root (n + 1)"
  let ?J = "\<lambda>x L. I L \<and> safe_id root ?key x L"
  have drop: "into look ok (?J x) K m" if "into look ok I K m" for m :: "('s, HandlerResult) act" and x
    using that unfolding into_def by (rule triple_conseq) auto
  have kJ: "keeps look ok (?J x) (evaluateGate h rn gc meta w n v root)" for x v
    by (rule evaluateGate_keeps [OF assms(1)])
  have wJ: "weaker (?J x) K" for x using assms(3) by (auto simp: weaker_def)
  have broken: "into look ok I K (bindE (validPendingNextWisp h root ?key p) (\<lambda>pending.
      bindE (if pending \<noteq> [] then wrap msg (burnSpeculativeWisp h root pending) else ret ()) (\<lambda>_. fail e)))" for p msg e
    unfolding into_def
  proof (rule triple_bindE [OF valid_pending [OF assms(1,2) IdempotencyKey_not_Nil]])
    fix pending
    have b: "triple look ok (?J pending) (if pending \<noteq> [] then wrap msg (burnSpeculativeWisp h root pending) else ret ()) (\<lambda>r. I)"
      by (rule triple_if_cases) (auto intro: triple_wrap [OF safe_burn [OF assms(1,2)]] triple_ret)
    show "triple look ok (\<lambda>L. I L \<and> (\<forall>x. Inr pending = Inr x \<longrightarrow> safe_id root ?key x L))
       (bindE (if pending \<noteq> [] then wrap msg (burnSpeculativeWisp h root pending) else ret ()) (\<lambda>_. fail e)) (\<lambda>r. K)"
      using assms(3) by (intro triple_bindE [OF triple_conseq [OF b]] triple_fail) (auto simp: weaker_def)
  qed (use assms(3) in \<open>auto simp: weaker_def\<close>)
  have go: "into look ok (?J x) K (conclude h root w n mx g gc tc gr meta x pe)" for x gr pe mx
    by (rule conclude_into [OF assms(1-3) manual trigger final iter])
  have spec: "into look ok I K (bindE (speculate h root ?key meta want) (\<lambda>(x, pe). f x pe))"
    if "\<And>x pe. into look ok (?J x) K (f x pe)" for want and f :: "string \<Rightarrow> ConvError option \<Rightarrow> ('s, HandlerResult) act"
    unfolding into_def
  proof (rule triple_bindE [OF speculate_safe [OF assms(1,2) IdempotencyKey_not_Nil]])
    fix y :: "string \<times> ConvError option"
    obtain x pe where y: "y = (x, pe)" by (cases y)
    show "triple look ok (\<lambda>L. I L \<and> (\<forall>x e. Inr y = Inr (x, e) \<longrightarrow> safe_id root ?key x L)) (case y of (x, pe) \<Rightarrow> f x pe) (\<lambda>r. K)"
      using that [of x pe] unfolding y prod.case into_def by (rule triple_conseq) auto
  qed (use assms(3) in \<open>auto simp: weaker_def\<close>)
  show ?thesis unfolding process_wisp_def Let_def
    by (rule into_if, rule broken, rule spec,
        intro into_if go burn_then_into drop manual into_bindE wJ kJ persist_or_burn_into assms(1-3), simp_all)
qed

text \<open>The front of the handler.  A says what is known of the key of the closed wisp.\<close>

lemma HandleWispClosed_into:
  assumes "hStore h = st" and "root_stable root I" and "weaker I K"
    and alive: "\<And>L meta. I L \<Longrightarrow> meta_of L root meta \<Longrightarrow> mget meta FieldState \<noteq> ConvStateTerminated"
    and process: "\<And>meta n g gc tc key. A key \<Longrightarrow> ParseIterationFromKey key = (n, True) \<Longrightarrow>
      into look ok I K (process_wisp h rn root w meta n g gc tc)"
  shows "triple look ok (\<lambda>L. I L \<and> (\<forall>key. has_key L w key \<longrightarrow> A key)) (HandleWispClosed h rn root w) (\<lambda>r. K)"
proof -
  let ?P = "\<lambda>L. I L \<and> (\<forall>key. has_key L w key \<longrightarrow> A key)"
  have IK: "I L \<Longrightarrow> K L" for L using assms(3) by (simp add: weaker_def)
  have m: "triple look ok ?P (wrap msg (GetMetadata h root))
      (\<lambda>r L. ?P L \<and> (\<forall>meta. r = Inr meta \<longrightarrow> mget meta FieldState \<noteq> ConvStateTerminated))" for msg
    by (rule triple_wrap [OF t_GetMetadata [OF assms(1),
          where Q = "\<lambda>r L. ?P L \<and> (\<forall>meta. r = Inr meta \<longrightarrow> mget meta FieldState \<noteq> ConvStateTerminated)"]]) (auto dest: alive)
  have b: "triple look ok ?P (wrap msg (GetBead h w)) (\<lambda>r L. I L \<and> (\<forall>info. r = Inr info \<longrightarrow> A (biIdempotencyKey info)))" for msg
    by (rule triple_wrap [OF t_GetBead [OF assms(1),
          where Q = "\<lambda>r L. I L \<and> (\<forall>info. r = Inr info \<longrightarrow> A (biIdempotencyKey info))"]]) (auto dest: info_has_key)
  have rest: "into look ok I K (dedup_and_process h rn root w meta key)" if "A key" for key meta
    unfolding dedup_and_process_def using that
    by (intro into_intros last_processed_keeps deriveIterationCount_keeps put_into root_stable_put assms(1-3) weaker_refl)
      (auto intro: process)
  have go: "triple look ok ?P (bindE (wrap msg (GetBead h w)) (\<lambda>info. dedup_and_process h rn root w meta (biIdempotencyKey info))) (\<lambda>r. K)"
    for msg meta
  proof (rule triple_bindE [OF b])
    fix info :: BeadInfo
    have "triple look ok (\<lambda>L. I L \<and> A (biIdempotencyKey info)) (dedup_and_process h rn root w meta (biIdempotencyKey info)) (\<lambda>r. K)"
      by (rule triple_pure) (use rest in \<open>simp add: into_def\<close>)
    then show "triple look ok (\<lambda>L. I L \<and> (\<forall>infoa. Inr info = Inr infoa \<longrightarrow> A (biIdempotencyKey infoa)))
       (dedup_and_process h rn root w meta (biIdempotencyKey info)) (\<lambda>r. K)" by simp
  qed (auto intro: IK)
  show ?thesis unfolding HandleWispClosed_def
  proof (rule triple_bindE [OF m])
    fix meta
    show "triple look ok (\<lambda>L. ?P L \<and> (\<forall>m. Inr meta = Inr m \<longrightarrow> mget m FieldState \<noteq> ConvStateTerminated))
      (if mget meta FieldState = ConvStateTerminated
       then ignore (CloseBead h root CloseReasonHandlerCleanup) (ret (zero_HandlerResult\<lparr>hrAction := ActionSkipped\<rparr>))
       else bindE (wrap ''reading wisp info'' (GetBead h w)) (\<lambda>info. dedup_and_process h rn root w meta (biIdempotencyKey info))) (\<lambda>r. K)"
      by (cases "mget meta FieldState = ConvStateTerminated") (auto simp: triple_def dest: tripleD [OF go])
  qed (auto intro: IK)
qed

end

section \<open>Transitions of a live root\<close>

lemma live_put:
  "live root L \<Longrightarrow> (k = FieldState \<Longrightarrow> v \<noteq> ConvStateTerminated) \<Longrightarrow> (k = FieldActiveWisp \<Longrightarrow> v \<noteq> root) \<Longrightarrow> live root (put_meta root k v L)"
  by (auto simp: live_def rmeta_put)

lemma ended_put:
  "ended root L \<Longrightarrow> k \<noteq> FieldState \<Longrightarrow> (k = FieldActiveWisp \<Longrightarrow> v \<noteq> root) \<Longrightarrow> k \<noteq> FieldTerminalReason \<Longrightarrow>
   (k = FieldTerminalActor \<Longrightarrow> v \<noteq> []) \<Longrightarrow> ended root (put_meta root k v L)"
  by (auto simp: ended_def rmeta_put)

lemma marker_put [simp]:
  "live root L \<Longrightarrow> live root (put_meta root FieldLastProcessedWisp v L)" "ended root L \<Longrightarrow> ended root (put_meta root FieldLastProcessedWisp v L)"
  by (auto intro!: live_put ended_put)

lemma ended_closed [simp]: "ended root (put_closed i L) = ended root L"
  by (simp add: ended_def)

lemma live_closed_other: "live root L \<Longrightarrow> i \<noteq> root \<Longrightarrow> live root (put_closed i L)"
  by (simp add: live_def)

text \<open>What has been written when the marker of the wisp is on the root.\<close>

definition committed :: "string \<Rightarrow> string \<Rightarrow> loopView \<Rightarrow> bool" where
  "committed root nextKey L \<longleftrightarrow>
     (rmeta root FieldState L = ConvStateTerminated \<and> rstatus root L = ''closed'')
   \<or> (rmeta root FieldState L = ConvStateWaitingManual \<and> rmeta root FieldActiveWisp L = [] \<and> rmeta root FieldWaitingReason L \<noteq> [])
   \<or> (rmeta root FieldState L = ConvStateWaitingTrigger \<and> rmeta root FieldActiveWisp L = [])
   \<or> has_key L (rmeta root FieldActiveWisp L) nextKey"

definition uncommitted :: "bool \<Rightarrow> string \<Rightarrow> string \<Rightarrow> loopView \<Rightarrow> bool" where
  "uncommitted c root w L \<longleftrightarrow> (c \<longrightarrow> rmeta root FieldLastProcessedWisp L \<noteq> w)"

definition pre_commit :: "bool \<Rightarrow> string \<Rightarrow> string \<Rightarrow> loopView \<Rightarrow> bool" where
  "pre_commit c root w L \<longleftrightarrow> live root L \<and> uncommitted c root w L"

definition post_commit :: "bool \<Rightarrow> string \<Rightarrow> string \<Rightarrow> string \<Rightarrow> loopView \<Rightarrow> bool" where
  "post_commit c root w nextKey L \<longleftrightarrow> loop_inv root L \<and> (uncommitted c root w L \<or> committed root nextKey L)"

lemma uncommitted_put [simp]: "k \<noteq> FieldLastProcessedWisp \<Longrightarrow> uncommitted c root w (put_meta i k v L) = uncommitted c root w L"
  "uncommitted c root w (put_closed i L) = uncommitted c root w L"
  by (simp_all add: uncommitted_def)

lemma pre_post [simp]: "weaker (pre_commit c root w) (post_commit c root w key)"
  by (simp add: weaker_def pre_commit_def post_commit_def loop_inv_def)

lemma pre_commit_stable: "root_stable root (pre_commit c root w)"
proof (rule root_stableI)
  fix L L' :: loopView assume "pre_commit c root w L" and "L' root = L root"
  then show "pre_commit c root w L'" by (simp add: pre_commit_def uncommitted_def live_def rooted_def rmeta_def rstatus_def)
qed (simp_all add: pre_commit_def uncommitted_def live_def rmeta_put_harmless)

lemma pre_commit_put:
  "pre_commit c root w L \<Longrightarrow> k \<noteq> FieldLastProcessedWisp \<Longrightarrow> (k = FieldState \<Longrightarrow> v \<noteq> ConvStateTerminated) \<Longrightarrow> (k = FieldActiveWisp \<Longrightarrow> v \<noteq> root)
   \<Longrightarrow> pre_commit c root w (put_meta root k v L)"
  unfolding pre_commit_def by (auto intro!: live_put)

lemma bindE_assoc: "bindE (bindE m k) l = bindE m (\<lambda>x. bindE (k x) l)"
  by (rule ext) (auto simp: bindE_def attempt_def fail_def split: prod.splits sum.splits)

lemma bindE_ret [simp]: "bindE (ret x) k = k x"
  by (rule ext) (simp add: bindE_def attempt_def ret_def)

lemma commit_writes_append: "commit_writes h root (ws @ vs) = bindE (commit_writes h root ws) (\<lambda>_. commit_writes h root vs)"
  by (induction ws) (simp_all add: bindE_assoc)

lemma mw_sels [simp]: "mwKey (mw k v d) = k" "mwValue (mw k v d) = v" "mwDesc (mw k v d) = d"
  by (simp_all add: mw_def)

lemma commit_None:
  "commit h root ws None (mw k v d) = bindE (commit_writes h root ws) (\<lambda>_. if v = [] then ret () else wrap d (PutMetadata h root k v))"
  by (simp only: commit_def option.case bindE_ret mw_sels)

lemma commit_Some:
  "commit h root ws (Some p) (mw k v d) =
     bindE (commit_writes h root ws) (\<lambda>_. bindE p (\<lambda>_. if v = [] then ret () else wrap d (PutMetadata h root k v)))"
  by (simp only: commit_def option.case mw_sels)

definition facts :: "string \<Rightarrow> (string \<times> string) list \<Rightarrow> loopView \<Rightarrow> bool" where
  "facts root fs L \<longleftrightarrow> (\<forall>(k, v) \<in> set fs. rmeta root k L = v)"

definition write_ok :: "string \<Rightarrow> metaWrite \<Rightarrow> bool" where
  "write_ok root w \<longleftrightarrow> protected (mwKey w) \<and> mwKey w \<noteq> FieldLastProcessedWisp \<and> (mwKey w = FieldState \<longrightarrow> mwValue w \<noteq> ConvStateTerminated)
     \<and> (mwKey w = FieldActiveWisp \<longrightarrow> mwValue w \<noteq> root)"

definition put_closed_pred :: "string \<Rightarrow> (loopView \<Rightarrow> bool) \<Rightarrow> bool" where
  "put_closed_pred root E \<longleftrightarrow> (\<forall>L k v. E L \<longrightarrow> E (put_meta root k v L))"

lemma facts_put: "facts root fs L \<Longrightarrow> k \<notin> fst ` set fs \<Longrightarrow> facts root fs (put_meta root k v L)"
proof -
  assume f: "facts root fs L" and k: "k \<notin> fst ` set fs"
  have "rmeta root a (put_meta root k v L) = b" if "(a, b) \<in> set fs" for a b
  proof -
    from k that have "a \<noteq> k" by force
    with f that show ?thesis by (auto simp: facts_def)
  qed
  then show ?thesis by (auto simp: facts_def)
qed

context conv_store
begin

lemma w_put:
  assumes "hStore h = st" and "protected k" and "\<And>L. P L \<Longrightarrow> R L" and "\<And>L. P L \<Longrightarrow> S (put_meta i k v L)" and "\<And>L. S L \<Longrightarrow> R L"
  shows "triple look ok P (wrap d (PutMetadata h i k v)) (\<lambda>r L. R L \<and> (\<forall>x. r = Inr x \<longrightarrow> S L))"
  by (rule triple_wrap [OF t_PutMetadata [OF assms(1,2), where Q = "\<lambda>r L. R L \<and> (\<forall>x. r = Inr x \<longrightarrow> S L)"]])
    (use assms(3-5) in auto)

text \<open>A sequence of writes that do not end the loop: the root stays live and uncommitted, and when all of
  them succeed the written values are there.\<close>

lemma commit_writes_facts:
  assumes "hStore h = st" and "put_closed_pred root E"
    and "\<forall>w \<in> set ws. write_ok root w" and "distinct (map fst fs @ map mwKey ws)"
  shows "triple look ok (\<lambda>L. pre_commit c root w L \<and> E L \<and> facts root fs L) (commit_writes h root ws)
    (\<lambda>r L. pre_commit c root w L \<and> E L \<and> (\<forall>x. r = Inr x \<longrightarrow> facts root (fs @ map (\<lambda>w. (mwKey w, mwValue w)) ws) L))"
  using assms(3,4)
proof (induction ws arbitrary: fs)
  case Nil
  show ?case by (auto intro!: triple_ret)
next
  case (Cons v ws)
  let ?fs = "fs @ [(mwKey v, mwValue v)]"
  have v: "write_ok root v" using Cons.prems(1) by simp
  have put: "triple look ok (\<lambda>L. pre_commit c root w L \<and> E L \<and> facts root fs L) (wrap (mwDesc v) (PutMetadata h root (mwKey v) (mwValue v)))
      (\<lambda>r L. (pre_commit c root w L \<and> E L) \<and> (\<forall>x. r = Inr x \<longrightarrow> pre_commit c root w L \<and> E L \<and> facts root ?fs L))"
  proof (rule w_put [OF assms(1)])
    fix L assume L: "pre_commit c root w L \<and> E L \<and> facts root fs L"
    have "rmeta root (mwKey v) (put_meta root (mwKey v) (mwValue v) L) = mwValue v"
      using L by (simp add: rmeta_put pre_commit_def live_def)
    moreover have "facts root fs (put_meta root (mwKey v) (mwValue v) L)"
      using L Cons.prems(2) by (intro facts_put) auto
    ultimately show "pre_commit c root w (put_meta root (mwKey v) (mwValue v) L) \<and> E (put_meta root (mwKey v) (mwValue v) L)
        \<and> facts root ?fs (put_meta root (mwKey v) (mwValue v) L)"
      using L v assms(2) by (auto simp: facts_def write_ok_def put_closed_pred_def intro: pre_commit_put)
  qed (use v in \<open>auto simp: write_ok_def\<close>)
  have "triple look ok (\<lambda>L. pre_commit c root w L \<and> E L \<and> facts root ?fs L) (commit_writes h root ws)
    (\<lambda>r L. pre_commit c root w L \<and> E L \<and> (\<forall>x. r = Inr x \<longrightarrow> facts root (?fs @ map (\<lambda>w. (mwKey w, mwValue w)) ws) L))"
    using Cons.prems by (intro Cons.IH) auto
  then have rest: "triple look ok (\<lambda>L. pre_commit c root w L \<and> E L \<and> facts root ?fs L) (commit_writes h root ws)
    (\<lambda>r L. pre_commit c root w L \<and> E L \<and> (\<forall>x. r = Inr x \<longrightarrow> facts root (fs @ map (\<lambda>w. (mwKey w, mwValue w)) (v # ws)) L))" by simp
  show ?case unfolding commit_writes.simps
    by (rule triple_bindE [OF put]) (auto intro: triple_conseq [OF rest])
qed

text \<open>A transition that commits without ending the loop.\<close>

lemma commit_into:
  assumes "hStore h = st" and "put_closed_pred root E" and "\<forall>w \<in> set ws. write_ok root w" and "distinct (map mwKey ws)"
    and "\<And>L. live root L \<Longrightarrow> E L \<Longrightarrow> facts root (map (\<lambda>w. (mwKey w, mwValue w)) ws) L \<Longrightarrow> committed root key (put_meta root FieldLastProcessedWisp w L)"
  shows "triple look ok (\<lambda>L. pre_commit c root w L \<and> E L) (commit h root ws None (mw FieldLastProcessedWisp w d)) (\<lambda>r. post_commit c root w key)"
proof -
  have ws: "triple look ok (\<lambda>L. pre_commit c root w L \<and> E L) (commit_writes h root ws)
    (\<lambda>r L. pre_commit c root w L \<and> E L \<and> (\<forall>x. r = Inr x \<longrightarrow> facts root (map (\<lambda>w. (mwKey w, mwValue w)) ws) L))"
    using commit_writes_facts [OF assms(1-3), of "[]" c w] assms(4) by (simp add: facts_def)
  have put: "triple look ok (\<lambda>L. pre_commit c root w L \<and> E L \<and> facts root (map (\<lambda>w. (mwKey w, mwValue w)) ws) L)
      (wrap d (PutMetadata h root FieldLastProcessedWisp w)) (\<lambda>r. post_commit c root w key)"
    by (rule triple_wrap [OF t_PutMetadata [OF assms(1), where Q = "\<lambda>r. post_commit c root w key"]])
      (use assms(5) in \<open>auto simp: post_commit_def pre_commit_def loop_inv_def\<close>)
  have "triple look ok (\<lambda>L. pre_commit c root w L \<and> E L \<and> facts root (map (\<lambda>w. (mwKey w, mwValue w)) ws) L)
    (if w = [] then ret () else wrap d (PutMetadata h root FieldLastProcessedWisp w)) (\<lambda>r. post_commit c root w key)"
    by (rule triple_if_cases [OF triple_ret put]) (simp add: post_commit_def pre_commit_def loop_inv_def)
  from triple_bindE_conseq [OF ws this] show ?thesis unfolding commit_None
    by (auto simp: post_commit_def pre_commit_def loop_inv_def)
qed

end

end
