(* ===== verification/Conv_Safety.thy ===== *)
theory Conv_Safety
  imports Conv_Process
begin

text \<open>
  The transitions and entry points of the convergence handler over the store contract: the invariant of
  the root survives every entry point, a terminated loop stays terminated, and the wisp-closed handler
  writes its marker last.
\<close>

section \<open>Ending the loop\<close>

definition ended_uncommitted :: "bool \<Rightarrow> string \<Rightarrow> string \<Rightarrow> loopView \<Rightarrow> bool" where
  "ended_uncommitted c root w L \<longleftrightarrow> ended root L \<and> uncommitted c root w L"

context conv_store
begin

lemma terminal_writes:
  assumes "hStore h = st" and "\<forall>v \<in> set ws. write_ok root v \<and> mwKey v \<noteq> FieldState" and "distinct (map mwKey ws)"
    and "mw FieldTerminalReason reason d1 \<in> set ws" and "mw FieldTerminalActor actor d2 \<in> set ws" and "reason \<noteq> []" and "actor \<noteq> []"
  shows "triple look ok (pre_commit c root w) (commit_writes h root (ws @ [mw FieldState ConvStateTerminated d]))
    (\<lambda>r L. loop_inv root L \<and> uncommitted c root w L \<and> (\<forall>x. r = Inr x \<longrightarrow> ended root L))"
proof -
  let ?F = "facts root (map (\<lambda>w. (mwKey w, mwValue w)) ws)"
  have ws: "triple look ok (pre_commit c root w) (commit_writes h root ws) (\<lambda>r L. pre_commit c root w L \<and> (\<forall>x. r = Inr x \<longrightarrow> ?F L))"
    using commit_writes_facts [OF assms(1), of root "\<lambda>L. True" ws "[]" c w] assms(2,3) by (simp add: facts_def put_closed_pred_def)
  have fin: "ended root (put_meta root FieldState ConvStateTerminated L)" if "pre_commit c root w L" "?F L" for L
  proof -
    have "rmeta root FieldTerminalReason L = reason" "rmeta root FieldTerminalActor L = actor"
      using that(2) assms(4,5) by (force simp: facts_def mw_def)+
    with that(1) assms(6,7) show ?thesis by (simp add: ended_def pre_commit_def live_def rmeta_put)
  qed
  have st: "triple look ok (\<lambda>L. pre_commit c root w L \<and> ?F L) (wrap d (PutMetadata h root FieldState ConvStateTerminated))
    (\<lambda>r L. (loop_inv root L \<and> uncommitted c root w L) \<and> (\<forall>x. r = Inr x \<longrightarrow> ended root L \<and> uncommitted c root w L))"
    by (rule w_put [OF assms(1)]) (auto simp: loop_inv_def pre_commit_def intro: fin)
  show ?thesis unfolding commit_writes_append
  proof (rule triple_bindE [OF ws])
    fix x :: unit
    show "triple look ok (\<lambda>L. pre_commit c root w L \<and> (\<forall>y. Inr x = Inr y \<longrightarrow> ?F L)) (commit_writes h root [mw FieldState ConvStateTerminated d])
      (\<lambda>r L. loop_inv root L \<and> uncommitted c root w L \<and> (\<forall>x. r = Inr x \<longrightarrow> ended root L))"
      by (simp add: mw_def) (rule triple_bindE [OF st], auto intro!: triple_ret)
  qed (auto simp: loop_inv_def pre_commit_def)
qed

lemma terminal_commit:
  assumes "hStore h = st" and "\<forall>v \<in> set ws. write_ok root v \<and> mwKey v \<noteq> FieldState" and "distinct (map mwKey ws)"
    and "mw FieldTerminalReason reason d1 \<in> set ws" and "mw FieldTerminalActor actor d2 \<in> set ws" and "reason \<noteq> []" and "actor \<noteq> []"
    and pre: "triple look ok (ended_uncommitted c root w) p (\<lambda>r L. ended_uncommitted c root w L \<and> (\<forall>x. r = Inr x \<longrightarrow> rstatus root L = ''closed''))"
  shows "triple look ok (pre_commit c root w)
    (commit h root (ws @ [mw FieldState ConvStateTerminated d]) (Some p) (mw FieldLastProcessedWisp v d'))
    (\<lambda>r L. post_commit c root w key L \<and> (\<forall>x. r = Inr x \<longrightarrow> ended root L \<and> rstatus root L = ''closed''))" (is "triple look ok _ _ ?Q")
proof -
  let ?C = "\<lambda>L. ended_uncommitted c root w L \<and> rstatus root L = ''closed''"
  have done': "?Q r L" if "?C L" for r L
    using that by (auto simp: ended_uncommitted_def post_commit_def loop_inv_def)
  have put: "triple look ok ?C (wrap d' (PutMetadata h root FieldLastProcessedWisp v)) ?Q"
    by (rule triple_wrap [OF t_PutMetadata [OF assms(1), where Q = ?Q]])
      (auto simp: ended_uncommitted_def post_commit_def loop_inv_def committed_def ended_def rmeta_put)
  have tail: "triple look ok ?C (if v = [] then ret () else wrap d' (PutMetadata h root FieldLastProcessedWisp v)) ?Q"
    by (rule triple_if_cases [OF triple_ret [OF done'] put])
  have "triple look ok (ended_uncommitted c root w) (bindE p (\<lambda>_. if v = [] then ret () else wrap d' (PutMetadata h root FieldLastProcessedWisp v))) ?Q"
    by (rule triple_bindE_conseq [OF pre tail]) (auto simp: ended_uncommitted_def post_commit_def loop_inv_def)
  from triple_bindE_conseq [OF terminal_writes [OF assms(1-7)] this] show ?thesis unfolding commit_Some
    by (auto simp: post_commit_def ended_uncommitted_def)
qed

lemma close_root:
  assumes "hStore h = st"
  shows "triple look ok (ended_uncommitted c root w) (wrap msg (CloseBead h root reason))
    (\<lambda>r L. ended_uncommitted c root w L \<and> (\<forall>x. r = Inr x \<longrightarrow> rstatus root L = ''closed''))"
  by (rule triple_wrap [OF t_CloseBead [OF assms, where
        Q = "\<lambda>r L. ended_uncommitted c root w L \<and> (\<forall>x. r = Inr x \<longrightarrow> rstatus root L = ''closed'')"]])
    (auto simp: ended_uncommitted_def rstatus_put_closed ended_def)

section \<open>The four transitions of the wisp-closed handler\<close>

lemma emitEvent_keeps: "hStore h = st \<Longrightarrow> keeps look ok I (emitEvent h et ei i p)"
  by (simp add: emitEvent_def emit_with_keeps)

lemma then_ret: "triple look ok P m (\<lambda>r. K) \<Longrightarrow> (\<And>x. into look ok K K (k x)) \<Longrightarrow> triple look ok P (bindE m k) (\<lambda>r. K)"
  by (rule triple_bindE) (auto simp: into_def)

lemma pre_commit_root: "(root \<noteq> [] \<Longrightarrow> into look ok (pre_commit c root w) K m) \<Longrightarrow> into look ok (pre_commit c root w) K m"
  unfolding into_def triple_def by (auto simp: pre_commit_def live_def rooted_def)

lemma commit_then:
  assumes "hStore h = st" and "\<forall>w \<in> set ws. write_ok root w" and "distinct (map mwKey ws)"
    and "\<And>L. facts root (map (\<lambda>w. (mwKey w, mwValue w)) ws) L \<Longrightarrow> committed root key (put_meta root FieldLastProcessedWisp w L)"
    and "\<And>x. keeps look ok (post_commit c root w key) (k x)"
  shows "into look ok (pre_commit c root w) (post_commit c root w key) (bindE (commit h root ws None (mw FieldLastProcessedWisp w d)) k)"
  unfolding into_def using commit_into [OF assms(1) _ assms(2,3,4), of "\<lambda>L. True" c d]
  by (intro then_ret assms(5)) (simp_all add: put_closed_pred_def)

lemma manual_into:
  assumes "hStore h = st" and "reason \<noteq> []"
  shows "into look ok (pre_commit c root w) (post_commit c root w key) (transitionToWaitingManual h root w n gc gr reason oc meta)"
proof (rule pre_commit_root)
  assume "root \<noteq> []"
  with assms(2) show "into look ok (pre_commit c root w) (post_commit c root w key) (transitionToWaitingManual h root w n gc gr reason oc meta)"
    unfolding transitionToWaitingManual_def Let_def
    by (intro into_bindE [OF pre_post computeDurations_keeps [OF assms(1)]] into_bindE [OF pre_post emitEvent_keeps [OF assms(1)]]
        commit_then [OF assms(1)] into_intros emitEvent_keeps assms(1) weaker_refl)
      (auto simp: write_ok_def facts_def committed_def)
qed

lemma trigger_into:
  assumes "hStore h = st"
  shows "into look ok (pre_commit c root w) (post_commit c root w key) (transitionToWaitingTrigger h root w n gc gr meta)"
proof (rule pre_commit_root)
  assume "root \<noteq> []"
  moreover have "keeps look ok (pre_commit c root w) (if b then clear_verdict h root else ret ())" for b
    by (intro into_if into_ret clear_verdict_keeps assms weaker_refl root_stable_put pre_commit_stable)
  ultimately show "into look ok (pre_commit c root w) (post_commit c root w key) (transitionToWaitingTrigger h root w n gc gr meta)"
    unfolding transitionToWaitingTrigger_def Let_def
    by (intro into_bindE [OF pre_post] into_bindE [OF pre_post computeDurations_keeps [OF assms]]
        into_bindE [OF pre_post emitEvent_keeps [OF assms]] commit_then [OF assms] into_ret weaker_refl)
      (auto simp: write_ok_def facts_def committed_def)
qed

lemma terminate_into:
  assumes "hStore h = st" and "reason \<noteq> []" and "actor \<noteq> []"
  shows "into look ok (pre_commit c root w) (post_commit c root w key) (terminate h root w n gc gr reason actor g meta)"
proof -
  have "triple look ok (pre_commit c root w) (commit h root
      ([mw FieldTerminalReason reason d1, mw FieldTerminalActor actor d2] @ [mw FieldState ConvStateTerminated d3])
      (Some (wrap m1 (CloseBead h root m2))) (mw FieldLastProcessedWisp w d4))
     (\<lambda>r L. post_commit c root w key L \<and> (\<forall>x. r = Inr x \<longrightarrow> ended root L \<and> rstatus root L = ''closed''))" for d1 d2 d3 d4 m1 m2
    by (rule terminal_commit [OF assms(1) _ _ _ _ assms(2,3) close_root [OF assms(1)]]) (auto simp: write_ok_def)
  then have commit: "triple look ok (pre_commit c root w) (commit h root
      [mw FieldTerminalReason reason d1, mw FieldTerminalActor actor d2, mw FieldState ConvStateTerminated d3]
      (Some (wrap m1 (CloseBead h root m2))) (mw FieldLastProcessedWisp w d4)) (\<lambda>r. post_commit c root w key)" for d1 d2 d3 d4 m1 m2
    by (simp add: triple_def)
  have "into look ok (pre_commit c root w) (post_commit c root w key) (bindE (commit h root
      [mw FieldTerminalReason reason d1, mw FieldTerminalActor actor d2, mw FieldState ConvStateTerminated d3]
      (Some (wrap m1 (CloseBead h root m2))) (mw FieldLastProcessedWisp w d4)) (\<lambda>_. ret x))" for d1 d2 d3 d4 m1 m2 and x :: HandlerResult
    unfolding into_def by (rule then_ret [OF commit]) (simp add: into_ret)
  then show ?thesis unfolding terminate_def Let_def
    by (intro into_bindE [OF pre_post computeDurations_keeps [OF assms(1)]] into_bindE [OF pre_post emitEvent_keeps [OF assms(1)]])
qed

lemma post_commit_pending:
  assumes "hStore h = st"
  shows "keeps look ok (post_commit c root w key) (PutMetadata h root FieldPendingNextWisp v)"
  unfolding into_def
proof (rule t_PutMetadata [OF assms])
  fix L assume "post_commit c root w key L"
  moreover have "committed root key L \<Longrightarrow> committed root key (put_meta root FieldPendingNextWisp v L)" by (simp add: committed_def)
  ultimately show "post_commit c root w key (put_meta root FieldPendingNextWisp v L)"
    using live_put [of root L FieldPendingNextWisp v] ended_put [of root L FieldPendingNextWisp v]
    by (auto simp: post_commit_def loop_inv_def)
qed simp_all

lemma adopt_into:
  assumes "hStore h = st" and "y \<noteq> root"
  shows "into look ok (\<lambda>L. pre_commit c root w L \<and> has_key L y key) (post_commit c root w key) (iterate_adopt h root w n gc gr meta y)"
proof -
  let ?P = "\<lambda>L. pre_commit c root w L \<and> has_key L y key"
  have wk: "weaker ?P (post_commit c root w key)" using pre_post [of c root w key] by (simp add: weaker_def)
  have commit: "triple look ok ?P (commit h root [mw FieldActiveWisp y d1] None (mw FieldLastProcessedWisp w d)) (\<lambda>r. post_commit c root w key)" for d1 d
    by (rule commit_into [OF assms(1)]) (use assms(2) in \<open>auto simp: put_closed_pred_def write_ok_def facts_def committed_def\<close>)
  have "into look ok ?P (post_commit c root w key) (bindE (commit h root [mw FieldActiveWisp y d1] None (mw FieldLastProcessedWisp w d))
     (\<lambda>_. ignore (PutMetadata h root FieldPendingNextWisp []) (ret x)))" for d1 d and x :: HandlerResult
    unfolding into_def by (rule then_ret [OF commit]) (intro into_ignore post_commit_pending assms(1) into_ret weaker_refl)
  then show ?thesis unfolding iterate_adopt_def Let_def
    by (intro into_bindE [OF wk into_wrap [OF reads_keep(5) [OF assms(1) weaker_refl]]]
        into_bindE [OF wk computeDurations_keeps [OF assms(1)]] into_bindE [OF wk emitEvent_keeps [OF assms(1)]])
qed

lemma iterate_next_safe:
  assumes "hStore h = st" and key_def: "key = IdempotencyKey root (n + 1)"
  shows "triple look ok (\<lambda>L. pre_commit c root w L \<and> safe_id root key x L) (iterate_next h root n meta x)
    (\<lambda>r L. pre_commit c root w L \<and> (\<forall>y e. r = Inr (y, e) \<longrightarrow> e = None \<longrightarrow> y \<noteq> root \<and> has_key L y key))"
proof (cases "x = []")
  case False
  then show ?thesis by (auto simp: iterate_next_def safe_id_def intro!: triple_ret)
next
  case True
  have pour: "triple look ok (pre_commit c root w) (pour_or_find h (PourWisp h root f key vars prompt) key)
    (\<lambda>r L. pre_commit c root w L \<and> (\<forall>x e. r = Inr (x, e) \<longrightarrow> safe_id root key x L \<and> (e = None \<longrightarrow> has_key L x key \<and> x \<noteq> root) \<and> (e \<noteq> None \<longrightarrow> x = [])))"
    for f vars prompt
    using pour_or_find_safe [OF assms(1) pre_commit_stable _ disjI1 [OF refl]] by (simp add: key_def)
  show ?thesis unfolding iterate_next_def Let_def key_def [symmetric] using True
    by simp (rule triple_conseq [OF pour], auto)
qed

lemma iterate_into:
  assumes "hStore h = st" and key_def: "key = IdempotencyKey root (n + 1)"
  shows "into look ok (\<lambda>L. pre_commit c root w L \<and> safe_id root key x L) (post_commit c root w key) (iterate h root w n gc gr meta x)"
proof -
  let ?J = "\<lambda>L. pre_commit c root w L \<and> safe_id root key x L"
  have wk: "weaker ?J (post_commit c root w key)" using pre_post [of c root w key] by (simp add: weaker_def)
  have clear: "keeps look ok ?J (if b then clear_verdict h root else ret ())" for b
    by (intro into_if into_ret clear_verdict_keeps assms(1) weaker_refl put_stable_safe root_stable_put pre_commit_stable)
  have next': "into look ok ?J (post_commit c root w key) (bindE (iterate_next h root n meta x) (\<lambda>(y, pe).
       if pe \<noteq> None then handleSlingFailure h root w n gc gr meta else iterate_adopt h root w n gc gr meta y))"
    unfolding into_def
  proof (rule triple_bindE_conseq [OF iterate_next_safe [OF assms, where c = c and w = w],
        where S = "\<lambda>z L. pre_commit c root w L \<and> (snd z = None \<longrightarrow> fst z \<noteq> root \<and> has_key L (fst z) key)"])
    fix z :: "string \<times> ConvError option"
    obtain y pe where z: "z = (y, pe)" by (cases z)
    have sling: "triple look ok (pre_commit c root w) (handleSlingFailure h root w n gc gr meta) (\<lambda>r. post_commit c root w key)"
      using manual_into [OF assms(1), of WaitSlingFailure] unfolding handleSlingFailure_def into_def by simp
    have adopt: "triple look ok (\<lambda>L. (pre_commit c root w L \<and> has_key L y key) \<and> y \<noteq> root) (iterate_adopt h root w n gc gr meta y)
        (\<lambda>r. post_commit c root w key)"
      by (rule triple_pure) (use adopt_into [OF assms(1)] in \<open>simp add: into_def\<close>)
    show "triple look ok (\<lambda>L. pre_commit c root w L \<and> (snd z = None \<longrightarrow> fst z \<noteq> root \<and> has_key L (fst z) key))
      (case z of (y, pe) \<Rightarrow> if pe \<noteq> None then handleSlingFailure h root w n gc gr meta else iterate_adopt h root w n gc gr meta y)
      (\<lambda>r. post_commit c root w key)"
      unfolding z prod.case
      by (cases pe) (auto intro: triple_conseq [OF sling] triple_conseq [OF adopt])
  qed (use pre_post [of c root w key] in \<open>auto simp: weaker_def\<close>)
  show ?thesis unfolding iterate_def by (rule into_bindE [OF wk clear next'])
qed

section \<open>The wisp-closed handler\<close>

lemma live_meta: "live root L \<Longrightarrow> meta_of L root meta \<Longrightarrow> mget meta FieldState \<noteq> ConvStateTerminated"
  by (simp add: live_def meta_of_rmeta)

lemma process_post:
  assumes "hStore h = st"
  shows "into look ok (pre_commit c root w) (post_commit c root w (IdempotencyKey root (n + 1))) (process_wisp h rn root w meta n g gc tc)"
  by (rule process_wisp_into [OF assms pre_commit_stable pre_post manual_into [OF assms] trigger_into [OF assms] terminate_into [OF assms]
        iterate_into [OF assms refl]]) simp_all

lemma handle_wisp_marker:
  assumes "hStore h = st" and "ParseIterationFromKey wkey = (n, True)"
  shows "triple look ok (\<lambda>L. pre_commit c root w L \<and> (\<forall>k. has_key L w k \<longrightarrow> k = wkey)) (HandleWispClosed h rn root w)
    (\<lambda>r. post_commit c root w (IdempotencyKey root (n + 1)))"
  by (rule HandleWispClosed_into [OF assms(1) pre_commit_stable pre_post])
    (use assms(2) live_meta process_post [OF assms(1)] in \<open>auto simp: pre_commit_def\<close>)

lemma handle_wisp_live:
  assumes "hStore h = st"
  shows "triple look ok (live root) (HandleWispClosed h rn root w) (\<lambda>r. loop_inv root)"
proof -
  have "pre_commit False root w = live root" "post_commit False root w key = loop_inv root" for key
    by (auto simp: pre_commit_def post_commit_def uncommitted_def)
  then have "into look ok (live root) (loop_inv root) (process_wisp h rn root w meta n g gc tc)" for meta n g gc tc
    using process_post [OF assms, of False root w n] by simp
  then have "triple look ok (\<lambda>L. live root L \<and> (\<forall>k. has_key L w k \<longrightarrow> True)) (HandleWispClosed h rn root w) (\<lambda>r. loop_inv root)"
    by (intro HandleWispClosed_into [OF assms live_stable loop_inv_weaker(1)]) (auto dest: live_meta)
  then show ?thesis by simp
qed

end

end
