(* ===== verification/Conv_Entry.thy ===== *)
theory Conv_Entry
  imports Conv_Safety
begin

text \<open>
  Every entry point of the convergence handler over the store contract: the wisp-closed handler, the
  operator's approve, iterate and stop, the trigger evaluation and the startup reconciliation.  Each one
  takes a live root to a live or ended one, and leaves an ended root ended with the same reason and actor.
\<close>

definition sealed :: "string \<Rightarrow> string \<Rightarrow> string \<Rightarrow> loopView \<Rightarrow> bool" where
  "sealed root reason actor L \<longleftrightarrow>
     ended root L \<and> rmeta root FieldTerminalReason L = reason \<and> rmeta root FieldTerminalActor L = actor"

lemma sealed_stable: "root_stable root (sealed root reason actor)"
proof (rule root_stableI)
  fix L L' :: loopView assume "sealed root reason actor L" and "L' root = L root"
  moreover from this have "rmeta root k L' = rmeta root k L" for k by (simp add: rmeta_def)
  ultimately show "sealed root reason actor L'" by (auto simp: sealed_def ended_def rooted_def)
qed (auto simp: sealed_def ended_def rmeta_put_harmless)

lemma sealed_closed [simp]: "sealed root reason actor (put_closed i L) = sealed root reason actor L"
  by (simp add: sealed_def)

lemma sealed_meta:
  assumes "sealed root reason actor L" and "meta_of L root meta"
  shows "mget meta FieldState = ConvStateTerminated" "mget meta FieldTerminalReason = reason" "mget meta FieldTerminalActor = actor"
    "reason \<noteq> []" "actor \<noteq> []"
  using assms by (auto simp: sealed_def ended_def meta_of_rmeta)

lemma live_meta_active: "live root L \<Longrightarrow> meta_of L root meta \<Longrightarrow> mget meta FieldActiveWisp \<noteq> root"
  by (simp add: live_def meta_of_rmeta)

lemma live_root: "live root L \<Longrightarrow> root \<noteq> []"
  by (simp add: live_def rooted_def)

text \<open>A live root whose reason, or reason and actor, are already recorded.\<close>

definition closing :: "bool \<Rightarrow> string \<Rightarrow> loopView \<Rightarrow> bool" where
  "closing a root L \<longleftrightarrow> live root L \<and> rmeta root FieldTerminalReason L \<noteq> [] \<and> (a \<longrightarrow> rmeta root FieldTerminalActor L \<noteq> [])"

lemma closing_weaker [simp]: "weaker (closing a root) (loop_inv root)"
  by (simp add: weaker_def closing_def loop_inv_def)

lemma closing_put:
  "live root L \<Longrightarrow> v \<noteq> [] \<Longrightarrow> closing False root (put_meta root FieldTerminalReason v L)"
  "closing False root L \<Longrightarrow> v \<noteq> [] \<Longrightarrow> closing True root (put_meta root FieldTerminalActor v L)"
  "closing True root L \<Longrightarrow> ended root (put_meta root FieldState ConvStateTerminated L)"
  by (auto simp: closing_def live_def ended_def rmeta_put)

lemma iteration_neq [simp]: "FieldIteration \<noteq> FieldState" "FieldIteration \<noteq> FieldActiveWisp"
  by (simp_all add: conv_defs)

section \<open>Actions that keep an invariant and yield a value with a property\<close>

definition yields :: "('s \<Rightarrow> loopView) \<Rightarrow> ('s \<Rightarrow> bool) \<Rightarrow> (loopView \<Rightarrow> bool) \<Rightarrow> ('a \<Rightarrow> bool) \<Rightarrow> ('s, 'a) act \<Rightarrow> bool" where
  "yields look ok I A m = triple look ok I m (\<lambda>r L. I L \<and> (\<forall>x. r = Inr x \<longrightarrow> A x))"

lemma yields_keeps: "yields look ok I A m \<Longrightarrow> keeps look ok I m"
  unfolding yields_def into_def by (erule triple_conseq) auto

lemma keeps_yields: "keeps look ok I m \<Longrightarrow> yields look ok I (\<lambda>x. True) m"
  by (simp add: yields_def into_def)

lemma yields_ret: "A x \<Longrightarrow> yields look ok I A (ret x)"
  by (auto simp: yields_def intro!: triple_ret)

lemma yields_fail: "yields look ok I A (fail e)"
  by (auto simp: yields_def intro!: triple_fail)

lemma yields_weaken: "yields look ok I A m \<Longrightarrow> (\<And>x. A x \<Longrightarrow> B x) \<Longrightarrow> yields look ok I B m"
  unfolding yields_def by (erule triple_conseq) auto

lemma yields_wrap: "yields look ok I A m \<Longrightarrow> yields look ok I A (wrap msg m)"
  unfolding yields_def by (erule triple_wrap) auto

lemma yields_attempt:
  assumes "yields look ok I A m" and "\<And>r. (\<And>x. r = Inr x \<Longrightarrow> A x) \<Longrightarrow> yields look ok I B (k r)"
  shows "yields look ok I B (attempt m k)"
  unfolding yields_def
proof (rule triple_attempt [OF assms(1) [unfolded yields_def]])
  fix r
  have "triple look ok (\<lambda>L. I L \<and> (\<forall>x. r = Inr x \<longrightarrow> A x)) (k r) (\<lambda>r L. I L \<and> (\<forall>x. r = Inr x \<longrightarrow> B x))"
    by (rule triple_pure) (use assms(2) in \<open>simp add: yields_def\<close>)
  then show "triple look ok (\<lambda>L. I L \<and> (\<forall>x. r = Inr x \<longrightarrow> A x)) (k r) (\<lambda>r L. I L \<and> (\<forall>x. r = Inr x \<longrightarrow> B x))" .
qed

lemma yields_bindE:
  assumes "yields look ok I A m" and "\<And>x. A x \<Longrightarrow> yields look ok I B (k x)"
  shows "yields look ok I B (bindE m k)"
  unfolding bindE_def
  by (rule yields_attempt [OF assms(1)]) (use assms(2) in \<open>auto split: sum.splits intro: yields_fail\<close>)

lemma yields_if: "(c \<Longrightarrow> yields look ok I A a) \<Longrightarrow> (\<not> c \<Longrightarrow> yields look ok I A b) \<Longrightarrow> yields look ok I A (if c then a else b)"
  by simp

text \<open>A step of a path that uses what the previous one yielded.\<close>

lemma into_attempt_yields:
  assumes "yields look ok I A m" and "\<And>r. (\<And>x. r = Inr x \<Longrightarrow> A x) \<Longrightarrow> into look ok I K (k r)"
  shows "into look ok I K (attempt m k)"
  unfolding into_def
proof (rule triple_attempt [OF assms(1) [unfolded yields_def]])
  fix r
  show "triple look ok (\<lambda>L. I L \<and> (\<forall>x. r = Inr x \<longrightarrow> A x)) (k r) (\<lambda>r. K)"
    by (rule triple_pure) (use assms(2) in \<open>simp add: into_def\<close>)
qed

lemma into_bindE_yields:
  assumes "weaker I K" and "yields look ok I A m" and "\<And>x. A x \<Longrightarrow> into look ok I K (k x)"
  shows "into look ok I K (bindE m k)"
  unfolding bindE_def
  by (rule into_attempt_yields [OF assms(2)]) (use assms(1,3) in \<open>auto split: sum.splits intro: into_fail\<close>)

lemma into_orStop_yields:
  assumes "weaker I K" and "yields look ok I A m" and "\<And>x. A x \<Longrightarrow> into look ok I K (k x)"
  shows "into look ok I K (orStop a msg m k)"
  unfolding orStop_def
  by (rule into_attempt_yields [OF assms(2)]) (use assms(1,3) in \<open>auto split: sum.splits intro: into_ret\<close>)

text \<open>The highest open and closed wisps of the child statistics are children.\<close>

definition stats_from :: "BeadInfo set \<Rightarrow> ChildStats \<Rightarrow> bool" where
  "stats_from cs s \<longleftrightarrow> (csHighestOpenFound s \<longrightarrow> csHighestOpen s \<in> cs) \<and> (csHighestClosedFound s \<longrightarrow> csHighestClosed s \<in> cs)"

lemma stats_child_from: "stats_from cs s \<Longrightarrow> c \<in> cs \<Longrightarrow> stats_from cs (stats_child p c s)"
  by (auto simp: stats_from_def stats_child_def Let_def split: prod.splits)

lemma foldl_stats_from:
  "stats_from cs s \<Longrightarrow> set l \<subseteq> cs \<Longrightarrow> stats_from cs (foldl (\<lambda>s c. stats_child p c s) s l)"
  by (induction l arbitrary: s) (auto intro: stats_child_from)

lemma childStats_from: "stats_from (set cs) (childStats cs root)"
  unfolding childStats_def by (rule foldl_stats_from) (simp_all add: stats_from_def)

context conv_store
begin

lemma yields_GetMetadata:
  assumes "hStore h = st"
  shows "yields look ok I (\<lambda>meta. \<exists>L. I L \<and> meta_of L root meta) (GetMetadata h root)"
  unfolding yields_def by (rule t_GetMetadata [OF assms]) auto

lemma yields_GetBead:
  assumes "hStore h = st"
  shows "yields look ok I (\<lambda>info. biID info = i) (GetBead h i)"
  unfolding yields_def by (rule t_GetBead [OF assms]) (auto simp: info_of_def)

lemma yields_children:
  assumes "hStore h = st" and "root_stable root I"
  shows "yields look ok I (\<lambda>cs. \<forall>c \<in> set cs. biID c \<noteq> root) (ChildrenOf h i)"
  using children_safe [OF assms] by (simp add: yields_def)

lemma yields_pour_or_find:
  assumes "hStore h = st" and "root_stable root I" and "key \<noteq> []"
  shows "yields look ok I (\<lambda>x. snd x = None \<longrightarrow> fst x \<noteq> root) (pour_or_find h (PourWisp h p f key vars prompt) key)"
  unfolding yields_def by (rule triple_conseq [OF pour_or_find_safe [OF assms disjI1 [OF refl]]]) auto

lemma key_not_root: "root_stable root I \<Longrightarrow> I L \<Longrightarrow> has_key L x key \<Longrightarrow> key \<noteq> [] \<Longrightarrow> x \<noteq> root"
  using has_key_not_root unfolding root_stable_def by metis

lemma yields_pour:
  assumes "hStore h = st" and "root_stable root I" and "key \<noteq> []"
  shows "yields look ok I (\<lambda>x. x \<noteq> root) (PourWisp h p f key vars prompt)"
  unfolding yields_def
proof (rule t_pour [OF assms(1) disjI1 [OF refl]])
  fix L L' :: loopView assume "I L" and "extends L L'"
  with assms(2) have I: "I L'" by (auto simp: root_stable_def)
  then show "I L' \<and> (\<forall>x. Inl e = Inr x \<longrightarrow> x \<noteq> root)" for e :: ConvError by simp
  show "has_key L' w key \<Longrightarrow> I L' \<and> (\<forall>x. Inr w = Inr x \<longrightarrow> x \<noteq> root)" for w
    using I key_not_root [OF assms(2) I] assms(3) by auto
qed

lemma yields_find:
  assumes "hStore h = st" and "root_stable root I" and "key \<noteq> []"
  shows "yields look ok I (\<lambda>x. snd x \<longrightarrow> fst x \<noteq> root) (FindByIdempotencyKey h key)"
  unfolding yields_def by (rule t_Find [OF assms(1)]) (use key_not_root [OF assms(2)] assms(3) in auto)

lemma yields_valid_pending:
  assumes "hStore h = st" and "root_stable root I" and "key \<noteq> []"
  shows "yields look ok I (\<lambda>x. x = [] \<or> x \<noteq> root) (validPendingNextWisp h root key p)"
  unfolding yields_def by (rule triple_conseq [OF valid_pending [OF assms]]) (auto simp: safe_id_def)

lemma yields_recover:
  assumes "hStore h = st" and "root_stable root I"
  shows "yields look ok I (\<lambda>x. snd x \<longrightarrow> biID (fst x) \<noteq> root) (recoverCurrentActiveWisp h b l)"
  unfolding recoverCurrentActiveWisp_def
proof (rule yields_bindE [OF yields_wrap [OF yields_children [OF assms]]])
  fix cs :: "BeadInfo list" assume cs: "\<forall>c \<in> set cs. biID c \<noteq> root"
  have last: "keeps look ok I (if l = [] then ret None
            else attempt (GetBead h l) (\<lambda>r. case r of
                Inl e \<Rightarrow> if \<not> IsNotFound e then fail (ConvWrap ''reading last processed wisp'' e) else ret None
              | Inr info \<Rightarrow> ret (case ParseIterationFromKey (biIdempotencyKey info) of (iter, ok) \<Rightarrow> if ok then Some (iter + 1) else None)))"
    by (intro into_intros reads_keep assms(1) weaker_refl)
  have found: "yields look ok I (\<lambda>x. snd x \<longrightarrow> biID (fst x) \<noteq> root) (attempt (GetBead h x) (\<lambda>r. case r of
                 Inl e \<Rightarrow> if IsNotFound e then ret (zero_BeadInfo, False) else fail (ConvWrap msg e)
               | Inr info \<Rightarrow> ret (info, True)))" if "x \<noteq> root" for x msg
    by (rule yields_attempt [OF yields_GetBead [OF assms(1)]]) (use that in \<open>auto split: sum.splits intro: yields_ret yields_fail\<close>)
  have lookup: "yields look ok I (\<lambda>x. snd x \<longrightarrow> biID (fst x) \<noteq> root)
      (bindE (wrap ''looking up replacement active wisp'' (FindByIdempotencyKey h (IdempotencyKey b n))) (\<lambda>(candidateID, found).
             if found
             then attempt (GetBead h candidateID) (\<lambda>r. case r of
                 Inl e \<Rightarrow> if IsNotFound e then ret (zero_BeadInfo, False) else fail (ConvWrap ''reading replacement active wisp'' e)
               | Inr info \<Rightarrow> ret (info, True))
             else ret (zero_BeadInfo, False)))" for n
    by (rule yields_bindE [OF yields_wrap [OF yields_find [OF assms IdempotencyKey_not_Nil]]])
      (auto split: prod.splits intro: found yields_ret)
  have stats: "stats_from (set cs) (childStats cs b)" by (rule childStats_from)
  show "yields look ok I (\<lambda>x. snd x \<longrightarrow> biID (fst x) \<noteq> root) (bindE (if l = [] then ret None
            else attempt (GetBead h l) (\<lambda>r. case r of
                Inl e \<Rightarrow> if \<not> IsNotFound e then fail (ConvWrap ''reading last processed wisp'' e) else ret None
              | Inr info \<Rightarrow> ret (case ParseIterationFromKey (biIdempotencyKey info) of (iter, ok) \<Rightarrow> if ok then Some (iter + 1) else None)))
     (\<lambda>nextIter. case nextIter of
         Some n \<Rightarrow>
           bindE (wrap ''looking up replacement active wisp'' (FindByIdempotencyKey h (IdempotencyKey b n))) (\<lambda>(candidateID, found).
             if found
             then attempt (GetBead h candidateID) (\<lambda>r. case r of
                 Inl e \<Rightarrow> if IsNotFound e then ret (zero_BeadInfo, False) else fail (ConvWrap ''reading replacement active wisp'' e)
               | Inr info \<Rightarrow> ret (info, True))
             else ret (zero_BeadInfo, False))
       | None \<Rightarrow>
           let stats = childStats cs b in
           if csHighestOpenFound stats then ret (csHighestOpen stats, True)
           else if csHighestClosedFound stats then ret (csHighestClosed stats, True)
           else ret (zero_BeadInfo, False)))"
    by (rule yields_bindE [OF keeps_yields [OF last]])
      (use cs stats lookup in \<open>auto simp: stats_from_def Let_def split: option.splits intro!: yields_ret\<close>)
qed

section \<open>Wisp closed\<close>

lemma close_keeps_sealed:
  assumes "hStore h = st"
  shows "keeps look ok (sealed root reason actor) (CloseBead h i msg)"
  unfolding into_def by (rule t_CloseBead [OF assms]) auto

lemma HandleWispClosed_sealed:
  assumes "hStore h = st"
  shows "keeps look ok (sealed root reason actor) (HandleWispClosed h rn root w)"
  unfolding HandleWispClosed_def
  by (rule into_bindE_yields [OF weaker_refl yields_wrap [OF yields_GetMetadata [OF assms]]])
    (auto simp: sealed_meta intro!: into_ignore close_keeps_sealed assms into_ret)

lemma HandleWispClosed_live:
  assumes "hStore h = st"
  shows "into look ok (live root) (loop_inv root) (HandleWispClosed h rn root w)"
  using handle_wisp_live [OF assms] by (simp add: into_def)

section \<open>Operator actions\<close>

lemma pre_commit_False: "pre_commit False root w = live root" "post_commit False root w key = loop_inv root"
  by (auto simp: pre_commit_def post_commit_def uncommitted_def)

lemma put_live:
  assumes "hStore h = st" and "protected k" and "k = FieldState \<Longrightarrow> v \<noteq> ConvStateTerminated" and "k = FieldActiveWisp \<Longrightarrow> v \<noteq> root"
  shows "keeps look ok (live root) (PutMetadata h root k v)"
  unfolding into_def by (rule t_PutMetadata [OF assms(1,2)], assumption) (rule live_put, use assms(3,4) in simp_all)

text \<open>Ending a live loop: reason and actor, further fields, the state, then an action on the ended root.\<close>

lemma end_loop:
  assumes "hStore h = st" and "reason \<noteq> []" and "actor \<noteq> []" and "keeps look ok (ended root) p"
  shows "into look ok (live root) (loop_inv root) (commit h root
    [mw FieldTerminalReason reason d1, mw FieldTerminalActor actor d2, mw FieldWaitingReason wr d3, mw FieldState ConvStateTerminated d4]
    (Some p) (mw FieldLastProcessedWisp v d5))"
proof -
  let ?ws = "[mw FieldTerminalReason reason d1, mw FieldTerminalActor actor d2, mw FieldWaitingReason wr d3]"
  have ws: "triple look ok (pre_commit False root w) (commit_writes h root (?ws @ [mw FieldState ConvStateTerminated d4]))
    (\<lambda>r L. loop_inv root L \<and> uncommitted False root w L \<and> (\<forall>x. r = Inr x \<longrightarrow> ended root L))" for w
    by (rule terminal_writes [OF assms(1) _ _ _ _ assms(2,3)]) (auto simp: write_ok_def)
  have "keeps look ok (ended root) (PutMetadata h root FieldLastProcessedWisp v)"
    unfolding into_def by (rule t_PutMetadata [OF assms(1)]) auto
  with assms(4) have "into look ok (ended root) (loop_inv root) (bindE p (\<lambda>_. if v = [] then ret () else wrap d5 (PutMetadata h root FieldLastProcessedWisp v)))"
    by - (rule into_weaker [OF _ loop_inv_weaker(2)], intro into_intros weaker_refl)
  then have "triple look ok (live root) (bindE (commit_writes h root (?ws @ [mw FieldState ConvStateTerminated d4]))
      (\<lambda>_. bindE p (\<lambda>_. if v = [] then ret () else wrap d5 (PutMetadata h root FieldLastProcessedWisp v)))) (\<lambda>r. loop_inv root)"
    unfolding into_def by - (rule triple_bindE_conseq [OF ws [unfolded pre_commit_False]], assumption, auto)
  then show ?thesis unfolding commit_Some into_def by simp
qed

lemma close_ended:
  assumes "hStore h = st"
  shows "keeps look ok (ended root) (CloseBead h i msg)"
  unfolding into_def by (rule t_CloseBead [OF assms]) auto

lemma then_ret_into: "into look ok I K m \<Longrightarrow> into look ok I K (bindE m (\<lambda>_. ret x))"
  unfolding into_def by (rule then_ret) (auto intro: into_ret)

lemma ApproveHandler_live:
  assumes "hStore h = st"
  shows "into look ok (live root) (loop_inv root) (ApproveHandler h root u)"
  unfolding ApproveHandler_def Let_def
  by (intro into_bindE into_if into_ret into_fail into_wrap then_ret_into end_loop reads_keep deriveIterationCount_keeps
      computeDurations_keeps emitEvent_keeps close_ended assms weaker_refl loop_inv_weaker) simp_all

lemma ApproveHandler_sealed:
  assumes "hStore h = st"
  shows "keeps look ok (sealed root reason actor) (ApproveHandler h root u)"
  unfolding ApproveHandler_def
  by (rule into_bindE_yields [OF weaker_refl yields_wrap [OF yields_GetMetadata [OF assms]]])
    (auto simp: sealed_meta Let_def intro!: into_ret into_fail)

lemma IterateHandler_live:
  assumes "hStore h = st"
  shows "into look ok (live root) (loop_inv root) (IterateHandler h root u)"
proof -
  have adopt: "into look ok (live root) (loop_inv root) (case x of (y, e) \<Rightarrow> (case e of
       Some err \<Rightarrow> fail (ConvWrap msg err)
     | None \<Rightarrow> bindE (if b then clear_verdict h root else ret ()) (\<lambda>_.
     bindE (wrap d1 (PutMetadata h root FieldWaitingReason [])) (\<lambda>_.
     bindE (wrap d2 (PutMetadata h root FieldState ConvStateActive)) (\<lambda>_.
     bindE (wrap d3 (PutMetadata h root FieldActiveWisp y)) (\<lambda>_.
     bindE (emitEvent h et ei root (pl y)) (\<lambda>_. ret (res y))))))))"
    if "snd x = None \<longrightarrow> fst x \<noteq> root"
    for x :: "string \<times> ConvError option" and msg b d1 d2 d3 et ei pl and res :: "string \<Rightarrow> HandlerResult"
    using that
    by (intro into_intros clear_verdict_keeps put_live emitEvent_keeps assms root_stable_put live_stable weaker_refl loop_inv_weaker) auto
  show ?thesis unfolding IterateHandler_def Let_def
    by (intro into_bindE into_if into_fail into_wrap reads_keep deriveIterationCount_keeps assms weaker_refl loop_inv_weaker
        into_bindE_yields [OF loop_inv_weaker(1) yields_pour_or_find [OF assms live_stable IdempotencyKey_not_Nil]] adopt)
qed

lemma IterateHandler_sealed:
  assumes "hStore h = st"
  shows "keeps look ok (sealed root reason actor) (IterateHandler h root u)"
  unfolding IterateHandler_def
  by (rule into_bindE_yields [OF weaker_refl yields_wrap [OF yields_GetMetadata [OF assms]]])
    (auto simp: sealed_meta Let_def intro!: into_ret into_fail)

section \<open>Stop\<close>

lemma yields_read_active:
  assumes "hStore h = st" and "root_stable root I" and "a \<noteq> root"
  shows "yields look ok I (\<lambda>f. \<forall>i info. f = Some (i, info) \<longrightarrow> i \<noteq> root) (read_active_wisp h b a l msg)"
  unfolding read_active_wisp_def
proof (rule yields_attempt [OF yields_GetBead [OF assms(1)]])
  fix r :: "ConvError + BeadInfo"
  have rec: "yields look ok I (\<lambda>f. \<forall>i info. f = Some (i, info) \<longrightarrow> i \<noteq> root)
      (bindE (recoverCurrentActiveWisp h b l) (\<lambda>(info, found). ret (if found then Some (biID info, info) else None)))"
    by (rule yields_bindE [OF yields_recover [OF assms(1,2)]]) (auto split: prod.splits intro!: yields_ret)
  show "yields look ok I (\<lambda>f. \<forall>i info. f = Some (i, info) \<longrightarrow> i \<noteq> root) (case r of
         Inr info \<Rightarrow> ret (Some (a, info))
       | Inl e \<Rightarrow> if \<not> IsNotFound e then fail (ConvWrap msg e)
           else bindE (recoverCurrentActiveWisp h b l) (\<lambda>(info, found).
             ret (if found then Some (biID info, info) else None)))"
    using assms(3) rec by (cases r) (auto intro!: yields_ret yields_fail)
qed

lemma close_live:
  assumes "hStore h = st" and "i \<noteq> root"
  shows "keeps look ok (live root) (CloseBead h i msg)"
  unfolding into_def by (rule t_CloseBead [OF assms(1)]) (use assms(2) live_closed_other in auto)

lemma stop_force_close_live:
  assumes "hStore h = st" and "a \<noteq> root"
  shows "keeps look ok (live root) (stop_force_close h root a l)"
  unfolding stop_force_close_def
proof (intro into_if into_ret weaker_refl into_bindE_yields [OF weaker_refl yields_read_active [OF assms(1) live_stable assms(2)]])
  fix f :: "(string \<times> BeadInfo) option"
  assume "\<forall>i info. f = Some (i, info) \<longrightarrow> i \<noteq> root"
  then show "keeps look ok (live root) (case f of None \<Rightarrow> ret ([], False)
     | Some (i, info) \<Rightarrow> if i \<noteq> [] \<and> biStatus info \<noteq> ''closed''
            then bindE (wrap ''force-closing active wisp'' (CloseBead h i CloseReasonManualSupersede)) (\<lambda>_. ret (i, True))
            else ret (i, False))"
    by (intro into_intros close_live assms(1) weaker_refl) auto
qed

lemma loop_inv_rest:
  assumes "into look ok (live root) (loop_inv root) m" and "\<And>r a. keeps look ok (sealed root r a) m"
  shows "keeps look ok (loop_inv root) m"
  unfolding into_def triple_def
proof (intro allI impI)
  fix s ev r s' ev' assume s: "ok s" "loop_inv root (look s)" "m (s, ev) = (r, s', ev')"
  show "ok s' \<and> loop_inv root (look s')"
  proof (cases "live root (look s)")
    case True
    with s assms(1) show ?thesis unfolding into_def triple_def by blast
  next
    case False
    with s(2) have "sealed root (rmeta root FieldTerminalReason (look s)) (rmeta root FieldTerminalActor (look s)) (look s)"
      by (simp add: loop_inv_def sealed_def)
    with tripleD [OF assms(2) [unfolded into_def] s(1) this s(3)] show ?thesis by (simp add: loop_inv_def sealed_def)
  qed
qed

lemma reread_state:
  assumes "hStore h = st"
  shows "triple look ok (loop_inv root) (wrap msg (GetMetadata h root))
    (\<lambda>r L. loop_inv root L \<and> (\<forall>meta. r = Inr meta \<longrightarrow> mget meta FieldState \<noteq> ConvStateTerminated \<longrightarrow> live root L \<and> mget meta FieldActiveWisp \<noteq> root))"
proof (rule triple_wrap [OF t_GetMetadata [OF assms, where Q = "\<lambda>r L. loop_inv root L \<and> (\<forall>meta. r = Inr meta \<longrightarrow>
      mget meta FieldState \<noteq> ConvStateTerminated \<longrightarrow> live root L \<and> mget meta FieldActiveWisp \<noteq> root)"]])
  fix L meta assume L: "loop_inv root L" and m: "meta_of L root meta"
  show "loop_inv root L \<and> (\<forall>meta'. Inr meta = Inr meta' \<longrightarrow>
      mget meta' FieldState \<noteq> ConvStateTerminated \<longrightarrow> live root L \<and> mget meta' FieldActiveWisp \<noteq> root)"
    using L meta_of_rmeta [OF m] live_meta_active [OF _ m] by (auto simp: loop_inv_def ended_def)
qed auto

lemma stop_drain_live:
  assumes "hStore h = st" and "root \<noteq> []" and "mget meta FieldActiveWisp \<noteq> root"
  shows "triple look ok (live root) (stop_drain h rn root meta)
    (\<lambda>r L. loop_inv root L \<and> (\<forall>x. r = Inr (Some x) \<longrightarrow> live root L \<and> fst (snd x) \<noteq> root))" (is "triple look ok _ _ ?Q")
proof -
  have stay: "triple look ok (live root) (ret (Some (m, a, l))) ?Q" if "a \<noteq> root" for m a l
    using that by (auto intro!: triple_ret simp: loop_inv_def)
  have reread: "triple look ok (loop_inv root) (bindE (wrap msg (GetMetadata h root)) (\<lambda>meta'.
        if mget meta' FieldState = ConvStateTerminated then ret None
        else ret (Some (meta', mget meta' FieldActiveWisp, mget meta' FieldLastProcessedWisp)))) ?Q" for msg
    by (rule triple_bindE [OF reread_state [OF assms(1)]]) (auto intro!: triple_ret)
  have drain: "triple look ok (live root) (bindE (wrap d1 (HandleWispClosed h rn root i)) (\<lambda>_. bindE (wrap d2 (GetMetadata h root)) (\<lambda>meta'.
        if mget meta' FieldState = ConvStateTerminated then ret None
        else ret (Some (meta', mget meta' FieldActiveWisp, mget meta' FieldLastProcessedWisp))))) ?Q" for i d1 d2
    by (rule triple_bindE_conseq [OF into_wrap [OF HandleWispClosed_live [OF assms(1)], unfolded into_def] reread]) auto
  show ?thesis unfolding stop_drain_def Let_def
  proof (intro triple_if_cases stay triple_bindE_conseq [OF yields_read_active [OF assms(1) live_stable assms(3), unfolded yields_def],
        where S = "\<lambda>f L. live root L \<and> (\<forall>i info. f = Some (i, info) \<longrightarrow> i \<noteq> root)"])
    fix f :: "(string \<times> BeadInfo) option"
    show "triple look ok (\<lambda>L. live root L \<and> (\<forall>i info. f = Some (i, info) \<longrightarrow> i \<noteq> root)) (case f of
          None \<Rightarrow> ret (Some (meta, [], mget meta FieldLastProcessedWisp))
        | Some (i, info) \<Rightarrow>
            if i \<noteq> [] \<and> biStatus info = ''closed''
            then bindE (wrap ''draining completed wisp'' (HandleWispClosed h rn root i)) (\<lambda>_.
              bindE (wrap ''re-reading metadata after drain'' (GetMetadata h root)) (\<lambda>meta'.
                if mget meta' FieldState = ConvStateTerminated then ret None
                else ret (Some (meta', mget meta' FieldActiveWisp, mget meta' FieldLastProcessedWisp))))
            else ret (Some (meta, i, mget meta FieldLastProcessedWisp))) ?Q" (is "triple look ok _ ?m _")
    proof (rule triple_pure, cases f)
      case None
      with assms(2) show "triple look ok (live root) ?m ?Q" by (auto simp only: option.case intro!: stay)
    next
      case (Some x)
      assume f: "\<forall>i info. f = Some (i, info) \<longrightarrow> i \<noteq> root"
      obtain i info where "x = (i, info)" by (cases x)
      with f Some show "triple look ok (live root) ?m ?Q"
        by (simp only: option.case prod.case) (intro triple_if_cases drain stay, simp)
    qed
  qed (use assms(2) in \<open>auto simp: loop_inv_def\<close>)
qed

lemma stop_pre_marker_ended:
  assumes "hStore h = st"
  shows "keeps look ok (ended root) (stop_pre_marker h root meta a forced n actor d pl)"
  unfolding stop_pre_marker_def by (intro into_intros computeDurations_keeps emitEvent_keeps close_ended assms weaker_refl)

lemma StopHandler_live:
  assumes "hStore h = st"
  shows "into look ok (live root) (loop_inv root) (StopHandler h rn root u)"
proof -
  let ?op = "\<lambda>meta a0 l. bindE (stop_force_close h root a0 l) (\<lambda>(activeWisp, forced).
     bindE (wrap ''deriving iteration count for bead'' (deriveIterationCount h root)) (\<lambda>iterationCount.
     bindE (wrap ''clearing stale agent verdict'' (PutMetadata h root FieldAgentVerdict [])) (\<lambda>_.
     bindE (wrap ''clearing stale agent verdict wisp'' (PutMetadata h root FieldAgentVerdictWisp [])) (\<lambda>_.
     let eventWispID = (if activeWisp \<noteq> [] then activeWisp else l) in
     bindE (computeDurations h root eventWispID) (\<lambda>durs.
     let stopPayload = \<lparr>mpRig = [], mpActor = ''operator:'' @ u, mpPriorState = mget meta FieldState, mpNewState = ConvStateTerminated,
           mpIteration = iterationCount, mpWispID = NullableString eventWispID, mpNextWispID = None\<rparr>;
         finalLPW = (if forced \<and> activeWisp \<noteq> [] then activeWisp else l)
     in bindE (commit h root
          [mw FieldTerminalReason TerminalStopped ''setting terminal reason'', mw FieldTerminalActor (''operator:'' @ u) ''setting terminal actor'',
           mw FieldWaitingReason [] ''clearing waiting reason'', mw FieldState ConvStateTerminated ''setting state to terminated'']
          (Some (stop_pre_marker h root meta activeWisp forced iterationCount (''operator:'' @ u) (snd durs) stopPayload))
          (mw FieldLastProcessedWisp finalLPW ''setting last processed wisp'')) (\<lambda>_.
       ret (zero_HandlerResult\<lparr>hrAction := ActionStopped, hrIteration := iterationCount\<rparr>)))))))"
  have op: "into look ok (live root) (loop_inv root) (?op meta a l)" if "a \<noteq> root" for meta a l
    unfolding Let_def using that
    by (intro into_bindE [OF loop_inv_weaker(1)] into_case_prod into_wrap then_ret_into end_loop stop_force_close_live deriveIterationCount_keeps
        put_into root_stable_put live_stable computeDurations_keeps stop_pre_marker_ended assms weaker_refl) simp_all
  have rest: "into look ok (live root) (loop_inv root) (bindE (stop_drain h rn root meta0) (\<lambda>drained. case drained of
         None \<Rightarrow> ret (zero_HandlerResult\<lparr>hrAction := ActionStopped\<rparr>)
       | Some (meta, a, l) \<Rightarrow> ?op meta a l))" if "root \<noteq> []" "mget meta0 FieldActiveWisp \<noteq> root" for meta0
    unfolding into_def
  proof (rule triple_bindE [OF stop_drain_live [OF assms that]])
    fix f :: "(strmap \<times> string \<times> string) option"
    show "triple look ok (\<lambda>L. loop_inv root L \<and> (\<forall>x. Inr f = Inr (Some x) \<longrightarrow> live root L \<and> fst (snd x) \<noteq> root)) (case f of
         None \<Rightarrow> ret (zero_HandlerResult\<lparr>hrAction := ActionStopped\<rparr>)
       | Some (meta, a, l) \<Rightarrow> ?op meta a l) (\<lambda>r. loop_inv root)"
    proof (cases f)
      case None
      then show ?thesis by (auto intro: triple_ret)
    next
      case (Some x)
      then obtain m a l where f: "f = Some (m, a, l)" by (cases x) auto
      have "triple look ok (\<lambda>L. live root L \<and> a \<noteq> root) (?op m a l) (\<lambda>r. loop_inv root)"
        by (rule triple_pure) (use op in \<open>simp add: into_def\<close>)
      then show ?thesis unfolding f option.case prod.case by (rule triple_conseq) auto
    qed
  qed simp
  show ?thesis unfolding StopHandler_def
    by (rule into_bindE_yields [OF loop_inv_weaker(1) yields_wrap [OF yields_GetMetadata [OF assms]]], unfold Let_def [of "mget _ FieldState"] Let_def [of "''operator:'' @ u"])
      (intro into_if into_ret into_fail loop_inv_weaker rest, blast dest: live_root, blast dest: live_meta_active)
qed

lemma StopHandler_sealed:
  assumes "hStore h = st"
  shows "keeps look ok (sealed root reason actor) (StopHandler h rn root u)"
  unfolding StopHandler_def
  by (rule into_bindE_yields [OF weaker_refl yields_wrap [OF yields_GetMetadata [OF assms]]])
    (auto simp: sealed_meta Let_def intro!: into_ret into_fail)

section \<open>Trigger\<close>

lemma advanceFromTrigger_live:
  assumes "hStore h = st"
  shows "into look ok (live root) (loop_inv root) (advanceFromTrigger h root meta n)"
proof -
  have adopt: "into look ok (live root) (loop_inv root) (case x of (y, e) \<Rightarrow> (case e of
       Some err \<Rightarrow> fail (ConvWrap msg err)
     | None \<Rightarrow> bindE (wrap d1 (ActivateWisp h y)) (\<lambda>_.
      bindE (wrap d2 (PutMetadata h root FieldIteration (EncodeInt n))) (\<lambda>_.
      bindE (wrap d3 (PutMetadata h root FieldActiveWisp y)) (\<lambda>_.
      bindE (wrap d4 (PutMetadata h root FieldState ConvStateActive)) (\<lambda>_.
      bindE (emitEvent h et ei root (pl y)) (\<lambda>_. ret (res y))))))))"
    if "snd x = None \<longrightarrow> fst x \<noteq> root"
    for x :: "string \<times> ConvError option" and msg d1 d2 d3 d4 et ei pl and res :: "string \<Rightarrow> HandlerResult"
    using that
    by (intro into_intros put_live reads_keep emitEvent_keeps assms weaker_refl loop_inv_weaker) auto
  show ?thesis unfolding advanceFromTrigger_def Let_def
    by (intro into_bindE_yields [OF loop_inv_weaker(1) yields_pour_or_find [OF assms live_stable IdempotencyKey_not_Nil]] adopt)
qed

lemma HandleTrigger_live:
  assumes "hStore h = st"
  shows "into look ok (live root) (loop_inv root) (HandleTrigger h rn root)"
  unfolding HandleTrigger_def Let_def
  by (intro into_intros reads_keep deriveIterationCount_keeps advanceFromTrigger_live assms weaker_refl loop_inv_weaker)

lemma HandleTrigger_sealed:
  assumes "hStore h = st"
  shows "keeps look ok (sealed root reason actor) (HandleTrigger h rn root)"
  unfolding HandleTrigger_def
  by (rule into_bindE_yields [OF weaker_refl yields_wrap [OF yields_GetMetadata [OF assms]]])
    (auto simp: sealed_meta Let_def intro!: into_ret into_fail)

section \<open>Reconciliation\<close>

lemma into_root: "(root \<noteq> [] \<Longrightarrow> into look ok (live root) K m) \<Longrightarrow> into look ok (live root) K m"
  unfolding into_def triple_def using live_root by blast

lemma emitRecoveryEvent_keeps: "hStore h = st \<Longrightarrow> keeps look ok I (emitRecoveryEvent h et ei i p)"
  by (simp add: emitRecoveryEvent_def emit_with_keeps)

lemma children_or_none_keeps: "hStore h = st \<Longrightarrow> keeps look ok I (children_or_none h i)"
  unfolding children_or_none_def by (intro into_intros reads_keep weaker_refl)

lemma into_orStop_put:
  assumes "hStore h = st" and "protected k" and "weaker P K" and "weaker S K"
    and "\<And>L. P L \<Longrightarrow> S (put_meta root k v L)" and "\<And>x. into look ok S K (f x)"
  shows "into look ok P K (orStop a msg (PutMetadata h root k v) f)"
  unfolding into_def orStop_def
proof (rule triple_attempt [OF t_PutMetadata [OF assms(1,2), where Q = "\<lambda>r L. K L \<and> (\<forall>x. r = Inr x \<longrightarrow> S L)"]])
  fix r :: "ConvError + unit"
  show "triple look ok (\<lambda>L. K L \<and> (\<forall>x. r = Inr x \<longrightarrow> S L)) (case r of Inl e \<Rightarrow> ret (a, Some (ConvWrap msg e)) | Inr x \<Rightarrow> f x) (\<lambda>r. K)"
    using assms(6) by (cases r) (auto intro: triple_ret elim!: triple_conseq simp: into_def)
qed (use assms(3-5) in \<open>auto simp: weaker_def\<close>)

lemma into_orStop_last:
  assumes "into look ok I K m" and "\<And>x. keeps look ok K (f x)"
  shows "into look ok I K (orStop a msg m f)"
  unfolding into_def orStop_def
  by (rule triple_attempt [OF assms(1) [unfolded into_def]])
    (use assms(2) in \<open>auto simp: into_def intro: triple_ret split: sum.splits\<close>)

lemma reconcileMissingState_live:
  assumes "hStore h = st"
  shows "into look ok (live root) (loop_inv root) (reconcileMissingState h rn root meta)"
  unfolding reconcileMissingState_def Let_def
  by (intro into_orStop_yields [OF loop_inv_weaker(1) yields_find [OF assms live_stable IdempotencyKey_not_Nil]] into_case_prod into_if
      into_orStop_yields [OF loop_inv_weaker(1) yields_pour [OF assms live_stable IdempotencyKey_not_Nil]]
      into_orStop_last [OF HandleWispClosed_live [OF assms]] into_orStop [OF loop_inv_weaker(1)] reads_keep put_live assms into_finish
      weaker_refl loop_inv_weaker) simp_all

lemma reconcileCreating_live:
  assumes "hStore h = st"
  shows "into look ok (live root) (loop_inv root) (reconcileCreating h root)"
  unfolding reconcileCreating_def
  by (intro into_orStop_put [OF assms, where S = "closing False root"] into_orStop_put [OF assms, where S = "closing True root"]
      into_orStop_put [OF assms, where S = "ended root"] into_orStop close_ended assms into_finish
      weaker_refl loop_inv_weaker closing_weaker closing_put) simp_all

lemma reconcileTerminatedNotClosed_sealed:
  assumes "hStore h = st" and "mget meta FieldTerminalActor \<noteq> []"
  shows "keeps look ok (sealed root reason actor) (reconcileTerminatedNotClosed h root meta)"
  unfolding reconcileTerminatedNotClosed_def Let_def backfillTerminalActor_def
  using assms(2)
  by (intro into_orStop into_bindE into_if into_finish into_ret reads_keep children_or_none_keeps emitRecoveryEvent_keeps close_keeps_sealed
      assms(1) weaker_refl) simp

lemma completeTerminalTransition_live:
  assumes "hStore h = st" and "mget meta FieldTerminalReason \<noteq> []" and "mget meta FieldState \<noteq> ConvStateTerminated"
  shows "into look ok (\<lambda>L. live root L \<and> meta_of L root meta) (loop_inv root) (completeTerminalTransition h root meta)"
proof -
  let ?P = "\<lambda>L. live root L \<and> meta_of L root meta"
  have P: "?P L \<Longrightarrow> closing False root L" for L using assms(2) meta_of_rmeta [of L root meta] by (auto simp: closing_def)
  have PK: "weaker ?P (loop_inv root)" by (simp add: weaker_def loop_inv_def)
  have put: "keeps look ok (ended root) (if b then PutMetadata h root FieldLastProcessedWisp v else ret ())" for b v
    by (intro into_if into_ret weaker_refl) (use t_PutMetadata [OF assms(1)] in \<open>auto simp: into_def\<close>)
  define rest where "rest = (\<lambda>_ :: unit. bindE (children_or_none h root) (\<lambda>children.
     let stats = childStats children root;
         actor = (if mget meta FieldTerminalActor = [] then ''recovery'' else mget meta FieldTerminalActor)
     in bindE (emitRecoveryEvent h EventTerminated (EventIDTerminated root) root
          (PTerminated (terminated_payload (mget meta FieldTerminalReason) (csClosedCount stats) actor (csCumulativeDur stats)))) (\<lambda>_.
        orStop ActionCompletedTerminal ''setting state to terminated''
          (if mget meta FieldState \<noteq> ConvStateTerminated then PutMetadata h root FieldState ConvStateTerminated else ret ()) (\<lambda>_.
        orStop ActionCompletedTerminal ''closing bead'' (CloseBead h root CloseReasonReconcileDone) (\<lambda>_.
        ignore (if csHighestClosedFound stats then PutMetadata h root FieldLastProcessedWisp (biID (csHighestClosed stats)) else ret ())
          (finish ActionCompletedTerminal))))))"
  have rest: "into look ok (closing True root) (loop_inv root) (rest u)" for u
    unfolding rest_def Let_def if_P [OF assms(3)]
    by (intro into_bindE children_or_none_keeps emitRecoveryEvent_keeps into_orStop_put [OF assms(1), where S = "ended root"]
        into_orStop close_ended into_ignore put into_finish assms(1) weaker_refl loop_inv_weaker closing_weaker closing_put) simp_all
  show ?thesis
  proof (cases "mget meta FieldTerminalActor = []")
    case True
    have "into look ok ?P (loop_inv root) (orStop ActionCompletedTerminal ''backfilling terminal_actor''
        (PutMetadata h root FieldTerminalActor ''recovery'') rest)"
      by (rule into_orStop_put [OF assms(1) _ PK closing_weaker closing_put(2) rest]) (simp_all add: P)
    with True show ?thesis by (simp add: completeTerminalTransition_def backfillTerminalActor_def rest_def)
  next
    case False
    have c: "closing True root L" if "?P L" for L
      using P [OF that] False meta_of_rmeta [of L root meta] that by (auto simp: closing_def)
    have "into look ok ?P (loop_inv root) (rest ())"
      unfolding into_def by (rule triple_conseq [OF rest [unfolded into_def] c])
    moreover have "completeTerminalTransition h root meta = rest ()"
      using False by (simp add: completeTerminalTransition_def backfillTerminalActor_def rest_def orStop_def attempt_def ret_def fun_eq_iff)
    ultimately show ?thesis by simp
  qed
qed

text \<open>The paths below only need the live root, not the metadata read from it.\<close>

lemma reconcileWaitingManual_live:
  assumes "hStore h = st" and "mget meta FieldTerminalReason = []"
  shows "into look ok (live root) (loop_inv root) (reconcileWaitingManual h root meta)"
proof -
  have put: "keeps look ok (live root) (PutMetadata h root FieldLastProcessedWisp v)" for v
    by (rule put_live [OF assms(1)]) simp_all
  show ?thesis unfolding reconcileWaitingManual_def Let_def using assms(2)
    by (simp, intro impI conjI into_attempt into_bindE into_case_sum into_if into_orStop into_ret into_finish emitRecoveryEvent_keeps reads_keep put
        put_into root_stable_put live_stable assms(1) weaker_refl loop_inv_weaker) simp_all
qed

lemma adopt_live:
  assumes "hStore h = st" and "y \<noteq> root"
  shows "into look ok (live root) (loop_inv root) (orStop a d1 (ActivateWisp h y) (\<lambda>_.
     orStop a d2 (PutMetadata h root FieldActiveWisp y) (\<lambda>_. ignore (PutMetadata h root FieldPendingNextWisp []) (finish a))))"
  using assms(2)
  by (intro into_orStop into_ignore into_finish reads_keep put_live assms(1) weaker_refl loop_inv_weaker) simp_all

lemma reconcile_next_wisp_live:
  assumes "hStore h = st"
  shows "into look ok (live root) (loop_inv root) (reconcile_next_wisp h root meta)"
proof (rule into_root)
  assume "root \<noteq> []"
  then show "into look ok (live root) (loop_inv root) (reconcile_next_wisp h root meta)"
    unfolding reconcile_next_wisp_def Let_def
    by (intro into_orStop [OF loop_inv_weaker(1) reads_keep(3) [OF assms weaker_refl]] into_if into_case_prod adopt_live assms
        into_bindE_yields [OF loop_inv_weaker(1) yields_valid_pending [OF assms live_stable IdempotencyKey_not_Nil]]
        into_orStop_yields [OF loop_inv_weaker(1) yields_find [OF assms live_stable IdempotencyKey_not_Nil]]
        into_orStop_yields [OF loop_inv_weaker(1) yields_pour [OF assms live_stable IdempotencyKey_not_Nil]]) auto
qed

lemma reconcile_known_wisp_live:
  assumes "hStore h = st" and "y \<noteq> root"
  shows "into look ok (live root) (loop_inv root) (reconcile_known_wisp h rn root meta y info b)"
  unfolding reconcile_known_wisp_def using assms(2)
  by (intro into_orStop_last [OF HandleWispClosed_live [OF assms(1)]] into_orStop [OF loop_inv_weaker(1)] into_if into_ret into_finish put_live assms(1)
      weaker_refl loop_inv_weaker) simp_all

lemma reconcileActive_live:
  assumes "hStore h = st" and "mget meta FieldTerminalReason = []" and "mget meta FieldActiveWisp \<noteq> root"
  shows "into look ok (live root) (loop_inv root) (reconcileActive h rn root meta)"
proof -
  have rec: "into look ok (live root) (loop_inv root) (attempt (recoverCurrentActiveWisp h root l) (\<lambda>rec. case rec of
                  Inl e' \<Rightarrow> ret (ActionNoAction, Some e')
                | Inr (info, found) \<Rightarrow>
                    if found \<and> biID info \<noteq> [] then reconcile_known_wisp h rn root meta (biID info) info True
                    else reconcile_next_wisp h root meta))" for l
    by (rule into_attempt_yields [OF yields_recover [OF assms(1) live_stable]],
        intro into_case_sum into_case_prod into_if into_ret reconcile_known_wisp_live reconcile_next_wisp_live assms(1) loop_inv_weaker) auto
  show ?thesis unfolding reconcileActive_def Let_def using assms(2)
    by (simp, intro impI conjI into_attempt into_case_sum into_if into_ret reconcile_known_wisp_live reconcile_next_wisp_live rec reads_keep
        assms(1,3) weaker_refl loop_inv_weaker)
qed

lemma reconcileState_live:
  assumes "hStore h = st"
  shows "into look ok (live root) (loop_inv root) (reconcileState h rn root)"
proof -
  let ?S = "\<lambda>meta L. live root L \<and> meta_of L root meta"
  let ?next = "\<lambda>meta. if mget meta FieldState = [] then reconcileMissingState h rn root meta
     else if mget meta FieldState = ConvStateCreating then reconcileCreating h root
     else if mget meta FieldState = ConvStateTerminated then reconcileTerminatedNotClosed h root meta
     else if mget meta FieldState = ConvStateWaitingManual then reconcileWaitingManual h root meta
     else if mget meta FieldState = ConvStateWaitingTrigger then reconcileWaitingTrigger h root meta
     else if mget meta FieldState = ConvStateActive then reconcileActive h rn root meta
     else ret (ActionNoAction, Some (ConvErrorf ''unknown convergence state'' [mget meta FieldState]))"
  have drop: "triple look ok (?S meta) m (\<lambda>r. loop_inv root)"
    if "mget meta FieldState \<noteq> ConvStateTerminated \<Longrightarrow> mget meta FieldActiveWisp \<noteq> root \<Longrightarrow> into look ok (live root) (loop_inv root) m"
    for meta and m :: "'s recovery"
    using that live_meta [of root _ meta] live_meta_active [of root _ meta] unfolding into_def triple_def by blast
  have compl: "triple look ok (?S meta) (completeTerminalTransition h root meta) (\<lambda>r. loop_inv root)"
    if "mget meta FieldTerminalReason \<noteq> []" "mget meta FieldState \<noteq> ConvStateTerminated" for meta
    using completeTerminalTransition_live [OF assms that] by (simp add: into_def)
  have step: "triple look ok (?S meta) (?next meta) (\<lambda>r. loop_inv root)" for meta
  proof (cases "mget meta FieldTerminalReason = []")
    case True
    then show ?thesis
      by (intro triple_if_cases drop reconcileMissingState_live reconcileCreating_live reconcileWaitingManual_live reconcileActive_live
          into_ret loop_inv_weaker assms) (auto simp: reconcileWaitingTrigger_def intro: into_finish)
  next
    case False
    then have "reconcileWaitingManual h root meta = completeTerminalTransition h root meta"
      "reconcileWaitingTrigger h root meta = completeTerminalTransition h root meta"
      "reconcileActive h rn root meta = completeTerminalTransition h root meta"
      by (simp_all add: reconcileWaitingManual_def reconcileWaitingTrigger_def reconcileActive_def)
    with False show ?thesis
      by (simp only:) (intro triple_if_cases drop reconcileMissingState_live reconcileCreating_live compl into_ret loop_inv_weaker assms, auto)
  qed
  show ?thesis unfolding reconcileState_def Let_def orStop_def into_def
  proof (rule triple_attempt [OF t_GetMetadata [OF assms, where Q = "\<lambda>r L. live root L \<and> (\<forall>meta. r = Inr meta \<longrightarrow> meta_of L root meta)"]])
    fix r :: "ConvError + strmap"
    show "triple look ok (\<lambda>L. live root L \<and> (\<forall>meta. r = Inr meta \<longrightarrow> meta_of L root meta))
      (case r of Inl e \<Rightarrow> ret (ActionNoAction, Some (ConvWrap ''reading metadata'' e)) | Inr meta \<Rightarrow> ?next meta) (\<lambda>r. loop_inv root)"
    proof (cases r)
      case (Inr meta)
      show ?thesis unfolding Inr sum.case by (rule triple_conseq [OF step]) auto
    qed (auto intro!: triple_ret simp: loop_inv_def)
  qed auto
qed

lemma reconcileState_sealed:
  assumes "hStore h = st"
  shows "keeps look ok (sealed root reason actor) (reconcileState h rn root)"
  unfolding reconcileState_def
  by (rule into_orStop_yields [OF weaker_refl yields_GetMetadata [OF assms]])
    (auto simp: sealed_meta Let_def intro!: reconcileTerminatedNotClosed_sealed assms)

lemma reconcileBead_into: "into look ok I K (reconcileState h rn root) \<Longrightarrow> into look ok I K (reconcileBead h rn root)"
  unfolding reconcileBead_def into_def
  by (rule triple_attempt, assumption) (auto split: sum.splits prod.splits intro: triple_ret)

end

section \<open>Sequences of operations\<close>

text \<open>The entry points in any order, each with its own results of the gate scripts; whatever an operation
  returns, an error included, the next one runs on the store it leaves.\<close>

datatype conv_op =
    OpWispClosed GateRunner string
  | OpApprove string
  | OpIterate string
  | OpStop GateRunner string
  | OpTrigger GateRunner
  | OpReconcile GateRunner

fun conv_apply :: "'s Handler \<Rightarrow> string \<Rightarrow> conv_op \<Rightarrow> 's \<times> EmittedEvent list \<Rightarrow> 's \<times> EmittedEvent list" where
  "conv_apply h root (OpWispClosed rn w) s = snd (HandleWispClosed h rn root w s)"
| "conv_apply h root (OpApprove u) s = snd (ApproveHandler h root u s)"
| "conv_apply h root (OpIterate u) s = snd (IterateHandler h root u s)"
| "conv_apply h root (OpStop rn u) s = snd (StopHandler h rn root u s)"
| "conv_apply h root (OpTrigger rn) s = snd (HandleTrigger h rn root s)"
| "conv_apply h root (OpReconcile rn) s = snd (reconcileBead h rn root s)"

fun conv_run :: "'s Handler \<Rightarrow> string \<Rightarrow> conv_op list \<Rightarrow> 's \<times> EmittedEvent list \<Rightarrow> 's \<times> EmittedEvent list" where
  "conv_run h root [] s = s"
| "conv_run h root (op # ops) s = conv_run h root ops (conv_apply h root op s)"

context conv_store
begin

lemma keeps_apply:
  assumes "hStore h = st" and "ok (fst s)" and "I (look (fst s))"
    and "\<And>rn w. keeps look ok I (HandleWispClosed h rn root w)" and "\<And>u. keeps look ok I (ApproveHandler h root u)"
    and "\<And>u. keeps look ok I (IterateHandler h root u)" and "\<And>rn u. keeps look ok I (StopHandler h rn root u)"
    and "\<And>rn. keeps look ok I (HandleTrigger h rn root)" and "\<And>rn. keeps look ok I (reconcileBead h rn root)"
  shows "ok (fst (conv_apply h root op s)) \<and> I (look (fst (conv_apply h root op s)))"
proof -
  have step: "ok (fst (snd (m s))) \<and> I (look (fst (snd (m s))))" if "keeps look ok I m" for m :: "('s, 'c) act"
  proof -
    obtain r s' ev' where m: "m s = (r, s', ev')" by (metis prod_cases3)
    then have "m (fst s, snd s) = (r, s', ev')" by simp
    from tripleD [OF that [unfolded into_def] assms(2,3) this] m show ?thesis by simp
  qed
  show ?thesis by (cases op) (simp_all add: step assms)
qed

lemmas loop_inv_ops = loop_inv_rest [OF HandleWispClosed_live HandleWispClosed_sealed] loop_inv_rest [OF ApproveHandler_live ApproveHandler_sealed]
  loop_inv_rest [OF IterateHandler_live IterateHandler_sealed] loop_inv_rest [OF StopHandler_live StopHandler_sealed]
  loop_inv_rest [OF HandleTrigger_live HandleTrigger_sealed] loop_inv_rest [OF reconcileState_live reconcileState_sealed, THEN reconcileBead_into]

lemma run_loop_inv:
  "hStore h = st \<Longrightarrow> ok (fst s) \<Longrightarrow> loop_inv root (look (fst s)) \<Longrightarrow>
     ok (fst (conv_run h root ops s)) \<and> loop_inv root (look (fst (conv_run h root ops s)))"
proof (induction ops arbitrary: s)
  case (Cons op ops)
  have "ok (fst (conv_apply h root op s)) \<and> loop_inv root (look (fst (conv_apply h root op s)))"
    using Cons.prems by (intro keeps_apply [where I = "loop_inv root"] loop_inv_ops)
  with Cons show ?case by simp
qed simp

lemma run_sealed:
  "hStore h = st \<Longrightarrow> ok (fst s) \<Longrightarrow> sealed root reason actor (look (fst s)) \<Longrightarrow>
     ok (fst (conv_run h root ops s)) \<and> sealed root reason actor (look (fst (conv_run h root ops s)))"
proof (induction ops arbitrary: s)
  case (Cons op ops)
  have "ok (fst (conv_apply h root op s)) \<and> sealed root reason actor (look (fst (conv_apply h root op s)))"
    using Cons.prems
    by (intro keeps_apply [where I = "sealed root reason actor"] HandleWispClosed_sealed ApproveHandler_sealed IterateHandler_sealed StopHandler_sealed
        HandleTrigger_sealed reconcileBead_into reconcileState_sealed)
  with Cons show ?case by simp
qed simp

end

end
