(* ===== verification/Recipe.thy ===== *)
theory Recipe
  imports Go_Time Bead_Types
begin

text \<open>
  The back end of the formula compiler: the resolved formula is flattened into a recipe of ordered steps
  and dependency edges (\<^verbatim>\<open>src/internal/formula/compile.go\<close>), graph workflows are sorted topologically
  and checked for steps that wait for the control that closes them (\<^verbatim>\<open>selfclose.go\<close>,
  \<^verbatim>\<open>src/internal/beadmeta/control_close.go\<close>).  The front end (parsing, inheritance, expansion) is not
  modelled: its result, a formula whose steps are never nil, is the input here.  The free-form
  formula metadata, which only inspection APIs read, is left out.
\<close>

section \<open>Formulas and recipes\<close>

definition KindWorkflow :: string where "KindWorkflow = ''workflow''"
definition KindWisp :: string where "KindWisp = ''wisp''"
definition KindDrain :: string where "KindDrain = ''drain''"
definition KindScopeCheck :: string where "KindScopeCheck = ''scope-check''"
definition KindScope :: string where "KindScope = ''scope''"
definition ScopeRoleBody :: string where "ScopeRoleBody = ''body''"
definition ScopeRoleMetadataKey :: string where "ScopeRoleMetadataKey = ''gc.scope_role''"
definition ScopeRefMetadataKey :: string where "ScopeRefMetadataKey = ''gc.scope_ref''"
definition StepRefMetadataKey :: string where "StepRefMetadataKey = ''gc.step_ref''"
definition StepIDMetadataKey :: string where "StepIDMetadataKey = ''gc.step_id''"
definition SpecForRefMetadataKey :: string where "SpecForRefMetadataKey = ''gc.spec_for_ref''"
definition FormulaContractMetadataKey :: string where "FormulaContractMetadataKey = ''gc.formula_contract''"
definition FormulaContractGraphV2 :: string where "FormulaContractGraphV2 = ''graph.v2''"
definition FormulaNameMetadataKey :: string where "FormulaNameMetadataKey = ''gc.formula_name''"
definition sourceSpecKind :: string where "sourceSpecKind = ''spec''"

record VarDef =
  vdDescription :: string
  vdDefault :: "string option"
  vdRequired :: bool
  vdEnum :: "string list"
  vdPattern :: string
  vdType :: string

type_synonym varDefs = "(string \<times> VarDef option) list"

record Gate =
  gtType :: string
  gtID :: string
  gtTimeout :: string

record DrainSpec =
  drContext :: string
  drFormula :: string
  drContinuationGroup :: string
  drMemberAccess :: string
  drMaxUnits :: "int option"
  drOnItemFailure :: string
  drItemSingleLane :: bool

datatype Step = Step
  (fsID: string) (fsTitle: string) (fsDescription: string) (fsNotes: string) (fsType: string) (fsPriority: "int option")
  (fsLabels: "string list") (fsMetadata: strmap) (fsDependsOn: "string list") (fsNeeds: "string list") (fsWaitsFor: string)
  (fsAssignee: string) (fsGate: "Gate option") (fsDrain: "DrainSpec option") (fsChildren: "Step list")

record Formula =
  fmFormula :: string
  fmDescription :: string
  fmVars :: varDefs
  fmSteps :: "Step list"
  fmPhase :: string
  fmPour :: bool
  fmContentHash :: string
  fmSource :: string

record RecipeStep =
  rsID :: string
  rsTitle :: string
  rsDescription :: string
  rsNotes :: string
  rsType :: string
  rsPriority :: "int option"
  rsLabels :: "string list"
  rsAssignee :: string
  rsIsRoot :: bool
  rsMetadata :: strmap
  rsGate :: "Gate option"

record RecipeDep =
  depStepID :: string
  depDependsOnID :: string
  depType :: string
  depMetadata :: string

record Recipe =
  rcName :: string
  rcDescription :: string
  rcSteps :: "RecipeStep list"
  rcDeps :: "RecipeDep list"
  rcVars :: varDefs
  rcPhase :: string
  rcPour :: bool
  rcRootOnly :: bool
  rcContentHash :: string
  rcFormulaSource :: string

definition recipe_dep :: "string \<Rightarrow> string \<Rightarrow> string \<Rightarrow> RecipeDep" where
  "recipe_dep s d t = \<lparr>depStepID = s, depDependsOnID = d, depType = t, depMetadata = []\<rparr>"

section \<open>Flattening\<close>

definition isSourceSpecStep :: "Step \<Rightarrow> bool" where
  "isSourceSpecStep s \<longleftrightarrow> mget (fsMetadata s) KindMetadataKey = sourceSpecKind"

definition isDetachedGraphStep :: "Step \<Rightarrow> bool" where
  "isDetachedGraphStep s \<longleftrightarrow>
     mget (fsMetadata s) KindMetadataKey \<in> {''ralph'', ''run'', ''check'', ''retry'', ''retry-run'', ''retry-eval''}"

definition isWorkflowRootBlocker :: "Step \<Rightarrow> bool" where
  "isWorkflowRootBlocker s \<longleftrightarrow>
     mget (fsMetadata s) KindMetadataKey \<notin> {''run'', ''check'', ''retry-run'', ''retry-eval'', ''spec''}"

definition ApplyDrainControlMetadata :: "strmap \<Rightarrow> DrainSpec \<Rightarrow> strmap" where
  "ApplyDrainControlMetadata metadata spec =
     (let memberAccess = (let t = TrimSpace (drMemberAccess spec) in if t = [] then ''read'' else t);
          onItemFailure = (let t = TrimSpace (drOnItemFailure spec) in
            if t = [] then (if drContext spec = ''shared'' then ''skip_remaining'' else ''continue'') else t);
          m1 = metadata(KindMetadataKey \<mapsto> KindDrain, ''gc.drain_context'' \<mapsto> drContext spec, ''gc.drain_formula'' \<mapsto> drFormula spec,
                 ''gc.drain_member_access'' \<mapsto> memberAccess);
          m2 = (case drMaxUnits spec of None \<Rightarrow> m1 | Some n \<Rightarrow> m1(''gc.drain_max_units'' \<mapsto> itoa n));
          m3 = m2(''gc.drain_on_item_failure'' \<mapsto> onItemFailure);
          m4 = (if drContinuationGroup spec \<noteq> [] then m3(''gc.drain_continuation_group'' \<mapsto> drContinuationGroup spec) else m3)
      in if drItemSingleLane spec then m4(''gc.drain_item_single_lane'' \<mapsto> ''true'') else m4)"

definition metadataForDrainStep :: "Step \<Rightarrow> DrainSpec \<Rightarrow> strmap" where
  "metadataForDrainStep s spec = ApplyDrainControlMetadata (fsMetadata s) spec"

text \<open>What flattening accumulates: the map from step ids to namespaced ids, the steps and the edges.\<close>

record flat =
  flMapping :: strmap
  flOut :: "RecipeStep list"
  flDeps :: "RecipeDep list"

definition flat_metadata :: "strmap \<Rightarrow> Step \<Rightarrow> strmap" where
  "flat_metadata idMapping s =
     (case fsDrain s of
        Some spec \<Rightarrow> metadataForDrainStep s spec
      | None \<Rightarrow>
          if isSourceSpecStep s
          then let specForRef = mget (fsMetadata s) SpecForRefMetadataKey in
               if specForRef \<noteq> []
               then (case idMapping specForRef of None \<Rightarrow> fsMetadata s | Some mapped \<Rightarrow> (fsMetadata s)(SpecForRefMetadataKey \<mapsto> mapped))
               else fsMetadata s
          else fsMetadata s)"

definition recipe_step :: "string \<Rightarrow> strmap \<Rightarrow> Step \<Rightarrow> RecipeStep" where
  "recipe_step issueID metadata s =
     \<lparr>rsID = issueID, rsTitle = fsTitle s, rsDescription = fsDescription s, rsNotes = fsNotes s,
      rsType = (if fsChildren s \<noteq> [] then ''epic'' else if fsType s = [] then ''task'' else fsType s),
      rsPriority = fsPriority s,
      rsLabels = (if fsWaitsFor s \<noteq> [] then fsLabels s @ [''gate:'' @ fsWaitsFor s] else fsLabels s),
      rsAssignee = fsAssignee s, rsIsRoot = False, rsMetadata = metadata, rsGate = None\<rparr>"

definition gate_step :: "string \<Rightarrow> Step \<Rightarrow> Gate \<Rightarrow> RecipeStep" where
  "gate_step gateID s g =
     \<lparr>rsID = gateID, rsTitle = (if gtID g \<noteq> [] then ''Gate: '' @ gtType g @ '' '' @ gtID g else ''Gate: '' @ gtType g),
      rsDescription = ''Async gate for step '' @ fsID s, rsNotes = [], rsType = ''gate'', rsPriority = Some 2, rsLabels = [],
      rsAssignee = [], rsIsRoot = False, rsMetadata = Map.empty, rsGate = Some g\<rparr>"

text \<open>One step and its gate, without its children.\<close>

definition flatten_step :: "bool \<Rightarrow> string \<Rightarrow> Step \<Rightarrow> flat \<Rightarrow> flat" where
  "flatten_step graphWorkflow parentID s a =
     (let issueID = parentID @ ''.'' @ fsID s;
          mapping = (flMapping a)(fsID s \<mapsto> issueID);
          a1 = \<lparr>flMapping = mapping, flOut = flOut a @ [recipe_step issueID (flat_metadata mapping s) s],
                flDeps = flDeps a @ (if \<not> graphWorkflow \<and> \<not> isDetachedGraphStep s then [recipe_dep issueID parentID ''parent-child''] else [])\<rparr>
      in case fsGate s of
           None \<Rightarrow> a1
         | Some g \<Rightarrow>
             let gateID = parentID @ ''.gate-'' @ fsID s in
             a1\<lparr>flMapping := (flMapping a1)(''gate-'' @ fsID s \<mapsto> gateID), flOut := flOut a1 @ [gate_step gateID s g],
                flDeps := flDeps a1 @ (if \<not> graphWorkflow then [recipe_dep gateID parentID ''parent-child''] else [])
                  @ [recipe_dep issueID gateID ''blocks'']\<rparr>)"

lemma size_children [termination_simp]: "size_list size (fsChildren s) < size s"
  by (cases s) simp

fun flattenSteps :: "bool \<Rightarrow> string \<Rightarrow> Step list \<Rightarrow> flat \<Rightarrow> flat" where
  "flattenSteps graphWorkflow parentID [] a = a"
| "flattenSteps graphWorkflow parentID (s # ss) a =
     flattenSteps graphWorkflow parentID ss
       (flattenSteps graphWorkflow (parentID @ ''.'' @ fsID s) (fsChildren s) (flatten_step graphWorkflow parentID s a))"

section \<open>Dependency edges\<close>

record WaitsForSpec =
  wfGate :: string
  wfSpawnerID :: string

definition has_suffix :: "string \<Rightarrow> string \<Rightarrow> bool" where
  "has_suffix p s \<longleftrightarrow> has_prefix (rev p) (rev s)"

definition ParseWaitsFor :: "string \<Rightarrow> WaitsForSpec option" where
  "ParseWaitsFor value =
     (if value = [] then None
      else if value = ''all-children'' \<or> value = ''any-children'' then Some \<lparr>wfGate = value, wfSpawnerID = []\<rparr>
      else if has_prefix ''children-of('' value \<and> has_suffix '')'' value
      then Some \<lparr>wfGate = ''all-children'', wfSpawnerID = butlast (drop (length ''children-of('') value)\<rparr>
      else None)"

definition blocking_deps :: "strmap \<Rightarrow> string \<Rightarrow> string list \<Rightarrow> RecipeDep list" where
  "blocking_deps idMapping issueID ids =
     concat (map (\<lambda>d. case idMapping d of None \<Rightarrow> [] | Some i \<Rightarrow> [recipe_dep issueID i ''blocks'']) ids)"

text \<open>A string in double quotes; the quoted texts are gate names, which need no escapes.\<close>

definition quoted :: "string \<Rightarrow> string" where
  "quoted s = [CHR 0x22] @ s @ [CHR 0x22]"

definition waits_for_deps :: "strmap \<Rightarrow> string \<Rightarrow> Step \<Rightarrow> RecipeDep list" where
  "waits_for_deps idMapping issueID s =
     (case ParseWaitsFor (fsWaitsFor s) of
        None \<Rightarrow> []
      | Some spec \<Rightarrow>
          let spawner = (if wfSpawnerID spec = [] \<and> fsNeeds s \<noteq> [] then hd (fsNeeds s) else wfSpawnerID spec) in
          if spawner = [] then []
          else case idMapping spawner of
                 None \<Rightarrow> []
               | Some i \<Rightarrow> [\<lparr>depStepID = issueID, depDependsOnID = i, depType = ''waits-for'',
                             depMetadata = ''{'' @ quoted ''gate'' @ '':'' @ quoted (wfGate spec) @ ''}''\<rparr>])"

fun collectRecipeDeps :: "strmap \<Rightarrow> Step list \<Rightarrow> RecipeDep list" where
  "collectRecipeDeps idMapping [] = []"
| "collectRecipeDeps idMapping (s # ss) =
     (let issueID = mget idMapping (fsID s) in
      blocking_deps idMapping issueID (fsDependsOn s) @ blocking_deps idMapping issueID (fsNeeds s)
        @ (if fsWaitsFor s \<noteq> [] then waits_for_deps idMapping issueID s else [])
        @ collectRecipeDeps idMapping (fsChildren s) @ collectRecipeDeps idMapping ss)"

definition is_finalizer :: "Step \<Rightarrow> bool" where
  "is_finalizer s \<longleftrightarrow> mget (fsMetadata s) KindMetadataKey = KindWorkflowFinalize"

definition addWorkflowRootDeps :: "string \<Rightarrow> Step list \<Rightarrow> strmap \<Rightarrow> RecipeDep list" where
  "addWorkflowRootDeps rootID steps idMapping =
     (case find is_finalizer steps of
        Some s \<Rightarrow> (case idMapping (fsID s) of None \<Rightarrow> [] | Some i \<Rightarrow> [recipe_dep rootID i ''tracks''])
      | None \<Rightarrow>
          concat (map (\<lambda>s. case idMapping (fsID s) of None \<Rightarrow> [] | Some i \<Rightarrow> [recipe_dep rootID i ''blocks''])
            (filter isWorkflowRootBlocker steps)))"

section \<open>Topological order of graph workflows\<close>

record topo =
  tpReady :: "string list"
  tpInDegree :: "string \<Rightarrow> int option"
  tpResult :: "RecipeStep list"

definition counts_edge :: "string \<Rightarrow> (string \<Rightarrow> int option) \<Rightarrow> RecipeDep \<Rightarrow> bool" where
  "counts_edge rootID inDegree d \<longleftrightarrow>
     depType d \<noteq> ''parent-child'' \<and> depStepID d \<noteq> rootID \<and> inDegree (depStepID d) \<noteq> None \<and> inDegree (depDependsOnID d) \<noteq> None"

text \<open>The maps built before the loop; of two steps with the same id the last one is kept.\<close>

definition last_step :: "RecipeStep list \<Rightarrow> string \<Rightarrow> RecipeStep option" where
  "last_step steps i = find (\<lambda>s. rsID s = i) (rev steps)"

definition last_index :: "RecipeStep list \<Rightarrow> string \<Rightarrow> int" where
  "last_index steps i = fold (\<lambda>(n, s) k. if rsID s = i then int n else k) (enumerate 0 steps) 0"

definition add_edge :: "string \<Rightarrow> RecipeDep \<Rightarrow> (string \<Rightarrow> string list) \<times> (string \<Rightarrow> int option) \<Rightarrow> (string \<Rightarrow> string list) \<times> (string \<Rightarrow> int option)" where
  "add_edge rootID d = (\<lambda>(edges, inDegree).
     if counts_edge rootID inDegree d
     then (edges(depDependsOnID d := edges (depDependsOnID d) @ [depStepID d]),
           inDegree(depStepID d := map_option (\<lambda>n. n + 1) (inDegree (depStepID d))))
     else (edges, inDegree))"

fun pick_best :: "(string \<Rightarrow> int) \<Rightarrow> string list \<Rightarrow> nat \<Rightarrow> nat \<Rightarrow> string \<Rightarrow> nat" where
  "pick_best ord [] i best bestID = best"
| "pick_best ord (r # rs) i best bestID =
     (if ord r < ord bestID then pick_best ord rs (Suc i) i r else pick_best ord rs (Suc i) best bestID)"

definition best_index :: "(string \<Rightarrow> int) \<Rightarrow> string list \<Rightarrow> nat" where
  "best_index ord ready = (case ready of [] \<Rightarrow> 0 | r # rs \<Rightarrow> pick_best ord rs 1 0 r)"

fun release :: "string list \<Rightarrow> string list \<times> (string \<Rightarrow> int option) \<Rightarrow> string list \<times> (string \<Rightarrow> int option)" where
  "release [] st = st"
| "release (n # ns) (ready, inDegree) =
     (let d = (case inDegree n of None \<Rightarrow> 0 | Some k \<Rightarrow> k) - 1 in
      release ns (if d = 0 then ready @ [n] else ready, inDegree(n \<mapsto> d)))"

text \<open>The loop; the fuel bounds the number of steps taken from the ready list.\<close>

fun topo_loop :: "nat \<Rightarrow> (string \<Rightarrow> int) \<Rightarrow> (string \<Rightarrow> string list) \<Rightarrow> (string \<Rightarrow> RecipeStep option) \<Rightarrow> topo \<Rightarrow> topo" where
  "topo_loop 0 ord edges stepByID t = t"
| "topo_loop (Suc n) ord edges stepByID t =
     (if tpReady t = [] then t
      else let k = best_index ord (tpReady t); i = tpReady t ! k;
               rest = take k (tpReady t) @ drop (Suc k) (tpReady t);
               (ready, inDegree) = release (edges i) (rest, tpInDegree t)
           in topo_loop n ord edges stepByID
                \<lparr>tpReady = ready, tpInDegree = inDegree, tpResult = tpResult t @ (case stepByID i of None \<Rightarrow> [] | Some s \<Rightarrow> [s])\<rparr>)"

definition order_start :: "string \<Rightarrow> RecipeStep list \<Rightarrow> RecipeDep list \<Rightarrow> (string \<Rightarrow> string list) \<times> topo" where
  "order_start rootID steps deps =
     (let root = (case last_step steps rootID of None \<Rightarrow> hd steps | Some s \<Rightarrow> s);
          orderedIDs = filter (\<lambda>i. i \<noteq> rootID) (map rsID steps);
          (edges, inDegree) = foldl (\<lambda>a d. add_edge rootID d a) (\<lambda>_. [], \<lambda>i. if i \<in> set orderedIDs then Some 0 else None) deps
      in (edges, \<lparr>tpReady = filter (\<lambda>i. inDegree i = Some 0) orderedIDs, tpInDegree = inDegree, tpResult = [root]\<rparr>))"

definition orderGraphRecipeSteps :: "string \<Rightarrow> RecipeStep list \<Rightarrow> RecipeDep list \<Rightarrow> string + RecipeStep list" where
  "orderGraphRecipeSteps rootID steps deps =
     (if length steps \<le> 2 then Inr steps
      else let (edges, t) = order_start rootID steps deps;
               result = tpResult (topo_loop (length steps) (last_index steps) edges (last_step steps) t)
           in if length result \<noteq> length steps then Inl (''v2 formula contains a dependency cycle: '' @ rootID) else Inr result)"

section \<open>Self-closing control edges\<close>

definition NodeIsScope :: "string \<Rightarrow> strmap \<Rightarrow> string \<Rightarrow> bool" where
  "NodeIsScope nodeID nodeMeta scopeRef \<longleftrightarrow> scopeRef \<noteq> [] \<and>
     (\<exists>c \<in> set [nodeID, mget nodeMeta StepRefMetadataKey, mget nodeMeta StepIDMetadataKey].
        c \<noteq> [] \<and> (c = scopeRef \<or> has_suffix (''.'' @ scopeRef) c))"

definition ControlClosesNode :: "strmap \<Rightarrow> string \<Rightarrow> strmap \<Rightarrow> bool" where
  "ControlClosesNode controlMeta nodeID nodeMeta =
     (if mget controlMeta KindMetadataKey = KindScopeCheck
      then if mget nodeMeta KindMetadataKey \<noteq> KindScope \<or> mget nodeMeta ScopeRoleMetadataKey \<noteq> ScopeRoleBody then False
           else NodeIsScope nodeID nodeMeta (mget controlMeta ScopeRefMetadataKey)
      else if mget controlMeta KindMetadataKey = KindWorkflowFinalize then mget nodeMeta KindMetadataKey = KindWorkflow
      else False)"

definition isReadinessBlockingDepType :: "string \<Rightarrow> bool" where
  "isReadinessBlockingDepType t \<longleftrightarrow> t \<in> {[], ''blocks'', ''waits-for'', ''conditional-blocks''}"

definition step_meta :: "RecipeStep list \<Rightarrow> string \<Rightarrow> strmap" where
  "step_meta steps i = (case last_step steps i of None \<Rightarrow> Map.empty | Some s \<Rightarrow> rsMetadata s)"

record SelfClosingControlEdge =
  scNodeID :: string
  scControlID :: string
  scDepType :: string

definition edge_text :: "SelfClosingControlEdge \<Rightarrow> string" where
  "edge_text e = scNodeID e @ '' is blocked by '' @ scControlID e @ '' ('' @ scDepType e @ ''), which closes it''"

definition self_closing :: "RecipeStep list \<Rightarrow> RecipeDep \<Rightarrow> bool" where
  "self_closing steps d \<longleftrightarrow> isReadinessBlockingDepType (depType d) \<and> last_step steps (depDependsOnID d) \<noteq> None
     \<and> ControlClosesNode (step_meta steps (depDependsOnID d)) (depStepID d) (step_meta steps (depStepID d))"

definition FindSelfClosingControlEdges :: "RecipeStep list \<Rightarrow> RecipeDep list \<Rightarrow> SelfClosingControlEdge list" where
  "FindSelfClosingControlEdges steps deps =
     (if steps = [] \<or> deps = [] then []
      else sort_slice (\<lambda>a b. if scNodeID a \<noteq> scNodeID b then scNodeID a < scNodeID b else scControlID a < scControlID b)
        (map (\<lambda>d. \<lparr>scNodeID = depStepID d, scControlID = depDependsOnID d, scDepType = depType d\<rparr>) (filter (self_closing steps) deps)))"

fun join :: "string \<Rightarrow> string list \<Rightarrow> string" where
  "join sep [] = []"
| "join sep [x] = x"
| "join sep (x # y # ys) = x @ sep @ join sep (y # ys)"

definition ValidateNoSelfClosingControlEdges :: "string \<Rightarrow> RecipeStep list \<Rightarrow> RecipeDep list \<Rightarrow> string + unit" where
  "ValidateNoSelfClosingControlEdges recipeName steps deps =
     (let found = FindSelfClosingControlEdges steps deps in
      if found = [] then Inr ()
      else Inl (''compiling formula '' @ quoted recipeName @ '': control close cycle: '' @ join ''; '' (map edge_text found)))"

section \<open>The recipe\<close>

definition root_metadata :: "Formula \<Rightarrow> bool \<Rightarrow> bool \<Rightarrow> strmap" where
  "root_metadata f graphWorkflow rootOnly =
     (let m = (if graphWorkflow then [KindMetadataKey \<mapsto> KindWorkflow, FormulaContractMetadataKey \<mapsto> FormulaContractGraphV2]
               else if rootOnly then [KindMetadataKey \<mapsto> KindWisp] else Map.empty)
      in if fmFormula f \<noteq> [] then m(FormulaNameMetadataKey \<mapsto> fmFormula f) else m)"

definition root_step :: "Formula \<Rightarrow> bool \<Rightarrow> bool \<Rightarrow> RecipeStep" where
  "root_step f graphWorkflow rootOnly =
     \<lparr>rsID = fmFormula f,
      rsTitle = (if ''title'' \<in> fst ` set (fmVars f) then ''{{title}}'' else fmFormula f),
      rsDescription = (if ''desc'' \<in> fst ` set (fmVars f) then ''{{desc}}'' else fmDescription f),
      rsNotes = [], rsType = (if graphWorkflow \<or> rootOnly then ''task'' else ''molecule''), rsPriority = Some 2, rsLabels = [],
      rsAssignee = [], rsIsRoot = True, rsMetadata = root_metadata f graphWorkflow rootOnly, rsGate = None\<rparr>"

definition root_only :: "Formula \<Rightarrow> bool" where
  "root_only f \<longleftrightarrow> \<not> fmPour f \<and> fmPhase f = ''vapor'' \<or> fmSteps f = []"

definition formula_flat :: "Formula \<Rightarrow> bool \<Rightarrow> flat" where
  "formula_flat f graphWorkflow =
     flattenSteps graphWorkflow (fmFormula f) (fmSteps f)
       \<lparr>flMapping = Map.empty, flOut = [root_step f graphWorkflow (root_only f)], flDeps = []\<rparr>"

definition formula_deps :: "Formula \<Rightarrow> bool \<Rightarrow> RecipeDep list" where
  "formula_deps f graphWorkflow =
     (let fl = formula_flat f graphWorkflow in
      flDeps fl @ collectRecipeDeps (flMapping fl) (fmSteps f)
        @ (if graphWorkflow then addWorkflowRootDeps (fmFormula f) (fmSteps f) (flMapping fl) else []))"

definition toRecipeWithGraph :: "Formula \<Rightarrow> bool \<Rightarrow> string + Recipe" where
  "toRecipeWithGraph f graphWorkflow =
     (let steps = flOut (formula_flat f graphWorkflow); deps = formula_deps f graphWorkflow;
          r = \<lparr>rcName = fmFormula f, rcDescription = fmDescription f, rcSteps = steps, rcDeps = deps, rcVars = fmVars f,
               rcPhase = fmPhase f, rcPour = fmPour f, rcRootOnly = root_only f, rcContentHash = fmContentHash f, rcFormulaSource = fmSource f\<rparr>
      in if \<not> graphWorkflow then Inr r
         else case orderGraphRecipeSteps (fmFormula f) steps deps of
                Inl e \<Rightarrow> Inl e
              | Inr ordered \<Rightarrow>
                  (case ValidateNoSelfClosingControlEdges (fmFormula f) ordered deps of
                     Inl e \<Rightarrow> Inl e
                   | Inr _ \<Rightarrow> Inr (r\<lparr>rcSteps := ordered\<rparr>)))"

end
