(* ===== verification/Recipe_Order.thy ===== *)
theory Recipe_Order
  imports Recipe
begin

text \<open>
  The compiled recipe: its first step is its only root, every other step is named below the root, and the
  order of a graph workflow is a topological order of its steps, found exactly when there is one.
\<close>

section \<open>Flattening\<close>

lemma flatten_step_out:
  "\<exists>l. flOut (flatten_step g p s a) = flOut a @ l \<and> (\<forall>r \<in> set l. \<not> rsIsRoot r \<and> (\<exists>x. rsID r = p @ ''.'' @ x))"
  by (auto simp: flatten_step_def Let_def recipe_step_def gate_step_def split: option.split)

lemma flattenSteps_out:
  "\<exists>l. flOut (flattenSteps g p ss a) = flOut a @ l \<and> (\<forall>r \<in> set l. \<not> rsIsRoot r \<and> (\<exists>x. rsID r = p @ ''.'' @ x))"
proof (induction g p ss a rule: flattenSteps.induct)
  case (1 g p a)
  show ?case by simp
next
  case (2 g p s ss a)
  obtain l1 where l1: "flOut (flatten_step g p s a) = flOut a @ l1" "\<forall>r \<in> set l1. \<not> rsIsRoot r \<and> (\<exists>x. rsID r = p @ ''.'' @ x)"
    using flatten_step_out by blast
  from "2.IH"(1) obtain l2 where l2: "flOut (flattenSteps g (p @ ''.'' @ fsID s) (fsChildren s) (flatten_step g p s a)) =
      flOut (flatten_step g p s a) @ l2" "\<forall>r \<in> set l2. \<not> rsIsRoot r \<and> (\<exists>x. rsID r = (p @ ''.'' @ fsID s) @ ''.'' @ x)"
    by blast
  from "2.IH"(2) obtain l3 where l3: "flOut (flattenSteps g p (s # ss) a) =
      flOut (flattenSteps g (p @ ''.'' @ fsID s) (fsChildren s) (flatten_step g p s a)) @ l3"
      "\<forall>r \<in> set l3. \<not> rsIsRoot r \<and> (\<exists>x. rsID r = p @ ''.'' @ x)" by auto
  show ?case using l1 l2 l3 by (intro exI [of _ "l1 @ l2 @ l3"]) auto
qed

lemma flattenSteps_parent:
  "d \<in> set (flDeps (flattenSteps g p ss a)) \<Longrightarrow> depType d = ''parent-child'' \<Longrightarrow>
     d \<in> set (flDeps a) \<or> (\<exists>x. depStepID d = p @ ''.'' @ x)"
proof (induction g p ss a rule: flattenSteps.induct)
  case (1 g p a)
  then show ?case by simp
next
  case (2 g p s ss a)
  have step: "d \<in> set (flDeps a) \<or> (\<exists>x. depStepID d = p @ ''.'' @ x)" if "d \<in> set (flDeps (flatten_step g p s a))"
    using that "2.prems"(2) by (auto simp: flatten_step_def Let_def recipe_dep_def split: option.splits if_splits)
  from "2.prems" "2.IH"(2) have "d \<in> set (flDeps (flattenSteps g (p @ ''.'' @ fsID s) (fsChildren s) (flatten_step g p s a)))
      \<or> (\<exists>x. depStepID d = p @ ''.'' @ x)" by simp
  with "2.IH"(1) "2.prems"(2) step show ?case by auto
qed

section \<open>The ready list\<close>

definition deg_of :: "(string \<Rightarrow> int option) \<Rightarrow> string \<Rightarrow> int" where
  "deg_of f j = (case f j of None \<Rightarrow> 0 | Some k \<Rightarrow> k)"

lemma deg_of_upd [simp]: "deg_of (f(n \<mapsto> d)) j = (if j = n then d else deg_of f j)"
  by (simp add: deg_of_def)

lemma release_deg:
  "release ns (ready, f) = (ready', f') \<Longrightarrow> deg_of f' j = deg_of f j - int (count_list ns j)"
  by (induction ns "(ready, f)" arbitrary: ready f rule: release.induct) (auto simp: Let_def deg_of_def split: if_splits)

lemma release_ready:
  assumes "release ns (ready, f) = (ready', f')" and "\<And>j. j \<in> set ns \<Longrightarrow> int (count_list ns j) \<le> deg_of f j"
  shows "\<exists>xs. ready' = ready @ xs \<and> distinct xs \<and> set xs = {j \<in> set ns. deg_of f j = int (count_list ns j)}"
  using assms
proof (induction ns arbitrary: ready f)
  case Nil
  then show ?case by simp
next
  case (Cons n ns)
  let ?d = "deg_of f n - 1"
  let ?r = "if ?d = 0 then ready @ [n] else ready"
  let ?f = "f(n \<mapsto> ?d)"
  have step: "release ns (?r, ?f) = (ready', f')" using Cons.prems(1) by (simp add: Let_def deg_of_def)
  have le: "int (count_list ns j) \<le> deg_of ?f j" if "j \<in> set ns" for j
    using Cons.prems(2) [of j] that by (auto split: if_splits)
  from Cons.IH [OF step le] obtain xs where xs: "ready' = ?r @ xs" "distinct xs"
    "set xs = {j \<in> set ns. deg_of ?f j = int (count_list ns j)}" by blast
  show ?case
  proof (cases "?d = 0")
    case True
    have "n \<notin> set ns"
    proof
      assume "n \<in> set ns"
      then have "count_list ns n > 0" by (metis count_list_0_iff gr0I)
      with Cons.prems(2) [of n] True show False by auto
    qed
    then have c0: "count_list ns n = 0" and n: "n \<notin> set xs" using xs(3) by auto
    have d1: "deg_of f n = 1" using True by simp
    have "set (n # xs) = {j \<in> set (n # ns). deg_of f j = int (count_list (n # ns) j)}"
    proof (rule set_eqI)
      fix j show "j \<in> set (n # xs) \<longleftrightarrow> j \<in> {j \<in> set (n # ns). deg_of f j = int (count_list (n # ns) j)}"
        using xs(3) c0 d1 \<open>n \<notin> set ns\<close> by (cases "j = n") simp_all
    qed
    with xs(1,2) n True show ?thesis by (intro exI [of _ "n # xs"]) simp
  next
    case False
    have "set xs = {j \<in> set (n # ns). deg_of f j = int (count_list (n # ns) j)}"
    proof (rule set_eqI)
      fix j show "j \<in> set xs \<longleftrightarrow> j \<in> {j \<in> set (n # ns). deg_of f j = int (count_list (n # ns) j)}"
        using xs(3) False count_notin [of n ns] by (cases "j = n"; cases "n \<in> set ns") auto
    qed
    with xs(1,2) False show ?thesis by (intro exI [of _ xs]) simp
  qed
qed

lemma pick_best_bound: "best < k \<Longrightarrow> pick_best ord rs k best b < k + length rs"
proof (induction rs arbitrary: k best b)
  case (Cons r rs)
  then show ?case using Cons.IH [of k "Suc k" r] Cons.IH [of best "Suc k" b] by simp
qed simp

lemma best_index_bound:
  assumes "ready \<noteq> []"
  shows "best_index ord ready < length ready"
proof -
  from assms obtain r rs where r: "ready = r # rs" by (cases ready) auto
  show ?thesis using pick_best_bound [of 0 1 ord rs r] by (simp add: r best_index_def)
qed

section \<open>The loop\<close>

definition succs :: "RecipeDep list \<Rightarrow> string \<Rightarrow> string list" where
  "succs E i = map depStepID (filter (\<lambda>d. depDependsOnID d = i) E)"

definition open_deps :: "RecipeDep list \<Rightarrow> string list \<Rightarrow> string \<Rightarrow> nat" where
  "open_deps E P j = length (filter (\<lambda>d. depStepID d = j \<and> depDependsOnID d \<notin> set P) E)"

definition topo_inv :: "string list \<Rightarrow> RecipeDep list \<Rightarrow> RecipeStep \<Rightarrow> (string \<Rightarrow> RecipeStep option) \<Rightarrow> string list \<Rightarrow> topo \<Rightarrow> bool" where
  "topo_inv ids E root stepByID P t \<longleftrightarrow>
     distinct (P @ tpReady t) \<and> set (P @ tpReady t) \<subseteq> set ids
   \<and> (\<forall>j \<in> set ids. deg_of (tpInDegree t) j = int (open_deps E P j))
   \<and> (\<forall>j \<in> set ids. j \<in> set (P @ tpReady t) \<longleftrightarrow> open_deps E P j = 0)
   \<and> tpResult t = root # map (\<lambda>i. the (stepByID i)) P
   \<and> (\<forall>k < length P. \<forall>d \<in> set E. depStepID d = P ! k \<longrightarrow> depDependsOnID d \<in> set (take k P))"

lemma count_succs: "count_list (succs E i) j = length (filter (\<lambda>d. depDependsOnID d = i \<and> depStepID d = j) E)"
  by (induction E) (auto simp: succs_def)

lemma open_deps_snoc:
  "i \<notin> set P \<Longrightarrow> open_deps E P j = open_deps E (P @ [i]) j + count_list (succs E i) j"
  unfolding count_succs open_deps_def by (induction E) auto

lemma open_deps_0: "open_deps E P j = 0 \<longleftrightarrow> (\<forall>d \<in> set E. depStepID d = j \<longrightarrow> depDependsOnID d \<in> set P)"
  by (auto simp: open_deps_def filter_empty_conv)

lemma remove_nth:
  assumes "k < length xs"
  shows "mset (take k xs @ drop (Suc k) xs) = mset xs - {#xs ! k#}"
proof -
  have "mset xs = mset (take k xs @ xs ! k # drop (Suc k) xs)" using id_take_nth_drop [OF assms] by simp
  then show ?thesis by simp
qed

lemma topo_step:
  assumes inv: "topo_inv ids E root stepByID P t" and E: "\<forall>d \<in> set E. depStepID d \<in> set ids"
    and k: "k < length (tpReady t)" and i: "i = tpReady t ! k" and step: "stepByID i = Some s"
    and rel: "release (succs E i) (take k (tpReady t) @ drop (Suc k) (tpReady t), tpInDegree t) = (ready, f)"
  shows "topo_inv ids E root stepByID (P @ [i]) \<lparr>tpReady = ready, tpInDegree = f, tpResult = tpResult t @ [s]\<rparr>"
proof -
  let ?rest = "take k (tpReady t) @ drop (Suc k) (tpReady t)"
  have dist: "distinct (P @ tpReady t)" and sub: "set (P @ tpReady t) \<subseteq> set ids"
    and deg: "\<And>j. j \<in> set ids \<Longrightarrow> deg_of (tpInDegree t) j = int (open_deps E P j)"
    and rdy: "\<And>j. j \<in> set ids \<Longrightarrow> j \<in> set (P @ tpReady t) \<longleftrightarrow> open_deps E P j = 0"
    and res: "tpResult t = root # map (\<lambda>i. the (stepByID i)) P"
    and ord: "\<And>k d. k < length P \<Longrightarrow> d \<in> set E \<Longrightarrow> depStepID d = P ! k \<Longrightarrow> depDependsOnID d \<in> set (take k P)"
    using inv by (auto simp: topo_inv_def)
  have ready: "tpReady t = take k (tpReady t) @ i # drop (Suc k) (tpReady t)" using id_take_nth_drop [OF k] i by simp
  have mem: "i \<in> set (tpReady t)" unfolding i using k by simp
  then have iP: "i \<notin> set P" and iin: "i \<in> set ids" using dist sub by auto
  have rest: "set ?rest = set (tpReady t) - {i}" "distinct ?rest"
  proof -
    from dist have d: "distinct (take k (tpReady t) @ i # drop (Suc k) (tpReady t))" using ready by simp
    then show "distinct ?rest" by auto
    have "set (tpReady t) = insert i (set ?rest)" using arg_cong [OF ready, of set] by auto
    with d show "set ?rest = set (tpReady t) - {i}" by auto
  qed
  have sets: "set (succs E i) \<subseteq> set ids" using E by (auto simp: succs_def)
  have sn: "open_deps E P j = open_deps E (P @ [i]) j + count_list (succs E i) j" for j by (rule open_deps_snoc [OF iP])
  have le: "int (count_list (succs E i) j) \<le> deg_of (tpInDegree t) j" if "j \<in> set (succs E i)" for j
    using sn [of j] deg [of j] sets that by auto
  from release_ready [OF rel le] obtain xs where xs: "ready = ?rest @ xs" "distinct xs"
    "set xs = {j \<in> set (succs E i). deg_of (tpInDegree t) j = int (count_list (succs E i) j)}" by blast
  have xs': "set xs = {j \<in> set ids. open_deps E P j \<noteq> 0 \<and> open_deps E (P @ [i]) j = 0}"
  proof -
    have "j \<in> set xs \<longleftrightarrow> j \<in> set ids \<and> open_deps E P j \<noteq> 0 \<and> open_deps E (P @ [i]) j = 0" for j
      using sn [of j] deg [of j] sets xs(3) count_notin [of j "succs E i"] count_list_0_iff [of "succs E i" j] by (cases "j \<in> set (succs E i)") auto
    then show ?thesis by blast
  qed
  have new: "set xs \<inter> set (P @ tpReady t) = {}"
  proof -
    have "j \<notin> set (P @ tpReady t)" if "j \<in> set xs" for j using that rdy [of j] unfolding xs' by simp
    then show ?thesis by blast
  qed
  have deg': "deg_of f j = int (open_deps E (P @ [i]) j)" if "j \<in> set ids" for j
    using release_deg [OF rel, of j] deg [OF that] sn [of j] by simp
  have all: "set (P @ [i]) \<union> set ready = set (P @ tpReady t) \<union> set xs" 
  proof -
    have "set ready = (set (tpReady t) - {i}) \<union> set xs" unfolding xs(1) set_append [of _ xs] rest(1) ..
    with mem show ?thesis by auto
  qed
  have rdy': "j \<in> set ((P @ [i]) @ ready) \<longleftrightarrow> open_deps E (P @ [i]) j = 0" if "j \<in> set ids" for j
    using rdy [OF that] xs' all sn [of j] that by auto
  have ord': "depDependsOnID d \<in> set (take k' (P @ [i]))" if "k' < length (P @ [i])" "d \<in> set E" "depStepID d = (P @ [i]) ! k'" for k' d
  proof (cases "k' < length P")
    case True
    with that ord [of k' d] show ?thesis by (auto simp: nth_append)
  next
    case False
    with that have "k' = length P" "depStepID d = i" by (auto simp: nth_append)
    moreover have "open_deps E P i = 0" using rdy [OF iin] mem by simp
    ultimately show ?thesis using that(2) by (auto simp: open_deps_0)
  qed
  have "distinct ((P @ [i]) @ ready)"
  proof -
    have "set ?rest \<inter> set xs = {}" "set P \<inter> set xs = {}" "i \<notin> set xs" "set P \<inter> set ?rest = {}" "i \<notin> set ?rest"
      using new dist rest(1) mem by auto
    with rest(2) xs(2) iP dist show ?thesis unfolding xs(1) by auto
  qed
  moreover have "set ((P @ [i]) @ ready) \<subseteq> set ids" using all sub xs' by auto
  ultimately show ?thesis unfolding topo_inv_def using deg' rdy' ord' res step by auto
qed

lemma order_loop_inv:
  assumes "topo_inv ids E root stepByID P t" and "\<forall>d \<in> set E. depStepID d \<in> set ids" and "\<forall>i \<in> set ids. stepByID i \<noteq> None"
    and "length ids \<le> n + length P" and "distinct ids" and "edges = succs E"
  shows "\<exists>P'. topo_inv ids E root stepByID P' (topo_loop n ord edges stepByID t) \<and> tpReady (topo_loop n ord edges stepByID t) = []"
  using assms(1,4)
proof (induction n arbitrary: P t)
  case 0
  then have d: "distinct (P @ tpReady t)" and s: "set (P @ tpReady t) \<subseteq> set ids" by (auto simp: topo_inv_def)
  have "length (P @ tpReady t) \<le> length ids"
    using card_mono [OF _ s] distinct_card [OF d] distinct_card [OF assms(5)] by simp
  with 0 have "length (tpReady t) = 0" by (simp only: length_append add_0)
  with 0 show ?case by (intro exI [of _ P]) auto
next
  case (Suc n)
  show ?case
  proof (cases "tpReady t = []")
    case True
    with Suc.prems show ?thesis by auto
  next
    case False
    define k where "k = best_index ord (tpReady t)"
    define i where "i = tpReady t ! k"
    have k: "k < length (tpReady t)" unfolding k_def by (rule best_index_bound [OF False])
    then have "i \<in> set ids" using Suc.prems(1) by (auto simp: topo_inv_def i_def)
    then obtain s where s: "stepByID i = Some s" using assms(3) by auto
    obtain ready f where rel: "release (succs E i) (take k (tpReady t) @ drop (Suc k) (tpReady t), tpInDegree t) = (ready, f)"
      by fastforce
    from topo_step [OF Suc.prems(1) assms(2) k i_def s rel]
    have "topo_inv ids E root stepByID (P @ [i]) \<lparr>tpReady = ready, tpInDegree = f, tpResult = tpResult t @ [s]\<rparr>" .
    from Suc.IH [OF this] Suc.prems(2) show ?thesis
      using False rel s by (simp add: Let_def k_def [symmetric] i_def [symmetric] assms(6))
  qed
qed

section \<open>The start of the loop\<close>

lemma counts_edge_dom: "dom f = dom g \<Longrightarrow> counts_edge r f d = counts_edge r g d"
  using domIff [of _ f] domIff [of _ g] by (simp add: counts_edge_def)

lemma add_edges:
  "foldl (\<lambda>a d. add_edge r d a) (e0, f0) deps = (e, f) \<Longrightarrow>
     (\<forall>i. e i = e0 i @ succs (filter (counts_edge r f0) deps) i)
   \<and> (\<forall>i. f i = map_option (\<lambda>n. n + int (open_deps (filter (counts_edge r f0) deps) [] i)) (f0 i))"
proof (induction deps arbitrary: e0 f0)
  case Nil
  then show ?case by (simp add: succs_def open_deps_def option.map_ident)
next
  case (Cons d deps)
  obtain e1 f1 where a: "add_edge r d (e0, f0) = (e1, f1)" by fastforce
  with Cons.prems have "foldl (\<lambda>a d. add_edge r d a) (e1, f1) deps = (e, f)" by simp
  note IH = Cons.IH [OF this]
  have "dom f1 = dom f0" using a by (auto simp: add_edge_def counts_edge_def split: if_splits)
  then have c: "counts_edge r f1 = counts_edge r f0" by (intro ext counts_edge_dom)
  note IH' = IH [unfolded c]
  show ?case
  proof (cases "counts_edge r f0 d")
    case True
    with a have e1: "e1 = e0(depDependsOnID d := e0 (depDependsOnID d) @ [depStepID d])"
      and f1: "f1 = f0(depStepID d := map_option (\<lambda>n. n + 1) (f0 (depStepID d)))" by (auto simp: add_edge_def)
    have "e i = e0 i @ succs (filter (counts_edge r f0) (d # deps)) i" for i
      using IH' True by (simp add: e1 succs_def)
    moreover have "f i = map_option (\<lambda>n. n + int (open_deps (filter (counts_edge r f0) (d # deps)) [] i)) (f0 i)" for i
      using IH' True by (cases "f0 i") (auto simp: f1 open_deps_def)
    ultimately show ?thesis by blast
  next
    case False
    with a have "e1 = e0" "f1 = f0" by (auto simp: add_edge_def)
    with IH' False show ?thesis by simp
  qed
qed

lemma last_step_distinct: "distinct (map rsID steps) \<Longrightarrow> s \<in> set steps \<Longrightarrow> last_step steps (rsID s) = Some s"
  unfolding last_step_def by (subst find_key_iff) (auto simp: rev_map [symmetric])

text \<open>The edges that count: between two steps other than the root, and not parent-child.\<close>

definition step_edges :: "RecipeStep list \<Rightarrow> RecipeDep list \<Rightarrow> RecipeDep list" where
  "step_edges steps deps = filter (\<lambda>d. depType d \<noteq> ''parent-child'' \<and> depStepID d \<in> set (map rsID (tl steps))
     \<and> depDependsOnID d \<in> set (map rsID (tl steps))) deps"

lemma order_start_inv:
  assumes "steps = root # rest" and "distinct (map rsID steps)" and "order_start (rsID root) steps deps = (edges, t)"
  shows "edges = succs (step_edges steps deps)" and "topo_inv (map rsID rest) (step_edges steps deps) root (last_step steps) [] t"
proof -
  let ?f0 = "\<lambda>i. if i \<in> set (map rsID rest) then Some (0 :: int) else None"
  have nr: "rsID s \<noteq> rsID root" if "s \<in> set rest" for s
    using assms(1,2) that by (auto simp: image_iff)
  have ids: "filter (\<lambda>i. i \<noteq> rsID root) (map rsID steps) = map rsID rest"
    using assms(1) nr by (auto simp: filter_id_conv)
  have E: "filter (counts_edge (rsID root) ?f0) deps = step_edges steps deps"
    using assms(1) nr by (auto simp: step_edges_def counts_edge_def intro!: filter_cong split: if_splits)
  have root: "last_step steps (rsID root) = Some root" by (rule last_step_distinct) (use assms in auto)
  obtain e f where fold: "foldl (\<lambda>a d. add_edge (rsID root) d a) (\<lambda>_. [], ?f0) deps = (e, f)" by fastforce
  note ef = add_edges [OF fold, unfolded E]
  have t: "edges = e" "t = \<lparr>tpReady = filter (\<lambda>i. f i = Some 0) (map rsID rest), tpInDegree = f, tpResult = [root]\<rparr>"
    using assms(3) fold unfolding order_start_def ids by (simp_all add: root Let_def)
  show "edges = succs (step_edges steps deps)" using ef t(1) by auto
  have "f i = Some (int (open_deps (step_edges steps deps) [] i))" if "i \<in> set (map rsID rest)" for i
    using ef that by simp
  then show "topo_inv (map rsID rest) (step_edges steps deps) root (last_step steps) [] t"
    using assms(1,2) by (auto simp: topo_inv_def t(2) deg_of_def intro: distinct_filter)
qed

section \<open>Topological order\<close>

definition edge_rel :: "RecipeDep list \<Rightarrow> (string \<times> string) set" where
  "edge_rel E = (\<lambda>d. (depDependsOnID d, depStepID d)) ` set E"

lemma ordered_acyclic:
  assumes "distinct P" and "\<And>d. d \<in> set E \<Longrightarrow> depStepID d \<in> set P"
    and "\<forall>k < length P. \<forall>d \<in> set E. depStepID d = P ! k \<longrightarrow> depDependsOnID d \<in> set (take k P)"
  shows "acyclic (edge_rel E)"
proof -
  define pos where "pos i = (THE k. k < length P \<and> P ! k = i)" for i
  have pos: "pos (P ! k) = k" if "k < length P" for k
    unfolding pos_def using that assms(1) by (intro the_equality) (auto simp: nth_eq_iff_index_eq)
  have "edge_rel E \<subseteq> inv_image less_than pos"
  proof
    fix p assume "p \<in> edge_rel E"
    then obtain d where d: "d \<in> set E" "p = (depDependsOnID d, depStepID d)" by (auto simp: edge_rel_def)
    from assms(2) [OF d(1)] obtain k where k: "k < length P" "depStepID d = P ! k" by (auto simp: in_set_conv_nth)
    with assms(3) d(1) have "depDependsOnID d \<in> set (take k P)" by blast
    then obtain k' where "k' < k" "depDependsOnID d = P ! k'" by (auto simp: in_set_conv_nth)
    with k pos show "p \<in> inv_image less_than pos" by (simp add: d(2))
  qed
  then show ?thesis by (intro wf_acyclic wf_subset [OF wf_inv_image [OF wf_less_than]])
qed

lemma stuck_cyclic:
  assumes "finite r" and "x \<in> R" and "\<And>y. y \<in> R \<Longrightarrow> \<exists>z \<in> R. (z, y) \<in> r"
  shows "\<not> acyclic r"
proof
  assume "acyclic r"
  with assms(1) have "wf r" by (rule finite_acyclic_wf)
  from wfE_min [OF this assms(2)] assms(3) show False by metis
qed

text \<open>The whole routine on distinct ids: the processed ids are ordered, and they are all of them unless some
  steps wait for each other.\<close>

lemma order_outcome:
  assumes "steps = root # rest" and "distinct (map rsID steps)" and "2 < length steps" and E_def: "E = step_edges steps deps"
  obtains P where "distinct P" and "set P \<subseteq> rsID ` set rest"
    and "\<forall>k < length P. \<forall>d \<in> set E. depStepID d = P ! k \<longrightarrow> depDependsOnID d \<in> set (take k P)"
    and "\<And>j. j \<in> rsID ` set rest \<Longrightarrow> j \<in> set P \<longleftrightarrow> open_deps E P j = 0"
    and "orderGraphRecipeSteps (rsID root) steps deps =
      (if set P = rsID ` set rest then Inr (root # map (\<lambda>i. the (last_step steps i)) P)
       else Inl (''v2 formula contains a dependency cycle: '' @ rsID root))"
proof -
  obtain edges t where start: "order_start (rsID root) steps deps = (edges, t)" by fastforce
  note s = order_start_inv [OF assms(1,2) start]
  define res where "res = topo_loop (length steps) (last_index steps) edges (last_step steps) t"
  have "last_step steps (rsID x) = Some x" if "x \<in> set rest" for x
    by (rule last_step_distinct) (use assms(1,2) that in auto)
  then have found: "\<forall>i \<in> set (map rsID rest). last_step steps i \<noteq> None" by auto
  have "\<exists>P. topo_inv (map rsID rest) E root (last_step steps) P res \<and> tpReady res = []"
    unfolding res_def E_def
    by (rule order_loop_inv [OF s(2) _ found _ _ s(1)]) (use assms(1,2) in \<open>auto simp: step_edges_def\<close>)
  then obtain P where inv: "topo_inv (map rsID rest) E root (last_step steps) P res" and "tpReady res = []" by blast
  then have P: "distinct P" "set P \<subseteq> rsID ` set rest" "tpResult res = root # map (\<lambda>i. the (last_step steps i)) P"
    "\<forall>k < length P. \<forall>d \<in> set E. depStepID d = P ! k \<longrightarrow> depDependsOnID d \<in> set (take k P)"
    "\<And>j. j \<in> rsID ` set rest \<Longrightarrow> j \<in> set P \<longleftrightarrow> open_deps E P j = 0"
    by (auto simp: topo_inv_def)
  have card: "card (rsID ` set rest) = length rest" using assms(1,2) distinct_card [of "map rsID rest"] by simp
  have "length P = length rest \<longleftrightarrow> set P = rsID ` set rest"
    using distinct_card [OF P(1)] P(2) card card_subset_eq [of "rsID ` set rest" "set P"] by auto
  then have "orderGraphRecipeSteps (rsID root) steps deps =
      (if set P = rsID ` set rest then Inr (root # map (\<lambda>i. the (last_step steps i)) P)
       else Inl (''v2 formula contains a dependency cycle: '' @ rsID root))"
    using assms(1,3) start P(3) by (auto simp: orderGraphRecipeSteps_def res_def)
  with that P show thesis by blast
qed

lemma ids_of_order:
  assumes "steps = root # rest" and "distinct (map rsID steps)" and "set P \<subseteq> rsID ` set rest"
  shows "map rsID (map (\<lambda>i. the (last_step steps i)) P) = P" and "set (map (\<lambda>i. the (last_step steps i)) P) \<subseteq> set rest"
proof -
  have "last_step steps (rsID x) = Some x" if "x \<in> set rest" for x
    by (rule last_step_distinct) (use assms(1,2) that in auto)
  then have "rsID (the (last_step steps i)) = i \<and> the (last_step steps i) \<in> set rest" if "i \<in> set P" for i
    using assms(3) that by auto
  then show "map rsID (map (\<lambda>i. the (last_step steps i)) P) = P" "set (map (\<lambda>i. the (last_step steps i)) P) \<subseteq> set rest"
    by (auto simp: map_idI)
qed

definition before :: "string \<Rightarrow> string \<Rightarrow> string list \<Rightarrow> bool" where
  "before x y xs \<longleftrightarrow> (\<exists>k < length xs. xs ! k = y \<and> x \<in> set (take k xs))"

lemma step_edges_in: "d \<in> set (step_edges (root # rest) deps) \<longleftrightarrow> d \<in> set deps \<and> depType d \<noteq> ''parent-child''
    \<and> depStepID d \<in> rsID ` set rest \<and> depDependsOnID d \<in> rsID ` set rest"
  by (auto simp: step_edges_def)

section \<open>The root of a recipe\<close>

lemma release_keeps: "release ns (ready, f) = (ready', f') \<Longrightarrow> set ready' \<subseteq> set ready \<union> set ns"
  by (induction ns "(ready, f)" arbitrary: ready f rule: release.induct) (fastforce simp: Let_def split: if_splits)+

lemma order_loop_adds:
  assumes "\<forall>i \<in> set (tpReady t). Q i" and "\<And>i. \<forall>j \<in> set (edges i). Q j"
  shows "\<exists>l. tpResult (topo_loop n ord edges stepByID t) = tpResult t @ l \<and> (\<forall>s \<in> set l. \<exists>i. Q i \<and> stepByID i = Some s)"
  using assms(1)
proof (induction n arbitrary: t)
  case (Suc n)
  show ?case
  proof (cases "tpReady t = []")
    case False
    define k where "k = best_index ord (tpReady t)"
    have k: "k < length (tpReady t)" unfolding k_def by (rule best_index_bound [OF False])
    let ?i = "tpReady t ! k"
    have Q: "Q ?i" using Suc.prems k by simp
    obtain ready f where rel: "release (edges ?i) (take k (tpReady t) @ drop (Suc k) (tpReady t), tpInDegree t) = (ready, f)" by fastforce
    have "\<forall>j \<in> set ready. Q j"
      using release_keeps [OF rel] Suc.prems assms(2) by (auto dest!: subsetD in_set_takeD in_set_dropD)
    then obtain l where l: "tpResult (topo_loop n ord edges stepByID
        \<lparr>tpReady = ready, tpInDegree = f, tpResult = tpResult t @ (case stepByID ?i of None \<Rightarrow> [] | Some s \<Rightarrow> [s])\<rparr>) =
        (tpResult t @ (case stepByID ?i of None \<Rightarrow> [] | Some s \<Rightarrow> [s])) @ l" "\<forall>s \<in> set l. \<exists>i. Q i \<and> stepByID i = Some s"
      using Suc.IH [of "\<lparr>tpReady = ready, tpInDegree = f, tpResult = tpResult t @ (case stepByID ?i of None \<Rightarrow> [] | Some s \<Rightarrow> [s])\<rparr>"] by auto
    have "tpResult (topo_loop (Suc n) ord edges stepByID t) = tpResult t @ ((case stepByID ?i of None \<Rightarrow> [] | Some s \<Rightarrow> [s]) @ l)"
      using False rel l(1) by (simp add: Let_def k_def [symmetric])
    moreover have "\<forall>s \<in> set ((case stepByID ?i of None \<Rightarrow> [] | Some s \<Rightarrow> [s]) @ l). \<exists>i. Q i \<and> stepByID i = Some s"
      using l(2) Q by (auto split: option.splits)
    ultimately show ?thesis by blast
  qed simp
qed simp

lemma last_step_in: "last_step steps i = Some s \<Longrightarrow> s \<in> set steps \<and> rsID s = i"
  unfolding last_step_def by (drule find_Some_set) simp

lemma edges_not_root:
  assumes "foldl (\<lambda>a d. add_edge r d a) (e0, f0) deps = (e, f)" and "\<And>i. \<forall>j \<in> set (e0 i). j \<noteq> r"
  shows "\<forall>j \<in> set (e i). j \<noteq> r"
proof -
  have "set (e i) = set (e0 i) \<union> set (succs (filter (counts_edge r f0) deps) i)" using add_edges [OF assms(1)] by simp
  with assms(2) show ?thesis by (auto simp: succs_def counts_edge_def)
qed

lemma find_append: "find P (xs @ ys) = (case find P xs of None \<Rightarrow> find P ys | Some x \<Rightarrow> Some x)"
  by (induction xs) auto

lemma order_root:
  assumes "steps = root # rest" and "\<forall>s \<in> set rest. rsID s \<noteq> rsID root" and "orderGraphRecipeSteps (rsID root) steps deps = Inr out"
  shows "\<exists>l. out = root # l \<and> set l \<subseteq> set rest"
proof (cases "length steps \<le> 2")
  case True
  with assms show ?thesis by (auto simp: orderGraphRecipeSteps_def)
next
  case False
  obtain edges t where start: "order_start (rsID root) steps deps = (edges, t)" by fastforce
  have "find (\<lambda>s. rsID s = rsID root) (rev rest) = None" using assms(2) by (auto simp: find_None_iff)
  then have root: "last_step steps (rsID root) = Some root"
    using assms(1) by (simp add: last_step_def find_append)
  obtain e f where fold: "foldl (\<lambda>a d. add_edge (rsID root) d a) (\<lambda>_. [], \<lambda>i. if i \<in> set (filter (\<lambda>i. i \<noteq> rsID root) (map rsID steps)) then Some 0 else None) deps = (e, f)"
    by fastforce
  have t: "edges = e" "tpResult t = [root]" "set (tpReady t) \<subseteq> {i. i \<noteq> rsID root}"
    using start fold root by (auto simp: order_start_def Let_def)
  have e: "\<forall>j \<in> set (edges i). j \<noteq> rsID root" for i using edges_not_root [OF fold] t(1) by simp
  from order_loop_adds [of t "\<lambda>i. i \<noteq> rsID root" edges "length steps" "last_index steps" "last_step steps", OF _ e] t obtain l
    where l: "tpResult (topo_loop (length steps) (last_index steps) edges (last_step steps) t) = root # l"
      "\<forall>s \<in> set l. \<exists>i. i \<noteq> rsID root \<and> last_step steps i = Some s" by auto
  have "set l \<subseteq> set rest" using l(2) last_step_in assms(1) by fastforce
  moreover have "out = root # l"
    using l(1) False start assms(3) by (simp add: orderGraphRecipeSteps_def split: if_splits)
  ultimately show ?thesis by blast
qed

lemma recipe_root:
  assumes "toRecipeWithGraph f g = Inr r"
  shows "\<exists>rest. rcSteps r = root_step f g (root_only f) # rest
     \<and> (\<forall>s \<in> set rest. \<not> rsIsRoot s \<and> (\<exists>x. rsID s = fmFormula f @ ''.'' @ x))"
proof -
  let ?root = "root_step f g (root_only f)"
  obtain rest where out: "flOut (formula_flat f g) = ?root # rest"
    and rest: "\<forall>s \<in> set rest. \<not> rsIsRoot s \<and> (\<exists>x. rsID s = fmFormula f @ ''.'' @ x)"
    using flattenSteps_out [of g "fmFormula f" "fmSteps f" "\<lparr>flMapping = Map.empty, flOut = [?root], flDeps = []\<rparr>"]
    unfolding formula_flat_def [symmetric] by auto
  have id: "rsID ?root = fmFormula f" "rsIsRoot ?root" by (simp_all add: root_step_def)
  have ne: "\<forall>s \<in> set rest. rsID s \<noteq> rsID ?root" using rest id(1) by fastforce
  show ?thesis
  proof (cases g)
    case False
    with assms out have "rcSteps r = ?root # rest" by (auto simp: toRecipeWithGraph_def Let_def)
    with rest id show ?thesis by blast
  next
    case True
    with assms have "orderGraphRecipeSteps (fmFormula f) (flOut (formula_flat f g)) (formula_deps f g) = Inr (rcSteps r)"
      by (auto simp: toRecipeWithGraph_def Let_def split: sum.splits)
    from order_root [OF out ne, unfolded id(1), OF this] obtain l where "rcSteps r = ?root # l" "set l \<subseteq> set rest" by blast
    with rest id show ?thesis by blast
  qed
qed

lemma blocking_deps_type: "d \<in> set (blocking_deps mp i ids) \<Longrightarrow> depType d = ''blocks''"
  by (auto simp: blocking_deps_def recipe_dep_def split: option.splits)

lemma waits_for_deps_type: "d \<in> set (waits_for_deps mp i st) \<Longrightarrow> depType d = ''waits-for''"
  unfolding waits_for_deps_def Let_def
  by (split option.split_asm; simp split: option.split_asm if_split_asm)

lemmas step_deps_type = blocking_deps_type waits_for_deps_type

lemma collectRecipeDeps_type: "d \<in> set (collectRecipeDeps mp ss) \<Longrightarrow> depType d \<noteq> ''parent-child''"
proof (induction mp ss rule: collectRecipeDeps.induct)
  case (2 mp s ss)
  let ?i = "mget mp (fsID s)"
  from "2.prems" consider "d \<in> set (blocking_deps mp ?i (fsDependsOn s))" | "d \<in> set (blocking_deps mp ?i (fsNeeds s))"
    | "d \<in> set (waits_for_deps mp ?i s)" | "d \<in> set (collectRecipeDeps mp (fsChildren s))" | "d \<in> set (collectRecipeDeps mp ss)"
    by (simp only: collectRecipeDeps.simps Let_def set_append Un_iff) (auto split: if_splits)
  then show ?case using "2.IH" by cases (auto dest: step_deps_type)
qed simp

lemma recipe_parents:
  assumes "toRecipeWithGraph f g = Inr r" and "d \<in> set (rcDeps r)" and "depType d = ''parent-child''"
  shows "depStepID d \<noteq> fmFormula f"
proof -
  have "d \<in> set (formula_deps f g)"
    using assms(1,2) by (auto simp: toRecipeWithGraph_def Let_def split: if_splits sum.splits)
  moreover have "d \<notin> set (addWorkflowRootDeps n ss mp)" for n ss mp
    using assms(3) by (auto simp: addWorkflowRootDeps_def recipe_dep_def split: option.splits)
  ultimately have "d \<in> set (flDeps (formula_flat f g))"
    using assms(3) by (auto simp: formula_deps_def Let_def dest: collectRecipeDeps_type split: if_splits)
  from flattenSteps_parent [OF this [unfolded formula_flat_def] assms(3)] show ?thesis by auto
qed

text \<open>C10: the order of a graph workflow.  When the steps of a formula have distinct ids and the first step is
  the root, \<open>orderGraphRecipeSteps\<close> returns every step exactly once, the root first, and every step after all
  the steps it depends on.\<close>

theorem recipe_order_topological:
  assumes "distinct (map rsID (root # rest))" and "2 < length (root # rest)"
    and "orderGraphRecipeSteps (rsID root) (root # rest) deps = Inr out"
  shows "mset out = mset (root # rest) \<and> hd out = root \<and>
    (\<forall>d \<in> set deps. depType d \<noteq> ''parent-child'' \<longrightarrow> depStepID d \<in> rsID ` set rest \<longrightarrow> depDependsOnID d \<in> rsID ` set rest
      \<longrightarrow> before (depDependsOnID d) (depStepID d) (map rsID (tl out)))"
proof -
  let ?E = "step_edges (root # rest) deps"
  obtain P where P: "distinct P" "set P \<subseteq> rsID ` set rest"
    "\<forall>k < length P. \<forall>d \<in> set ?E. depStepID d = P ! k \<longrightarrow> depDependsOnID d \<in> set (take k P)"
    "\<And>j. j \<in> rsID ` set rest \<Longrightarrow> j \<in> set P \<longleftrightarrow> open_deps ?E P j = 0"
    "orderGraphRecipeSteps (rsID root) (root # rest) deps =
      (if set P = rsID ` set rest then Inr (root # map (\<lambda>i. the (last_step (root # rest) i)) P)
       else Inl (''v2 formula contains a dependency cycle: '' @ rsID root))" by (rule order_outcome [OF refl assms(1,2) refl]) blast
  let ?out = "map (\<lambda>i. the (last_step (root # rest) i)) P"
  from P(5) assms(3) have all: "set P = rsID ` set rest" and out: "out = root # ?out" by (auto split: if_splits)
  note o = ids_of_order [OF refl assms(1) equalityD1 [OF all]]
  have "distinct ?out" using P(1) o(1) by (metis distinct_map)
  moreover have "set ?out = set rest"
  proof (rule inj_on_image_eq_iff [THEN iffD1, OF _ o(2) subset_refl])
    show "inj_on rsID (set rest)" using assms(1) by (simp add: distinct_map)
    show "rsID ` set ?out = rsID ` set rest" using arg_cong [OF o(1), of set] all unfolding set_map [of rsID ?out] by simp
  qed
  moreover have "distinct rest" using assms(1) by (simp add: distinct_map)
  ultimately have "mset ?out = mset rest" by (metis set_eq_iff_mset_eq_distinct)
  then have "mset out = mset (root # rest)" by (simp add: out)
  moreover have "before (depDependsOnID d) (depStepID d) (map rsID (tl out))" if "d \<in> set ?E" for d
  proof -
    have "depStepID d \<in> set P" using that all by (simp add: step_edges_in)
    then obtain k where "k < length P" "P ! k = depStepID d" by (auto simp: in_set_conv_nth)
    with P(3) that o(1) show ?thesis by (auto simp: before_def out)
  qed
  ultimately show ?thesis by (auto simp: step_edges_in out)
qed

text \<open>C22: dependency cycles are found exactly.  With distinct step ids and more than two steps the compiler
  reports a cycle if and only if the dependencies between the steps below the root are cyclic.\<close>

theorem recipe_order_error_iff_cycle:
  assumes "distinct (map rsID (root # rest))" and "2 < length (root # rest)"
  shows "isl (orderGraphRecipeSteps (rsID root) (root # rest) deps) \<longleftrightarrow> \<not> acyclic (edge_rel (step_edges (root # rest) deps))"
proof -
  let ?E = "step_edges (root # rest) deps"
  obtain P where P: "distinct P" "set P \<subseteq> rsID ` set rest"
    "\<forall>k < length P. \<forall>d \<in> set ?E. depStepID d = P ! k \<longrightarrow> depDependsOnID d \<in> set (take k P)"
    "\<And>j. j \<in> rsID ` set rest \<Longrightarrow> j \<in> set P \<longleftrightarrow> open_deps ?E P j = 0"
    "orderGraphRecipeSteps (rsID root) (root # rest) deps =
      (if set P = rsID ` set rest then Inr (root # map (\<lambda>i. the (last_step (root # rest) i)) P)
       else Inl (''v2 formula contains a dependency cycle: '' @ rsID root))" by (rule order_outcome [OF refl assms(1,2) refl]) blast
  show ?thesis
  proof (cases "set P = rsID ` set rest")
    case True
    with P(1,3) have "acyclic (edge_rel ?E)" by (intro ordered_acyclic [of P]) (auto simp: step_edges_in)
    with True P(5) show ?thesis by simp
  next
    case False
    let ?R = "rsID ` set rest - set P"
    from False P(2) obtain x where x: "x \<in> ?R" by auto
    have "\<exists>z \<in> ?R. (z, y) \<in> edge_rel ?E" if "y \<in> ?R" for y
    proof -
      from that P(4) [of y] obtain d where "d \<in> set ?E" "depStepID d = y" "depDependsOnID d \<notin> set P" by (auto simp: open_deps_0)
      then show ?thesis by (intro bexI [of _ "depDependsOnID d"]) (auto simp: edge_rel_def step_edges_in)
    qed
    from stuck_cyclic [OF _ x this] have "\<not> acyclic (edge_rel ?E)" by (simp add: edge_rel_def)
    with False P(5) show ?thesis by simp
  qed
qed

section \<open>Witnesses\<close>

definition plain_step :: "string \<Rightarrow> RecipeStep" where
  "plain_step i = \<lparr>rsID = i, rsTitle = i, rsDescription = [], rsNotes = [], rsType = ''task'', rsPriority = None, rsLabels = [],
     rsAssignee = [], rsIsRoot = False, rsMetadata = Map.empty, rsGate = None\<rparr>"

lemma order_sample:
  "\<not> isl (orderGraphRecipeSteps ''f'' [plain_step ''f'', plain_step ''f.b'', plain_step ''f.a''] [recipe_dep ''f.b'' ''f.a'' ''blocks''])"
  by code_simp

lemma cycle_sample:
  "isl (orderGraphRecipeSteps ''f'' [plain_step ''f'', plain_step ''f.b'', plain_step ''f.a'']
     [recipe_dep ''f.b'' ''f.a'' ''blocks'', recipe_dep ''f.a'' ''f.b'' ''waits-for''])"
  by code_simp

theorem recipe_order_topological_witness:
  "before ''f.a'' ''f.b'' (map rsID (tl (projr (orderGraphRecipeSteps ''f'' [plain_step ''f'', plain_step ''f.b'', plain_step ''f.a'']
     [recipe_dep ''f.b'' ''f.a'' ''blocks'']))))"
proof -
  let ?o = "orderGraphRecipeSteps ''f'' [plain_step ''f'', plain_step ''f.b'', plain_step ''f.a''] [recipe_dep ''f.b'' ''f.a'' ''blocks'']"
  have "?o = Inr (projr ?o)" using order_sample by (cases ?o) auto
  then show ?thesis
    using recipe_order_topological [of "plain_step ''f''" "[plain_step ''f.b'', plain_step ''f.a'']" "[recipe_dep ''f.b'' ''f.a'' ''blocks'']"]
    by (simp add: plain_step_def recipe_dep_def)
qed

theorem recipe_order_error_iff_cycle_witness:
  "\<not> acyclic (edge_rel (step_edges [plain_step ''f'', plain_step ''f.b'', plain_step ''f.a'']
     [recipe_dep ''f.b'' ''f.a'' ''blocks'', recipe_dep ''f.a'' ''f.b'' ''waits-for'']))"
  using recipe_order_error_iff_cycle [of "plain_step ''f''" "[plain_step ''f.b'', plain_step ''f.a'']"] cycle_sample
  by (simp add: plain_step_def)

end
