(* ===== verification/Molecule.thy ===== *)
theory Molecule
  imports Recipe_Order Mem_Store_Laws Conv_Meta
begin

text \<open>
  Instantiation of a recipe as beads (\<^verbatim>\<open>src/internal/molecule/molecule.go\<close>) over the in-memory store,
  which has no batch graph path, so \<open>Instantiate\<close> is \<open>instantiateSequential\<close>; with the substitution of
  template variables (\<^verbatim>\<open>src/internal/formula/parser.go\<close>, \<^verbatim>\<open>range.go\<close>).  The store is threaded
  together with the number of clock readings taken so far; the clock is a parameter.  So are the front
  end of the formula compiler, which gives the resolved formula or an error, and the regular-expression
  library, which says whether a pattern compiles and whether it matches.
  The loops over Go maps (external edges, pending assignees) run in the order in which the entries were
  made.
\<close>

section \<open>Template variables\<close>

definition char_range :: "string \<Rightarrow> char \<Rightarrow> bool" where
  "char_range r c = (case r of [lo, hi] \<Rightarrow> lo \<le> c \<and> c \<le> hi | _ \<Rightarrow> False)"

definition ident_start :: "char \<Rightarrow> bool" where
  "ident_start c = (c = CHR ''_'' \<or> list_ex (\<lambda>r. char_range r c) [''az'', ''AZ''])"

definition ident_char :: "char \<Rightarrow> bool" where
  "ident_char c \<longleftrightarrow> ident_start c \<or> is_digit c"

text \<open>A match of \<open>varPattern\<close> at the start of the text: the name and what follows.\<close>

definition match_var :: "string \<Rightarrow> (string \<times> string) option" where
  "match_var s =
     (if has_prefix ''{{'' s
      then let r = drop 2 s; n = takeWhile ident_char r; rest = drop (length n) r in
           if n \<noteq> [] \<and> ident_start (hd n) \<and> has_prefix ''}}'' rest then Some (n, drop 2 rest) else None
      else None)"

lemma match_var_length: "match_var s = Some (n, rest) \<Longrightarrow> length rest < length s"
  by (cases s) (auto simp: match_var_def Let_def has_prefix_def split: if_splits)

function Substitute :: "strmap \<Rightarrow> string \<Rightarrow> string" where
  "Substitute vars s =
     (case s of
        [] \<Rightarrow> []
      | c # cs \<Rightarrow>
          (case match_var s of
             Some (n, rest) \<Rightarrow> (case vars n of Some v \<Rightarrow> v | None \<Rightarrow> ''{{'' @ n @ ''}}'') @ Substitute vars rest
           | None \<Rightarrow> c # Substitute vars cs))"
  by auto
termination by (relation "measure (\<lambda>(vars, s). length s)") (auto dest: match_var_length)

declare Substitute.simps [simp del]

function var_names :: "string \<Rightarrow> string list" where
  "var_names s =
     (case s of
        [] \<Rightarrow> []
      | c # cs \<Rightarrow> (case match_var s of Some (n, rest) \<Rightarrow> n # var_names rest | None \<Rightarrow> var_names cs))"
  by auto
termination by (relation "measure length") (auto dest: match_var_length)

declare var_names.simps [simp del]

fun keep_first :: "string list \<Rightarrow> string list \<Rightarrow> string list" where
  "keep_first seen [] = []"
| "keep_first seen (x # xs) = (if x \<in> set seen then keep_first seen xs else x # keep_first (x # seen) xs)"

definition CheckResidualVars :: "string \<Rightarrow> string list" where
  "CheckResidualVars s = keep_first [] (var_names s)"

text \<open>Matches of \<open>rangeVarPattern\<close>, with the character before the rest of the text; a match next to a second
  brace is skipped.\<close>

definition match_range_var :: "string \<Rightarrow> (string \<times> string) option" where
  "match_range_var s =
     (if has_prefix ''{'' s
      then let r = drop 1 s; n = takeWhile ident_char r; rest = drop (length n) r in
           if n \<noteq> [] \<and> has_prefix ''}'' rest then Some (n, drop 1 rest) else None
      else None)"

lemma match_range_var_length: "match_range_var s = Some (n, rest) \<Longrightarrow> length rest < length s"
  by (cases s) (auto simp: match_range_var_def Let_def has_prefix_def split: if_splits)

function range_names :: "bool \<Rightarrow> string \<Rightarrow> string list" where
  "range_names after_brace s =
     (case s of
        [] \<Rightarrow> []
      | c # cs \<Rightarrow>
          (case match_range_var s of
             Some (n, rest) \<Rightarrow> (if after_brace \<or> has_prefix ''}'' rest then [] else [n]) @ range_names False rest
           | None \<Rightarrow> range_names (c = CHR ''{'') cs))"
  by auto
termination by (relation "measure (\<lambda>(b, s). length s)") (auto dest: match_range_var_length)

declare range_names.simps [simp del]

definition CheckResidualTimeoutVars :: "string \<Rightarrow> string list" where
  "CheckResidualTimeoutVars s = keep_first [] (CheckResidualVars s @ range_names False s)"

section \<open>Validation of the variables\<close>

text \<open>\<open>rx pattern text\<close>: None when the pattern does not compile, otherwise whether it matches.\<close>

type_synonym regexp = "string \<Rightarrow> string \<Rightarrow> bool option"

definition var_value :: "strmap \<Rightarrow> string \<Rightarrow> VarDef \<Rightarrow> string" where
  "var_value values name def =
     (case values name of
        Some v \<Rightarrow> v
      | None \<Rightarrow> (case vdDefault def of None \<Rightarrow> [] | Some d \<Rightarrow> d))"

definition var_errors :: "regexp \<Rightarrow> strmap \<Rightarrow> string \<Rightarrow> VarDef \<Rightarrow> string list" where
  "var_errors rx values name def =
     (let val = var_value values name def in
      if val = [] then []
      else (if vdEnum def \<noteq> [] \<and> val \<notin> set (vdEnum def)
            then [''variable '' @ quoted name @ '': value '' @ quoted val @ '' not in allowed values''] else [])
         @ (if vdPattern def \<noteq> []
            then (case rx (vdPattern def) val of
                    None \<Rightarrow> [''variable '' @ quoted name @ '': invalid pattern '' @ quoted (vdPattern def)]
                  | Some matches \<Rightarrow>
                      if matches then []
                      else [''variable '' @ quoted name @ '': value '' @ quoted val @ '' does not match pattern '' @ quoted (vdPattern def)])
            else []))"

fun collect_var_errors :: "regexp \<Rightarrow> varDefs \<Rightarrow> strmap \<Rightarrow> bool \<Rightarrow> string list \<Rightarrow> string list \<times> string list" where
  "collect_var_errors rx defs values requireMissing [] = ([], [])"
| "collect_var_errors rx defs values requireMissing (name # names) =
     (case collect_var_errors rx defs values requireMissing names of (errs, missing) \<Rightarrow>
        (case map_of defs name of
           Some (Some def) \<Rightarrow>
             if requireMissing \<and> vdRequired def \<and> values name = None
             then ((''variable '' @ quoted name @ '' is required'') # errs, name # missing)
             else (var_errors rx values name def @ errs, missing)
         | _ \<Rightarrow> (errs, missing)))"

definition CollectVarValidationErrors :: "regexp \<Rightarrow> varDefs \<Rightarrow> strmap \<Rightarrow> string list \<times> string list" where
  "CollectVarValidationErrors rx defs values = collect_var_errors rx defs values True (sort_slice (<) (map fst defs))"

section \<open>Options and results\<close>

record ExternalDep =
  edStepID :: string
  edDependsOnID :: string
  edType :: string

record Options =
  oTitle :: string
  oVars :: strmap
  oExternalDeps :: "ExternalDep list"
  oParentID :: string
  oIdempotencyKey :: string
  oPriorityOverride :: "int option"
  oPreserveRootType :: bool
  oDeferAssignees :: bool

definition zero_Options :: Options where
  "zero_Options = \<lparr>oTitle = [], oVars = Map.empty, oExternalDeps = [], oParentID = [], oIdempotencyKey = [],
     oPriorityOverride = None, oPreserveRootType = False, oDeferAssignees = False\<rparr>"

record Result =
  resRootID :: string
  resGraphWorkflow :: bool
  resIDMapping :: strmap
  resCreated :: nat

definition AttemptMetadataKey :: string where "AttemptMetadataKey = ''gc.attempt''"
definition RalphStepIDMetadataKey :: string where "RalphStepIDMetadataKey = ''gc.ralph_step_id''"
definition RootBeadIDMetadataKey :: string where "RootBeadIDMetadataKey = ''gc.root_bead_id''"
definition LogicalBeadIDMetadataKey :: string where "LogicalBeadIDMetadataKey = ''gc.logical_bead_id''"
definition FormulaHashMetadataKey :: string where "FormulaHashMetadataKey = ''gc.formula_hash''"
definition FormulaSourceMetadataKey :: string where "FormulaSourceMetadataKey = ''gc.formula_source''"
definition StepTimeoutMetadataKey :: string where "StepTimeoutMetadataKey = ''gc.step_timeout''"
definition CheckTimeoutMetadataKey :: string where "CheckTimeoutMetadataKey = ''gc.check_timeout''"
definition MoleculeFailedMetadataKey :: string where "MoleculeFailedMetadataKey = ''molecule_failed''"
definition InstantiatingMetadataKey :: string where "InstantiatingMetadataKey = ''gc.instantiating''"
definition FormulaVarPrefix :: string where "FormulaVarPrefix = ''gc.var.''"
definition DeferredAssigneeMetadataKey :: string where "DeferredAssigneeMetadataKey = ''gc.deferred_assignee''"
definition DeferredRoutedToMetadataKey :: string where "DeferredRoutedToMetadataKey = ''gc.deferred_routed_to''"
definition DeferredExecutionRoutedToMetadataKey :: string where "DeferredExecutionRoutedToMetadataKey = ''gc.deferred_execution_routed_to''"
definition DeferredTypeMetadataKey :: string where "DeferredTypeMetadataKey = ''gc.deferred_type''"
definition RoutedToMetadataKey :: string where "RoutedToMetadataKey = ''gc.routed_to''"
definition ExecutionRoutedToMetadataKey :: string where "ExecutionRoutedToMetadataKey = ''gc.execution_routed_to''"
definition idempotency_key :: string where "idempotency_key = ''idempotency_key''"

lemmas molecule_keys = AttemptMetadataKey_def RalphStepIDMetadataKey_def RootBeadIDMetadataKey_def LogicalBeadIDMetadataKey_def
  FormulaHashMetadataKey_def FormulaSourceMetadataKey_def StepTimeoutMetadataKey_def CheckTimeoutMetadataKey_def
  MoleculeFailedMetadataKey_def InstantiatingMetadataKey_def DeferredAssigneeMetadataKey_def DeferredRoutedToMetadataKey_def
  DeferredExecutionRoutedToMetadataKey_def DeferredTypeMetadataKey_def RoutedToMetadataKey_def ExecutionRoutedToMetadataKey_def
  idempotency_key_def KindMetadataKey_def StepRefMetadataKey_def FormulaContractMetadataKey_def FormulaNameMetadataKey_def

section \<open>Beads of the steps\<close>

definition applyVarDefaults :: "strmap \<Rightarrow> varDefs \<Rightarrow> strmap" where
  "applyVarDefaults vars defs name =
     (case vars name of
        Some v \<Rightarrow> Some v
      | None \<Rightarrow> (case map_of defs name of Some (Some def) \<Rightarrow> vdDefault def | _ \<Rightarrow> None))"

definition resolveStepPriority :: "RecipeStep \<Rightarrow> int option \<Rightarrow> int option" where
  "resolveStepPriority step priorityOverride = (if priorityOverride \<noteq> None then priorityOverride else rsPriority step)"

definition stepToBead :: "RecipeStep \<Rightarrow> strmap \<Rightarrow> int option \<Rightarrow> Bead" where
  "stepToBead step vars priorityOverride =
     zero_Bead\<lparr>Title := Substitute vars (rsTitle step), Description := Substitute vars (rsDescription step),
       Type := (if rsType step = [] then ''task'' else rsType step), Priority := resolveStepPriority step priorityOverride,
       Labels := map (Substitute vars) (rsLabels step), Assignee := Substitute vars (rsAssignee step),
       Metadata := (let md = (\<lambda>k. map_option (Substitute vars) (rsMetadata step k)) in
         if rsNotes step \<noteq> [] then md(''notes'' \<mapsto> Substitute vars (rsNotes step)) else md)\<rparr>"

definition deferBeadMetadataValue :: "string \<Rightarrow> string \<Rightarrow> strmap \<Rightarrow> strmap" where
  "deferBeadMetadataValue sourceKey deferredKey md =
     (if mget md sourceKey \<noteq> [] then (md(deferredKey \<mapsto> mget md sourceKey))(sourceKey := None) else md)"

definition deferBeadRouting :: "Bead \<Rightarrow> Bead" where
  "deferBeadRouting b =
     (let b1 = (if \<not> IsReadyExcludedBead b
                then b\<lparr>Metadata := (Metadata b)(DeferredTypeMetadataKey \<mapsto> if Type b = [] then ''task'' else Type b), Type := ''gate''\<rparr>
                else b);
          b2 = (if Assignee b1 \<noteq> []
                then b1\<lparr>Metadata := (Metadata b1)(DeferredAssigneeMetadataKey \<mapsto> Assignee b1), Assignee := []\<rparr> else b1)
      in b2\<lparr>Metadata := deferBeadMetadataValue ExecutionRoutedToMetadataKey DeferredExecutionRoutedToMetadataKey
              (deferBeadMetadataValue RoutedToMetadataKey DeferredRoutedToMetadataKey (Metadata b2))\<rparr>)"

definition fenceGraphWorkflowBead :: "Bead \<Rightarrow> Bead" where
  "fenceGraphWorkflowBead b = deferBeadRouting (b\<lparr>Metadata := (Metadata b)(InstantiatingMetadataKey \<mapsto> ''true'')\<rparr>)"

definition nonRootStepBeadType :: "string \<Rightarrow> string" where
  "nonRootStepBeadType currentType = (if currentType = ''task'' then ''step'' else currentType)"

definition preserveExecutableRootType :: "RecipeStep \<Rightarrow> bool" where
  "preserveExecutableRootType step \<longleftrightarrow> mget (rsMetadata step) KindMetadataKey \<in> {''workflow'', ''wisp''}"

definition preservesGraphActionTypes :: "Recipe \<Rightarrow> bool" where
  "preservesGraphActionTypes recipe =
     (case rcSteps recipe of
        [] \<Rightarrow> False
      | root # _ \<Rightarrow> mget (rsMetadata root) KindMetadataKey = KindWorkflow
          \<or> mget (rsMetadata root) AttemptMetadataKey \<noteq> [] \<and> mget (rsMetadata root) StepRefMetadataKey \<noteq> [])"

definition stampFormulaVars :: "strmap \<Rightarrow> strmap \<Rightarrow> strmap" where
  "stampFormulaVars vars md k =
     (if has_prefix FormulaVarPrefix k
      then (case vars (drop (length FormulaVarPrefix) k) of
              Some v \<Rightarrow> if v \<noteq> [] then Some v else md k
            | None \<Rightarrow> md k)
      else md k)"

definition recipeParentDeps :: "RecipeDep list \<Rightarrow> strmap" where
  "recipeParentDeps ds =
     foldl (\<lambda>parents d. if depType d = ''parent-child'' \<and> depStepID d \<noteq> [] \<and> depDependsOnID d \<noteq> [] \<and> mget parents (depStepID d) = []
              then parents(depStepID d \<mapsto> depDependsOnID d) else parents) Map.empty ds"

type_synonym externals = "(string \<times> ExternalDep list) list"

definition add_external :: "string \<Rightarrow> ExternalDep \<Rightarrow> externals \<Rightarrow> externals" where
  "add_external step d byStep =
     (if step \<in> set (map fst byStep)
      then map (\<lambda>e. if fst e = step then (fst e, snd e @ [d]) else e) byStep
      else byStep @ [(step, [d])])"

fun group_externals :: "ExternalDep list \<Rightarrow> externals \<Rightarrow> strmap \<Rightarrow> ConvError + externals" where
  "group_externals [] byStep parents = Inr byStep"
| "group_externals (d0 # ds) byStep parents =
     (if edStepID d0 = [] \<or> edDependsOnID d0 = [] then group_externals ds byStep parents
      else let d = (if edType d0 = [] then d0\<lparr>edType := ''blocks''\<rparr> else d0) in
        if edType d = ''parent-child'' \<and> mget parents (edStepID d) \<noteq> []
        then Inl (ConvErrorf ''step has multiple external parent-child deps'' [edStepID d])
        else group_externals ds (add_external (edStepID d) d byStep)
               (if edType d = ''parent-child'' then parents(edStepID d \<mapsto> edDependsOnID d) else parents))"

definition groupExternalDeps :: "ExternalDep list \<Rightarrow> ConvError + externals" where
  "groupExternalDeps ds = group_externals ds [] Map.empty"

definition externals_of :: "externals \<Rightarrow> string \<Rightarrow> ExternalDep list" where
  "externals_of byStep step = (case map_of byStep step of None \<Rightarrow> [] | Some ds \<Rightarrow> ds)"

fun first_some :: "('a \<Rightarrow> 'b option) \<Rightarrow> 'a list \<Rightarrow> 'b option" where
  "first_some f [] = None"
| "first_some f (x # xs) = (case f x of Some y \<Rightarrow> Some y | None \<Rightarrow> first_some f xs)"

definition trimAttemptSuffix :: "string \<Rightarrow> string \<Rightarrow> string option" where
  "trimAttemptSuffix s suffix = (if suffix = [] \<or> \<not> has_suffix suffix s then None else Some (take (length s - length suffix) s))"

definition before_last :: "string \<Rightarrow> string \<Rightarrow> string option" where
  "before_last mark s =
     (case after_last mark s of
        None \<Rightarrow> None
      | Some rest \<Rightarrow> let idx = length s - length rest - length mark in if idx > 0 then Some (take idx s) else None)"

definition attempt_suffixes :: "string \<Rightarrow> string \<Rightarrow> string list" where
  "attempt_suffixes kind attempt =
     (if kind \<in> {''run'', ''scope'', ''retry-run''} then [''.run.'' @ attempt]
      else if kind = ''check'' then [''.check.'' @ attempt]
      else if kind = ''retry-eval'' then [''.eval.'' @ attempt] else [])
     @ [''.attempt.'' @ attempt, ''.iteration.'' @ attempt]"

definition logicalRecipeStepID :: "RecipeStep \<Rightarrow> string option" where
  "logicalRecipeStepID step =
     (let kind = mget (rsMetadata step) KindMetadataKey; attempt = mget (rsMetadata step) AttemptMetadataKey;
          logicalID = mget (rsMetadata step) RalphStepIDMetadataKey in
      case (if attempt \<noteq> [] then first_some (trimAttemptSuffix (rsID step)) (attempt_suffixes kind attempt) else None) of
        Some trimmed \<Rightarrow> Some trimmed
      | None \<Rightarrow>
          if logicalID \<noteq> [] \<and> kind \<in> {''run'', ''check'', ''scope''} then Some logicalID
          else if kind \<notin> {''run'', ''check'', ''scope'', ''retry-run'', ''retry-eval''} then None
          else first_some (\<lambda>mark. before_last mark (rsID step)) [''.run.'', ''.check.'', ''.eval.''])"

fun timeout_errors :: "string \<Rightarrow> strmap \<Rightarrow> string list \<Rightarrow> ConvError + unit" where
  "timeout_errors stepID md [] = Inr ()"
| "timeout_errors stepID md (key # keys) =
     (let raw = mget md key in
      if raw = [] then timeout_errors stepID md keys
      else let residual = CheckResidualTimeoutVars raw in
        if length residual > 0
        then Inl (ConvErrorf ''metadata contains unresolved timeout variable(s)'' [stepID, key, join '', '' residual])
        else (case ParseDuration raw of
            None \<Rightarrow> Inl (ConvErrorf ''metadata has invalid timeout'' [stepID, key, raw])
          | Some parsed \<Rightarrow>
              if parsed \<le> 0 then Inl (ConvErrorf ''metadata timeout must be positive'' [stepID, key, raw])
              else timeout_errors stepID md keys))"

definition validateTimeoutMetadataVars :: "string \<Rightarrow> strmap \<Rightarrow> ConvError + unit" where
  "validateTimeoutMetadataVars stepID md = timeout_errors stepID md [StepTimeoutMetadataKey, CheckTimeoutMetadataKey]"

section \<open>Store calls\<close>

fun storeError :: "StoreError \<Rightarrow> ConvError" where
  "storeError (ErrNotFound i) = ConvNotFound i"
| "storeError e = ConvStore ''store error''"

definition storeResult :: "'a result \<Rightarrow> ConvError + 'a" where
  "storeResult r = (case r of Inl e \<Rightarrow> Inl (storeError e) | Inr x \<Rightarrow> Inr x)"

type_synonym clock = "nat \<Rightarrow> gtime"
type_synonym timedStore = "MemStore \<times> nat"

text \<open>A call of the store at the next clock reading.\<close>

definition timed :: "clock \<Rightarrow> (gtime \<Rightarrow> MemStore \<Rightarrow> 'a result \<times> MemStore) \<Rightarrow> timedStore \<Rightarrow> (ConvError + 'a) \<times> timedStore" where
  "timed clk f s = (case f (clk (snd s)) (fst s) of (r, m) \<Rightarrow> (storeResult r, m, Suc (snd s)))"

text \<open>Calls in a row, stopping at the first error.\<close>

fun each_until :: "('a \<Rightarrow> 's \<Rightarrow> (ConvError + unit) \<times> 's) \<Rightarrow> 'a list \<Rightarrow> 's \<Rightarrow> (ConvError + unit) \<times> 's" where
  "each_until f [] a = (Inr (), a)"
| "each_until f (x # xs) a = (case f x a of (Inl e, a') \<Rightarrow> (Inl e, a') | (Inr _, a') \<Rightarrow> each_until f xs a')"

definition wrapf :: "string \<Rightarrow> (ConvError + 'a) \<times> 's \<Rightarrow> (ConvError + 'a) \<times> 's" where
  "wrapf msg rs = (case rs of (Inl e, s) \<Rightarrow> (Inl (ConvWrap msg e), s) | (Inr x, s) \<Rightarrow> (Inr x, s))"

definition failed_batch :: kvs where
  "failed_batch = [(MoleculeFailedMetadataKey, ''true''), (InstantiatingMetadataKey, [])]"

fun markFailed :: "clock \<Rightarrow> string list \<Rightarrow> timedStore \<Rightarrow> timedStore" where
  "markFailed clk [] s = s"
| "markFailed clk (i # ids) s = markFailed clk ids (snd (timed clk (\<lambda>now. SetMetadataBatch now i failed_batch) s))"

definition deferredRoutingActivationUpdate :: "Bead \<Rightarrow> UpdateOpts" where
  "deferredRoutingActivationUpdate b =
     (let md = Metadata b; assignee = mget md DeferredAssigneeMetadataKey; routedTo = mget md DeferredRoutedToMetadataKey;
          executionRoutedTo = mget md DeferredExecutionRoutedToMetadataKey; typ = mget md DeferredTypeMetadataKey
      in zero_UpdateOpts\<lparr>
           uAssignee := (if assignee \<noteq> [] \<and> Assignee b \<noteq> assignee then Some assignee else None),
           uType := (if typ \<noteq> [] \<and> Type b \<noteq> typ then Some typ else None),
           uMetadata := (if assignee \<noteq> [] then [(DeferredAssigneeMetadataKey, [])] else [])
             @ (if routedTo \<noteq> [] \<and> mget md RoutedToMetadataKey \<noteq> routedTo then [(RoutedToMetadataKey, routedTo)] else [])
             @ (if routedTo \<noteq> [] then [(DeferredRoutedToMetadataKey, [])] else [])
             @ (if executionRoutedTo \<noteq> [] \<and> mget md ExecutionRoutedToMetadataKey \<noteq> executionRoutedTo
                then [(ExecutionRoutedToMetadataKey, executionRoutedTo)] else [])
             @ (if executionRoutedTo \<noteq> [] then [(DeferredExecutionRoutedToMetadataKey, [])] else [])
             @ (if typ \<noteq> [] then [(DeferredTypeMetadataKey, [])] else [])
             @ (if mget md InstantiatingMetadataKey \<noteq> [] then [(InstantiatingMetadataKey, [])] else [])\<rparr>)"

definition activateFencedGraphWorkflowBead :: "clock \<Rightarrow> string \<Rightarrow> timedStore \<Rightarrow> (ConvError + unit) \<times> timedStore" where
  "activateFencedGraphWorkflowBead clk i s =
     (case Get i (fst s) of
        Inl e \<Rightarrow> (Inl (storeError e), s)
      | Inr b \<Rightarrow>
          let upd = deferredRoutingActivationUpdate b in
          if uAssignee upd = None \<and> uType upd = None \<and> length (uMetadata upd) = 0 then (Inr (), s)
          else timed clk (\<lambda>now. Update now i upd) s)"

section \<open>Instantiation\<close>

text \<open>The local variables of \<open>instantiateSequential\<close>: \<open>idMapping\<close>, \<open>createdParentByStep\<close>, \<open>createdIDs\<close>,
  \<open>embeddedDeps\<close> and \<open>pendingAssignees\<close>; and those that do not change.\<close>

record cooking =
  ckMapping :: strmap
  ckParents :: strmap
  ckCreated :: "string list"
  ckEmbedded :: "string list"
  ckPending :: kvs

record plan =
  plRecipe :: Recipe
  plOpts :: Options
  plVars :: strmap
  plExternals :: externals
  plGraph :: bool
  plFence :: bool

definition dep_key :: "RecipeDep \<Rightarrow> string" where
  "dep_key d = depStepID d @ ''|'' @ depDependsOnID d @ ''|'' @ depType d"

definition need_text :: "string \<Rightarrow> string \<Rightarrow> string" where
  "need_text typ i = (if typ = ''blocks'' then i else typ @ '':'' @ i)"

definition own_deps :: "plan \<Rightarrow> RecipeStep \<Rightarrow> RecipeDep list" where
  "own_deps pl step = filter (\<lambda>d. depStepID d = rsID step \<and> depType d \<noteq> ''parent-child'') (rcDeps (plRecipe pl))"

definition resolved :: "cooking \<Rightarrow> RecipeDep \<Rightarrow> bool" where
  "resolved st d \<longleftrightarrow> mget (ckMapping st) (depDependsOnID d) \<noteq> []"

definition step_needs :: "plan \<Rightarrow> cooking \<Rightarrow> RecipeStep \<Rightarrow> string list" where
  "step_needs pl st step =
     map (\<lambda>d. need_text (depType d) (mget (ckMapping st) (depDependsOnID d))) (filter (resolved st) (own_deps pl step))
     @ map (\<lambda>d. need_text (edType d) (edDependsOnID d))
         (filter (\<lambda>d. edType d \<noteq> ''parent-child'') (externals_of (plExternals pl) (rsID step)))"

definition root_bead :: "plan \<Rightarrow> RecipeStep \<Rightarrow> Bead \<Rightarrow> Bead" where
  "root_bead pl step b =
     (let opts = plOpts pl; recipe = plRecipe pl;
          md1 = (if rcContentHash recipe \<noteq> [] then (Metadata b)(FormulaHashMetadataKey \<mapsto> rcContentHash recipe) else Metadata b);
          md2 = (if rcFormulaSource recipe \<noteq> [] then md1(FormulaSourceMetadataKey \<mapsto> rcFormulaSource recipe) else md1);
          md3 = (if oIdempotencyKey opts \<noteq> [] then md2(idempotency_key \<mapsto> oIdempotencyKey opts) else md2)
      in b\<lparr>Type := (if \<not> oPreserveRootType opts \<and> \<not> preserveExecutableRootType step then ''molecule'' else Type b),
           Ref := rcName recipe,
           Title := (if oTitle opts \<noteq> [] then Substitute (plVars pl) (oTitle opts) else Title b),
           ParentID := (if oParentID opts \<noteq> [] \<and> mget (rsMetadata step) KindMetadataKey \<noteq> KindWorkflow then oParentID opts else ParentID b),
           Metadata := stampFormulaVars (plVars pl) md3\<rparr>)"

definition step_parent :: "plan \<Rightarrow> cooking \<Rightarrow> RecipeStep \<Rightarrow> string" where
  "step_parent pl st step =
     (let p = (case find (\<lambda>d. depStepID d = rsID step \<and> depType d = ''parent-child'') (rcDeps (plRecipe pl)) of
                 None \<Rightarrow> []
               | Some d \<Rightarrow> mget (ckMapping st) (depDependsOnID d))
      in if p = [] \<and> mget (recipeParentDeps (rcDeps (plRecipe pl))) (rsID step) = []
         then (case find (\<lambda>d. edType d = ''parent-child'' \<and> edDependsOnID d \<noteq> []) (externals_of (plExternals pl) (rsID step)) of
                 None \<Rightarrow> p
               | Some d \<Rightarrow> edDependsOnID d)
         else p)"

definition step_metadata :: "plan \<Rightarrow> cooking \<Rightarrow> RecipeStep \<Rightarrow> strmap \<Rightarrow> strmap" where
  "step_metadata pl st step md =
     (let md1 = (if mget md StepRefMetadataKey = [] then md(StepRefMetadataKey \<mapsto> rsID step) else md);
          rootBeadID = mget (ckMapping st) (rsID (hd (rcSteps (plRecipe pl))));
          md2 = (if (plGraph pl \<or> mget (rsMetadata step) KindMetadataKey \<noteq> []) \<and> mget md1 RootBeadIDMetadataKey = [] \<and> rootBeadID \<noteq> []
                 then md1(RootBeadIDMetadataKey \<mapsto> rootBeadID) else md1)
      in case logicalRecipeStepID step of
           None \<Rightarrow> md2
         | Some logicalStepID \<Rightarrow>
             (case ckMapping st logicalStepID of None \<Rightarrow> md2 | Some i \<Rightarrow> md2(LogicalBeadIDMetadataKey \<mapsto> i)))"

definition holds_assignee :: "plan \<Rightarrow> cooking \<Rightarrow> RecipeStep \<Rightarrow> Bead \<Rightarrow> bool" where
  "holds_assignee pl st step b \<longleftrightarrow> \<not> rsIsRoot step \<and> plGraph pl \<and> Assignee b \<noteq> [] \<and> (\<exists>d \<in> set (own_deps pl step). \<not> resolved st d)"

definition nonroot_bead :: "plan \<Rightarrow> cooking \<Rightarrow> RecipeStep \<Rightarrow> Bead \<Rightarrow> Bead" where
  "nonroot_bead pl st step b =
     b\<lparr>Type := (if \<not> plGraph pl then nonRootStepBeadType (Type b) else Type b), ParentID := step_parent pl st step, Ref := rsID step,
       Metadata := step_metadata pl st step (Metadata b), Assignee := (if holds_assignee pl st step b then [] else Assignee b)\<rparr>"

definition base_bead :: "plan \<Rightarrow> cooking \<Rightarrow> RecipeStep \<Rightarrow> Bead" where
  "base_bead pl st step =
     (let b0 = stepToBead step (plVars pl) (oPriorityOverride (plOpts pl));
          b1 = (if oDeferAssignees (plOpts pl) then deferBeadRouting b0 else b0)
      in b1\<lparr>Needs := step_needs pl st step\<rparr>)"

definition planned_bead :: "plan \<Rightarrow> cooking \<Rightarrow> RecipeStep \<Rightarrow> Bead" where
  "planned_bead pl st step =
     (let b1 = base_bead pl st step;
          b2 = (if rsIsRoot step then root_bead pl step b1 else nonroot_bead pl st step b1)
      in if plFence pl then fenceGraphWorkflowBead b2 else b2)"

definition validate_bead :: "RecipeStep \<Rightarrow> Bead \<Rightarrow> ConvError + unit" where
  "validate_bead step b =
     (if contains_sub ''{{'' (Title b) \<and> length (CheckResidualVars (Title b)) > 0
      then Inl (ConvErrorf ''bead title contains unresolved variable(s)'' [rsID step, join '', '' (CheckResidualVars (Title b))])
      else validateTimeoutMetadataVars (rsID step) (Metadata b))"

definition put_key :: "string \<Rightarrow> string \<Rightarrow> kvs \<Rightarrow> kvs" where
  "put_key k v xs = filter (\<lambda>e. fst e \<noteq> k) xs @ [(k, v)]"

definition record_step :: "plan \<Rightarrow> RecipeStep \<Rightarrow> Bead \<Rightarrow> cooking \<Rightarrow> cooking" where
  "record_step pl step created st =
     (let b = base_bead pl st step in
      st\<lparr>ckMapping := (ckMapping st)(rsID step \<mapsto> ID created),
         ckParents := (ckParents st)(rsID step \<mapsto> ParentID created),
         ckCreated := ckCreated st @ [ID created],
         ckEmbedded := ckEmbedded st @ map dep_key (filter (resolved st) (own_deps pl step)),
         ckPending := (if holds_assignee pl st step b then put_key (rsID step) (Assignee b) (ckPending st) else ckPending st)\<rparr>)"

fun create_steps :: "clock \<Rightarrow> plan \<Rightarrow> RecipeStep list \<Rightarrow> cooking \<Rightarrow> timedStore \<Rightarrow> (ConvError + unit) \<times> cooking \<times> timedStore" where
  "create_steps clk pl [] st s = (Inr (), st, s)"
| "create_steps clk pl (step # steps) st s =
     (let b = planned_bead pl st step in
      case validate_bead step b of
        Inl e \<Rightarrow> (Inl e, st, s)
      | Inr _ \<Rightarrow>
          (case timed clk (\<lambda>now. Create now b) s of
             (Inl e, s') \<Rightarrow> (Inl (ConvWrap (''creating bead for step '' @ quoted (rsID step)) e), st, s')
           | (Inr created, s') \<Rightarrow> create_steps clk pl steps (record_step pl step created st) s'))"

text \<open>Wiring.  The only variable the loop changes, apart from the store, is \<open>createdParentByStep\<close>.\<close>

definition wire_parent :: "clock \<Rightarrow> RecipeDep \<Rightarrow> string \<Rightarrow> string \<Rightarrow> strmap \<times> timedStore \<Rightarrow> (ConvError + unit) \<times> strmap \<times> timedStore" where
  "wire_parent clk d fromID toID ps =
     (if depType d = ''parent-child'' \<and> mget (fst ps) (depStepID d) \<noteq> toID
      then (case timed clk (\<lambda>now. Update now fromID (zero_UpdateOpts\<lparr>uParentID := Some toID\<rparr>)) (snd ps) of
              (Inl e, s') \<Rightarrow> (Inl (ConvWrap ''setting parent for dep'' e), fst ps, s')
            | (Inr _, s') \<Rightarrow> (Inr (), (fst ps)(depStepID d \<mapsto> toID), s'))
      else (Inr (), ps))"

definition wire_dep :: "clock \<Rightarrow> cooking \<Rightarrow> RecipeDep \<Rightarrow> strmap \<times> timedStore \<Rightarrow> (ConvError + unit) \<times> strmap \<times> timedStore" where
  "wire_dep clk st d ps =
     (case (ckMapping st (depStepID d), ckMapping st (depDependsOnID d)) of
        (Some fromID, Some toID) \<Rightarrow>
          if dep_key d \<in> set (ckEmbedded st) then (Inr (), ps)
          else (case wire_parent clk d fromID toID ps of
                  (Inl e, ps') \<Rightarrow> (Inl e, ps')
                | (Inr _, ps') \<Rightarrow>
                    (case timed clk (\<lambda>now. DepAdd fromID toID (depType d)) (snd ps') of
                       (Inl e, s') \<Rightarrow> (Inl (ConvWrap ''wiring dep'' e), fst ps', s')
                     | (Inr _, s') \<Rightarrow> (Inr (), fst ps', s')))
      | _ \<Rightarrow> (Inr (), ps))"

definition wire_deps :: "clock \<Rightarrow> plan \<Rightarrow> cooking \<Rightarrow> timedStore \<Rightarrow> (ConvError + unit) \<times> timedStore" where
  "wire_deps clk pl st s =
     (if rcRootOnly (plRecipe pl) then (Inr (), s)
      else case each_until (wire_dep clk st) (rcDeps (plRecipe pl)) (ckParents st, s) of (r, ps) \<Rightarrow> (r, snd ps))"

definition wire_external :: "clock \<Rightarrow> plan \<Rightarrow> cooking \<Rightarrow> string \<times> ExternalDep list \<Rightarrow> timedStore \<Rightarrow> (ConvError + unit) \<times> timedStore" where
  "wire_external clk pl st e s =
     (if mget (recipeParentDeps (rcDeps (plRecipe pl))) (fst e) \<noteq> [] then (Inr (), s)
      else case ckMapping st (fst e) of
             None \<Rightarrow> (Inr (), s)
           | Some fromID \<Rightarrow>
               each_until (\<lambda>d s. if edType d \<noteq> ''parent-child'' then (Inr (), s)
                  else wrapf ''wiring external dep'' (timed clk (\<lambda>now. DepAdd fromID (edDependsOnID d) (edType d)) s)) (snd e) s)"

definition assign_pending :: "clock \<Rightarrow> cooking \<Rightarrow> string \<times> string \<Rightarrow> timedStore \<Rightarrow> (ConvError + unit) \<times> timedStore" where
  "assign_pending clk st e s =
     (if snd e = [] \<or> mget (ckMapping st) (fst e) = [] then (Inr (), s)
      else wrapf (''assigning graph step '' @ quoted (fst e))
             (timed clk (\<lambda>now. Update now (mget (ckMapping st) (fst e)) (zero_UpdateOpts\<lparr>uAssignee := Some (snd e)\<rparr>)) s))"

definition activate_step :: "clock \<Rightarrow> cooking \<Rightarrow> RecipeStep \<Rightarrow> timedStore \<Rightarrow> (ConvError + unit) \<times> timedStore" where
  "activate_step clk st step s =
     (let beadID = mget (ckMapping st) (rsID step) in
      if beadID = [] then (Inr (), s)
      else wrapf (''activating graph step '' @ quoted (rsID step)) (activateFencedGraphWorkflowBead clk beadID s))"

text \<open>The four passes after the creation of the beads.\<close>

definition andThen :: "('s \<Rightarrow> (ConvError + unit) \<times> 's) \<Rightarrow> ('s \<Rightarrow> (ConvError + unit) \<times> 's) \<Rightarrow> 's \<Rightarrow> (ConvError + unit) \<times> 's" where
  "andThen f g s = (case f s of (Inl e, s') \<Rightarrow> (Inl e, s') | (Inr _, s') \<Rightarrow> g s')"

definition finish_graph :: "clock \<Rightarrow> plan \<Rightarrow> cooking \<Rightarrow> timedStore \<Rightarrow> (ConvError + unit) \<times> timedStore" where
  "finish_graph clk pl st =
     andThen (wire_deps clk pl st)
       (andThen (each_until (wire_external clk pl st) (plExternals pl))
         (andThen (if plGraph pl then each_until (assign_pending clk st) (ckPending st) else Pair (Inr ()))
           (if plFence pl then each_until (activate_step clk st) (rcSteps (plRecipe pl)) else Pair (Inr ()))))"

definition created_steps :: "Recipe \<Rightarrow> RecipeStep list" where
  "created_steps recipe = (if rcRootOnly recipe then take 1 (rcSteps recipe) else rcSteps recipe)"

definition make_plan :: "Recipe \<Rightarrow> Options \<Rightarrow> externals \<Rightarrow> plan" where
  "make_plan recipe opts exts =
     \<lparr>plRecipe = recipe, plOpts = opts, plVars = applyVarDefaults (oVars opts) (rcVars recipe), plExternals = exts,
      plGraph = preservesGraphActionTypes recipe, plFence = preservesGraphActionTypes recipe \<and> \<not> oDeferAssignees opts\<rparr>"

definition no_cooking :: cooking where
  "no_cooking = \<lparr>ckMapping = Map.empty, ckParents = Map.empty, ckCreated = [], ckEmbedded = [], ckPending = []\<rparr>"

definition cooked :: "plan \<Rightarrow> cooking \<Rightarrow> Result" where
  "cooked pl st = \<lparr>resRootID = (case ckCreated st of [] \<Rightarrow> [] | i # _ \<Rightarrow> i), resGraphWorkflow = plGraph pl, resIDMapping = ckMapping st,
     resCreated = length (ckCreated st)\<rparr>"

definition instantiateSequential :: "clock \<Rightarrow> Recipe \<Rightarrow> Options \<Rightarrow> timedStore \<Rightarrow> (ConvError + Result) \<times> timedStore" where
  "instantiateSequential clk recipe opts s =
     (case groupExternalDeps (oExternalDeps opts) of
        Inl e \<Rightarrow> (Inl e, s)
      | Inr exts \<Rightarrow>
          let pl = make_plan recipe opts exts in
          (case create_steps clk pl (created_steps recipe) no_cooking s of
             (Inl e, st, s1) \<Rightarrow> (Inl e, markFailed clk (ckCreated st) s1)
           | (Inr _, st, s1) \<Rightarrow>
               (case finish_graph clk pl st s1 of
                  (Inl e, s2) \<Rightarrow> (Inl e, markFailed clk (ckCreated st) s2)
                | (Inr _, s2) \<Rightarrow> (Inr (cooked pl st), s2))))"

definition Instantiate :: "clock \<Rightarrow> Recipe \<Rightarrow> Options \<Rightarrow> timedStore \<Rightarrow> (ConvError + Result) \<times> timedStore" where
  "Instantiate clk recipe opts s =
     (if rcSteps recipe = [] then (Inl (ConvErrorf ''recipe has no steps'' [rcName recipe]), s)
      else instantiateSequential clk recipe opts s)"

section \<open>Cook\<close>

definition runtimeValidationVars :: "Recipe \<Rightarrow> Options \<Rightarrow> strmap" where
  "runtimeValidationVars recipe opts =
     (if oTitle opts = [] \<or> ''title'' \<notin> fst ` set (rcVars recipe) then oVars opts
      else let vars = applyVarDefaults (oVars opts) (rcVars recipe) in vars(''title'' \<mapsto> Substitute vars (oTitle opts)))"

definition title_errors :: "Recipe \<Rightarrow> Options \<Rightarrow> strmap \<Rightarrow> string list \<Rightarrow> RecipeStep \<Rightarrow> string list" where
  "title_errors recipe opts vars missingRequired step =
     (let title = Substitute vars (if rsIsRoot step \<and> oTitle opts \<noteq> [] then oTitle opts else rsTitle step) in
      if \<not> contains_sub ''{{'' title then []
      else let unexplained = filter (\<lambda>n. n \<notin> set missingRequired) (CheckResidualVars title) in
        if unexplained = [] then []
        else [''step '' @ quoted (rsID step) @ '': bead title contains unresolved variable(s) '' @ join '', '' unexplained])"

definition ValidateRecipeRuntimeVars :: "regexp \<Rightarrow> Recipe \<Rightarrow> Options \<Rightarrow> ConvError + unit" where
  "ValidateRecipeRuntimeVars rx recipe opts =
     (let validationVars = runtimeValidationVars recipe opts;
          (validationErrs, missingRequired) = CollectVarValidationErrors rx (rcVars recipe) validationVars;
          titleErrs = concat (map (title_errors recipe opts (applyVarDefaults validationVars (rcVars recipe)) missingRequired) (created_steps recipe))
      in if validationErrs = [] \<and> titleErrs = [] then Inr ()
         else Inl (ConvErrorf ''variable validation failed'' (validationErrs @ titleErrs)))"

text \<open>The front end of the compiler: from the name, the search paths and the variables to the resolved
  formula and whether it is a graph workflow.\<close>

type_synonym frontEnd = "string \<Rightarrow> string list \<Rightarrow> strmap \<Rightarrow> ConvError + Formula \<times> bool"

definition CompileWithoutRuntimeVarValidation :: "frontEnd \<Rightarrow> string \<Rightarrow> string list \<Rightarrow> strmap \<Rightarrow> ConvError + Recipe" where
  "CompileWithoutRuntimeVarValidation fe name paths vars =
     (case fe name paths vars of
        Inl e \<Rightarrow> Inl e
      | Inr (f, graphWorkflow) \<Rightarrow>
          (case toRecipeWithGraph f graphWorkflow of Inl msg \<Rightarrow> Inl (ConvErrorf msg []) | Inr r \<Rightarrow> Inr r))"

definition Cook :: "frontEnd \<Rightarrow> regexp \<Rightarrow> clock \<Rightarrow> string \<Rightarrow> string list \<Rightarrow> Options \<Rightarrow> timedStore \<Rightarrow> (ConvError + Result) \<times> timedStore" where
  "Cook fe rx clk formulaName searchPaths opts s =
     (case CompileWithoutRuntimeVarValidation fe formulaName searchPaths (oVars opts) of
        Inl e \<Rightarrow> (Inl (ConvWrap (''compiling formula '' @ quoted formulaName) e), s)
      | Inr recipe \<Rightarrow>
          (case ValidateRecipeRuntimeVars rx recipe opts of
             Inl e \<Rightarrow> (Inl e, s)
           | Inr _ \<Rightarrow> Instantiate clk recipe opts s))"

definition CookOn :: "frontEnd \<Rightarrow> regexp \<Rightarrow> clock \<Rightarrow> string \<Rightarrow> string list \<Rightarrow> Options \<Rightarrow> timedStore \<Rightarrow> (ConvError + Result) \<times> timedStore" where
  "CookOn fe rx clk formulaName searchPaths opts s =
     (if oParentID opts = [] then (Inl (ConvErrorf ''CookOn requires Options.ParentID'' []), s)
      else Cook fe rx clk formulaName searchPaths opts s)"

end
