(* ===== verification/Molecule_Laws.thy ===== *)
theory Molecule_Laws
  imports Molecule
begin

text \<open>
  What instantiation does to the store.  \<open>grown m0 ids P m\<close> says that \<open>m\<close> has the beads of \<open>m0\<close>, untouched
  and in place, followed by new beads with the ids \<open>ids\<close> that all satisfy \<open>P\<close>; \<open>steady\<close> says that a pass keeps
  a property of the store.  Every pass of \<open>instantiateSequential\<close> is steady for \<open>grown\<close>, whatever the calls
  return; the theorems instantiate \<open>P\<close>.
\<close>

section \<open>Growing stores\<close>

definition grown :: "MemStore \<Rightarrow> string list \<Rightarrow> (Bead \<Rightarrow> bool) \<Rightarrow> MemStore \<Rightarrow> bool" where
  "grown m0 ids P m \<longleftrightarrow> mem_wf m \<and> (\<exists>new. beads m = beads m0 @ new \<and> map ID new = ids \<and> (\<forall>b \<in> set new. P b))"

lemma grown_start: "mem_wf m \<Longrightarrow> grown m [] P m"
  by (simp add: grown_def)

lemma grown_weaken: "grown m0 ids P m \<Longrightarrow> (\<And>b. ID b \<in> set ids \<Longrightarrow> P b \<Longrightarrow> Q b) \<Longrightarrow> grown m0 ids Q m"
  unfolding grown_def by (metis imageI list.set_map)

lemma grown_wf: "grown m0 ids P m \<Longrightarrow> mem_wf m"
  by (simp add: grown_def)

lemma grown_fresh: "grown m0 ids P m \<Longrightarrow> i \<in> set ids \<Longrightarrow> b \<in> set (beads m0) \<Longrightarrow> ID b \<noteq> i"
  unfolding grown_def mem_wf_def by (elim conjE exE) (auto simp: disjoint_iff)

lemma grown_find:
  assumes "grown m0 ids P m" and "i \<in> set ids"
  shows "\<exists>b. find_bead i m = Some b \<and> ID b = i \<and> P b"
proof -
  obtain new where new: "beads m = beads m0 @ new" "map ID new = ids" "\<forall>b \<in> set new. P b"
    using assms(1) by (auto simp: grown_def)
  then obtain b where "b \<in> set new" "ID b = i" using assms(2) by fastforce
  moreover have "distinct (map ID (beads m))" using assms(1) by (simp add: grown_def mem_wf_def)
  ultimately show ?thesis using new by (auto simp: find_bead_iff)
qed

lemma find_append_Some: "find P xs = Some x \<Longrightarrow> find P (xs @ ys) = Some x"
  by (induction xs) auto

lemma grown_old: "grown m0 ids P m \<Longrightarrow> find_bead i m0 = Some b \<Longrightarrow> find_bead i m = Some b"
  by (auto simp: grown_def find_bead_def find_append_Some)

lemma update_first_append: "(\<And>x. x \<in> set xs \<Longrightarrow> \<not> P x) \<Longrightarrow> update_first P f (xs @ ys) = xs @ update_first P f ys"
  by (induction xs) auto

lemma grown_modify:
  assumes g: "grown m0 ids P m" and i: "i \<in> set ids" and wf: "mem_wf (modify_bead i f m)"
    and ID: "\<And>b. ID (f b) = ID b" and P: "\<And>b. find_bead i m = Some b \<Longrightarrow> P b \<Longrightarrow> P (f b)"
  shows "grown m0 ids P (modify_bead i f m)"
proof -
  obtain new where new: "beads m = beads m0 @ new" "map ID new = ids" "\<forall>b \<in> set new. P b"
    using g by (auto simp: grown_def)
  have d: "distinct (map ID (beads m))" using g by (simp add: grown_def mem_wf_def)
  have "beads (modify_bead i f m) = beads m0 @ update_first (\<lambda>b. ID b = i) f new"
    using grown_fresh [OF g i] by (simp add: modify_bead_def new(1) update_first_append)
  moreover have "map ID (update_first (\<lambda>b. ID b = i) f new) = ids" using new(2) ID by (simp add: map_update_first)
  moreover have "P b" if b: "b \<in> set (update_first (\<lambda>b. ID b = i) f new)" for b
    using set_update_first [OF b]
  proof
    assume "b \<in> set new" with new(3) show ?thesis by blast
  next
    assume "\<exists>y \<in> set new. ID y = i \<and> b = f y"
    then obtain y where y: "y \<in> set new" "ID y = i" "b = f y" by blast
    moreover from y new(1) d have "find_bead i m = Some y" by (auto simp: find_bead_iff)
    ultimately show ?thesis using P new(3) by blast
  qed
  ultimately show ?thesis using wf by (auto simp: grown_def)
qed

lemma grown_update:
  assumes g: "grown m0 ids P m" and i: "i \<in> set ids"
    and P: "\<And>b. find_bead i m = Some b \<Longrightarrow> P b \<Longrightarrow> P (apply_update now opts b)"
  shows "grown m0 ids P (snd (Update now i opts m))"
proof -
  have "mem_wf (snd (Update now i opts m))" using mem_wf_step [OF st_Update] g by (auto simp: grown_def)
  then show ?thesis using g i P by (cases "find_bead i m") (auto simp: Update_find intro!: grown_modify)
qed

lemma grown_batch:
  assumes g: "grown m0 ids P m" and i: "i \<in> set ids"
    and P: "\<And>b. find_bead i m = Some b \<Longrightarrow> P b \<Longrightarrow>
      P (b\<lparr>Metadata := mput_all (Metadata b) kvs, UpdatedAt := now, Revision := Revision b + 1\<rparr>)"
  shows "grown m0 ids P (snd (SetMetadataBatch now i kvs m))"
proof -
  have "mem_wf (snd (SetMetadataBatch now i kvs m))" using mem_wf_step [OF st_SetMetadataBatch] g by (auto simp: grown_def)
  then show ?thesis using g i P
    by (cases "find_bead i m") (auto simp: SetMetadataBatch_def intro!: grown_modify split: if_splits)
qed

lemma grown_dep:
  assumes "grown m0 ids P m"
  shows "grown m0 ids P (snd (DepAdd a b t m))"
proof -
  have "mem_wf (snd (DepAdd a b t m))" using mem_wf_step [OF st_DepAdd] assms by (auto simp: grown_def)
  moreover have "beads (snd (DepAdd a b t m)) = beads m" by (simp add: DepAdd_def split: option.split)
  ultimately show ?thesis using assms by (simp add: grown_def)
qed

lemma grown_create:
  assumes g: "grown m0 ids P m" and c: "Create now b m = (r, m')"
  obtains created where "r = Inr created" and "ID created \<notin> set ids" and "ID created = bead_ident (seq m + 1)"
    and "Metadata created = Metadata b" and "ParentID created = ParentID b" and "Labels created = Labels b"
    and "Status created = ''open''" and "Ephemeral created = Ephemeral b"
    and "Assignee created = Assignee b" and "Type created = (if Type b = [] then ''task'' else Type b)"
    and "P created \<Longrightarrow> grown m0 (ids @ [ID created]) P m'"
proof -
  obtain new where new: "beads m = beads m0 @ new" "map ID new = ids" "\<forall>b \<in> set new. P b"
    using g by (auto simp: grown_def)
  have wf: "mem_wf m'" using mem_wf_step [OF st_Create [where now = now and b = b and m = m]] g c by (simp add: grown_def)
  define created where "created = b\<lparr>ID := bead_ident (seq m + 1), Status := ''open'', Type := (if Type b = [] then ''task'' else Type b),
            CreatedAt := now, UpdatedAt := now, Revision := 1, ClaimFence := 0\<rparr>"
  have r: "r = Inr created" "beads m' = beads m @ [created]"
    using c by (auto simp: Create_def Let_def created_def bead_ident_def)
  show thesis
  proof (rule that [of created])
    show "ID created \<notin> set ids" using wf new r(2) by (auto simp: mem_wf_def)
    show "grown m0 (ids @ [ID created]) P m'" if "P created"
      using wf new r(2) that by (auto simp: grown_def intro!: exI [of _ "new @ [created]"])
  qed (simp_all add: r created_def)
qed

section \<open>Steady passes\<close>

definition steady :: "(MemStore \<Rightarrow> bool) \<Rightarrow> (timedStore \<Rightarrow> 'a \<times> timedStore) \<Rightarrow> bool" where
  "steady R f \<longleftrightarrow> (\<forall>s. R (fst s) \<longrightarrow> R (fst (snd (f s))))"

lemma steadyD: "steady R f \<Longrightarrow> R (fst s) \<Longrightarrow> f s = (r, s') \<Longrightarrow> R (fst s')"
  unfolding steady_def by (metis snd_conv)

lemma steadyI: "(\<And>s r s'. R (fst s) \<Longrightarrow> f s = (r, s') \<Longrightarrow> R (fst s')) \<Longrightarrow> steady R f"
  unfolding steady_def by (metis prod.collapse)

lemma steady_timed: "(\<And>now m. R m \<Longrightarrow> R (snd (f now m))) \<Longrightarrow> steady R (timed clk f)"
  by (auto simp: steady_def timed_def split: prod.split) (metis snd_conv)

lemma steady_wrap: "steady R f \<Longrightarrow> steady R (\<lambda>s. wrapf msg (f s))"
  by (rule steadyI) (auto simp: wrapf_def split: prod.splits sum.splits dest: steadyD)

lemma steady_skip: "steady R (Pair r)"
  by (simp add: steady_def)

lemma steady_andThen: "steady R f \<Longrightarrow> steady R g \<Longrightarrow> steady R (andThen f g)"
  by (rule steadyI) (auto simp: andThen_def split: prod.splits sum.splits dest: steadyD)

lemma steady_if: "(c \<Longrightarrow> steady R f) \<Longrightarrow> (\<not> c \<Longrightarrow> steady R g) \<Longrightarrow> steady R (if c then f else g)"
  by simp

lemma steady_each:
  assumes "\<And>x. x \<in> set xs \<Longrightarrow> steady R (f x)"
  shows "steady R (each_until f xs)"
  unfolding steady_def
proof (intro allI impI)
  fix s show "R (fst s) \<Longrightarrow> R (fst (snd (each_until f xs s)))" using assms
  proof (induction xs arbitrary: s)
    case (Cons x xs)
    obtain r s' where f: "f x s = (r, s')" by (meson surj_pair)
    with Cons.prems have "R (fst s')" by (auto intro: steadyD)
    with Cons f show ?case by (cases r) auto
  qed simp
qed

lemmas steady_rules = steady_timed steady_wrap steady_skip steady_andThen steady_if steady_each

lemma update_steady:
  assumes "i \<in> set ids" and "\<And>now b. ID b = i \<Longrightarrow> P b \<Longrightarrow> P (apply_update now opts b)"
  shows "steady (grown m0 ids P) (timed clk (\<lambda>now. Update now i opts))"
  using assms by (intro steady_timed grown_update) (auto dest: find_bead_ID)

text \<open>What the passes must keep of \<open>P\<close>: the parent set for a recipe edge, the assignees held back, the
  activation.\<close>

definition pass_ok :: "plan \<Rightarrow> cooking \<Rightarrow> (Bead \<Rightarrow> bool) \<Rightarrow> bool" where
  "pass_ok pl st P \<longleftrightarrow>
     (\<forall>d \<in> set (rcDeps (plRecipe pl)). \<forall>i p now b. depType d = ''parent-child'' \<longrightarrow> ckMapping st (depStepID d) = Some i \<longrightarrow> ckMapping st (depDependsOnID d) = Some p
        \<longrightarrow> ID b = i
        \<longrightarrow> P b \<longrightarrow> P (apply_update now (zero_UpdateOpts\<lparr>uParentID := Some p\<rparr>) b))
     \<and> (\<forall>e \<in> set (ckPending st). \<forall>now b. plGraph pl \<longrightarrow> P b \<longrightarrow> P (apply_update now (zero_UpdateOpts\<lparr>uAssignee := Some (snd e)\<rparr>) b))
     \<and> (\<forall>now b. plFence pl \<longrightarrow> P b \<longrightarrow> P (apply_update now (deferredRoutingActivationUpdate b) b))"

lemma wire_parent_grown:
  assumes "grown m0 ids P (fst (snd ps))" and "i \<in> set ids" and "wire_parent clk d i p ps = (r, ps')"
    and "\<And>now b. depType d = ''parent-child'' \<Longrightarrow> ID b = i \<Longrightarrow> P b \<Longrightarrow> P (apply_update now (zero_UpdateOpts\<lparr>uParentID := Some p\<rparr>) b)"
  shows "grown m0 ids P (fst (snd ps'))"
proof (cases "depType d = ''parent-child'' \<and> mget (fst ps) (depStepID d) \<noteq> p")
  case True
  obtain q s' where u: "timed clk (\<lambda>now. Update now i (zero_UpdateOpts\<lparr>uParentID := Some p\<rparr>)) (snd ps) = (q, s')" by (meson surj_pair)
  have "steady (grown m0 ids P) (timed clk (\<lambda>now. Update now i (zero_UpdateOpts\<lparr>uParentID := Some p\<rparr>)))"
    using True by (intro update_steady assms(2,4)) auto
  from steadyD [OF this assms(1) u] have "grown m0 ids P (fst s')" .
  with assms(3) True u show ?thesis by (auto simp: wire_parent_def split: sum.splits)
next
  case False
  with assms show ?thesis by (auto simp: wire_parent_def split: if_splits)
qed

lemma wire_dep_grown:
  assumes g: "grown m0 ids P (fst (snd ps))" and ran: "\<And>k i. ckMapping st k = Some i \<Longrightarrow> i \<in> set ids"
    and P: "pass_ok pl st P" and d: "d \<in> set (rcDeps (plRecipe pl))" and w: "wire_dep clk st d ps = (r, ps')"
  shows "grown m0 ids P (fst (snd ps'))"
proof (cases "\<exists>i p. ckMapping st (depStepID d) = Some i \<and> ckMapping st (depDependsOnID d) = Some p \<and> dep_key d \<notin> set (ckEmbedded st)")
  case True
  then obtain i p where m: "ckMapping st (depStepID d) = Some i" "ckMapping st (depDependsOnID d) = Some p"
    and e: "dep_key d \<notin> set (ckEmbedded st)" by blast
  obtain q ps1 where wp: "wire_parent clk d i p ps = (q, ps1)" by (meson surj_pair)
  have "P (apply_update now (zero_UpdateOpts\<lparr>uParentID := Some p\<rparr>) b)" if "depType d = ''parent-child''" "ID b = i" "P b" for now b
    using P d m that unfolding pass_ok_def by blast
  from wire_parent_grown [OF g ran [OF m(1)] wp this] have g1: "grown m0 ids P (fst (snd ps1))" .
  obtain q2 s2 where t: "timed clk (\<lambda>now. DepAdd i p (depType d)) (snd ps1) = (q2, s2)" by (meson surj_pair)
  have "steady (grown m0 ids P) (timed clk (\<lambda>now. DepAdd i p (depType d)))" by (intro steady_timed grown_dep)
  from steadyD [OF this g1 t] have "grown m0 ids P (fst s2)" .
  with w m e wp t g1 show ?thesis by (auto simp: wire_dep_def split: sum.splits)
next
  case False
  with w g show ?thesis by (auto simp: wire_dep_def split: option.splits if_splits)
qed

lemma wire_deps_steady:
  assumes ran: "\<And>k i. ckMapping st k = Some i \<Longrightarrow> i \<in> set ids" and P: "pass_ok pl st P"
  shows "steady (grown m0 ids P) (wire_deps clk pl st)"
proof -
  have "grown m0 ids P (fst (snd (snd (each_until (wire_dep clk st) ds ps))))"
    if "set ds \<subseteq> set (rcDeps (plRecipe pl))" "grown m0 ids P (fst (snd ps))" for ds ps
    using that
  proof (induction ds arbitrary: ps)
    case (Cons d ds)
    obtain r ps1 where w: "wire_dep clk st d ps = (r, ps1)" by (meson surj_pair)
    from Cons.prems have "grown m0 ids P (fst (snd ps1))" by (intro wire_dep_grown [OF _ ran P _ w]) auto
    with Cons w show ?case by (cases r) auto
  qed simp
  from this [of "rcDeps (plRecipe pl)"] show ?thesis
    by (auto simp: steady_def wire_deps_def split: prod.split) (metis fst_conv snd_conv subset_refl)
qed

lemma wire_external_steady: "steady (grown m0 ids P) (wire_external clk pl st e)"
proof -
  have "steady (grown m0 ids P) (\<lambda>s. if edType d \<noteq> ''parent-child'' then (Inr (), s)
      else wrapf msg (timed clk (\<lambda>now. DepAdd i (edDependsOnID d) (edType d)) s))" for d msg i
  proof (cases "edType d = ''parent-child''")
    case True
    have "steady (grown m0 ids P) (\<lambda>s. wrapf msg (timed clk (\<lambda>now. DepAdd i (edDependsOnID d) (edType d)) s))"
      by (intro steady_wrap steady_timed grown_dep)
    with True show ?thesis by simp
  next
    case False then show ?thesis by (simp add: steady_def)
  qed
  then have all: "steady (grown m0 ids P) (each_until (\<lambda>d s. if edType d \<noteq> ''parent-child'' then (Inr (), s)
      else wrapf msg (timed clk (\<lambda>now. DepAdd i (edDependsOnID d) (edType d)) s)) ds)" for ds msg i
    by (rule steady_each)
  show ?thesis
    by (rule steadyI) (auto simp: wire_external_def split: if_splits option.splits dest: steadyD [OF all, rotated])
qed

lemma assign_pending_steady:
  assumes "\<And>k i. ckMapping st k = Some i \<Longrightarrow> i \<in> set ids"
    and "\<And>now b. P b \<Longrightarrow> P (apply_update now (zero_UpdateOpts\<lparr>uAssignee := Some (snd e)\<rparr>) b)"
  shows "steady (grown m0 ids P) (assign_pending clk st e)"
proof (cases "snd e = [] \<or> mget (ckMapping st) (fst e) = []")
  case False
  then have "mget (ckMapping st) (fst e) \<in> set ids" using assms(1) by (auto simp: mget_def split: option.splits)
  then have "steady (grown m0 ids P) (\<lambda>s. wrapf (''assigning graph step '' @ quoted (fst e))
     (timed clk (\<lambda>now. Update now (mget (ckMapping st) (fst e)) (zero_UpdateOpts\<lparr>uAssignee := Some (snd e)\<rparr>)) s))"
    by (intro steady_wrap update_steady assms(2))
  with False show ?thesis by (simp add: assign_pending_def [abs_def])
qed (simp add: steady_def assign_pending_def)

lemma activateFenced_steady:
  assumes "i \<in> set ids" and "\<And>now b. P b \<Longrightarrow> P (apply_update now (deferredRoutingActivationUpdate b) b)"
  shows "steady (grown m0 ids P) (activateFencedGraphWorkflowBead clk i)"
proof (rule steadyI)
  fix s r s'
  assume g: "grown m0 ids P (fst s)" and a: "activateFencedGraphWorkflowBead clk i s = (r, s')"
  from grown_find [OF g assms(1)] obtain b where b: "find_bead i (fst s) = Some b" by blast
  have "grown m0 ids P (snd (Update now i (deferredRoutingActivationUpdate b) (fst s)))" for now
    using b assms(2) by (intro grown_update [OF g assms(1)]) auto
  with a b g show "grown m0 ids P (fst s')"
    by (auto simp: activateFencedGraphWorkflowBead_def Get_def Let_def timed_def split: if_splits prod.splits) (metis snd_conv)+
qed

lemma activate_step_steady:
  assumes "\<And>k i. ckMapping st k = Some i \<Longrightarrow> i \<in> set ids"
    and "\<And>now b. P b \<Longrightarrow> P (apply_update now (deferredRoutingActivationUpdate b) b)"
  shows "steady (grown m0 ids P) (activate_step clk st step)"
proof (cases "mget (ckMapping st) (rsID step) = []")
  case False
  then have "mget (ckMapping st) (rsID step) \<in> set ids" using assms(1) by (auto simp: mget_def split: option.splits)
  then have "steady (grown m0 ids P) (activateFencedGraphWorkflowBead clk (mget (ckMapping st) (rsID step)))"
    by (rule activateFenced_steady) (rule assms(2))
  from steady_wrap [OF this] False show ?thesis by (simp add: activate_step_def [abs_def])
qed (simp add: steady_def activate_step_def)

lemma finish_graph_steady:
  assumes ran: "\<And>k i. ckMapping st k = Some i \<Longrightarrow> i \<in> set ids" and P: "pass_ok pl st P"
  shows "steady (grown m0 ids P) (finish_graph clk pl st)"
  unfolding finish_graph_def
proof (intro steady_andThen steady_if steady_each steady_skip wire_external_steady wire_deps_steady ran P)
  show "steady (grown m0 ids P) (assign_pending clk st e)" if "plGraph pl" "e \<in> set (ckPending st)" for e
    using P that by (intro assign_pending_steady ran) (auto simp: pass_ok_def)
  show "steady (grown m0 ids P) (activate_step clk st x)" if "plFence pl" for x
    using P that by (intro activate_step_steady ran) (auto simp: pass_ok_def)
qed auto

lemma markFailed_grown:
  assumes "grown m0 ids P (fst s)" and "set l \<subseteq> set ids"
    and "\<And>now b. P b \<Longrightarrow> P (b\<lparr>Metadata := mput_all (Metadata b) failed_batch, UpdatedAt := now, Revision := Revision b + 1\<rparr>)"
  shows "grown m0 ids (\<lambda>b. P b \<and> (ID b \<in> set l \<longrightarrow> mget (Metadata b) MoleculeFailedMetadataKey = ''true''
           \<and> mget (Metadata b) InstantiatingMetadataKey = [])) (fst (markFailed clk l s))"
  using assms
proof (induction l arbitrary: s P)
  case Nil then show ?case by simp
next
  case (Cons i l)
  let ?marked = "\<lambda>b. mget (Metadata b) MoleculeFailedMetadataKey = ''true'' \<and> mget (Metadata b) InstantiatingMetadataKey = []"
  let ?P = "\<lambda>b. P b \<and> (ID b = i \<longrightarrow> ?marked b)"
  have marks: "?marked (b\<lparr>Metadata := mput_all (Metadata b) failed_batch, UpdatedAt := now, Revision := Revision b + 1\<rparr>)" for now b
    by (simp add: failed_batch_def mget_def molecule_keys)
  let ?m = "\<lambda>now. snd (SetMetadataBatch now i failed_batch (fst s))"
  have g: "grown m0 ids ?P (?m now)" for now
  proof -
    have i: "i \<in> set ids" using Cons.prems(2) by simp
    obtain b where b: "find_bead i (fst s) = Some b" using grown_find [OF Cons.prems(1) i] by blast
    have "grown m0 ids P (?m now)" by (rule grown_batch [OF Cons.prems(1) i]) (rule Cons.prems(3))
    moreover have "?marked c" if "c \<in> set (beads (?m now))" "ID c = i" for c
    proof -
      have "mem_wf (?m now)" using \<open>grown m0 ids P (?m now)\<close> by (rule grown_wf)
      with that have "find_bead i (?m now) = Some c" by (simp add: find_bead_iff mem_wf_def)
      with b show ?thesis using marks by (auto simp: SetMetadataBatch_def failed_batch_def)
    qed
    ultimately show ?thesis unfolding grown_def by (metis in_set_conv_decomp_first UnCI set_append)
  qed
  define s1 where "s1 = snd (timed clk (\<lambda>now. SetMetadataBatch now i failed_batch) s)"
  then have "fst s1 = ?m (clk (snd s))" by (simp add: timed_def split: prod.split)
  with g have "grown m0 ids ?P (fst s1)" by simp
  moreover have "set l \<subseteq> set ids" using Cons.prems(2) by simp
  moreover have "?P (b\<lparr>Metadata := mput_all (Metadata b) failed_batch, UpdatedAt := now, Revision := Revision b + 1\<rparr>)"
    if "?P b" for now b using that Cons.prems(3) marks [of b now] by blast
  ultimately have "grown m0 ids (\<lambda>b. ?P b \<and> (ID b \<in> set l \<longrightarrow> ?marked b)) (fst (markFailed clk l s1))"
    by (rule Cons.IH)
  then show ?case by (auto simp: s1_def elim!: grown_weaken)
qed

section \<open>Creation\<close>

definition made :: "Bead \<Rightarrow> Bead \<Rightarrow> bool" where
  "made b created \<longleftrightarrow> Metadata created = Metadata b \<and> ParentID created = ParentID b \<and> Labels created = Labels b
     \<and> Status created = ''open'' \<and> Ephemeral created = Ephemeral b \<and> Assignee created = Assignee b \<and> Type created = (if Type b = [] then ''task'' else Type b)"

lemma record_step_sels [simp]:
  "ckCreated (record_step pl step created st) = ckCreated st @ [ID created]"
  "ckMapping (record_step pl step created st) = (ckMapping st)(rsID step \<mapsto> ID created)"
  by (simp_all add: record_step_def Let_def)

lemma record_step_pending:
  "e \<in> set (ckPending (record_step pl step created st)) \<Longrightarrow>
     e \<in> set (ckPending st) \<or> snd e \<noteq> [] \<and> snd e = Assignee (base_bead pl st step)"
  by (auto simp: record_step_def Let_def put_key_def holds_assignee_def split: if_splits)

lemma create_one:
  assumes "grown m0 (ckCreated st) P (fst s)" and "timed clk (\<lambda>now. Create now b) s = (r, s')"
  obtains created where "r = Inr created" and "made b created" and "ID created \<notin> set (ckCreated st)"
    and "ID created = bead_ident (seq (fst s) + 1)" and "P created \<Longrightarrow> grown m0 (ckCreated st @ [ID created]) P (fst s')"
proof -
  obtain q where q: "Create (clk (snd s)) b (fst s) = (q, fst s')" "r = storeResult q"
    using assms(2) by (auto simp: timed_def split: prod.splits)
  show thesis
    by (rule grown_create [OF assms(1) q(1)]) (rule that, auto simp: q(2) storeResult_def made_def)
qed

text \<open>What the loop records: the beads created, the ids of the steps, the assignees held back.\<close>

definition created_from :: "plan \<Rightarrow> RecipeStep list \<Rightarrow> cooking \<Rightarrow> ConvError + unit \<Rightarrow> cooking \<Rightarrow> bool" where
  "created_from pl steps st r st' \<longleftrightarrow>
     (\<exists>l. ckCreated st' = ckCreated st @ l \<and> (r = Inr () \<longrightarrow> length l = length steps))
     \<and> (\<forall>k i. ckMapping st' k = Some i \<longrightarrow> ckMapping st k = Some i \<or>
          i \<in> set (ckCreated st') \<and> i \<notin> set (ckCreated st) \<and> k \<in> rsID ` set steps)
     \<and> (\<forall>e \<in> set (ckPending st'). e \<in> set (ckPending st) \<or>
          (\<exists>st1. \<exists>step \<in> set steps. snd e \<noteq> [] \<and> snd e = Assignee (base_bead pl st1 step)))"

lemma create_steps_grown:
  assumes "create_steps clk pl steps st s = (r, st', s')" and "grown m0 (ckCreated st) P (fst s)"
    and "\<And>k i. ckMapping st k = Some i \<Longrightarrow> i \<in> set (ckCreated st)"
    and "\<And>st1 step created. step \<in> set steps \<Longrightarrow> set (ckCreated st) \<subseteq> set (ckCreated st1) \<Longrightarrow> ID created \<notin> set (ckCreated st1) \<Longrightarrow>
       (\<And>k i. ckMapping st1 k = Some i \<Longrightarrow> i \<notin> ID ` set (beads m0)) \<Longrightarrow> made (planned_bead pl st1 step) created \<Longrightarrow> P created"
  shows "grown m0 (ckCreated st') P (fst s') \<and> created_from pl steps st r st'"
  using assms
proof (induction steps arbitrary: st s)
  case Nil then show ?case by (auto simp: created_from_def)
next
  case (Cons step steps)
  let ?b = "planned_bead pl st step"
  show ?case
  proof (cases "validate_bead step ?b")
    case (Inl e)
    with Cons.prems show ?thesis by (auto simp: Let_def created_from_def)
  next
    case (Inr u)
    obtain q s1 where t: "timed clk (\<lambda>now. Create now ?b) s = (q, s1)" by (meson surj_pair)
    from create_one [OF Cons.prems(2) t] obtain created where c: "q = Inr created" "made ?b created" "ID created \<notin> set (ckCreated st)"
      and g: "P created \<Longrightarrow> grown m0 (ckCreated st @ [ID created]) P (fst s1)" by blast
    have "P created" by (rule Cons.prems(4) [of step st]) (use c Cons.prems(3) grown_fresh [OF Cons.prems(2)] in auto)
    with g have g1: "grown m0 (ckCreated (record_step pl step created st)) P (fst s1)" by simp
    from Cons.prems(1) Inr t c(1) have rec: "create_steps clk pl steps (record_step pl step created st) s1 = (r, st', s')" by simp
    have IH: "grown m0 (ckCreated st') P (fst s') \<and> created_from pl steps (record_step pl step created st) r st'"
      by (rule Cons.IH [OF rec g1], use Cons.prems(3) in \<open>auto split: if_splits\<close>) (rule Cons.prems(4), auto)
    then obtain l where l: "ckCreated st' = ckCreated st @ ID created # l" "r = Inr () \<longrightarrow> length l = length steps" by (auto simp: created_from_def)
    have "ckMapping st k = Some i \<or> i \<in> set (ckCreated st') \<and> i \<notin> set (ckCreated st) \<and> k \<in> rsID ` set (step # steps)"
      if "ckMapping st' k = Some i" for k i
      using IH that c(3) l(1) by (auto simp: created_from_def split: if_splits)
    moreover have "e \<in> set (ckPending st) \<or> (\<exists>st1. \<exists>x \<in> set (step # steps). snd e \<noteq> [] \<and> snd e = Assignee (base_bead pl st1 x))"
      if "e \<in> set (ckPending st')" for e
    proof -
      have "e \<in> set (ckPending (record_step pl step created st)) \<or>
          (\<exists>st1. \<exists>x \<in> set steps. snd e \<noteq> [] \<and> snd e = Assignee (base_bead pl st1 x))"
        using IH that unfolding created_from_def by blast
      then show ?thesis using record_step_pending [of e pl step created st] by (auto simp del: ex_simps)
    qed
    ultimately show ?thesis using IH l unfolding created_from_def by auto
  qed
qed

section \<open>Instantiation\<close>

definition marked_failed :: "Bead \<Rightarrow> bool" where
  "marked_failed b \<longleftrightarrow> mget (Metadata b) MoleculeFailedMetadataKey = ''true'' \<and> mget (Metadata b) InstantiatingMetadataKey = []"

text \<open>The conditions on \<open>P\<close>: for the root, which gets the next id of the store; for the other steps; for the
  passes over the graph; for the failure mark.  The ids recorded for the steps are new: none of them is in
  \<open>old\<close>, ids the store had before.\<close>

locale planned =
  fixes recipe :: Recipe and opts :: Options and root :: RecipeStep and rest :: "RecipeStep list" and i0 :: string
    and P :: "Bead \<Rightarrow> bool" and old :: "string set"
  assumes steps: "rcSteps recipe = root # rest"
    and root: "made (planned_bead (make_plan recipe opts exts) no_cooking root) created \<Longrightarrow> ID created = i0 \<Longrightarrow> P created"
    and rest: "groupExternalDeps (oExternalDeps opts) = Inr exts \<Longrightarrow> step \<in> set rest \<Longrightarrow> ID created \<noteq> i0 \<Longrightarrow>
      (\<And>k i. ckMapping st k = Some i \<Longrightarrow> i \<notin> old) \<Longrightarrow> made (planned_bead (make_plan recipe opts exts) st step) created \<Longrightarrow> P created"
    and pass: "(\<And>k. ckMapping st k = Some i0 \<Longrightarrow> k = rsID root) \<Longrightarrow>
      (\<And>k i. ckMapping st k = Some i \<Longrightarrow> i \<notin> old) \<Longrightarrow>
      (\<And>e. e \<in> set (ckPending st) \<Longrightarrow> \<exists>st1 step. snd e \<noteq> [] \<and> snd e = Assignee (base_bead (make_plan recipe opts exts) st1 step)) \<Longrightarrow>
      pass_ok (make_plan recipe opts exts) st P"
    and mark: "P b \<Longrightarrow> P (b\<lparr>Metadata := mput_all (Metadata b) failed_batch, UpdatedAt := now, Revision := Revision b + 1\<rparr>)"
begin

lemma create_all:
  assumes c: "create_steps clk (make_plan recipe opts exts) (created_steps recipe) no_cooking (m, n) = (r, st, s)"
    and wf: "mem_wf m" and i0: "i0 = bead_ident (seq m + 1)" and old: "old \<subseteq> ID ` set (beads m)"
    and exts: "groupExternalDeps (oExternalDeps opts) = Inr exts"
  shows "grown m (ckCreated st) P (fst s)" and "\<And>k i. ckMapping st k = Some i \<Longrightarrow> i \<in> set (ckCreated st)"
    and "pass_ok (make_plan recipe opts exts) st P"
    and "r = Inr () \<Longrightarrow> length (ckCreated st) = length (created_steps recipe) \<and> ckCreated st \<noteq> [] \<and> hd (ckCreated st) = i0"
proof -
  let ?pl = "make_plan recipe opts exts" and ?b = "planned_bead (make_plan recipe opts exts) no_cooking root"
  obtain tl where tl: "created_steps recipe = root # tl" "set tl \<subseteq> set rest"
    using that [of "[]"] that [of rest] by (cases "rcRootOnly recipe") (simp_all add: created_steps_def steps)
  have start: "grown m (ckCreated no_cooking) P (fst (m, n))" using wf by (simp add: no_cooking_def grown_start)
  have "grown m (ckCreated st) P (fst s) \<and> (\<forall>k i. ckMapping st k = Some i \<longrightarrow> i \<in> set (ckCreated st))
     \<and> (\<forall>k. ckMapping st k = Some i0 \<longrightarrow> k = rsID root)
     \<and> (\<forall>e \<in> set (ckPending st). \<exists>st1 step. snd e \<noteq> [] \<and> snd e = Assignee (base_bead ?pl st1 step))
     \<and> (r = Inr () \<longrightarrow> length (ckCreated st) = length (created_steps recipe) \<and> ckCreated st \<noteq> [] \<and> hd (ckCreated st) = i0)"
  proof (cases "validate_bead root ?b")
    case (Inl e)
    with c tl(1) start show ?thesis by (auto simp: Let_def no_cooking_def)
  next
    case (Inr u)
    obtain q s1 where t: "timed clk (\<lambda>now. Create now ?b) (m, n) = (q, s1)" by (meson surj_pair)
    from create_one [OF start t] obtain created where c1: "q = Inr created" "made ?b created" "ID created = i0"
      and g: "P created \<Longrightarrow> grown m (ckCreated no_cooking @ [ID created]) P (fst s1)" by (auto simp: i0)
    let ?st = "record_step ?pl root created no_cooking"
    have g1: "grown m (ckCreated ?st) P (fst s1)" using g root [OF c1(2,3)] by simp
    have rec: "create_steps clk ?pl tl ?st s1 = (r, st, s)" using c tl(1) Inr t c1(1) by simp
    have r: "grown m (ckCreated st) P (fst s) \<and> created_from ?pl tl ?st r st"
      by (rule create_steps_grown [OF rec g1], use tl(2) c1(3) old exts in \<open>auto simp: no_cooking_def split: if_splits intro!: rest\<close>) blast
    then obtain l where l: "ckCreated st = i0 # l" "r = Inr () \<longrightarrow> length l = length tl"
      using c1(3) by (auto simp: created_from_def no_cooking_def)
    have "i \<in> set (ckCreated st) \<and> (i = i0 \<longrightarrow> k = rsID root)" if "ckMapping st k = Some i" for k i
      using r that c1(3) l(1) by (auto simp: created_from_def no_cooking_def split: if_splits)
    moreover have "\<exists>st1 step. snd e \<noteq> [] \<and> snd e = Assignee (base_bead ?pl st1 step)" if "e \<in> set (ckPending st)" for e
    proof -
      have "e \<in> set (ckPending ?st) \<or> (\<exists>st1. \<exists>step \<in> set tl. snd e \<noteq> [] \<and> snd e = Assignee (base_bead ?pl st1 step))"
        using r that unfolding created_from_def by blast
      then show ?thesis using record_step_pending [of e ?pl root created no_cooking] by (auto simp: no_cooking_def simp del: ex_simps)
    qed
    ultimately show ?thesis using r l tl(1) by auto
  qed
  note all = this
  show "grown m (ckCreated st) P (fst s)" and "\<And>k i. ckMapping st k = Some i \<Longrightarrow> i \<in> set (ckCreated st)" using all by blast+
  show "pass_ok ?pl st P"
    by (rule pass) (use all old in \<open>blast dest: grown_fresh\<close>)+
  show "length (ckCreated st) = length (created_steps recipe) \<and> ckCreated st \<noteq> [] \<and> hd (ckCreated st) = i0" if "r = Inr ()"
    using all that by blast
qed

lemma mark_all:
  assumes "grown m ids P (fst s)"
  shows "grown m ids (\<lambda>b. P b \<and> marked_failed b) (fst (markFailed clk ids s))"
  using markFailed_grown [OF assms subset_refl mark] by (rule grown_weaken) (auto simp: marked_failed_def)

lemma instantiate_grown:
  assumes run: "Instantiate clk recipe opts (m, n) = (r, s')" and wf: "mem_wf m" and i0: "i0 = bead_ident (seq m + 1)"
    and old: "old \<subseteq> ID ` set (beads m)"
  shows "case r of
      Inl e \<Rightarrow> \<exists>ids. grown m ids (\<lambda>b. P b \<and> marked_failed b) (fst s')
    | Inr res \<Rightarrow> \<exists>ids. grown m ids P (fst s') \<and> length ids = length (created_steps recipe) \<and> resCreated res = length ids
        \<and> ids \<noteq> [] \<and> hd ids = i0 \<and> resRootID res = i0 \<and> resGraphWorkflow res = preservesGraphActionTypes recipe
        \<and> (\<forall>k i. resIDMapping res k = Some i \<longrightarrow> i \<in> set ids)"
proof (cases "groupExternalDeps (oExternalDeps opts)")
  case (Inl e)
  with run steps wf show ?thesis by (auto simp: Instantiate_def instantiateSequential_def intro!: exI [of _ "[]"] grown_start)
next
  case (Inr exts)
  let ?pl = "make_plan recipe opts exts"
  obtain q st s1 where c: "create_steps clk ?pl (created_steps recipe) no_cooking (m, n) = (q, st, s1)" by (metis prod_cases3)
  note made = create_all [OF c wf i0 old Inr]
  show ?thesis
  proof (cases q)
    case (Inl e)
    with run steps Inr c mark_all [OF made(1), of clk] show ?thesis
      by (auto simp: Instantiate_def instantiateSequential_def intro!: exI [of _ "ckCreated st"])
  next
    case q: (Inr u)
    obtain q2 s2 where f: "finish_graph clk ?pl st s1 = (q2, s2)" by (meson surj_pair)
    from finish_graph_steady [of st "ckCreated st" ?pl P] made(2,3) have "steady (grown m (ckCreated st) P) (finish_graph clk ?pl st)" by blast
    from steadyD [OF this made(1) f] have g: "grown m (ckCreated st) P (fst s2)" .
    show ?thesis
    proof (cases q2)
      case (Inl e)
      with run steps Inr c q f mark_all [OF g, of clk] show ?thesis
        by (auto simp: Instantiate_def instantiateSequential_def intro!: exI [of _ "ckCreated st"])
    next
      case q2: (Inr u2)
      with run steps Inr c q f have "r = Inr (cooked ?pl st)" "s' = s2" by (simp_all add: Instantiate_def instantiateSequential_def)
      then show ?thesis using g made(2) made(4) q
        by (auto simp: cooked_def make_plan_def split: list.splits intro!: exI [of _ "ckCreated st"])
    qed
  qed
qed

end

section \<open>The conditions for the properties shown\<close>

interpretation frame: planned "recipe\<lparr>rcSteps := root # rest\<rparr>" opts root rest i0 "\<lambda>_. True" "{}"
  for recipe opts root rest i0
  by unfold_locales (simp_all add: pass_ok_def)

text \<open>Speculative beads are not offered to workers.\<close>

definition hidden :: "Bead \<Rightarrow> bool" where
  "hidden b \<longleftrightarrow> IsReadyExcludedBead b \<and> Assignee b = []"

lemma hidden_defer: "hidden (deferBeadRouting b)"
  by (auto simp: hidden_def deferBeadRouting_def Let_def IsReadyExcludedBead_def HasReadyExcludedLabel_def IsReadyExcludedType_def
      readyExcludeTypes_def)

lemma hidden_made:
  assumes "hidden b" and "made b' c" and "Assignee b' = Assignee b" and "Labels b' = Labels b"
    and "Type b' = Type b \<or> IsReadyExcludedType (Type b')"
  shows "hidden c"
  using assms by (auto simp: hidden_def made_def IsReadyExcludedBead_def HasReadyExcludedLabel_def IsReadyExcludedType_def
      readyExcludeTypes_def split: if_splits)

lemma planned_hidden:
  assumes "oDeferAssignees opts" and "made (planned_bead (make_plan recipe opts exts) st step) created"
  shows "hidden created"
proof -
  let ?pl = "make_plan recipe opts exts"
  have pl: "oDeferAssignees (plOpts ?pl)" "\<not> plFence ?pl" using assms(1) by (simp_all add: make_plan_def)
  have b: "hidden (base_bead ?pl st step)" using pl(1) hidden_defer by (simp add: base_bead_def Let_def hidden_def IsReadyExcludedBead_def HasReadyExcludedLabel_def)
  show ?thesis
  proof (rule hidden_made [OF b assms(2)])
    show "Assignee (planned_bead ?pl st step) = Assignee (base_bead ?pl st step)"
      using b pl(2) by (simp add: planned_bead_def Let_def root_bead_def nonroot_bead_def hidden_def)
    show "Labels (planned_bead ?pl st step) = Labels (base_bead ?pl st step)"
      using pl(2) by (simp add: planned_bead_def Let_def root_bead_def nonroot_bead_def)
    show "Type (planned_bead ?pl st step) = Type (base_bead ?pl st step) \<or> IsReadyExcludedType (Type (planned_bead ?pl st step))"
      using pl(2) by (simp add: planned_bead_def Let_def root_bead_def nonroot_bead_def nonRootStepBeadType_def IsReadyExcludedType_def readyExcludeTypes_def)
  qed
qed

lemma base_deferred: "oDeferAssignees opts \<Longrightarrow> Assignee (base_bead (make_plan recipe opts exts) st step) = []"
  using hidden_defer by (simp add: base_bead_def Let_def make_plan_def hidden_def)

lemma hidden_same: "hidden b \<Longrightarrow> Type b' = Type b \<Longrightarrow> Labels b' = Labels b \<Longrightarrow> Assignee b' = Assignee b \<Longrightarrow> hidden b'"
  by (simp add: hidden_def IsReadyExcludedBead_def HasReadyExcludedLabel_def)

interpretation deferred: planned "recipe\<lparr>rcSteps := root # rest\<rparr>" "opts\<lparr>oDeferAssignees := True\<rparr>" root rest i0 hidden "{}"
  for recipe opts root rest i0
proof unfold_locales
  fix st :: cooking and exts
  let ?pl = "make_plan (recipe\<lparr>rcSteps := root # rest\<rparr>) (opts\<lparr>oDeferAssignees := True\<rparr>) exts"
  assume p: "\<And>e. e \<in> set (ckPending st) \<Longrightarrow> \<exists>st1 step. snd e \<noteq> [] \<and> snd e = Assignee (base_bead ?pl st1 step)"
  have "ckPending st = []"
  proof (rule ccontr)
    assume "ckPending st \<noteq> []"
    then obtain e where "e \<in> set (ckPending st)" by (cases "ckPending st") auto
    from p [OF this] show False by (auto simp: base_deferred)
  qed
  then show "pass_ok ?pl st hidden"
    by (auto simp: pass_ok_def make_plan_def apply_update_def zero_UpdateOpts_def set_opt_def update_labels_def elim: hidden_same)
qed (auto elim: planned_hidden [rotated] hidden_same)

text \<open>The root carries the idempotency key and, unless an edge of the recipe says otherwise, the parent.\<close>

definition root_parent :: "Options \<Rightarrow> RecipeStep \<Rightarrow> string" where
  "root_parent opts root = (if mget (rsMetadata root) KindMetadataKey \<noteq> KindWorkflow then oParentID opts else [])"

definition root_claim :: "Recipe \<Rightarrow> Options \<Rightarrow> RecipeStep \<Rightarrow> string \<Rightarrow> Bead \<Rightarrow> bool" where
  "root_claim recipe opts root i0 b \<longleftrightarrow>
     (ID b = i0 \<longrightarrow> mget (Metadata b) idempotency_key = oIdempotencyKey opts \<and> Status b = ''open'' \<and> \<not> Ephemeral b
        \<and> ((\<forall>d \<in> set (rcDeps recipe). depType d = ''parent-child'' \<longrightarrow> depStepID d \<noteq> rsID root) \<longrightarrow> ParentID b = root_parent opts root))"

lemma defer_key [simp]: "mget (Metadata (deferBeadRouting b)) idempotency_key = mget (Metadata b) idempotency_key"
  by (simp add: deferBeadRouting_def Let_def deferBeadMetadataValue_def mget_def molecule_keys)

lemma stamp_key [simp]: "mget (stampFormulaVars vars md) idempotency_key = mget md idempotency_key"
  by (simp add: stampFormulaVars_def mget_def molecule_keys FormulaVarPrefix_def has_prefix_def)

lemma defer_Ephemeral [simp]: "Ephemeral (deferBeadRouting b) = Ephemeral b"
  by (simp add: deferBeadRouting_def Let_def)

lemma bead_Ephemeral: "Ephemeral (fenceGraphWorkflowBead b) = Ephemeral b" "Ephemeral (root_bead pl step b) = Ephemeral b"
  "Ephemeral (nonroot_bead pl st step b) = Ephemeral b" "\<not> Ephemeral (base_bead pl st step)"
  by (simp_all add: fenceGraphWorkflowBead_def root_bead_def nonroot_bead_def base_bead_def stepToBead_def zero_Bead_def Let_def)

lemma root_planned:
  assumes "made (planned_bead (make_plan recipe opts exts) st (root_step f g ro)) created"
  shows "mget (Metadata created) idempotency_key = oIdempotencyKey opts" and "ParentID created = root_parent opts (root_step f g ro)"
    and "Status created = ''open''" and "\<not> Ephemeral created"
proof -
  let ?pl = "make_plan recipe opts exts" and ?r = "root_step f g ro"
  have [simp]: "plOpts ?pl = opts" by (simp add: make_plan_def)
  have "mget (Metadata (stepToBead ?r vars p)) idempotency_key = []" for vars p
    by (auto simp: stepToBead_def root_step_def root_metadata_def Let_def mget_def molecule_keys split: if_splits)
  then have b: "mget (Metadata (base_bead ?pl st ?r)) idempotency_key = []" by (simp add: base_bead_def Let_def)
  have r: "mget (Metadata (root_bead ?pl ?r (base_bead ?pl st ?r))) idempotency_key = oIdempotencyKey opts"
    using b by (simp add: root_bead_def Let_def) (simp add: molecule_keys)
  have f: "mget (Metadata (fenceGraphWorkflowBead c)) idempotency_key = mget (Metadata c) idempotency_key" for c
    by (simp add: fenceGraphWorkflowBead_def) (simp add: molecule_keys)
  show "mget (Metadata created) idempotency_key = oIdempotencyKey opts"
    using assms r f by (simp add: made_def planned_bead_def Let_def root_step_def)
  show "Status created = ''open''" using assms by (simp add: made_def)
  have "Ephemeral (planned_bead ?pl st ?r) = False"
    by (simp add: planned_bead_def Let_def bead_Ephemeral)
  with assms show "\<not> Ephemeral created" by (simp add: made_def)
  have "ParentID (fenceGraphWorkflowBead c) = ParentID c" for c by (simp add: fenceGraphWorkflowBead_def deferBeadRouting_def Let_def)
  moreover have "ParentID (base_bead ?pl st ?r) = []" by (simp add: base_bead_def Let_def stepToBead_def deferBeadRouting_def zero_Bead_def)
  ultimately show "ParentID created = root_parent opts ?r"
    using assms by (auto simp: made_def planned_bead_def Let_def root_bead_def root_parent_def) (simp_all add: root_step_def)
qed

lemma activation_key: "idempotency_key \<notin> fst ` set (uMetadata (deferredRoutingActivationUpdate b))"
  "uParentID (deferredRoutingActivationUpdate b) = None" "uStatus (deferredRoutingActivationUpdate b) = None"
  by (auto simp: deferredRoutingActivationUpdate_def Let_def molecule_keys zero_UpdateOpts_def split: if_splits)

lemma failed_key: "mget (mput_all md failed_batch) idempotency_key = mget md idempotency_key"
  by (simp add: failed_batch_def) (simp add: molecule_keys)

lemma update_key:
  "idempotency_key \<notin> fst ` set (uMetadata u) \<Longrightarrow> mget (Metadata (apply_update now u b)) idempotency_key = mget (Metadata b) idempotency_key"
  by (simp add: apply_update_def mget_def mput_all_other)

interpretation keyed: planned "recipe\<lparr>rcSteps := root_step f g ro # rest\<rparr>" opts "root_step f g ro" rest i0
    "root_claim recipe opts (root_step f g ro) i0" "{}"
  for recipe opts f g ro rest i0
proof unfold_locales
  fix st :: cooking and exts
  let ?pl = "make_plan (recipe\<lparr>rcSteps := root_step f g ro # rest\<rparr>) opts exts"
  assume m: "\<And>k. ckMapping st k = Some i0 \<Longrightarrow> k = rsID (root_step f g ro)"
  have "plRecipe ?pl = recipe\<lparr>rcSteps := root_step f g ro # rest\<rparr>" by (simp add: make_plan_def)
  moreover have "idempotency_key \<notin> fst ` set (uMetadata (zero_UpdateOpts\<lparr>uParentID := p\<rparr>))"
    "idempotency_key \<notin> fst ` set (uMetadata (zero_UpdateOpts\<lparr>uAssignee := p\<rparr>))" for p
    by (simp_all add: zero_UpdateOpts_def)
  moreover have "ParentID (apply_update now (zero_UpdateOpts\<lparr>uAssignee := p\<rparr>) b) = ParentID b" for now p b
    by (simp add: apply_update_def zero_UpdateOpts_def set_opt_def)
  moreover have "Status (apply_update now (zero_UpdateOpts\<lparr>uAssignee := p\<rparr>) b) = Status b"
    "Status (apply_update now (zero_UpdateOpts\<lparr>uParentID := p\<rparr>) b) = Status b"
    "Status (apply_update now (deferredRoutingActivationUpdate c) b) = Status b" for now p b c
    by (simp_all add: apply_update_def zero_UpdateOpts_def set_opt_def activation_key(3))
  moreover have "Ephemeral (apply_update now u b) = Ephemeral b" for now u b by (simp add: apply_update_def)
  moreover have "ParentID (apply_update now (deferredRoutingActivationUpdate b) b) = ParentID b" for now b
    by (simp add: apply_update_def activation_key(2) set_opt_def)
  ultimately show "pass_ok ?pl st (root_claim recipe opts (root_step f g ro) i0)"
    using m by (auto simp: pass_ok_def root_claim_def update_key activation_key)
qed (auto simp: root_claim_def failed_key dest: root_planned)

text \<open>The steps below the root hang under the molecule: without external edges, the parent of a step is a bead of the
  same molecule.\<close>

definition inside :: "string \<Rightarrow> string set \<Rightarrow> Bead \<Rightarrow> bool" where
  "inside i0 old b \<longleftrightarrow> ID b = i0 \<or> ParentID b = [] \<or> ParentID b \<notin> old"

lemma step_parent_inside:
  assumes "\<And>k i. ckMapping st k = Some i \<Longrightarrow> i \<notin> old" and "plExternals pl = []"
  shows "step_parent pl st step = [] \<or> step_parent pl st step \<notin> old"
proof -
  have "mget (ckMapping st) k = [] \<or> mget (ckMapping st) k \<notin> old" for k
    using assms(1) [of k] by (auto simp: mget_def split: option.splits)
  then show ?thesis using assms(2) by (auto simp: step_parent_def Let_def externals_of_def split: option.splits)
qed

interpretation below: planned "recipe\<lparr>rcSteps := root # filter (\<lambda>s. \<not> rsIsRoot s) rest\<rparr>" "opts\<lparr>oExternalDeps := []\<rparr>" root
    "filter (\<lambda>s. \<not> rsIsRoot s) rest" i0 "inside i0 old" old
  for recipe opts root rest i0 old
proof unfold_locales
  fix exts step st created
  let ?pl = "make_plan (recipe\<lparr>rcSteps := root # filter (\<lambda>s. \<not> rsIsRoot s) rest\<rparr>) (opts\<lparr>oExternalDeps := []\<rparr>) exts"
  assume "groupExternalDeps (oExternalDeps (opts\<lparr>oExternalDeps := []\<rparr>)) = Inr exts" and step: "step \<in> set (filter (\<lambda>s. \<not> rsIsRoot s) rest)"
    and m: "\<And>k i. ckMapping st k = Some i \<Longrightarrow> i \<notin> old" and c: "made (planned_bead ?pl st step) created"
  then have "plExternals ?pl = []" by (simp add: make_plan_def groupExternalDeps_def)
  from step_parent_inside [of st old ?pl step, OF m this] c step show "inside i0 old created"
    by (auto simp: inside_def made_def planned_bead_def Let_def nonroot_bead_def fenceGraphWorkflowBead_def deferBeadRouting_def)
next
  fix st :: cooking and exts
  assume m: "\<And>k i. ckMapping st k = Some i \<Longrightarrow> i \<notin> old"
  then show "pass_ok (make_plan (recipe\<lparr>rcSteps := root # filter (\<lambda>s. \<not> rsIsRoot s) rest\<rparr>) (opts\<lparr>oExternalDeps := []\<rparr>) exts) st (inside i0 old)"
    by (auto simp: pass_ok_def inside_def apply_update_def zero_UpdateOpts_def set_opt_def activation_key(2))
qed (auto simp: inside_def)

section \<open>Cook\<close>

lemma cook_cases:
  assumes "Cook fe rx clk name paths opts (m, n) = (r, s')"
  obtains (unchanged) e where "r = Inl e" and "s' = (m, n)"
  | (ran) f g recipe rest where "fe name paths (oVars opts) = Inr (f, g)" and "toRecipeWithGraph f g = Inr recipe" and "rcSteps recipe = root_step f g (root_only f) # rest"
      and "Instantiate clk recipe opts (m, n) = (r, s')"
proof -
  from assms consider (stopped) e where "r = Inl e" "s' = (m, n)"
    | (went) f g recipe where "fe name paths (oVars opts) = Inr (f, g)" "toRecipeWithGraph f g = Inr recipe" "Instantiate clk recipe opts (m, n) = (r, s')"
    by (auto simp: Cook_def CompileWithoutRuntimeVarValidation_def split: sum.splits)
  then show thesis
  proof cases
    case stopped then show ?thesis by (rule unchanged)
  next
    case went
    with recipe_root show ?thesis by (blast intro: ran)
  qed
qed

lemma same_steps: "rcSteps recipe = steps \<Longrightarrow> recipe\<lparr>rcSteps := steps\<rparr> = recipe"
  by (cases recipe) simp

lemma root_kind: "mget (rsMetadata (root_step f g ro)) KindMetadataKey = KindWorkflow \<longleftrightarrow> g"
  by (auto simp: root_step_def root_metadata_def Let_def molecule_keys KindWorkflow_def KindWisp_def)

text \<open>What pouring a wisp relies on: the store only grows, and the root is new and has the idempotency key
  and the parent asked for.\<close>

lemma cook_grows:
  assumes c: "Cook fe rx clk name paths opts (m, n) = (r, s')" and wf: "mem_wf m"
  shows "\<exists>ids. grown m ids (\<lambda>_. True) (fst s')"
  using c
proof (cases rule: cook_cases)
  case unchanged
  then show ?thesis using wf by (auto intro: grown_start)
next
  case (ran f g recipe rest)
  from ran(4) same_steps [OF ran(3)] have "Instantiate clk (recipe\<lparr>rcSteps := root_step f g (root_only f) # rest\<rparr>) opts (m, n) = (r, s')" by simp
  from frame.instantiate_grown [OF this wf refl empty_subsetI] show ?thesis by (cases r) (auto elim!: grown_weaken)
qed

lemma cook_root:
  assumes c: "Cook fe rx clk name paths opts (m, n) = (Inr res, s')" and wf: "mem_wf m"
  shows "\<exists>b. find_bead (resRootID res) (fst s') = Some b \<and> find_bead (resRootID res) m = None \<and> Status b = ''open'' \<and> \<not> Ephemeral b
      \<and> mget (Metadata b) idempotency_key = oIdempotencyKey opts
      \<and> (\<exists>f g. fe name paths (oVars opts) = Inr (f, g) \<and> ParentID b = (if g then [] else oParentID opts))"
  using c
proof (cases rule: cook_cases)
  case unchanged
  then show ?thesis by simp
next
  case (ran f g recipe rest)
  let ?root = "root_step f g (root_only f)" and ?i = "bead_ident (seq m + 1)"
  from ran(4) same_steps [OF ran(3)] have "Instantiate clk (recipe\<lparr>rcSteps := ?root # rest\<rparr>) opts (m, n) = (Inr res, s')" by simp
  from keyed.instantiate_grown [OF this wf refl empty_subsetI] obtain ids where
    g: "grown m ids (root_claim recipe opts ?root ?i) (fst s')" and ids: "?i \<in> set ids" "resRootID res = ?i"
    by (auto simp: same_steps [OF ran(3)]) (metis hd_in_set)+
  from grown_find [OF g ids(1)] obtain b where b: "find_bead ?i (fst s') = Some b" "root_claim recipe opts ?root ?i b" "ID b = ?i" by blast
  have "\<forall>d \<in> set (rcDeps recipe). depType d = ''parent-child'' \<longrightarrow> depStepID d \<noteq> rsID ?root"
    using recipe_parents [OF ran(2)] by (simp add: root_step_def)
  with b(2,3) have "mget (Metadata b) idempotency_key = oIdempotencyKey opts" "Status b = ''open''" "\<not> Ephemeral b" "ParentID b = root_parent opts ?root"
    unfolding root_claim_def by blast+
  moreover have "find_bead ?i m = None"
    using grown_fresh [OF g ids(1)] by (auto simp: find_bead_def find_None_iff)
  ultimately show ?thesis using b(1) ids(2) ran(1) root_kind [of f g "root_only f"] by (auto simp: root_parent_def)
qed

lemma cook_inside:
  assumes c: "Cook fe rx clk name paths opts (m, n) = (Inr res, s')" and wf: "mem_wf m" and ext: "oExternalDeps opts = []"
    and b: "b \<in> set (beads (fst s'))" and old: "p \<in> ID ` set (beads m)" "p \<noteq> []" and parent: "ParentID b = p"
  shows "b \<in> set (beads m) \<or> ID b = resRootID res"
  using c
proof (cases rule: cook_cases)
  case unchanged
  then show ?thesis by simp
next
  case (ran f g recipe rest)
  let ?root = "root_step f g (root_only f)"
  have "filter (\<lambda>s. \<not> rsIsRoot s) rest = rest" using recipe_root [OF ran(2)] ran(3) by (auto simp: filter_id_conv)
  moreover have "opts\<lparr>oExternalDeps := []\<rparr> = opts" using ext by (cases opts) simp
  ultimately
  have "Instantiate clk (recipe\<lparr>rcSteps := ?root # filter (\<lambda>s. \<not> rsIsRoot s) rest\<rparr>) (opts\<lparr>oExternalDeps := []\<rparr>) (m, n) = (Inr res, s')"
    using ran(4) same_steps [OF ran(3)] by simp
  from below.instantiate_grown [OF this wf refl subset_refl] obtain ids where
    "grown m ids (inside (resRootID res) (ID ` set (beads m))) (fst s')" by auto
  with b old parent show ?thesis by (auto simp: grown_def inside_def)
qed

end
