(* ===== verification/Conv_Adapter.thy ===== *)
theory Conv_Adapter
  imports Conv_Entry Molecule_Laws
begin

text \<open>
  The store adapter of the convergence handler (\<^verbatim>\<open>src/cmd/gc/convergence_store.go\<close>) over the in-memory
  bead store and the molecule instantiation.  The clock, the front end of the formula compiler with its
  \<open>graphv2.IsGraphV2Formula\<close>, and the regular-expression library are parameters, collected in the record
  \<open>AdapterEnv\<close>.  The active
  index is a Go map of which only the entries matter; it is the list of its entries.  A nil metadata map
  is the empty one; the adapter tells them apart only in a lookup of the empty key, which no caller makes.
  The recursion of \<open>activateDeferredAssignees\<close> follows the children of a bead, at most \<open>aeDepth\<close> levels deep;
  \<open>activation_returns\<close> (in \<open>Conv_Adapter_Laws\<close>) says how deep is enough.
\<close>

section \<open>State\<close>

record AdapterEnv =
  aeClock :: clock
  aeIsGraphV2 :: "string \<Rightarrow> string list \<Rightarrow> ConvError + bool"
  aeFrontEnd :: frontEnd
  aeRegexp :: regexp
  aeDepth :: nat

record convergenceStoreAdapter =
  aStore :: MemStore
  formulaSearchPaths :: "string list"
  activeIndex :: "kvs option"
  indexReady :: bool
  aReadings :: nat

definition newConvergenceStoreAdapter :: "MemStore \<Rightarrow> string list \<Rightarrow> convergenceStoreAdapter" where
  "newConvergenceStoreAdapter store paths =
     \<lparr>aStore = store, formulaSearchPaths = paths, activeIndex = None, indexReady = False, aReadings = 0\<rparr>"

text \<open>A write of the underlying store at the next clock reading.\<close>

definition store_write ::
  "AdapterEnv \<Rightarrow> (gtime \<Rightarrow> MemStore \<Rightarrow> 'a result \<times> MemStore) \<Rightarrow> convergenceStoreAdapter \<Rightarrow> (ConvError + 'a) \<times> convergenceStoreAdapter" where
  "store_write env f a =
     (case timed (aeClock env) f (aStore a, aReadings a) of (r, m, n) \<Rightarrow> (r, a\<lparr>aStore := m, aReadings := n\<rparr>))"

section \<open>Beads and keys\<close>

definition beadToInfo :: "Bead \<Rightarrow> BeadInfo" where
  "beadToInfo b =
     (let parsed = (case Metadata b ''closed_at'' of
            None \<Rightarrow> zero_time
          | Some ca \<Rightarrow> if ca = [] then zero_time else (case ParseRFC3339 ca of None \<Rightarrow> zero_time | Some t \<Rightarrow> t))
      in \<lparr>biID = ID b, biStatus = Status b, biParentID = ParentID b, biIdempotencyKey = mget (Metadata b) idempotency_key,
          biCreatedAt = CreatedAt b,
          biClosedAt = (if Status b = ''closed'' \<and> IsZero parsed then CreatedAt b else parsed)\<rparr>)"

fun before_first :: "string \<Rightarrow> string \<Rightarrow> string option" where
  "before_first pat [] = (if pat = [] then Some [] else None)"
| "before_first pat (c # s) = (if has_prefix pat (c # s) then Some [] else map_option ((#) c) (before_first pat s))"

definition extractParentIDFromKey :: "string \<Rightarrow> string" where
  "extractParentIDFromKey key =
     (if \<not> has_prefix ''converge:'' key then []
      else case before_first '':iter:'' (drop (length ''converge:'') key) of None \<Rightarrow> [] | Some p \<Rightarrow> p)"

definition loop_running :: "strmap \<Rightarrow> bool" where
  "loop_running meta \<longleftrightarrow> mget meta FieldState \<in> {ConvStateActive, ConvStateWaitingManual, ConvStateWaitingTrigger}"

section \<open>Index\<close>

definition index_put :: "string \<Rightarrow> string \<Rightarrow> kvs \<Rightarrow> kvs" where
  "index_put i t idx = (i, t) # filter (\<lambda>e. fst e \<noteq> i) idx"

definition index_delete :: "string \<Rightarrow> kvs \<Rightarrow> kvs" where
  "index_delete i idx = filter (\<lambda>e. fst e \<noteq> i) idx"

definition convergence_query :: ListQuery where
  "convergence_query = zero_ListQuery\<lparr>qType := ''convergence''\<rparr>"

definition populateIndex :: "convergenceStoreAdapter \<Rightarrow> (ConvError + unit) \<times> convergenceStoreAdapter" where
  "populateIndex a =
     (case List' convergence_query (aStore a) of
        Inl e \<Rightarrow> (Inl (storeError e), a)
      | Inr bs \<Rightarrow>
          (Inr (), a\<lparr>activeIndex := Some (foldl (\<lambda>idx b. if loop_running (Metadata b)
                      then index_put (ID b) (mget (Metadata b) FieldTarget) idx else idx) [] bs),
                     indexReady := True\<rparr>))"

definition activeBeadIDs :: "convergenceStoreAdapter \<Rightarrow> string list" where
  "activeBeadIDs a = (case activeIndex a of None \<Rightarrow> [] | Some idx \<Rightarrow> map fst idx)"

definition drop_index :: "string \<Rightarrow> convergenceStoreAdapter \<Rightarrow> convergenceStoreAdapter" where
  "drop_index i a = a\<lparr>activeIndex := map_option (index_delete i) (activeIndex a)\<rparr>"

section \<open>Operations\<close>

definition adapter_GetBead :: "string \<Rightarrow> convergenceStoreAdapter \<Rightarrow> (ConvError + BeadInfo) \<times> convergenceStoreAdapter" where
  "adapter_GetBead i a = (case Get i (aStore a) of Inl e \<Rightarrow> (Inl (storeError e), a) | Inr b \<Rightarrow> (Inr (beadToInfo b), a))"

definition adapter_GetMetadata :: "string \<Rightarrow> convergenceStoreAdapter \<Rightarrow> (ConvError + strmap) \<times> convergenceStoreAdapter" where
  "adapter_GetMetadata i a = (case Get i (aStore a) of Inl e \<Rightarrow> (Inl (storeError e), a) | Inr b \<Rightarrow> (Inr (Metadata b), a))"

definition index_state :: "string \<Rightarrow> string \<Rightarrow> convergenceStoreAdapter \<Rightarrow> (ConvError + unit) \<times> convergenceStoreAdapter" where
  "index_state i state a =
     (case activeIndex a of
        None \<Rightarrow> (Inr (), a)
      | Some idx \<Rightarrow>
          if state \<in> {ConvStateActive, ConvStateWaitingManual, ConvStateWaitingTrigger}
          then if i \<in> set (map fst idx) then (Inr (), a)
               else (case Get i (aStore a) of
                   Inl e \<Rightarrow> (Inl (ConvWrap ''reading bead for active index'' (storeError e)), a)
                 | Inr b \<Rightarrow> (Inr (), a\<lparr>activeIndex := Some (index_put i (mget (Metadata b) FieldTarget) idx)\<rparr>))
          else if state \<in> {ConvStateTerminated, ConvStateCreating} then (Inr (), drop_index i a)
          else (Inr (), a))"

definition adapter_SetMetadata ::
  "AdapterEnv \<Rightarrow> string \<Rightarrow> string \<Rightarrow> string \<Rightarrow> convergenceStoreAdapter \<Rightarrow> (ConvError + unit) \<times> convergenceStoreAdapter" where
  "adapter_SetMetadata env i key val a =
     (case store_write env (\<lambda>now. SetMetadata now i key val) a of
        (Inl e, a') \<Rightarrow> (Inl e, a')
      | (Inr _, a') \<Rightarrow> if key = FieldState then index_state i val a' else (Inr (), a'))"

definition adapter_CloseBead ::
  "AdapterEnv \<Rightarrow> string \<Rightarrow> string \<Rightarrow> convergenceStoreAdapter \<Rightarrow> (ConvError + unit) \<times> convergenceStoreAdapter" where
  "adapter_CloseBead env i reason a =
     (let a1 = (if reason \<noteq> [] then snd (store_write env (\<lambda>now. SetMetadata now i ''close_reason'' reason) a) else a) in
      case store_write env (\<lambda>now. Close now i) a1 of
        (Inl e, a') \<Rightarrow> (Inl e, a')
      | (Inr _, a') \<Rightarrow> (Inr (), drop_index i a'))"

definition adapter_DeleteBead :: "string \<Rightarrow> convergenceStoreAdapter \<Rightarrow> (ConvError + unit) \<times> convergenceStoreAdapter" where
  "adapter_DeleteBead i a =
     (case Delete i (aStore a) of
        (Inl e, m) \<Rightarrow> (Inl (storeError e), a\<lparr>aStore := m\<rparr>)
      | (Inr _, m) \<Rightarrow> (Inr (), drop_index i (a\<lparr>aStore := m\<rparr>)))"

definition children_query :: "string \<Rightarrow> ListQuery" where
  "children_query parentID = zero_ListQuery\<lparr>qParentID := parentID, qSort := SortCreatedAsc\<rparr>"

definition adapter_Children :: "string \<Rightarrow> convergenceStoreAdapter \<Rightarrow> (ConvError + BeadInfo list) \<times> convergenceStoreAdapter" where
  "adapter_Children parentID a =
     (case List' (children_query parentID) (aStore a) of
        Inl e \<Rightarrow> (Inl (storeError e), a)
      | Inr children \<Rightarrow> (Inr (map beadToInfo children), a))"

fun first_with_key :: "string \<Rightarrow> Bead list \<Rightarrow> string \<times> bool" where
  "first_with_key key [] = ([], False)"
| "first_with_key key (b # bs) = (if mget (Metadata b) idempotency_key = key then (ID b, True) else first_with_key key bs)"

definition findByKeyScan :: "string \<Rightarrow> convergenceStoreAdapter \<Rightarrow> (ConvError + string \<times> bool) \<times> convergenceStoreAdapter" where
  "findByKeyScan key a =
     (case List' (zero_ListQuery\<lparr>qMetadata := [(idempotency_key, key)]\<rparr>) (aStore a) of
        Inl e \<Rightarrow> (Inl (storeError e), a)
      | Inr bs \<Rightarrow> (Inr (first_with_key key bs), a))"

definition adapter_FindByIdempotencyKey ::
  "string \<Rightarrow> convergenceStoreAdapter \<Rightarrow> (ConvError + string \<times> bool) \<times> convergenceStoreAdapter" where
  "adapter_FindByIdempotencyKey key a =
     (let parentID = extractParentIDFromKey key in
      if parentID = [] then findByKeyScan key a
      else case List' (children_query parentID) (aStore a) of
             Inl e \<Rightarrow> (Inl (ConvWrap ''listing children'' (storeError e)), a)
           | Inr children \<Rightarrow> (Inr (first_with_key key children), a))"

definition pourWisp ::
  "AdapterEnv \<Rightarrow> bool \<Rightarrow> string \<Rightarrow> string \<Rightarrow> string \<Rightarrow> strmap \<Rightarrow> string \<Rightarrow> convergenceStoreAdapter
     \<Rightarrow> (ConvError + string) \<times> convergenceStoreAdapter" where
  "pourWisp env deferAssignees parentID formula key vars prompt a =
     (case adapter_FindByIdempotencyKey key a of
        (Inl e, a1) \<Rightarrow> (Inl (ConvWrap ''idempotency check'' e), a1)
      | (Inr (existing, found), a1) \<Rightarrow>
          if found then (Inr existing, a1)
          else let cookVars = (if prompt \<noteq> [] then vars(''evaluate_prompt'' \<mapsto> prompt) else vars) in
            (case aeIsGraphV2 env formula (formulaSearchPaths a1) of
               Inl e \<Rightarrow> (Inl (ConvWrap ''checking formulas v2 contract for convergence wisp'' e), a1)
             | Inr True \<Rightarrow> (Inl (ConvErrorf ''convergence wisps do not support v2 formula'' [formula]), a1)
             | Inr False \<Rightarrow>
                 (case Cook (aeFrontEnd env) (aeRegexp env) (aeClock env) formula (formulaSearchPaths a1)
                    (zero_Options\<lparr>oVars := cookVars, oParentID := parentID, oIdempotencyKey := key, oDeferAssignees := deferAssignees\<rparr>)
                    (aStore a1, aReadings a1) of
                    (r, m, n) \<Rightarrow> (case r of Inl e \<Rightarrow> Inl e | Inr res \<Rightarrow> Inr (resRootID res), a1\<lparr>aStore := m, aReadings := n\<rparr>))))"

text \<open>Activation of a speculative wisp: the deferred assignee, routes and type of every bead of its tree.\<close>

definition activation_update :: "Bead \<Rightarrow> UpdateOpts" where
  "activation_update b =
     (let assignee = mget (Metadata b) DeferredAssigneeMetadataKey; routedTo = mget (Metadata b) DeferredRoutedToMetadataKey;
          executionRoutedTo = mget (Metadata b) DeferredExecutionRoutedToMetadataKey; typ = mget (Metadata b) DeferredTypeMetadataKey
      in zero_UpdateOpts\<lparr>
           uAssignee := (if assignee \<noteq> [] \<and> Assignee b \<noteq> assignee then Some assignee else None),
           uType := (if typ \<noteq> [] \<and> Type b \<noteq> typ then Some typ else None),
           uMetadata := (if routedTo \<noteq> [] \<and> mget (Metadata b) RoutedToMetadataKey \<noteq> routedTo then [(RoutedToMetadataKey, routedTo)] else [])
             @ (if executionRoutedTo \<noteq> [] \<and> mget (Metadata b) ExecutionRoutedToMetadataKey \<noteq> executionRoutedTo
                then [(ExecutionRoutedToMetadataKey, executionRoutedTo)] else [])\<rparr>)"

fun activateDeferredAssignees ::
  "nat \<Rightarrow> AdapterEnv \<Rightarrow> string \<Rightarrow> convergenceStoreAdapter \<Rightarrow> (ConvError + unit) \<times> convergenceStoreAdapter" where
  "activateDeferredAssignees 0 env i a = (Inl (ConvErrorf ''bead tree too deep'' [i]), a)"
| "activateDeferredAssignees (Suc n) env i a =
     (case Get i (aStore a) of
        Inl e \<Rightarrow> (Inl (storeError e), a)
      | Inr b \<Rightarrow>
          let upd = activation_update b in
          (case (if uAssignee upd \<noteq> None \<or> uType upd \<noteq> None \<or> length (uMetadata upd) > 0
                 then store_write env (\<lambda>now. Update now i upd) a else (Inr (), a)) of
             (Inl e, a1) \<Rightarrow> (Inl (ConvWrap ''assigning deferred bead'' e), a1)
           | (Inr _, a1) \<Rightarrow>
               (case Children i [IncludeClosed] (aStore a1) of
                  Inl e \<Rightarrow> (Inl (ConvWrap ''listing children for activation'' (storeError e)), a1)
                | Inr children \<Rightarrow> each_until (\<lambda>c. activateDeferredAssignees n env (ID c)) children a1)))"

definition adapter_CountActive :: "string \<Rightarrow> convergenceStoreAdapter \<Rightarrow> (ConvError + int) \<times> convergenceStoreAdapter" where
  "adapter_CountActive targetAgent a =
     (case activeIndex a of
        Some idx \<Rightarrow> (Inr (int (length (filter (\<lambda>e. snd e = targetAgent) idx))), a)
      | None \<Rightarrow>
          (case List' convergence_query (aStore a) of
             Inl e \<Rightarrow> (Inl (storeError e), a)
           | Inr bs \<Rightarrow>
               (Inr (int (length (filter (\<lambda>b. loop_running (Metadata b) \<and> mget (Metadata b) FieldTarget = targetAgent) bs))), a)))"

definition adapter_CreateConvergenceBead ::
  "AdapterEnv \<Rightarrow> string \<Rightarrow> convergenceStoreAdapter \<Rightarrow> (ConvError + string) \<times> convergenceStoreAdapter" where
  "adapter_CreateConvergenceBead env title a =
     (case store_write env (\<lambda>now. Create now (zero_Bead\<lparr>Title := title, Type := ''convergence'', Status := ''in_progress''\<rparr>)) a of
        (Inl e, a') \<Rightarrow> (Inl e, a')
      | (Inr b, a') \<Rightarrow> (Inr (ID b), a'))"

definition adapter :: "AdapterEnv \<Rightarrow> convergenceStoreAdapter Store" where
  "adapter env =
     \<lparr>sGetBead = adapter_GetBead, sGetMetadata = adapter_GetMetadata, sSetMetadata = adapter_SetMetadata env,
      sCloseBead = adapter_CloseBead env, sDeleteBead = adapter_DeleteBead, sChildren = adapter_Children,
      sPourWisp = pourWisp env False, sPourSpeculativeWisp = pourWisp env True,
      sActivateWisp = activateDeferredAssignees (aeDepth env) env, sFindByIdempotencyKey = adapter_FindByIdempotencyKey,
      sCountActiveConvergenceLoops = adapter_CountActive, sCreateConvergenceBead = adapter_CreateConvergenceBead env\<rparr>"

end
