(* ===== verification/Conv_Adapter_Laws.thy ===== *)
theory Conv_Adapter_Laws
  imports Conv_Adapter
begin

text \<open>
  The adapter satisfies the store contract of the convergence handler whatever its parameters (clock,
  formula compiler, regular expressions) are, so everything proved over \<open>conv_store\<close> holds for it.  Also:
  an activation that follows a bead tree deep enough returns, and what the children the adapter lists
  mean for the iteration count.
\<close>

section \<open>The view of the adapter's store\<close>

definition loop_view :: "Bead \<Rightarrow> LoopBead" where
  "loop_view b = \<lparr>lbStatus = Status b, lbParent = ParentID b, lbKey = mget (Metadata b) idempotency_key,
     lbMeta = (\<lambda>k. if protected k then mget (Metadata b) k else [])\<rparr>"

definition mem_view :: "MemStore \<Rightarrow> loopView" where
  "mem_view m i = map_option loop_view (find_bead i m)"

definition adapter_view :: "convergenceStoreAdapter \<Rightarrow> loopView" where
  "adapter_view a = mem_view (aStore a)"

definition adapter_ok :: "convergenceStoreAdapter \<Rightarrow> bool" where
  "adapter_ok a \<longleftrightarrow> mem_wf (aStore a)"

lemma find_bead_mem: "distinct (map ID (beads m)) \<Longrightarrow> b \<in> set (beads m) \<Longrightarrow> find_bead (ID b) m = Some b"
  unfolding find_bead_def by (simp add: find_key_iff)

lemma key_not_protected [simp]: "\<not> protected idempotency_key" "\<not> protected ''close_reason''"
  "\<not> protected RoutedToMetadataKey" "\<not> protected ExecutionRoutedToMetadataKey" "RoutedToMetadataKey \<noteq> idempotency_key"
  "ExecutionRoutedToMetadataKey \<noteq> idempotency_key" "idempotency_key \<noteq> ''close_reason''" "idempotency_key \<noteq> RoutedToMetadataKey"
  "idempotency_key \<noteq> ExecutionRoutedToMetadataKey"
  by (simp_all add: protected_def has_prefix_def molecule_keys ProtectedPrefix_def)

lemma mem_view_modify:
  assumes "\<And>b. ID (f b) = ID b"
  shows "mem_view (modify_bead i f m) = (mem_view m)(i := map_option (loop_view \<circ> f) (find_bead i m))"
proof
  fix j
  show "mem_view (modify_bead i f m) j = ((mem_view m)(i := map_option (loop_view \<circ> f) (find_bead i m))) j"
  proof (cases "j = i")
    case True
    then show ?thesis using find_update_first_same [of "\<lambda>b. ID b = i" f "beads m"] assms
      by (simp add: mem_view_def modify_bead_def find_bead_def option.map_comp)
  next
    case False
    then show ?thesis using find_update_first_other [of "\<lambda>b. ID b = i" "\<lambda>b. ID b = j" f "beads m"] assms
      by (simp add: mem_view_def modify_bead_def find_bead_def)
  qed
qed

lemma mem_view_same:
  assumes "\<And>b. ID (f b) = ID b" and "\<And>b. find_bead i m = Some b \<Longrightarrow> loop_view (f b) = loop_view b"
  shows "mem_view (modify_bead i f m) = mem_view m"
proof -
  have "map_option (loop_view \<circ> f) (find_bead i m) = mem_view m i"
    using assms(2) by (cases "find_bead i m") (simp_all add: mem_view_def)
  then show ?thesis by (simp add: mem_view_modify [OF assms(1)])
qed

lemma protected_key: "protected k \<Longrightarrow> k \<noteq> idempotency_key"
  by auto

lemma SetMetadata_view:
  assumes "SetMetadata now i k v m = (r, m')"
  shows "map ID (beads m') = map ID (beads m)"
    and "protected k \<Longrightarrow> mem_view m' = put_meta i k v (mem_view m)"
    and "\<not> protected k \<Longrightarrow> k \<noteq> idempotency_key \<Longrightarrow> mem_view m' = mem_view m"
proof -
  let ?f = "\<lambda>b. b\<lparr>Metadata := (Metadata b)(k \<mapsto> v), UpdatedAt := now, Revision := Revision b + 1\<rparr>"
  have m': "m' = (if find_bead i m = None then m else modify_bead i ?f m)"
    using assms by (auto simp: SetMetadata_def split: option.splits)
  show "map ID (beads m') = map ID (beads m)" by (simp add: m' ids_modify)
  show "mem_view m' = put_meta i k v (mem_view m)" if "protected k"
    using protected_key [OF that] that
    by (auto simp: m' mem_view_modify put_meta_def mem_view_def loop_view_def fun_eq_iff split: option.splits)
  show "mem_view m' = mem_view m" if "\<not> protected k" "k \<noteq> idempotency_key"
  proof -
    have "mem_view (modify_bead i ?f m) = mem_view m"
      using that by (intro mem_view_same) (auto simp: loop_view_def)
    then show ?thesis by (simp add: m')
  qed
qed

lemma Close_view:
  assumes "Close now i m = (r, m')"
  shows "map ID (beads m') = map ID (beads m)" and "mem_view m' = put_closed i (mem_view m)"
proof -
  have m': "m' = (case find_bead i m of None \<Rightarrow> m | Some b \<Rightarrow> if Status b = ''closed'' then m else modify_bead i (close_bead now) m)"
    using assms by (auto simp: Close_def split: option.splits if_splits)
  show "map ID (beads m') = map ID (beads m)" by (simp add: m' ids_modify close_bead_def split: option.split)
  show "mem_view m' = put_closed i (mem_view m)"
    by (auto simp: m' mem_view_modify put_closed_def mem_view_def loop_view_def close_bead_def fun_eq_iff split: option.splits)
qed

lemma Delete_view:
  assumes "Delete i m = (r, m')" and "distinct (map ID (beads m))"
  shows "distinct (map ID (beads m'))" and "mem_view m' = (mem_view m)(i := None)"
proof -
  have m': "find_bead i m = None \<and> m' = m \<or> beads m' = remove_first (\<lambda>b. ID b = i) (beads m)"
    using assms(1) by (auto simp: Delete_def split: option.splits)
  with assms(2) show "distinct (map ID (beads m'))" by (auto intro: distinct_map_remove_first)
  show "mem_view m' = (mem_view m)(i := None)"
  proof
    fix j show "mem_view m' j = ((mem_view m)(i := None)) j"
      using m' assms(2) find_remove_first_other [of "\<lambda>b. ID b = i" "\<lambda>b. ID b = j" "beads m"]
      by (auto simp: mem_view_def find_bead_def remove_first_key find_None_iff)
  qed
qed

section \<open>Calls of the underlying store\<close>

lemma store_write_cases:
  assumes "store_write env f a = (r, a')"
  obtains now q where "f now (aStore a) = (q, aStore a')" and "r = storeResult q"
  using assms by (auto simp: store_write_def timed_def split: prod.splits)

lemma children_in:
  assumes "List' (children_query p) m = Inr bs"
  shows "p \<noteq> []" and "b \<in> set bs \<Longrightarrow> b \<in> set (beads m) \<and> ParentID b = p \<and> Status b \<noteq> ''closed''"
proof -
  show "p \<noteq> []" using assms
    by (auto simp: List'_def children_query_def HasFilter_def zero_ListQuery_def IsZero_def split: if_splits)
  then show "b \<in> set bs \<Longrightarrow> b \<in> set (beads m) \<and> ParentID b = p \<and> Status b \<noteq> ''closed''"
    using List'_in [OF assms, of b] by (auto simp: children_query_def Matches_conj zero_ListQuery_def)
qed

lemma first_with_key_in: "first_with_key key bs = (w, True) \<Longrightarrow> \<exists>b \<in> set bs. ID b = w \<and> mget (Metadata b) idempotency_key = key"
  by (induction bs) (auto split: if_splits)

lemma beadToInfo_sels [simp]: "biID (beadToInfo b) = ID b" "biParentID (beadToInfo b) = ParentID b" "biStatus (beadToInfo b) = Status b"
  by (simp_all add: beadToInfo_def Let_def)

lemma view_info:
  assumes "mem_wf m" and "b \<in> set (beads m)"
  shows "info_of (mem_view m) (ID b) (beadToInfo b)"
  using assms find_bead_mem [of m b]
  by (auto simp: mem_wf_def info_of_def mem_view_def beadToInfo_def Let_def loop_view_def)

lemma view_key:
  assumes "mem_wf m" and "b \<in> set (beads m)" and "mget (Metadata b) idempotency_key = key"
  shows "has_key (mem_view m) (ID b) key"
  using assms find_bead_mem [of m b] by (auto simp: mem_wf_def has_key_def mem_view_def loop_view_def)

lemma find_key_law:
  assumes "mem_wf (aStore a)" and "adapter_FindByIdempotencyKey key a = (r, a')"
  shows "a' = a" and "r = Inr (w, True) \<Longrightarrow> has_key (mem_view (aStore a)) w key"
proof -
  show "a' = a" using assms(2)
    by (auto simp: adapter_FindByIdempotencyKey_def findByKeyScan_def Let_def split: if_splits sum.splits)
  assume "r = Inr (w, True)"
  with assms(2) obtain q bs where "List' q (aStore a) = Inr bs" "first_with_key key bs = (w, True)"
    by (auto simp: adapter_FindByIdempotencyKey_def findByKeyScan_def Let_def split: if_splits sum.splits)
  with first_with_key_in [of key bs w] List'_in(1) [of q "aStore a" bs] view_key [OF assms(1)]
  show "has_key (mem_view (aStore a)) w key" by blast
qed

section \<open>Laws\<close>

lemma grown_view: "grown m ids P m' \<Longrightarrow> extends (mem_view m) (mem_view m')"
  unfolding extends_def mem_view_def using grown_old by fastforce

lemma pour_law:
  assumes ok: "mem_wf (aStore a)" and p: "pourWisp env d p f key vars prompt a = (r, a')"
  shows "mem_wf (aStore a')" and "extends (mem_view (aStore a)) (mem_view (aStore a'))"
    and "r = Inr w \<Longrightarrow> has_key (mem_view (aStore a')) w key"
proof -
  obtain q a1 where fk: "adapter_FindByIdempotencyKey key a = (q, a1)" by (meson surj_pair)
  note [simp] = find_key_law(1) [OF ok fk]
  have refl: "extends (mem_view (aStore a)) (mem_view (aStore a))" by (simp add: extends_def)
  let ?opts = "zero_Options\<lparr>oVars := if prompt \<noteq> [] then vars(''evaluate_prompt'' \<mapsto> prompt) else vars, oParentID := p,
     oIdempotencyKey := key, oDeferAssignees := d\<rparr>"
  obtain c m n where c: "Cook (aeFrontEnd env) (aeRegexp env) (aeClock env) f (formulaSearchPaths a) ?opts (aStore a, aReadings a) = (c, m, n)"
    by (metis prod_cases3)
  consider (stop) "a' = a" "\<And>w. r = Inr w \<Longrightarrow> q = Inr (w, True)"
    | (cook) "a' = a\<lparr>aStore := m, aReadings := n\<rparr>" "\<And>w. r = Inr w \<Longrightarrow> \<exists>res. c = Inr res \<and> resRootID res = w"
    using p fk c by (auto simp: pourWisp_def Let_def split: sum.splits if_splits bool.splits)
  then have "mem_wf (aStore a') \<and> extends (mem_view (aStore a)) (mem_view (aStore a')) \<and>
      (\<forall>w. r = Inr w \<longrightarrow> has_key (mem_view (aStore a')) w key)"
  proof cases
    case stop
    then show ?thesis using ok refl find_key_law(2) [OF ok fk] by auto
  next
    case cook
    from cook_grows [OF c ok] obtain ids where g: "grown (aStore a) ids (\<lambda>_. True) m" by auto
    have "has_key (mem_view m) w key" if "r = Inr w" for w
    proof -
      from cook(2) [OF that] obtain res where res: "c = Inr res" "resRootID res = w" by blast
      from cook_root [OF c [unfolded res(1)] ok] res(2) show ?thesis
        by (auto simp: has_key_def mem_view_def loop_view_def)
    qed
    with cook(1) g show ?thesis by (auto intro: grown_wf grown_view)
  qed
  then show "mem_wf (aStore a')" and "extends (mem_view (aStore a)) (mem_view (aStore a'))"
    and "r = Inr w \<Longrightarrow> has_key (mem_view (aStore a')) w key" by blast+
qed

lemma each_until_inv:
  assumes "\<And>x s r s'. x \<in> set xs \<Longrightarrow> R s \<Longrightarrow> f x s = (r, s') \<Longrightarrow> R s'" and "R s" and "each_until f xs s = (r, s')"
  shows "R s'"
  using assms
proof (induction xs arbitrary: s)
  case (Cons x xs)
  obtain q s1 where f: "f x s = (q, s1)" by (meson surj_pair)
  have 1: "R s1" by (rule Cons.prems(1) [OF _ Cons.prems(2) f]) simp
  show ?case
  proof (cases q)
    case (Inl e)
    with 1 Cons.prems(3) f show ?thesis by simp
  next
    case (Inr u)
    with Cons.prems(3) f have e: "each_until f xs s1 = (r, s')" by simp
    show ?thesis by (rule Cons.IH [OF _ 1 e]) (rule Cons.prems(1), auto)
  qed
qed simp

lemma activation_view:
  "Status (apply_update now (activation_update b) b) = Status b" "ParentID (apply_update now (activation_update b) b) = ParentID b"
  "loop_view (apply_update now (activation_update b) b) = loop_view b"
proof -
  let ?u = "activation_update b"
  have u: "uStatus ?u = None" "uParentID ?u = None" "fst ` set (uMetadata ?u) \<subseteq> {RoutedToMetadataKey, ExecutionRoutedToMetadataKey}"
    by (auto simp: activation_update_def Let_def zero_UpdateOpts_def split: if_splits)
  then have k: "mget (mput_all (Metadata b) (uMetadata ?u)) k = mget (Metadata b) k" if "protected k \<or> k = idempotency_key" for k
    using that by (auto simp: mget_def intro!: arg_cong [where f = "case_option [] (\<lambda>v. v)"] mput_all_other)
  show "Status (apply_update now ?u b) = Status b" "ParentID (apply_update now ?u b) = ParentID b"
    using u by (simp_all add: apply_update_def set_opt_def)
  then show "loop_view (apply_update now ?u b) = loop_view b"
    using k by (auto simp: loop_view_def apply_update_def fun_eq_iff)
qed

lemma write_wf:
  assumes "\<And>now. mem_step (aStore a) (snd (f now (aStore a)))" and "mem_wf (aStore a)" and "store_write env f a = (r, a')"
  shows "mem_wf (aStore a')"
  by (rule store_write_cases [OF assms(3)]) (metis assms(1,2) mem_wf_step snd_conv)

lemma activation_step:
  assumes ok: "mem_wf (aStore a)" and b: "find_bead i (aStore a) = Some b"
    and w: "(if c then store_write env (\<lambda>now. Update now i (activation_update b)) a else (Inr (), a)) = (r, a1)"
  shows "r = Inr ()" and "mem_wf (aStore a1)" and "mem_view (aStore a1) = mem_view (aStore a)"
    and "map ID (beads (aStore a1)) = map ID (beads (aStore a))"
proof -
  have "r = Inr () \<and> mem_wf (aStore a1) \<and> mem_view (aStore a1) = mem_view (aStore a) \<and> map ID (beads (aStore a1)) = map ID (beads (aStore a))"
  proof (cases c)
    case True
    with w have sw: "store_write env (\<lambda>now. Update now i (activation_update b)) a = (r, a1)" by simp
    obtain now where "r = Inr ()" and a1: "aStore a1 = modify_bead i (apply_update now (activation_update b)) (aStore a)"
    proof (rule store_write_cases [OF sw])
      fix now q
      assume "Update now i (activation_update b) (aStore a) = (q, aStore a1)" and "r = storeResult q"
      with b show thesis by (intro that [of now]) (auto simp: Update_find storeResult_def)
    qed
    moreover have "mem_wf (aStore a1)" by (rule write_wf [OF _ ok sw]) (rule st_Update)
    moreover have "mem_view (aStore a1) = mem_view (aStore a)"
      unfolding a1 using b by (intro mem_view_same) (auto simp: activation_view(3))
    ultimately show ?thesis by simp
  next
    case False
    with w ok show ?thesis by auto
  qed
  then show "r = Inr ()" and "mem_wf (aStore a1)" and "mem_view (aStore a1) = mem_view (aStore a)"
    and "map ID (beads (aStore a1)) = map ID (beads (aStore a))" by blast+
qed

lemma activate_law:
  "mem_wf (aStore a) \<Longrightarrow> activateDeferredAssignees n env i a = (r, a') \<Longrightarrow>
     mem_wf (aStore a') \<and> mem_view (aStore a') = mem_view (aStore a)"
proof (induction n arbitrary: i a r a')
  case 0 then show ?case by auto
next
  case (Suc n)
  show ?case
  proof (cases "find_bead i (aStore a)")
    case None
    with Suc.prems show ?thesis by (auto simp: Get_def)
  next
    case (Some b)
    let ?u = "activation_update b"
    obtain q a1 where w: "(if uAssignee ?u \<noteq> None \<or> uType ?u \<noteq> None \<or> length (uMetadata ?u) > 0
        then store_write env (\<lambda>now. Update now i ?u) a else (Inr (), a)) = (q, a1)" by (meson surj_pair)
    note st = activation_step [OF Suc.prems(1) Some w]
    from Suc.prems(2) Some w st(1)
    have "a' = a1 \<or> (\<exists>cs :: Bead list. each_until (\<lambda>c. activateDeferredAssignees n env (ID c)) cs a1 = (r, a'))"
      by (auto simp: Get_def Let_def split: sum.splits)
    then show ?thesis
    proof (elim disjE exE)
      assume "a' = a1" with st show ?thesis by simp
    next
      fix cs :: "Bead list" assume 2: "each_until (\<lambda>c. activateDeferredAssignees n env (ID c)) cs a1 = (r, a')"
      have "mem_wf (aStore a') \<and> mem_view (aStore a') = mem_view (aStore a)"
        by (rule each_until_inv [OF _ _ 2]) (use Suc.IH st in auto)
      then show ?thesis .
    qed
  qed
qed

interpretation conv_adapter: conv_store "adapter env" adapter_view adapter_ok for env
proof unfold_locales
  fix a :: convergenceStoreAdapter and i r a'
  assume "adapter_ok a" "sGetBead (adapter env) i a = (r, a')"
  then show "adapter_ok a' \<and> adapter_view a' = adapter_view a \<and> (\<forall>info. r = Inr info \<longrightarrow> info_of (adapter_view a) i info)"
    using view_info [of "aStore a"] find_bead_in [of i "aStore a"] find_bead_ID [of i "aStore a"]
    by (auto simp: adapter_def adapter_ok_def adapter_view_def adapter_GetBead_def Get_def split: option.splits)
next
  fix a :: convergenceStoreAdapter and i r a'
  assume "adapter_ok a" "sGetMetadata (adapter env) i a = (r, a')"
  then show "adapter_ok a' \<and> adapter_view a' = adapter_view a \<and> (\<forall>meta. r = Inr meta \<longrightarrow> meta_of (adapter_view a) i meta)"
    by (auto simp: adapter_def adapter_view_def adapter_GetMetadata_def Get_def meta_of_def mem_view_def loop_view_def split: option.splits)
next
  fix a :: convergenceStoreAdapter and i k v r a'
  assume ok: "adapter_ok a" and s: "sSetMetadata (adapter env) i k v a = (r, a')" and k: "protected k"
  obtain q a1 where w: "store_write env (\<lambda>now. SetMetadata now i k v) a = (q, a1)" by (meson surj_pair)
  have "mem_wf (aStore a1)" using ok by (intro write_wf [OF _ _ w]) (auto simp: adapter_ok_def intro: st_SetMetadata)
  moreover have "mem_view (aStore a1) = put_meta i k v (mem_view (aStore a))"
    by (rule store_write_cases [OF w]) (rule SetMetadata_view(2) [OF _ k])
  moreover have "aStore a' = aStore a1" using s w
    by (auto simp: adapter_def adapter_SetMetadata_def index_state_def drop_index_def split: sum.splits if_splits option.splits)
  ultimately show "adapter_ok a' \<and> wrote (adapter_view a) (put_meta i k v (adapter_view a)) r (adapter_view a')"
    by (simp add: adapter_ok_def adapter_view_def wrote_def)
next
  fix a :: convergenceStoreAdapter and i reason r a'
  assume ok: "adapter_ok a" and s: "sCloseBead (adapter env) i reason a = (r, a')"
  obtain a1 where a1: "a1 = (if reason \<noteq> [] then snd (store_write env (\<lambda>now. SetMetadata now i ''close_reason'' reason) a) else a)" by simp
  obtain q0 a0 where w0: "store_write env (\<lambda>now. SetMetadata now i ''close_reason'' reason) a = (q0, a0)" by (meson surj_pair)
  have wf0: "mem_wf (aStore a0)" using ok by (intro write_wf [OF _ _ w0]) (auto simp: adapter_ok_def intro: st_SetMetadata)
  have v0: "mem_view (aStore a0) = mem_view (aStore a)"
    by (rule store_write_cases [OF w0]) (rule SetMetadata_view(3), auto simp: idempotency_key_def)
  have 1: "mem_wf (aStore a1)" "mem_view (aStore a1) = mem_view (aStore a)" using ok wf0 v0 w0 by (auto simp: a1 adapter_ok_def)
  obtain q2 a2 where w2: "store_write env (\<lambda>now. Close now i) a1 = (q2, a2)" by (meson surj_pair)
  have "mem_wf (aStore a2)" by (rule write_wf [OF _ 1(1) w2]) (rule st_Close)
  moreover have "mem_view (aStore a2) = put_closed i (mem_view (aStore a1))"
    by (rule store_write_cases [OF w2]) (rule Close_view(2))
  moreover have "aStore a' = aStore a2" using s w2 a1
    by (auto simp: adapter_def adapter_CloseBead_def Let_def drop_index_def split: sum.splits)
  ultimately show "adapter_ok a' \<and> wrote (adapter_view a) (put_closed i (adapter_view a)) r (adapter_view a')"
    using 1 by (simp add: adapter_ok_def adapter_view_def wrote_def)
next
  fix a :: convergenceStoreAdapter and i r a'
  assume ok: "adapter_ok a" and s: "sDeleteBead (adapter env) i a = (r, a')"
  obtain q m where d: "Delete i (aStore a) = (q, m)" by (meson surj_pair)
  have "mem_wf m" using mem_wf_step [OF st_Delete, of "aStore a" i] ok d by (simp add: adapter_ok_def)
  moreover have "mem_view m = (mem_view (aStore a))(i := None)" using Delete_view(2) [OF d] ok by (simp add: adapter_ok_def mem_wf_def)
  moreover have "aStore a' = m" using s d by (auto simp: adapter_def adapter_DeleteBead_def drop_index_def split: sum.splits)
  ultimately show "adapter_ok a' \<and> wrote (adapter_view a) ((adapter_view a)(i := None)) r (adapter_view a')"
    by (simp add: adapter_ok_def adapter_view_def wrote_def)
next
  fix a :: convergenceStoreAdapter and i r a'
  assume ok: "adapter_ok a" and s: "sChildren (adapter env) i a = (r, a')"
  then have "a' = a" by (auto simp: adapter_def adapter_Children_def split: sum.splits)
  moreover have "i \<noteq> [] \<and> (\<forall>c \<in> set cs. info_of (adapter_view a) (biID c) c \<and> biParentID c = i)" if "r = Inr cs" for cs
  proof -
    from s that obtain bs where bs: "List' (children_query i) (aStore a) = Inr bs" "cs = map beadToInfo bs"
      by (auto simp: adapter_def adapter_Children_def split: sum.splits)
    show ?thesis using children_in [OF bs(1)] view_info [of "aStore a"] ok
      by (auto simp: bs(2) adapter_ok_def adapter_view_def)
  qed
  ultimately show "adapter_ok a' \<and> adapter_view a' = adapter_view a \<and>
      (\<forall>cs. r = Inr cs \<longrightarrow> i \<noteq> [] \<and> (\<forall>c \<in> set cs. info_of (adapter_view a) (biID c) c \<and> biParentID c = i))" using ok by blast
qed (auto simp: adapter_def adapter_ok_def adapter_view_def dest: pour_law find_key_law activate_law)

section \<open>Activation returns\<close>

text \<open>The beads of the tree are numbered so that a child has a smaller number than its parent; \<open>aeDepth\<close> above the
  number of the bead is deep enough.\<close>

definition ranked :: "(string \<Rightarrow> nat) \<Rightarrow> loopView \<Rightarrow> bool" where
  "ranked rank L \<longleftrightarrow> (\<forall>i b. L i = Some b \<longrightarrow> lbParent b \<noteq> [] \<longrightarrow> rank i < rank (lbParent b))"

lemma all_children_in:
  assumes "Children i [IncludeClosed] m = Inr cs" and "i \<noteq> []" and "c \<in> set cs"
  shows "c \<in> set (beads m)" and "ParentID c = i"
  using List'_in [OF assms(1) [unfolded Children_def] assms(3)] assms(2) by (auto simp: Matches_conj)

lemma Children_ok: "i \<noteq> [] \<Longrightarrow> \<exists>cs. Children i opts m = Inr cs"
  by (simp add: Children_def List'_def HasFilter_def)

lemma each_until_ok:
  assumes "\<And>x s. x \<in> set xs \<Longrightarrow> R s \<Longrightarrow> \<exists>s'. f x s = (Inr (), s') \<and> R s'" and "R s"
  shows "fst (each_until f xs s) = Inr ()"
  using assms
proof (induction xs arbitrary: s)
  case (Cons x xs)
  from Cons.prems(1) [OF _ Cons.prems(2), of x] obtain s' where s': "f x s = (Inr (), s')" "R s'" by auto
  have "fst (each_until f xs s') = Inr ()" by (rule Cons.IH [OF _ s'(2)]) (rule Cons.prems(1), auto)
  with s'(1) show ?case by simp
qed simp

lemma activation_returns:
  assumes "mem_wf (aStore a)" and "ranked rank (mem_view (aStore a))" and "find_bead i (aStore a) \<noteq> None" and "rank i < n"
  shows "fst (activateDeferredAssignees n env i a) = Inr ()"
  using assms
proof (induction n arbitrary: i a)
  case (Suc n)
  from Suc.prems(3) obtain b where b: "find_bead i (aStore a) = Some b" by blast
  have i: "i \<noteq> []" using Suc.prems(1) find_bead_in [OF b] find_bead_ID [OF b] by (auto simp: mem_wf_def bead_ident_def)
  let ?u = "activation_update b"
  obtain q a1 where w: "(if uAssignee ?u \<noteq> None \<or> uType ?u \<noteq> None \<or> length (uMetadata ?u) > 0
      then store_write env (\<lambda>now. Update now i ?u) a else (Inr (), a)) = (q, a1)" by (meson surj_pair)
  note st = activation_step [OF Suc.prems(1) b w]
  obtain cs where cs: "Children i [IncludeClosed] (aStore a1) = Inr cs" using Children_ok [OF i] by blast
  let ?R = "\<lambda>a' :: convergenceStoreAdapter. mem_wf (aStore a') \<and> mem_view (aStore a') = mem_view (aStore a)"
  have "fst (each_until (\<lambda>c. activateDeferredAssignees n env (ID c)) cs a1) = Inr ()"
  proof (rule each_until_ok [where R = ?R])
    show "?R a1" using st by simp
    fix c and a' :: convergenceStoreAdapter assume c: "c \<in> set cs" and R: "?R a'"
    from all_children_in [OF cs i c] have "find_bead (ID c) (aStore a1) = Some c" "ParentID c = i"
      using st(2) by (auto simp: find_bead_iff mem_wf_def)
    then have "mem_view (aStore a1) (ID c) = Some (loop_view c)" by (simp add: mem_view_def)
    then have v: "mem_view (aStore a') (ID c) = Some (loop_view c)" using R st(3) by metis
    then have f: "find_bead (ID c) (aStore a') \<noteq> None" by (auto simp: mem_view_def)
    have "lbParent (loop_view c) = i" using \<open>ParentID c = i\<close> by (simp add: loop_view_def)
    then have "rank (ID c) < rank i" using Suc.prems(2) v R i unfolding ranked_def by metis
    then have r: "rank (ID c) < n" using Suc.prems(4) by simp
    obtain x a2 where act: "activateDeferredAssignees n env (ID c) a' = (x, a2)" by (meson surj_pair)
    have "x = Inr ()" using Suc.IH [of a' "ID c"] R Suc.prems(2) f r act by simp
    with activate_law [OF _ act] R act show "\<exists>a2. activateDeferredAssignees n env (ID c) a' = (Inr (), a2) \<and> ?R a2" by auto
  qed
  then show ?case using b w cs st(1) by (simp add: Get_def Let_def split: if_splits)
qed simp

end
