(* ===== verification/Molecule_Properties.thy ===== *)
theory Molecule_Properties
  imports Molecule_Laws Mem_Ready
begin

text \<open>
  The properties of molecule instantiation: it only adds beads, a failed one leaves every bead it created
  marked, a speculative one offers nothing to workers, and the fence of a graph workflow is undone exactly
  by its activation.
\<close>

lemma instantiate_steps:
  assumes "Instantiate clk recipe opts (m, n) = (r, s')"
  obtains (none) e where "rcSteps recipe = []" and "r = Inl e" and "s' = (m, n)"
  | (some) root rest where "recipe = recipe\<lparr>rcSteps := root # rest\<rparr>"
proof (cases "rcSteps recipe")
  case Nil
  with assms show ?thesis by (auto simp: Instantiate_def intro: none)
next
  case (Cons root rest)
  then show ?thesis using same_steps [OF Cons] by (intro some [of root rest]) simp
qed

text \<open>C11: instantiation is additive and marks its failures.  Instantiating a recipe in a reachable store keeps
  every bead that was there, unchanged and in place.  When it fails, every bead it created is marked
  \<open>molecule_failed\<close> and is no longer marked as being instantiated; when it succeeds, it created exactly one bead
  for every step of the recipe (only the root for a root-only one), the first of them is the root it reports,
  and every id it reports is one of them.\<close>

theorem instantiate_adds_or_marks:
  assumes "mem_reachable m" and "Instantiate clk recipe opts (m, n) = (r, m', n')"
  shows "\<exists>new. beads m' = beads m @ new \<and> (case r of
      Inl e \<Rightarrow> \<forall>b \<in> set new. mget (Metadata b) MoleculeFailedMetadataKey = ''true'' \<and> mget (Metadata b) InstantiatingMetadataKey = []
    | Inr res \<Rightarrow> length new = resCreated res \<and> resCreated res = length (created_steps recipe) \<and> new \<noteq> []
        \<and> resRootID res = ID (hd new) \<and> (\<forall>k i. resIDMapping res k = Some i \<longrightarrow> i \<in> ID ` set new))"
  using assms(2)
proof (cases rule: instantiate_steps)
  case none
  then show ?thesis by simp
next
  case (some root rest)
  have wf: "mem_wf m" using assms(1) by (rule mem_reachable_wf)
  from assms(2) have "Instantiate clk (recipe\<lparr>rcSteps := root # rest\<rparr>) opts (m, n) = (r, m', n')" using some by simp
  note g = frame.instantiate_grown [OF this wf refl empty_subsetI, folded some]
  show ?thesis
  proof (cases r)
    case (Inl e)
    with g show ?thesis by (auto simp: grown_def marked_failed_def)
  next
    case (Inr res)
    with g obtain ids where ids: "grown m ids (\<lambda>_. True) m'" "length ids = length (created_steps recipe)" "resCreated res = length ids"
      "ids \<noteq> []" "hd ids = resRootID res" "\<forall>k i. resIDMapping res k = Some i \<longrightarrow> i \<in> set ids" by auto
    then obtain new where "beads m' = beads m @ new" "map ID new = ids" by (auto simp: grown_def)
    with ids Inr show ?thesis by (intro exI [of _ new]) (auto simp: hd_map)
  qed
qed

text \<open>C12: speculative molecules are invisible to workers.  When assignees are deferred, no bead the
  instantiation creates, whether it succeeds or fails, is assigned to anybody or is a candidate for the ready
  queue in any tier at any time, so the ready queue of the resulting store offers only beads that were there before.\<close>

theorem deferred_never_ready:
  assumes "mem_reachable m" and "oDeferAssignees opts" and "Instantiate clk recipe opts (m, n) = (r, m', n')"
  shows "\<exists>new. beads m' = beads m @ new
    \<and> (\<forall>b \<in> set new. Assignee b = [] \<and> (\<forall>now tier. \<not> IsReadyCandidateForTier b now tier))
    \<and> (\<forall>now q bs. Ready now q m' = Inr bs \<longrightarrow> set bs \<subseteq> set (beads m))"
proof -
  have wf: "mem_wf m" using assms(1) by (rule mem_reachable_wf)
  have opts: "opts\<lparr>oDeferAssignees := True\<rparr> = opts" using assms(2) by (cases opts) simp
  obtain ids where g: "grown m ids hidden m'"
    using assms(3)
  proof (cases rule: instantiate_steps)
    case none
    then show ?thesis using wf by (intro that [of "[]"]) (simp add: grown_start)
  next
    case (some root rest)
    from assms(3) have "Instantiate clk (recipe\<lparr>rcSteps := root # rest\<rparr>) (opts\<lparr>oDeferAssignees := True\<rparr>) (m, n) = (r, m', n')"
      using some opts by simp
    from deferred.instantiate_grown [OF this wf refl empty_subsetI] show ?thesis
      by (cases r) (auto intro: that elim!: grown_weaken)
  qed
  then obtain new where new: "beads m' = beads m @ new" "\<forall>b \<in> set new. hidden b" and wf': "mem_wf m'"
    by (auto simp: grown_def)
  have cand: "\<not> IsReadyCandidateForTier b now tier" if "b \<in> set new" for b now tier
    using new(2) that by (auto simp: hidden_def IsReadyCandidateForTier_def Let_def split: TierMode.split)
  have "set bs \<subseteq> set (beads m)" if "Ready now q m' = Inr bs" for now q bs
  proof -
    have "bs = ready_spec now (readyQueryFromArgs q) m'" using that Ready_spec [OF wf'] by simp
    then have "\<forall>b \<in> set bs. b \<in> set (beads m') \<and> IsReadyCandidateForTier b now (rTierMode (readyQueryFromArgs q))"
      using limit_slice_set by (fastforce simp: ready_spec_def ready_pred_def)
    with new(1) cand show ?thesis by auto
  qed
  with new cand show ?thesis by (auto simp: hidden_def)
qed

text \<open>The routing a bead must not carry by itself when it is fenced: the keys of the fence.\<close>

definition fence_keys :: "string set" where
  "fence_keys = {DeferredTypeMetadataKey, DeferredAssigneeMetadataKey, DeferredRoutedToMetadataKey, DeferredExecutionRoutedToMetadataKey,
     InstantiatingMetadataKey}"

lemma fence_keys_distinct:
  "distinct [DeferredTypeMetadataKey, DeferredAssigneeMetadataKey, DeferredRoutedToMetadataKey, DeferredExecutionRoutedToMetadataKey,
     InstantiatingMetadataKey, RoutedToMetadataKey, ExecutionRoutedToMetadataKey]"
  "distinct [ExecutionRoutedToMetadataKey, RoutedToMetadataKey, InstantiatingMetadataKey, DeferredExecutionRoutedToMetadataKey,
     DeferredRoutedToMetadataKey, DeferredAssigneeMetadataKey, DeferredTypeMetadataKey]"
  by (simp_all add: molecule_keys)

lemmas fence_keys_neq = fence_keys_distinct [simplified distinct.simps list.set insert_iff empty_iff de_Morgan_disj simp_thms]

lemma mget_del [simp]: "mget (m(k := None)) k' = (if k' = k then [] else mget m k')"
  by (simp add: mget_def)

text \<open>The metadata of a fenced bead, key by key.\<close>

lemma fence_metadata:
  assumes "\<forall>k \<in> fence_keys. mget (Metadata b) k = []"
  shows "mget (Metadata (fenceGraphWorkflowBead b)) k =
    (if k = InstantiatingMetadataKey then ''true''
     else if k = DeferredTypeMetadataKey then (if IsReadyExcludedBead b then [] else if Type b = [] then ''task'' else Type b)
     else if k = DeferredAssigneeMetadataKey then Assignee b
     else if k = DeferredRoutedToMetadataKey then mget (Metadata b) RoutedToMetadataKey
     else if k = DeferredExecutionRoutedToMetadataKey then mget (Metadata b) ExecutionRoutedToMetadataKey
     else if k = RoutedToMetadataKey \<or> k = ExecutionRoutedToMetadataKey then []
     else mget (Metadata b) k)"
proof -
  have none: "mget (Metadata b) k = []" if "k \<in> fence_keys" for k using assms that by blast
  let ?b = "b\<lparr>Metadata := (Metadata b)(InstantiatingMetadataKey \<mapsto> ''true'')\<rparr>"
  have ex: "IsReadyExcludedBead ?b = IsReadyExcludedBead b" by (simp add: IsReadyExcludedBead_def HasReadyExcludedLabel_def)
  have none1: "mget (Metadata b) DeferredTypeMetadataKey = []" "mget (Metadata b) DeferredAssigneeMetadataKey = []"
    "mget (Metadata b) DeferredRoutedToMetadataKey = []" "mget (Metadata b) DeferredExecutionRoutedToMetadataKey = []"
    by (simp_all add: none fence_keys_def)
  show ?thesis
    unfolding fenceGraphWorkflowBead_def deferBeadRouting_def ex Let_def deferBeadMetadataValue_def
    by (cases "IsReadyExcludedBead b"; cases "Assignee b = []"; cases "mget (Metadata b) RoutedToMetadataKey = []";
        cases "mget (Metadata b) ExecutionRoutedToMetadataKey = []") (simp_all add: fence_keys_neq none1)
qed


text \<open>C23: fencing a graph workflow is undone by activating it.  A bead of a graph workflow that carries none of
  the keys of the fence is, once fenced, excluded from the ready queue and unassigned.  Activating the fenced bead
  gives it back its type, assignee, status and labels and every metadata value, with the keys of the fence empty
  again; activating it a second time would change nothing.\<close>

theorem fence_roundtrip:
  assumes "Type b \<noteq> []" and "\<forall>k \<in> fence_keys. mget (Metadata b) k = []"
    and "f = fenceGraphWorkflowBead b" and "g = apply_update now (deferredRoutingActivationUpdate f) f"
  shows "IsReadyExcludedBead f \<and> Assignee f = []
    \<and> Type g = Type b \<and> Assignee g = Assignee b \<and> Status g = Status b \<and> Labels g = Labels b
    \<and> (\<forall>k. mget (Metadata g) k = mget (Metadata b) k)
    \<and> deferredRoutingActivationUpdate g = zero_UpdateOpts"
proof -
  have f: "Type f = (if IsReadyExcludedBead b then Type b else ''gate'')" "Assignee f = []" "Status f = Status b" "Labels f = Labels b"
    using assms(3) by (simp_all add: fenceGraphWorkflowBead_def deferBeadRouting_def Let_def IsReadyExcludedBead_def HasReadyExcludedLabel_def)
  have md: "mget (Metadata f) k =
    (if k = InstantiatingMetadataKey then ''true''
     else if k = DeferredTypeMetadataKey then (if IsReadyExcludedBead b then [] else Type b)
     else if k = DeferredAssigneeMetadataKey then Assignee b
     else if k = DeferredRoutedToMetadataKey then mget (Metadata b) RoutedToMetadataKey
     else if k = DeferredExecutionRoutedToMetadataKey then mget (Metadata b) ExecutionRoutedToMetadataKey
     else if k = RoutedToMetadataKey \<or> k = ExecutionRoutedToMetadataKey then []
     else mget (Metadata b) k)" for k
    using fence_metadata [OF assms(2), of k] assms(1,3) by simp
  have ex: "IsReadyExcludedBead f"
    using f by (auto simp: IsReadyExcludedBead_def HasReadyExcludedLabel_def IsReadyExcludedType_def readyExcludeTypes_def)
  have "\<not> IsReadyExcludedBead b \<Longrightarrow> Type b \<noteq> ''gate''" by (auto simp: IsReadyExcludedBead_def IsReadyExcludedType_def readyExcludeTypes_def)
  note vals = f md this assms(1)
  have none: "mget (Metadata b) DeferredTypeMetadataKey = []" "mget (Metadata b) DeferredAssigneeMetadataKey = []"
    "mget (Metadata b) DeferredRoutedToMetadataKey = []" "mget (Metadata b) DeferredExecutionRoutedToMetadataKey = []"
    "mget (Metadata b) InstantiatingMetadataKey = []"
    using assms(2) by (simp_all add: fence_keys_def)
  have g: "Type g = Type b" "Assignee g = Assignee b" "Status g = Status b" "Labels g = Labels b"
    unfolding assms(4) apply_update_def deferredRoutingActivationUpdate_def Let_def
    by (simp_all add: vals zero_UpdateOpts_def set_opt_def update_labels_def fence_keys_neq)
  have gmd: "mget (Metadata g) k = mget (Metadata b) k" for k
    unfolding assms(4) apply_update_def deferredRoutingActivationUpdate_def Let_def
    by (cases "IsReadyExcludedBead b"; cases "Assignee b = []"; cases "mget (Metadata b) RoutedToMetadataKey = []";
        cases "mget (Metadata b) ExecutionRoutedToMetadataKey = []") (simp_all add: fence_keys_neq vals none)
  moreover have "deferredRoutingActivationUpdate g = zero_UpdateOpts"
    by (simp add: deferredRoutingActivationUpdate_def Let_def gmd none zero_UpdateOpts_def)
  ultimately show ?thesis using ex f(2) g by blast
qed

section \<open>Witnesses\<close>

text \<open>A formula of two steps, the second of which waits for the first and has a variable in its title.\<close>

definition sample_formula :: Formula where
  "sample_formula = \<lparr>fmFormula = ''f'', fmDescription = [], fmVars = [],
     fmSteps = [Step ''a'' ''A'' [] [] ''task'' None [] Map.empty [] [] [] [] None None [],
                Step ''b'' ''B {{who}}'' [] [] ''task'' None [] Map.empty [] [''a''] [] ''dev'' None None []],
     fmPhase = [], fmPour = False, fmContentHash = [], fmSource = []\<rparr>"

definition sample_recipe :: Recipe where
  "sample_recipe = projr (toRecipeWithGraph sample_formula False)"

definition ticks :: "nat \<Rightarrow> gtime" where
  "ticks n = int n"

lemma sample_failing:
  "case Instantiate ticks sample_recipe zero_Options (NewMemStore, 0) of
      (Inl e, m, n) \<Rightarrow> e = ConvErrorf ''bead title contains unresolved variable(s)'' [''f.b'', ''who''] \<and> length (beads m) = 2
    | _ \<Rightarrow> False"
  by code_simp

lemma sample_deferred:
  "case Instantiate ticks sample_recipe (zero_Options\<lparr>oVars := [''who'' \<mapsto> ''x''], oDeferAssignees := True\<rparr>) (NewMemStore, 0) of
      (Inr res, m, n) \<Rightarrow> resCreated res = 3 \<and> map Type (beads m) = [''molecule'', ''gate'', ''gate'']
    | _ \<Rightarrow> False"
  by code_simp

lemma empty_reachable: "mem_reachable NewMemStore" "beads NewMemStore = []"
  using mem_reachable.start [of False] by (simp_all add: NewMemStore_def)

theorem instantiate_adds_or_marks_witness:
  "mem_reachable NewMemStore \<and> (case Instantiate ticks sample_recipe zero_Options (NewMemStore, 0) of
      (Inl e, m, n) \<Rightarrow> length (beads m) = 2 \<and> (\<forall>b \<in> set (beads m). mget (Metadata b) MoleculeFailedMetadataKey = ''true'')
    | _ \<Rightarrow> False)"
proof -
  obtain r m n where run: "Instantiate ticks sample_recipe zero_Options (NewMemStore, 0) = (r, m, n)" by (metis prod_cases3)
  from sample_failing run obtain e where r: "r = Inl e" "length (beads m) = 2" by (auto split: sum.splits)
  from instantiate_adds_or_marks [OF empty_reachable(1) run] r show ?thesis
    by (auto simp: run empty_reachable)
qed

theorem deferred_never_ready_witness:
  "mem_reachable NewMemStore \<and> (case Instantiate ticks sample_recipe (zero_Options\<lparr>oVars := [''who'' \<mapsto> ''x''], oDeferAssignees := True\<rparr>) (NewMemStore, 0) of
      (Inr res, m, n) \<Rightarrow> resCreated res = 3 \<and> Ready 5 [] m = Inr []
    | _ \<Rightarrow> False)"
proof -
  let ?opts = "zero_Options\<lparr>oVars := [''who'' \<mapsto> ''x''], oDeferAssignees := True\<rparr>"
  obtain r m n where run: "Instantiate ticks sample_recipe ?opts (NewMemStore, 0) = (r, m, n)" by (metis prod_cases3)
  from sample_deferred run obtain res where r: "r = Inr res" "resCreated res = 3" by (auto split: sum.splits)
  have d: "oDeferAssignees ?opts" by simp
  from readyLocked_completes [of Background 5 "readyQueryFromArgs []" 0 m] obtain bs where bs: "Ready 5 [] m = Inr bs"
    by (auto simp: Ready_def never_cancelled_def)
  from deferred_never_ready [OF empty_reachable(1) d run] have "set bs \<subseteq> set (beads NewMemStore)" using bs by blast
  then show ?thesis using bs r run by (simp add: empty_reachable)
qed

theorem fence_roundtrip_witness:
  "let b = zero_Bead\<lparr>Type := ''task'', Assignee := ''dev'', Metadata := [''gc.routed_to'' \<mapsto> ''rig'']\<rparr>;
       f = fenceGraphWorkflowBead b;
       g = apply_update 7 (deferredRoutingActivationUpdate f) f
   in IsReadyExcludedBead f \<and> Type g = ''task'' \<and> Assignee g = ''dev'' \<and> mget (Metadata g) ''gc.routed_to'' = ''rig''"
proof -
  let ?b = "zero_Bead\<lparr>Type := ''task'', Assignee := ''dev'', Metadata := [''gc.routed_to'' \<mapsto> ''rig'']\<rparr>"
  have "Type ?b \<noteq> []" "\<forall>k \<in> fence_keys. mget (Metadata ?b) k = []" by (auto simp: fence_keys_def molecule_keys)
  from fence_roundtrip [OF this refl refl, of 7] show ?thesis by (simp add: Let_def)
qed

end
