(* ===== verification/Conv_Properties.thy ===== *)
theory Conv_Properties
  imports Conv_Adapter_Laws Molecule_Properties
begin

text \<open>
  The properties of convergence loops.  The first three hold over any store that satisfies the contract
  \<open>conv_store\<close>, in which every write may fail; the others are about the store adapter, which satisfies it.
\<close>

section \<open>The loop over any store\<close>

text \<open>C1: a convergence loop is live or properly ended, always.  Over any store that keeps the contract, whatever
  operations run on the root, in whatever order, with whatever gate results, and whichever of them fail, the root
  bead stays a parentless loop root.  It is either live (open, not terminated) or ended (terminated with a reason and an
  actor), and its active wisp is never the root itself.  In particular a root is closed only after its end was recorded.\<close>

theorem conv_root_invariant:
  assumes "conv_store st look ok" and "hStore h = st" and "ok s" and "loop_inv root (look s)"
  shows "loop_inv root (look (fst (conv_run h root ops (s, ev))))"
  using conv_store.run_loop_inv [OF assms(1,2), of "(s, ev)" root ops] assms(3,4) by simp

text \<open>C9: termination is final.  Once a loop is terminated, no sequence of handler, operator, trigger and
  reconciliation steps brings it back or changes the recorded reason and actor.\<close>

theorem conv_terminated_final:
  assumes "conv_store st look ok" and "hStore h = st" and "ok s" and "sealed root reason actor (look s)"
  shows "sealed root reason actor (look (fst (conv_run h root ops (s, ev))))"
  using conv_store.run_sealed [OF assms(1,2), of "(s, ev)" root reason actor ops] assms(3,4) by simp

text \<open>C5: the commit marker comes last.  When the wisp-closed handler, however it ends, leaves the wisp marked as
  processed, the transition the marker stands for is complete: the root is terminated and closed, or waits for an
  operator with a reason and no active wisp, or waits for its trigger with no active wisp, or has the wisp of the next iteration
  as its active one.  So an interrupted transition is never taken for a finished one.\<close>

theorem conv_commit_marker_last:
  assumes "conv_store st look ok" and "hStore h = st" and "ok s" and "live root (look s)"
    and "\<And>k. has_key (look s) w k \<Longrightarrow> k = wkey" and "ParseIterationFromKey wkey = (n, True)"
    and "rmeta root FieldLastProcessedWisp (look s) \<noteq> w"
    and "HandleWispClosed h rn root w (s, ev) = (r, s', ev')" and "rmeta root FieldLastProcessedWisp (look s') = w"
  shows "committed root (IdempotencyKey root (n + 1)) (look s')"
proof -
  have "pre_commit True root w (look s) \<and> (\<forall>k. has_key (look s) w k \<longrightarrow> k = wkey)"
    using assms(4,5,7) by (simp add: pre_commit_def uncommitted_def)
  from tripleD [OF conv_store.handle_wisp_marker [OF assms(1,2,6), of True root w rn] assms(3) this assms(8)]
  show ?thesis using assms(9) by (simp add: post_commit_def uncommitted_def)
qed

section \<open>Results of actions\<close>

definition gives :: "('a \<Rightarrow> bool) \<Rightarrow> ('s, 'a) act \<Rightarrow> bool" where
  "gives A m \<longleftrightarrow> (\<forall>w x w'. m w = (Inr x, w') \<longrightarrow> A x)"

lemma givesD: "gives A m \<Longrightarrow> m w = (Inr x, w') \<Longrightarrow> A x"
  unfolding gives_def by blast

lemma gives_any: "gives (\<lambda>x. True) m"
  by (simp add: gives_def)

lemma gives_ret: "A x \<Longrightarrow> gives A (ret x)"
  by (simp add: gives_def ret_def)

lemma gives_fail: "gives A (fail e)"
  by (simp add: gives_def fail_def)

lemma gives_attempt: "(\<And>r. gives A (k r)) \<Longrightarrow> gives A (attempt m k)"
  by (auto simp: gives_def attempt_def split: prod.splits)

lemma gives_ignore: "gives A k \<Longrightarrow> gives A (ignore m k)"
  unfolding ignore_def by (rule gives_attempt)

lemma gives_bindE:
  assumes "gives B m" and "\<And>x. B x \<Longrightarrow> gives A (k x)"
  shows "gives A (bindE m k)"
  unfolding gives_def
proof (intro allI impI)
  fix w x w' assume r: "bindE m k w = (Inr x, w')"
  then obtain y w1 where "m w = (Inr y, w1)" "k y w1 = (Inr x, w')"
    by (auto simp: bindE_def attempt_def fail_def split: prod.splits sum.splits)
  with assms show "A x" by (blast dest: givesD)
qed

lemma gives_wrap: "gives A m \<Longrightarrow> gives A (wrap msg m)"
  unfolding wrap_def gives_def attempt_def fail_def ret_def by (auto split: prod.splits sum.splits)

lemma gives_if: "(c \<Longrightarrow> gives A m) \<Longrightarrow> (\<not> c \<Longrightarrow> gives A n) \<Longrightarrow> gives A (if c then m else n)"
  by simp

lemma gives_pair: "(\<And>x y. gives A (k x y)) \<Longrightarrow> gives A (case p of (x, y) \<Rightarrow> k x y)"
  by (simp split: prod.split)

lemma gives_option: "gives A m \<Longrightarrow> (\<And>x. gives A (k x)) \<Longrightarrow> gives A (case x of None \<Rightarrow> m | Some y \<Rightarrow> k y)"
  by (simp split: option.split)

lemmas gives_intros = gives_ret gives_fail gives_ignore gives_wrap gives_if gives_pair gives_option gives_bindE [OF gives_any]

section \<open>Iterations through the adapter\<close>

lemma stats_open: "biStatus c \<noteq> ''closed'' \<Longrightarrow> csClosedCount (stats_child p c s) = csClosedCount s"
  by (simp add: stats_child_def split: prod.split)

lemma childStats_open:
  assumes "\<forall>c \<in> set cs. biStatus c \<noteq> ''closed''"
  shows "csClosedCount (childStats cs root) = 0"
proof -
  have "csClosedCount (foldl (\<lambda>st c. stats_child p c st) s cs) = csClosedCount s" if "\<forall>c \<in> set cs. biStatus c \<noteq> ''closed''" for s p cs
    using that by (induction cs arbitrary: s) (simp_all add: stats_open)
  with assms show ?thesis by (simp add: childStats_def)
qed

lemma adapter_count:
  assumes "hStore h = adapter env"
  shows "gives (\<lambda>n. n = 0) (deriveIterationCount h root)"
proof -
  have "gives (\<lambda>cs. \<forall>c \<in> set cs. biStatus c \<noteq> ''closed'') (ChildrenOf h root)"
    using children_in(2) by (fastforce simp: gives_def store_calls call_def assms adapter_def adapter_Children_def split: sum.splits prod.splits)
  then show ?thesis unfolding deriveIterationCount_def
    by (rule gives_bindE) (simp add: childStats_open gives_ret)
qed

text \<open>Through the store adapter no iteration is ever counted.  The adapter lists the children of a root without
  the closed ones, so the number of closed iterations the handlers derive is 0 whatever has run, and an operator's
  iterate or a trigger that advances the loop always announces iteration 1 again.  The limit \<open>max_iterations\<close>,
  which they compare with this number, is never reached.\<close>

lemma adapter_iteration_restarts:
  assumes "hStore h = adapter env"
  shows "(deriveIterationCount h root w = (Inr n, w1) \<longrightarrow> n = 0)
    \<and> (IterateHandler h root u w = (Inr res, w2) \<longrightarrow> hrIteration res = 1)
    \<and> (HandleTrigger h rn root w = (Inr res', w3) \<longrightarrow> hrAction res' = ActionIterate \<longrightarrow> hrIteration res' = 1)"
proof -
  note count = gives_bindE [OF gives_wrap [OF adapter_count [OF assms]]]
  have "gives (\<lambda>res. hrIteration res = 1) (IterateHandler h root u)"
    unfolding IterateHandler_def Let_def
    by (rule gives_intros, rule gives_intros, rule gives_intros, rule count) (intro gives_intros, simp)
  moreover have "gives (\<lambda>res. hrAction res = ActionIterate \<longrightarrow> hrIteration res = 1) (HandleTrigger h rn root)"
    unfolding HandleTrigger_def Let_def advanceFromTrigger_def
    by (rule gives_intros, rule gives_intros, rule gives_intros, simp add: zero_HandlerResult_def conv_defs,
        rule gives_intros, rule gives_intros, rule gives_intros, rule gives_intros, rule count)
      (intro gives_intros, simp_all add: zero_HandlerResult_def conv_defs)
  ultimately show ?thesis using adapter_count [OF assms, of root] unfolding gives_def by blast
qed

section \<open>Decisions of the wisp-closed handler\<close>

text \<open>What the result of the handler says for the iteration \<open>n\<close> of a loop of at most \<open>maxIter\<close> iterations.\<close>

definition decided :: "int \<Rightarrow> int \<Rightarrow> HandlerResult \<Rightarrow> bool" where
  "decided n maxIter res \<longleftrightarrow>
     (hrAction res = ActionIterate \<longrightarrow> hrIteration res = n \<and> n < maxIter \<and> hrGateOutcome res \<noteq> GatePass)
     \<and> (hrAction res = ActionApproved \<longrightarrow> hrGateOutcome res = GatePass)
     \<and> (hrAction res = ActionNoConvergence \<longrightarrow> hrGateOutcome res \<noteq> GatePass \<and> (hrGateOutcome res = GateTimeout \<or> maxIter \<le> n))"

lemma manual_decided: "gives (decided n x) (transitionToWaitingManual h r w i gc gr reason go meta)"
  unfolding transitionToWaitingManual_def Let_def by (intro gives_intros) (simp add: decided_def zero_HandlerResult_def conv_defs)

lemma trigger_decided: "gives (decided n x) (transitionToWaitingTrigger h r w i gc gr meta)"
  unfolding transitionToWaitingTrigger_def Let_def by (intro gives_intros) (simp add: decided_def zero_HandlerResult_def conv_defs)

lemma terminate_decided:
  assumes "terminal_reason gc gr n x = Some reason"
  shows "gives (decided n x) (terminate h r w n gc gr reason actor gi meta)"
  unfolding terminate_def Let_def
  using assms by (intro gives_intros) (auto simp: decided_def zero_HandlerResult_def terminal_reason_def conv_defs split: if_splits)

lemma iterate_decided:
  assumes "terminal_reason gc gr n x = None"
  shows "gives (decided n x) (iterate h r w n gc gr meta spec)"
  unfolding iterate_def iterate_adopt_def handleSlingFailure_def Let_def
  using assms by (intro gives_intros manual_decided) (auto simp: decided_def zero_HandlerResult_def terminal_reason_def conv_defs split: if_splits)

lemma conclude_decided: "gives (decided n x) (conclude h r w n x gi gc tc gr meta spec pe)"
proof (cases "terminal_reason gc gr n x")
  case None
  then show ?thesis unfolding conclude_def burn_then_def handleSlingFailure_def
    by (simp only: option.case) (intro gives_intros manual_decided trigger_decided iterate_decided)
next
  case (Some reason)
  then show ?thesis unfolding conclude_def burn_then_def
    by (simp only: option.case) (intro gives_intros manual_decided terminate_decided)
qed

lemma process_decided: "gives (decided n (fst (DecodeInt (mget meta FieldMaxIterations)))) (process_wisp h rn r w meta n gi gc tc)"
  unfolding process_wisp_def Let_def persist_or_burn_def burn_then_def
  by (intro gives_intros conclude_decided manual_decided gives_attempt) (auto split: sum.split intro!: gives_intros conclude_decided gives_attempt)

lemma adapter_GetMetadata_val:
  assumes "hStore h = adapter env" and "find_bead i (aStore a) = Some b"
  shows "GetMetadata h i (a, ev) = (Inr (Metadata b), a, ev)"
  using assms by (simp add: store_calls call_def adapter_def adapter_GetMetadata_def Get_def)

lemma adapter_GetBead_val:
  assumes "hStore h = adapter env" and "find_bead i (aStore a) = Some b"
  shows "GetBead h i (a, ev) = (Inr (beadToInfo b), a, ev)"
  using assms by (simp add: store_calls call_def adapter_def adapter_GetBead_def Get_def)

lemma bindE_val: "m w = (Inr x, w') \<Longrightarrow> bindE m k w = k x w'"
  by (simp add: bindE_def attempt_def)

lemma wrap_val: "m w = (Inr x, w') \<Longrightarrow> wrap msg m w = (Inr x, w')"
  by (simp add: wrap_def attempt_def ret_def)

lemma HandleWispClosed_val:
  assumes "hStore h = adapter env" and "find_bead root (aStore a) = Some b" and "find_bead w (aStore a) = Some c"
    and "mget (Metadata b) FieldState \<noteq> ConvStateTerminated"
  shows "HandleWispClosed h rn root w (a, ev) = dedup_and_process h rn root w (Metadata b) (mget (Metadata c) idempotency_key) (a, ev)"
proof -
  have key: "biIdempotencyKey (beadToInfo c) = mget (Metadata c) idempotency_key" by (simp add: beadToInfo_def Let_def)
  have "wrap msg (GetMetadata h root) (a, ev) = (Inr (Metadata b), a, ev)" for msg
    by (rule wrap_val) (rule adapter_GetMetadata_val [OF assms(1,2)])
  moreover have "wrap msg (GetBead h w) (a, ev) = (Inr (beadToInfo c), a, ev)" for msg
    by (rule wrap_val) (rule adapter_GetBead_val [OF assms(1,3)])
  ultimately show ?thesis unfolding HandleWispClosed_def using assms(4) key by (simp add: bindE_val)
qed

text \<open>C16: what the wisp-closed handler decides.  For a closed wisp of a loop that is not terminated, whatever the
  gate scripts answer: the handler iterates only when the gate did not pass and the iteration of the wisp is below
  the stored \<open>max_iterations\<close>; it approves only when the gate passed; it gives up only when the gate did
  not pass and the limit is reached or the gate timed out.\<close>

theorem conv_decision_sound:
  assumes "hStore h = adapter env" and "find_bead root (aStore a) = Some b" and "find_bead w (aStore a) = Some c"
    and "mget (Metadata b) FieldState \<noteq> ConvStateTerminated"
    and "HandleWispClosed h rn root w (a, ev) = (Inr res, w')"
  shows "decided (fst (ParseIterationFromKey (mget (Metadata c) idempotency_key))) (fst (DecodeInt (mget (Metadata b) FieldMaxIterations))) res"
proof -
  have "gives (decided (fst (ParseIterationFromKey key)) (fst (DecodeInt (mget meta FieldMaxIterations)))) (dedup_and_process h rn root w meta key)"
    for key meta
    unfolding dedup_and_process_def
    by (cases "ParseIterationFromKey key")
      (simp only: prod.case fst_conv, intro gives_intros process_decided, simp add: decided_def zero_HandlerResult_def conv_defs)
  from givesD [OF this assms(5) [unfolded HandleWispClosed_val [OF assms(1-4)]]] show ?thesis .
qed

text \<open>A recorded gate outcome is replayed, not evaluated again.  When the root already carries the outcome of the
  gate for this wisp, the handler does the same thing whatever the gate scripts would answer now.\<close>

theorem conv_replay_ignores_gate:
  assumes "hStore h = adapter env" and "find_bead root (aStore a) = Some b" and "find_bead w (aStore a) = Some c"
    and "mget (Metadata b) FieldState \<noteq> ConvStateTerminated" and "mget (Metadata b) FieldGateOutcomeWisp = w"
  shows "HandleWispClosed h rn root w (a, ev) = HandleWispClosed h rn' root w (a, ev)"
proof -
  have same: "process_wisp h rn root w (Metadata b) = process_wisp h rn' root w (Metadata b)"
    unfolding process_wisp_def [abs_def] Let_def using assms(5) by (intro ext) simp
  show ?thesis unfolding HandleWispClosed_val [OF assms(1-4)] dedup_and_process_def same ..
qed

section \<open>The recorded gate outcome\<close>

lemma adapter_put:
  assumes "hStore h = adapter env" and "find_bead i (aStore a) = Some b" and "PutMetadata h i k v (a, ev) = (r, a', ev')"
  shows "\<exists>b'. find_bead i (aStore a') = Some b' \<and> Metadata b' = (Metadata b)(k \<mapsto> v)"
proof -
  obtain q a1 where w: "store_write env (\<lambda>now. SetMetadata now i k v) a = (q, a1)" by (meson surj_pair)
  obtain now p where s: "SetMetadata now i k v (aStore a) = (p, aStore a1)" by (rule store_write_cases [OF w])
  have "\<exists>b'. find_bead i (aStore a1) = Some b' \<and> Metadata b' = (Metadata b)(k \<mapsto> v)"
  proof -
    have "aStore a1 = modify_bead i (\<lambda>b. b\<lparr>Metadata := (Metadata b)(k \<mapsto> v), UpdatedAt := now, Revision := Revision b + 1\<rparr>) (aStore a)"
      using s assms(2) by (simp add: SetMetadata_def)
    then show ?thesis using assms(2) by simp
  qed
  moreover have "aStore a' = aStore a1"
    using assms(1,3) w by (auto simp: store_calls call_def adapter_def adapter_SetMetadata_def index_state_def drop_index_def
        split: prod.splits sum.splits if_splits option.splits)
  ultimately show ?thesis by simp
qed

lemma bindE_Inr:
  assumes "bindE m k w = (Inr x, w')"
  obtains y w1 where "m w = (Inr y, w1)" and "k y w1 = (Inr x, w')"
  using assms by (auto simp: bindE_def attempt_def fail_def split: prod.splits sum.splits)

lemma wrap_Inr: "wrap msg m w = (Inr x, w') \<Longrightarrow> m w = (Inr x, w')"
  by (auto simp: wrap_def attempt_def fail_def ret_def split: prod.splits sum.splits)

lemma adapter_writes:
  assumes "hStore h = adapter env"
  shows "find_bead i (aStore a) = Some b \<Longrightarrow> commit_writes h i ws (a, ev) = (Inr u, a', ev') \<Longrightarrow>
    \<exists>b'. find_bead i (aStore a') = Some b' \<and> Metadata b' = mput_all (Metadata b) (map (\<lambda>w. (mwKey w, mwValue w)) ws)"
proof (induction ws arbitrary: a b ev)
  case Nil
  then show ?case by (simp add: ret_def)
next
  case (Cons w ws)
  from Cons.prems(2) obtain y a1 ev1 where p: "PutMetadata h i (mwKey w) (mwValue w) (a, ev) = (Inr y, a1, ev1)"
    and rest: "commit_writes h i ws (a1, ev1) = (Inr u, a', ev')"
    unfolding commit_writes.simps by (elim bindE_Inr) (metis prod.collapse wrap_Inr)
  from adapter_put [OF assms Cons.prems(1) p] obtain b1 where
    b1: "find_bead i (aStore a1) = Some b1" "Metadata b1 = (Metadata b)(mwKey w \<mapsto> mwValue w)" by blast
  show ?case using Cons.IH [OF b1(1) rest] unfolding b1(2) by (simp only: list.map mput_all.simps)
qed

lemma Milliseconds_int64: "in_int64 d \<Longrightarrow> in_int64 (Milliseconds d) \<and> in_int64 (Milliseconds d * 1000000)"
  by (auto simp: in_int64_def Milliseconds_def)

lemma itoa_not_Nil: "in_int64 n \<Longrightarrow> itoa n \<noteq> []"
  using atoi_itoa [of n] by (auto simp: atoi_def atoi_abs_def)

lemma DecodeInt_EncodeInt: "in_int64 n \<Longrightarrow> DecodeInt (itoa n) = (n, True)"
  by (simp add: DecodeInt_def atoi_itoa itoa_not_Nil)

lemma bindE_ret_unit: "bindE m ret = m"
  by (rule ext) (auto simp: bindE_def attempt_def ret_def fail_def split: prod.split sum.split)

lemma commit_as_writes:
  "v \<noteq> [] \<Longrightarrow> commit h root ws None (mw k v d) = commit_writes h root (ws @ [mw k v d])"
  by (simp add: commit_None commit_writes_append bindE_ret_unit)

text \<open>C24: the gate outcome survives a crash.  When the handler has recorded the result of a gate on the root, what a
  later run reads back from the root is the same result, with the duration rounded to milliseconds,
  and it is recorded for this wisp.\<close>

theorem gate_outcome_roundtrip:
  assumes "hStore h = adapter env" and "find_bead root (aStore a) = Some b" and "w \<noteq> []"
    and "persistGateOutcome h root w result (a, ev) = (Inr u, a', ev')"
    and "in_int64 (grDuration result)" and "in_int64 (grRetryCount result)" and "\<forall>c. grExitCode result = Some c \<longrightarrow> in_int64 c"
  shows "\<exists>b'. find_bead root (aStore a') = Some b' \<and> mget (Metadata b') FieldGateOutcomeWisp = w
    \<and> replay_result (Metadata b') = result\<lparr>grDuration := Milliseconds (grDuration result) * 1000000\<rparr>"
proof -
  let ?code = "case grExitCode result of None \<Rightarrow> [] | Some c \<Rightarrow> EncodeInt c"
  let ?ws = "[mw FieldGateOutcome (grOutcome result) ''setting gate outcome'', mw FieldGateExitCode ?code ''setting gate exit code'',
    mw FieldGateRetryCount (EncodeInt (grRetryCount result)) ''setting gate retry count'', mw FieldGateStdout (grStdout result) ''setting gate stdout'',
    mw FieldGateStderr (grStderr result) ''setting gate stderr'',
    mw FieldGateDurationMs (itoa (Milliseconds (grDuration result))) ''setting gate duration'',
    mw FieldGateTruncated (if grTruncated result then ''true'' else []) ''setting gate truncated'']"
  have "commit_writes h root (?ws @ [mw FieldGateOutcomeWisp w ''setting gate outcome wisp'']) (a, ev) = (Inr u, a', ev')"
    using assms(4) unfolding persistGateOutcome_def Let_def commit_as_writes [OF assms(3)] .
  from adapter_writes [OF assms(1,2) this] obtain b' where b': "find_bead root (aStore a') = Some b'"
    and md: "Metadata b' = mput_all (Metadata b) (map (\<lambda>w. (mwKey w, mwValue w)) (?ws @ [mw FieldGateOutcomeWisp w ''setting gate outcome wisp'']))"
    by blast
  have m: "mget (Metadata b') FieldGateOutcome = grOutcome result" "mget (Metadata b') FieldGateExitCode = ?code"
    "mget (Metadata b') FieldGateRetryCount = itoa (grRetryCount result)" "mget (Metadata b') FieldGateStdout = grStdout result"
    "mget (Metadata b') FieldGateStderr = grStderr result" "mget (Metadata b') FieldGateDurationMs = itoa (Milliseconds (grDuration result))"
    "mget (Metadata b') FieldGateTruncated = (if grTruncated result then ''true'' else [])" "mget (Metadata b') FieldGateOutcomeWisp = w"
    by (simp_all add: md EncodeInt_def conv_defs)
  have code: "(case DecodeInt ?code of (c, ok) \<Rightarrow> if ?code \<noteq> [] \<and> ok then Some c else None) = grExitCode result"
  proof (cases "grExitCode result")
    case (Some c)
    with assms(7) show ?thesis by (simp add: EncodeInt_def DecodeInt_EncodeInt itoa_not_Nil)
  qed simp
  have "replay_result (Metadata b') = result\<lparr>grDuration := Milliseconds (grDuration result) * 1000000\<rparr>"
    unfolding replay_result_def m code
    using Milliseconds_int64 [OF assms(5)] by (simp add: zero_GateResult_def wrap64_id DecodeInt_EncodeInt assms(6) itoa_not_Nil)
  with b' m show ?thesis by blast
qed

section \<open>Running a gate\<close>

text \<open>C37: gate retries are bounded.  \<open>RunCondition\<close> runs the condition at most \<open>retryBudget + 1\<close> times: it returns the
  first run that did not time out, with its number as the retry count, every earlier run timed out, and it reports a timeout
  only after the whole budget was used.\<close>

theorem gate_retry_bound:
  "\<exists>n \<le> budget. RunCondition exec ctxDone budget = (runOnce (exec n) (ctxDone n))\<lparr>grRetryCount := int n\<rparr>
     \<and> (\<forall>k < n. grOutcome (runOnce (exec k) (ctxDone k)) = GateTimeout)
     \<and> (grOutcome (RunCondition exec ctxDone budget) = GateTimeout \<longrightarrow> n = budget)"
proof -
  have loop: "\<exists>n. RunCondition_loop run a left = (run n)\<lparr>grRetryCount := int n\<rparr> \<and> a \<le> n \<and> n \<le> a + left
      \<and> (\<forall>k. a \<le> k \<longrightarrow> k < n \<longrightarrow> grOutcome (run k) = GateTimeout) \<and> (grOutcome (run n) = GateTimeout \<longrightarrow> n = a + left)" for run a left
  proof (induction left arbitrary: a)
    case 0
    show ?case by (intro exI [of _ a]) simp
  next
    case (Suc left)
    show ?case
    proof (cases "grOutcome (run a) = GateTimeout")
      case True
      from Suc.IH [of "Suc a"] obtain n where n: "RunCondition_loop run (Suc a) left = (run n)\<lparr>grRetryCount := int n\<rparr>" "Suc a \<le> n"
        "n \<le> Suc a + left" "\<forall>k. Suc a \<le> k \<longrightarrow> k < n \<longrightarrow> grOutcome (run k) = GateTimeout" "grOutcome (run n) = GateTimeout \<longrightarrow> n = Suc a + left" by blast
      have "grOutcome (run k) = GateTimeout" if "a \<le> k" "k < n" for k using True n(4) that by (cases "k = a") auto
      with True n show ?thesis by (intro exI [of _ n]) auto
    next
      case False
      then show ?thesis by (intro exI [of _ a]) simp
    qed
  qed
  from loop [of "\<lambda>a. runOnce (exec a) (ctxDone a)" 0 budget] show ?thesis by (auto simp: RunCondition_def)
qed

section \<open>Idempotent pours\<close>

lemma after_last_plain: "m \<noteq> [] \<Longrightarrow> hd m \<notin> set s \<Longrightarrow> after_last m s = None"
  by (induction s) (auto simp: has_prefix_def split: option.split, metis list.sel(1) take_Cons' length_0_conv)

lemma itoa_colon: "CHR '':'' \<notin> set (itoa n)"
proof -
  have "CHR '':'' \<notin> set (show_nat k)" for k using show_nat_all_digits [of k] by (auto simp: list_all_iff is_digit_def)
  then show ?thesis by (auto simp: itoa_def)
qed

lemma ParseIterationFromKey_IdempotencyKey:
  assumes "0 \<le> n" and "in_int64 n"
  shows "ParseIterationFromKey (IdempotencyKey b n) = (n, True)"
proof -
  have "after_last '':iter:'' (itoa n) = None" using itoa_colon by (intro after_last_plain) auto
  moreover have "take k (itoa n) \<noteq> ''iter:''" for k
  proof
    assume "take k (itoa n) = ''iter:''"
    then have "CHR '':'' \<in> set (take k (itoa n))" by simp
    with itoa_colon show False by (blast dest: in_set_takeD)
  qed
  ultimately have "after_last '':iter:'' (''iter:'' @ itoa n) = None" by (simp add: has_prefix_def)
  then have "after_last '':iter:'' ('':iter:'' @ itoa n) = Some (itoa n)"
    by (simp add: has_prefix_def)
  from after_last_append [OF this, of "''converge:'' @ b"] show ?thesis
    using assms by (simp add: ParseIterationFromKey_def IdempotencyKey_def atoi_itoa)
qed

lemma before_first_plain: "CHR '':'' \<notin> set b \<Longrightarrow> before_first '':iter:'' (b @ '':iter:'' @ s) = Some b"
  by (induction b) (auto simp: has_prefix_def)

lemma extractParent_IdempotencyKey: "CHR '':'' \<notin> set b \<Longrightarrow> extractParentIDFromKey (IdempotencyKey b n) = b"
  using before_first_plain [of b "itoa n"] by (simp add: extractParentIDFromKey_def IdempotencyKey_def has_prefix_def)

text \<open>Idempotency keys carry the loop and the iteration.  From the key of an iteration the handler reads back the
  iteration and the store adapter reads back the root, for every iteration number of the machine and every root id without a colon.\<close>

theorem iteration_key_roundtrip:
  assumes "0 \<le> n" and "in_int64 n" and "CHR '':'' \<notin> set b"
  shows "ParseIterationFromKey (IdempotencyKey b n) = (n, True) \<and> extractParentIDFromKey (IdempotencyKey b n) = b"
  using assms by (simp add: ParseIterationFromKey_IdempotencyKey extractParent_IdempotencyKey)

lemma first_with_key_found: "b \<in> set bs \<Longrightarrow> mget (Metadata b) idempotency_key = key \<Longrightarrow> \<exists>w. first_with_key key bs = (w, True)"
  by (induction bs) auto

text \<open>The wisps of a key: the children of the root that the lookup lists, cut down to those with the key.\<close>

definition keyed_children :: "string \<Rightarrow> string \<Rightarrow> MemStore \<Rightarrow> Bead set" where
  "keyed_children root key m =
     {b \<in> set (beads m). ParentID b = root \<and> Status b \<noteq> ''closed'' \<and> \<not> Ephemeral b \<and> mget (Metadata b) idempotency_key = key}"

lemma find_by_key:
  assumes "extractParentIDFromKey key = root" and "root \<noteq> []"
  obtains (missing) w where "adapter_FindByIdempotencyKey key a = (Inr (w, False), a)" and "keyed_children root key (aStore a) = {}"
  | (found) b where "adapter_FindByIdempotencyKey key a = (Inr (ID b, True), a)" and "b \<in> keyed_children root key (aStore a)"
proof -
  have matches: "Matches (children_query root) b \<longleftrightarrow> ParentID b = root \<and> Status b \<noteq> ''closed'' \<and> \<not> Ephemeral b" for b
    using assms(2) by (auto simp: children_query_def Matches_conj matchesTier_def IncludesClosed_def zero_ListQuery_def IsZero_def)
  obtain bs where bs: "List' (children_query root) (aStore a) = Inr bs" "set bs = set (filter (Matches (children_query root)) (beads (aStore a)))"
    using assms(2) by (auto simp: List'_def HasFilter_def children_query_def zero_ListQuery_def)
  then have kids: "keyed_children root key (aStore a) = {b \<in> set bs. mget (Metadata b) idempotency_key = key}"
    by (auto simp: keyed_children_def matches)
  have run: "adapter_FindByIdempotencyKey key a = (Inr (first_with_key key bs), a)"
    using bs(1) assms by (simp add: adapter_FindByIdempotencyKey_def)
  obtain w t where f: "first_with_key key bs = (w, t)" by (meson surj_pair)
  show thesis
  proof (cases t)
    case True
    with first_with_key_in [of key bs w] f kids run found show ?thesis by auto
  next
    case False
    then have "keyed_children root key (aStore a) = {}" using first_with_key_found [of _ bs key] f kids by auto
    with False f run missing show ?thesis by auto
  qed
qed

lemma pour_found: "adapter_FindByIdempotencyKey key a = (Inr (w, True), a) \<Longrightarrow> pourWisp env d p f key vars prompt a = (Inr w, a)"
  by (simp add: pourWisp_def)

text \<open>A pour that finds no wisp of its key leaves exactly one, the one it returns.\<close>

lemma pour_fresh:
  assumes wf: "mem_wf (aStore a)" and root: "find_bead root (aStore a) = Some r" "root \<noteq> []"
    and agree: "\<And>vs fm g. aeFrontEnd env f (formulaSearchPaths a) vs = Inr (fm, g) \<Longrightarrow> aeIsGraphV2 env f (formulaSearchPaths a) = Inr g"
    and find: "adapter_FindByIdempotencyKey key a = (Inr (x, False), a)" "keyed_children root key (aStore a) = {}"
    and pour: "pourWisp env d root f key vars prompt a = (Inr w, a1)"
  shows "\<exists>b. keyed_children root key (aStore a1) = {b} \<and> ID b = w"
proof -
  let ?opts = "zero_Options\<lparr>oVars := if prompt \<noteq> [] then vars(''evaluate_prompt'' \<mapsto> prompt) else vars, oParentID := root,
     oIdempotencyKey := key, oDeferAssignees := d\<rparr>"
  obtain c m k where c: "Cook (aeFrontEnd env) (aeRegexp env) (aeClock env) f (formulaSearchPaths a) ?opts (aStore a, aReadings a) = (c, m, k)"
    by (metis prod_cases3)
  from pour find(1) c obtain res where res: "c = Inr res" "aStore a1 = m" "w = resRootID res" "aeIsGraphV2 env f (formulaSearchPaths a) = Inr False"
    by (auto simp: pourWisp_def Let_def split: sum.splits if_splits bool.splits)
  from cook_root [OF c [unfolded res(1)] wf] obtain b fm g where b: "find_bead w m = Some b" "Status b = ''open''" "\<not> Ephemeral b"
    "mget (Metadata b) idempotency_key = key" "aeFrontEnd env f (formulaSearchPaths a) (oVars ?opts) = Inr (fm, g)"
    "ParentID b = (if g then [] else root)" by (auto simp: zero_Options_def res(3))
  from agree [OF b(5)] res(4) have parent: "ParentID b = root" using b(6) by simp
  have mwf: "mem_wf m" using cook_grows [OF c wf] grown_wf by auto
  have in_m: "b \<in> set (beads m)" "ID b = w" by (rule find_bead_in [OF b(1)], rule find_bead_ID [OF b(1)])
  have "x = b" if x: "x \<in> keyed_children root key m" for x
  proof -
    have rid: "root \<in> ID ` set (beads (aStore a))" using find_bead_in [OF root(1)] find_bead_ID [OF root(1)] by blast
    have "oExternalDeps ?opts = []" by (simp add: zero_Options_def)
    from cook_inside [OF c [unfolded res(1)] wf this _ rid root(2), of x] x have "x \<in> set (beads (aStore a)) \<or> ID x = w"
      by (auto simp: keyed_children_def res(3))
    moreover have "x \<notin> set (beads (aStore a))" using find(2) x by (auto simp: keyed_children_def)
    ultimately have "find_bead w m = Some x" using x mwf by (auto simp: keyed_children_def find_bead_iff mem_wf_def)
    with b(1) show ?thesis by simp
  qed
  moreover have "b \<in> keyed_children root key m" using in_m(1) parent b(2-4) by (simp add: keyed_children_def)
  ultimately have "keyed_children root key m = {b}" by blast
  with in_m(2) show ?thesis unfolding res(2) by blast
qed

text \<open>C17: pouring an iteration twice creates one wisp.  Once a pour of an iteration of a loop has succeeded, a second
  pour with the same key, by a handler that was interrupted before it recorded the first one, returns the wisp of the first pour
  and leaves the store as it is, whatever formula and variables it brings along.  That wisp is a child of the root, not closed,
  and carries the key; and when no wisp of the key was there before the first pour, it is the only one.  This needs that the root is
  in the store and that the two readings of a formula, as a graph workflow or not, agree.\<close>

theorem pour_idempotent:
  assumes "mem_reachable (aStore a)" and "find_bead root (aStore a) = Some r" and "root \<noteq> []" and "CHR '':'' \<notin> set root"
    and "key = IdempotencyKey root n"
    and "\<And>vs fm g. aeFrontEnd env f (formulaSearchPaths a) vs = Inr (fm, g) \<Longrightarrow> aeIsGraphV2 env f (formulaSearchPaths a) = Inr g"
    and "pourWisp env d root f key vars prompt a = (Inr w, a1)"
  shows "pourWisp env d' root f' key vars' prompt' a1 = (Inr w, a1)
    \<and> w \<in> ID ` keyed_children root key (aStore a1)
    \<and> (keyed_children root key (aStore a) = {} \<longrightarrow> ID ` keyed_children root key (aStore a1) = {w})"
proof -
  note wf = mem_reachable_wf [OF assms(1)]
  note key = extractParent_IdempotencyKey [OF assms(4), of n, folded assms(5)]
  from key assms(3) show ?thesis
  proof (cases rule: find_by_key [where a = a])
    case (found b)
    then have "a1 = a" "w = ID b" using assms(7) by (simp_all add: pourWisp_def)
    with found pour_found [OF found(1)] show ?thesis by auto
  next
    case (missing x)
    have "\<exists>b. keyed_children root key (aStore a1) = {b} \<and> ID b = w"
      by (rule pour_fresh [OF wf assms(2,3) _ missing assms(7)]) (rule assms(6))
    then obtain b where b: "keyed_children root key (aStore a1) = {b}" "ID b = w" by blast
    have "adapter_FindByIdempotencyKey key a1 = (Inr (w, True), a1)"
      by (rule find_by_key [OF key assms(3), of a1]) (use b in auto)
    from pour_found [OF this] b show ?thesis by simp
  qed
qed

section \<open>Activation of speculative wisps\<close>

text \<open>C38: activating a speculative wisp does not give back what pouring it directly would have made.  A non-root
  step of type task in an ordinary molecule becomes a bead of type \<open>step\<close>, which the ready queue skips.  Poured
  speculatively it is a \<open>gate\<close>, and its activation turns it into a \<open>task\<close>, which the ready queue offers to every worker.\<close>

theorem speculative_step_becomes_task:
  assumes "rsType step = ''task''" and "\<not> rsIsRoot step" and "\<not> preservesGraphActionTypes recipe"
    and "direct = planned_bead (make_plan recipe (opts\<lparr>oDeferAssignees := False\<rparr>) exts) st step"
    and "speculative = planned_bead (make_plan recipe (opts\<lparr>oDeferAssignees := True\<rparr>) exts) st step"
    and "\<not> HasReadyExcludedLabel direct"
  shows "Type direct = ''step'' \<and> IsReadyExcludedBead direct
    \<and> Type speculative = ''gate'' \<and> IsReadyExcludedBead speculative
    \<and> Type (apply_update now (activation_update speculative) speculative) = ''task''
    \<and> \<not> IsReadyExcludedBead (apply_update now (activation_update speculative) speculative)"
proof -
  let ?p0 = "make_plan recipe (opts\<lparr>oDeferAssignees := False\<rparr>) exts" and ?p1 = "make_plan recipe (opts\<lparr>oDeferAssignees := True\<rparr>) exts"
  let ?b = "stepToBead step (applyVarDefaults (oVars opts) (rcVars recipe)) (oPriorityOverride opts)"
  have pl: "\<not> plGraph ?p0" "\<not> plFence ?p0" "\<not> plGraph ?p1" "\<not> plFence ?p1" using assms(3) by (simp_all add: make_plan_def)
  have base: "base_bead ?p0 st step = ?b\<lparr>Needs := step_needs ?p0 st step\<rparr>" "base_bead ?p1 st step = (deferBeadRouting ?b)\<lparr>Needs := step_needs ?p1 st step\<rparr>"
    by (simp_all add: base_bead_def make_plan_def)
  have bead: "direct = nonroot_bead ?p0 st step (base_bead ?p0 st step)" "speculative = nonroot_bead ?p1 st step (base_bead ?p1 st step)"
    using assms(2,4,5) pl by (simp_all add: planned_bead_def Let_def)
  have b: "Type ?b = ''task''" "Labels direct = Labels ?b" using assms(1) by (simp_all add: stepToBead_def bead base nonroot_bead_def)
  have d: "Type direct = ''step''" using b pl by (simp add: bead base nonroot_bead_def nonRootStepBeadType_def)
  have nex: "\<not> IsReadyExcludedBead ?b" using b assms(6) by (simp add: IsReadyExcludedBead_def HasReadyExcludedLabel_def IsReadyExcludedType_def readyExcludeTypes_def)
  have r: "Type (deferBeadRouting ?b) = ''gate''" "Labels (deferBeadRouting ?b) = Labels ?b"
    "mget (Metadata (deferBeadRouting ?b)) DeferredTypeMetadataKey = ''task''"
    using nex b(1) by (simp_all add: deferBeadRouting_def Let_def deferBeadMetadataValue_def fence_keys_neq)
  have keep: "mget (step_metadata pl st step md) DeferredTypeMetadataKey = mget md DeferredTypeMetadataKey" for pl md
    by (simp add: step_metadata_def Let_def split: option.split) (simp add: molecule_keys)
  have s: "Type speculative = ''gate''" "mget (Metadata speculative) DeferredTypeMetadataKey = ''task''" "Labels speculative = Labels ?b"
    using r pl keep by (simp_all add: bead base nonroot_bead_def nonRootStepBeadType_def)
  have t: "Type (apply_update now (activation_update speculative) speculative) = ''task''"
    "Labels (apply_update now (activation_update speculative) speculative) = Labels ?b"
    using s by (simp_all add: apply_update_def activation_update_def Let_def zero_UpdateOpts_def set_opt_def update_labels_def)
  show ?thesis using d s t b(2) assms(6)
    by (auto simp: IsReadyExcludedBead_def HasReadyExcludedLabel_def IsReadyExcludedType_def readyExcludeTypes_def)
qed

section \<open>Witnesses\<close>

text \<open>A loop root \<open>gc-1\<close> with the closed wisp \<open>gc-2\<close> of its first iteration.\<close>

definition loop_fields :: "string \<Rightarrow> string \<Rightarrow> kvs" where
  "loop_fields state gate = [(FieldState, state), (FieldMaxIterations, ''3''), (FieldGateMode, gate), (FieldGateCondition, ''check.sh''),
     (FieldActiveWisp, ''gc-2''), (FieldFormula, ''f'')]"

definition loop_created :: "kvs \<Rightarrow> MemStore" where
  "loop_created fs = snd (SetMetadataBatch 2 ''gc-1'' fs (snd (Create 1 (zero_Bead\<lparr>Type := ''convergence''\<rparr>) NewMemStore)))"

definition loop_store :: "kvs \<Rightarrow> MemStore" where
  "loop_store fs = snd (Close 4 ''gc-2'' (snd (Create 3 (zero_Bead\<lparr>Type := ''molecule'', ParentID := ''gc-1'',
     Metadata := [idempotency_key \<mapsto> IdempotencyKey ''gc-1'' 1]\<rparr>) (loop_created fs))))"

definition loop_adapter :: "kvs \<Rightarrow> convergenceStoreAdapter" where
  "loop_adapter fs = newConvergenceStoreAdapter (loop_store fs) []"

definition loop_env :: AdapterEnv where
  "loop_env = \<lparr>aeClock = ticks, aeIsGraphV2 = (\<lambda>f p. Inr False),
     aeFrontEnd = (\<lambda>f p v. Inr (sample_formula\<lparr>fmFormula := f, fmSteps := take 1 (fmSteps sample_formula)\<rparr>, False)),
     aeRegexp = (\<lambda>p s. Some True), aeDepth = 5\<rparr>"

definition loop_handler :: "convergenceStoreAdapter Handler" where
  "loop_handler = \<lparr>hStore = adapter loop_env, hStorePath = [], hEmitter = True, hDepth = 5\<rparr>"

definition loop_runner :: "string \<Rightarrow> GateRunner" where
  "loop_runner outcome = \<lparr>runScript = (\<lambda>s e t a n. zero_GateResult\<lparr>grOutcome := outcome\<rparr>), runCancelled = (\<lambda>a n. False)\<rparr>"

lemma loop_reachable: "mem_reachable (loop_store fs)" "mem_reachable (loop_created fs)"
proof -
  show "mem_reachable (loop_created fs)" unfolding loop_created_def
    by (intro mem_reachable.step [OF _ st_SetMetadataBatch] mem_reachable.step [OF _ st_Create] empty_reachable(1))
  then show "mem_reachable (loop_store fs)" unfolding loop_store_def
    by (intro mem_reachable.step [OF _ st_Close] mem_reachable.step [OF _ st_Create])
qed

lemma loop_adapter_sels [simp]: "aStore (loop_adapter fs) = loop_store fs" "hStore loop_handler = adapter loop_env"
  "adapter_ok (loop_adapter fs)"
  using mem_reachable_wf [OF loop_reachable(1)]
  by (simp_all add: loop_adapter_def newConvergenceStoreAdapter_def loop_handler_def adapter_ok_def)

lemma live_code:
  "live root L \<longleftrightarrow> (case L root of None \<Rightarrow> False | Some b \<Rightarrow> root \<noteq> [] \<and> lbParent b = [] \<and> lbKey b = [] \<and> lbStatus b \<noteq> ''closed''
     \<and> lbMeta b FieldState \<noteq> ConvStateTerminated \<and> lbMeta b FieldActiveWisp \<noteq> root)"
  by (auto simp: live_def rooted_def rstatus_def rmeta_def split: option.split)

lemma sealed_code:
  "sealed root reason actor L \<longleftrightarrow> (case L root of None \<Rightarrow> False | Some b \<Rightarrow> root \<noteq> [] \<and> lbParent b = [] \<and> lbKey b = []
     \<and> lbMeta b FieldState = ConvStateTerminated \<and> lbMeta b FieldTerminalReason = reason \<and> reason \<noteq> [] \<and> lbMeta b FieldTerminalActor = actor
     \<and> actor \<noteq> [] \<and> lbMeta b FieldActiveWisp \<noteq> root)"
  by (auto simp: sealed_def ended_def rooted_def rmeta_def split: option.split)

declare live_code [code] sealed_code [code]

lemma waiting_live: "live ''gc-1'' (adapter_view (loop_adapter (loop_fields ConvStateWaitingManual GateModeManual)))"
  by code_simp

theorem conv_root_invariant_witness:
  "live ''gc-1'' (adapter_view (loop_adapter (loop_fields ConvStateWaitingManual GateModeManual)))
   \<and> loop_inv ''gc-1'' (adapter_view (fst (conv_run loop_handler ''gc-1'' [OpIterate ''ann'', OpStop (loop_runner GateFail) ''ann'']
       (loop_adapter (loop_fields ConvStateWaitingManual GateModeManual), []))))"
proof -
  have "loop_inv ''gc-1'' (adapter_view (loop_adapter (loop_fields ConvStateWaitingManual GateModeManual)))"
    using waiting_live by (simp only: loop_inv_def simp_thms)
  from conv_root_invariant [OF conv_adapter.conv_store_axioms loop_adapter_sels(2,3) this] waiting_live show ?thesis by blast
qed

lemma approved_sealed:
  "sealed ''gc-1'' ''approved'' ''operator:ann'' (adapter_view (fst (conv_run loop_handler ''gc-1'' [OpApprove ''ann'']
     (loop_adapter (loop_fields ConvStateWaitingManual GateModeManual), []))))"
  by code_simp

theorem conv_terminated_final_witness:
  "sealed ''gc-1'' ''approved'' ''operator:ann'' (adapter_view (fst (conv_run loop_handler ''gc-1'' [OpStop (loop_runner GateFail) ''bob'', OpReconcile (loop_runner GatePass)]
     (fst (conv_run loop_handler ''gc-1'' [OpApprove ''ann''] (loop_adapter (loop_fields ConvStateWaitingManual GateModeManual), [])), []))))"
proof -
  let ?s = "(loop_adapter (loop_fields ConvStateWaitingManual GateModeManual), [] :: EmittedEvent list)"
  have inv: "loop_inv ''gc-1'' (adapter_view (fst ?s))" using waiting_live by (simp only: loop_inv_def simp_thms fst_conv)
  have ok: "adapter_ok (fst ?s)" unfolding fst_conv by (rule loop_adapter_sels(3))
  have "adapter_ok (fst (conv_run loop_handler ''gc-1'' [OpApprove ''ann''] ?s))"
    by (rule conjunct1 [OF conv_adapter.run_loop_inv [OF loop_adapter_sels(2) ok inv]])
  then show ?thesis
    by (intro conv_terminated_final [where st = "adapter loop_env" and look = adapter_view and ok = adapter_ok]
        conv_adapter.conv_store_axioms loop_adapter_sels(2) approved_sealed)
qed

lemma active_live: "live ''gc-1'' (adapter_view (loop_adapter (loop_fields ConvStateActive gate)))"
  by code_simp

lemma manual_run:
  "case HandleWispClosed loop_handler (loop_runner GateFail) ''gc-1'' ''gc-2'' (loop_adapter (loop_fields ConvStateActive GateModeManual), []) of
     (r, a, ev) \<Rightarrow> rmeta ''gc-1'' FieldLastProcessedWisp (adapter_view a) = ''gc-2''"
  by code_simp

lemma loop_key:
  "case adapter_view (loop_adapter (loop_fields ConvStateActive gate)) ''gc-2'' of None \<Rightarrow> False | Some b \<Rightarrow> lbKey b = IdempotencyKey ''gc-1'' 1"
  "rmeta ''gc-1'' FieldLastProcessedWisp (adapter_view (loop_adapter (loop_fields ConvStateActive gate))) = []"
  by code_simp+

theorem conv_commit_marker_last_witness:
  "case HandleWispClosed loop_handler (loop_runner GateFail) ''gc-1'' ''gc-2'' (loop_adapter (loop_fields ConvStateActive GateModeManual), []) of
     (r, a, ev) \<Rightarrow> committed ''gc-1'' (IdempotencyKey ''gc-1'' 2) (adapter_view a)"
proof -
  let ?a = "loop_adapter (loop_fields ConvStateActive GateModeManual)"
  obtain r a ev where run: "HandleWispClosed loop_handler (loop_runner GateFail) ''gc-1'' ''gc-2'' (?a, []) = (r, a, ev)" by (metis prod_cases3)
  have "committed ''gc-1'' (IdempotencyKey ''gc-1'' (1 + 1)) (adapter_view a)"
  proof (rule conv_commit_marker_last [where st = "adapter loop_env" and look = adapter_view and ok = adapter_ok, OF conv_adapter.conv_store_axioms
        loop_adapter_sels(2,3) active_live _ _ _ run])
    show "k = IdempotencyKey ''gc-1'' 1" if "has_key (adapter_view ?a) ''gc-2'' k" for k
      using that loop_key(1) [of GateModeManual] by (auto simp only: has_key_def split: option.splits)
    show "ParseIterationFromKey (IdempotencyKey ''gc-1'' 1) = (1, True)" by code_simp
    show "rmeta ''gc-1'' FieldLastProcessedWisp (adapter_view ?a) \<noteq> ''gc-2''" by (simp only: loop_key(2)) simp
    show "rmeta ''gc-1'' FieldLastProcessedWisp (adapter_view a) = ''gc-2''" using manual_run by (simp only: run prod.case)
  qed
  then show ?thesis by (simp only: run prod.case) simp
qed

lemma loop_find:
  "case find_bead ''gc-1'' (loop_store (loop_fields ConvStateActive GateModeCondition)) of None \<Rightarrow> False
   | Some b \<Rightarrow> mget (Metadata b) FieldState = ConvStateActive \<and> mget (Metadata b) FieldMaxIterations = ''3''"
  "case find_bead ''gc-2'' (loop_store (loop_fields ConvStateActive GateModeCondition)) of None \<Rightarrow> False
   | Some c \<Rightarrow> mget (Metadata c) idempotency_key = IdempotencyKey ''gc-1'' 1"
  by code_simp+

lemma iterate_run:
  "case HandleWispClosed loop_handler (loop_runner GateFail) ''gc-1'' ''gc-2'' (loop_adapter (loop_fields ConvStateActive GateModeCondition), []) of
     (Inr res, w) \<Rightarrow> hrAction res = ActionIterate \<and> hrNextWispID res = ''gc-3'' | _ \<Rightarrow> False"
  by code_simp

theorem gate_retry_bound_witness:
  "\<exists>n \<le> 2. RunCondition (\<lambda>a e. zero_GateResult\<lparr>grOutcome := if a = 0 then GateTimeout else GatePass\<rparr>) (\<lambda>a e. False) 2
     = (runOnce (\<lambda>e. zero_GateResult\<lparr>grOutcome := if n = 0 then GateTimeout else GatePass\<rparr>) (\<lambda>e. False))\<lparr>grRetryCount := int n\<rparr>"
  using gate_retry_bound [of 2 "\<lambda>a e. zero_GateResult\<lparr>grOutcome := if a = 0 then GateTimeout else GatePass\<rparr>" "\<lambda>a e. False"] by blast

theorem iteration_key_roundtrip_witness:
  "ParseIterationFromKey (IdempotencyKey ''gc-7'' 12) = (12, True) \<and> extractParentIDFromKey (IdempotencyKey ''gc-7'' 12) = ''gc-7''"
  using iteration_key_roundtrip [of 12 "''gc-7''"] by (simp add: in_int64_def)

theorem conv_decision_sound_witness:
  "case HandleWispClosed loop_handler (loop_runner GateFail) ''gc-1'' ''gc-2'' (loop_adapter (loop_fields ConvStateActive GateModeCondition), []) of
     (Inr res, w) \<Rightarrow> hrAction res = ActionIterate \<and> decided 1 3 res | _ \<Rightarrow> False"
proof -
  let ?a = "loop_adapter (loop_fields ConvStateActive GateModeCondition)"
  obtain b where b: "find_bead ''gc-1'' (aStore ?a) = Some b" "mget (Metadata b) FieldState = ConvStateActive" "mget (Metadata b) FieldMaxIterations = ''3''"
    unfolding loop_adapter_sels by (rule case_SomeE [OF loop_find(1)]) blast
  obtain c where c: "find_bead ''gc-2'' (aStore ?a) = Some c" "mget (Metadata c) idempotency_key = IdempotencyKey ''gc-1'' 1"
    unfolding loop_adapter_sels by (rule case_SomeE [OF loop_find(2)])
  obtain r w' where run: "HandleWispClosed loop_handler (loop_runner GateFail) ''gc-1'' ''gc-2'' (?a, []) = (r, w')" by (meson surj_pair)
  from iterate_run obtain res where res: "r = Inr res" "hrAction res = ActionIterate" unfolding run by (cases r) simp_all
  have live: "mget (Metadata b) FieldState \<noteq> ConvStateTerminated" by (simp only: b(2)) code_simp
  have num: "fst (ParseIterationFromKey (IdempotencyKey ''gc-1'' 1)) = 1" "fst (DecodeInt ''3'') = 3" by code_simp+
  have "decided 1 3 res"
    using conv_decision_sound [OF loop_adapter_sels(2) b(1) c(1) live run [unfolded res(1)]] by (simp only: b(3) c(2) num)
  with res run show ?thesis by (simp only: prod.case sum.case simp_thms)
qed

lemma restart_run:
  "case IterateHandler loop_handler ''gc-1'' ''ann'' (loop_adapter (loop_fields ConvStateWaitingManual GateModeManual), []) of
     (Inr res, w) \<Rightarrow> hrNextWispID res = ''gc-3'' | _ \<Rightarrow> False"
  by code_simp

lemma adapter_iteration_restarts_run:
  "case IterateHandler loop_handler ''gc-1'' ''ann'' (loop_adapter (loop_fields ConvStateWaitingManual GateModeManual), []) of
     (Inr res, w) \<Rightarrow> hrNextWispID res = ''gc-3'' \<and> hrIteration res = 1 | _ \<Rightarrow> False"
proof -
  let ?s = "(loop_adapter (loop_fields ConvStateWaitingManual GateModeManual), [] :: EmittedEvent list)"
  obtain r w where run: "IterateHandler loop_handler ''gc-1'' ''ann'' ?s = (r, w)" by (meson surj_pair)
  from restart_run obtain res where res: "r = Inr res" "hrNextWispID res = ''gc-3''" unfolding run by (cases r) simp_all
  have "hrIteration res = 1"
    using adapter_iteration_restarts [where h = loop_handler and env = loop_env, OF loop_adapter_sels(2)] run [unfolded res(1)] by blast
  with res run show ?thesis by (simp only: prod.case sum.case simp_thms)
qed

definition replay_fields :: kvs where
  "replay_fields = loop_fields ConvStateActive GateModeCondition @ [(FieldGateOutcome, GateFail), (FieldGateOutcomeWisp, ''gc-2'')]"

lemma replay_find:
  "case find_bead ''gc-1'' (loop_store replay_fields) of None \<Rightarrow> False
   | Some b \<Rightarrow> mget (Metadata b) FieldState \<noteq> ConvStateTerminated \<and> mget (Metadata b) FieldGateOutcomeWisp = ''gc-2''"
  "case find_bead ''gc-2'' (loop_store replay_fields) of None \<Rightarrow> False | Some c \<Rightarrow> True"
  by code_simp+

theorem conv_replay_ignores_gate_witness:
  "HandleWispClosed loop_handler (loop_runner GateFail) ''gc-1'' ''gc-2'' (loop_adapter replay_fields, [])
   = HandleWispClosed loop_handler (loop_runner GatePass) ''gc-1'' ''gc-2'' (loop_adapter replay_fields, [])"
proof -
  obtain b where b: "find_bead ''gc-1'' (aStore (loop_adapter replay_fields)) = Some b"
    "mget (Metadata b) FieldState \<noteq> ConvStateTerminated" "mget (Metadata b) FieldGateOutcomeWisp = ''gc-2''"
    unfolding loop_adapter_sels by (rule case_SomeE [OF replay_find(1)]) blast
  obtain c where c: "find_bead ''gc-2'' (aStore (loop_adapter replay_fields)) = Some c"
    unfolding loop_adapter_sels by (rule case_SomeE [OF replay_find(2)])
  show ?thesis by (rule conv_replay_ignores_gate [OF loop_adapter_sels(2) b(1) c b(2,3)])
qed

definition failed_gate :: GateResult where
  "failed_gate = zero_GateResult\<lparr>grOutcome := GateFail, grExitCode := Some 3, grRetryCount := 1, grStderr := ''no'', grDuration := 1500000\<rparr>"

lemma persist_run:
  "case persistGateOutcome loop_handler ''gc-1'' ''gc-2'' failed_gate (loop_adapter (loop_fields ConvStateActive GateModeCondition), []) of
     (Inr u, w) \<Rightarrow> True | _ \<Rightarrow> False"
  by code_simp

theorem gate_outcome_roundtrip_witness:
  "\<exists>a ev b. persistGateOutcome loop_handler ''gc-1'' ''gc-2'' failed_gate (loop_adapter (loop_fields ConvStateActive GateModeCondition), []) = (Inr (), a, ev)
     \<and> find_bead ''gc-1'' (aStore a) = Some b \<and> replay_result (Metadata b) = failed_gate\<lparr>grDuration := 1000000\<rparr>"
proof -
  let ?a = "loop_adapter (loop_fields ConvStateActive GateModeCondition)"
  obtain r a ev where run: "persistGateOutcome loop_handler ''gc-1'' ''gc-2'' failed_gate (?a, []) = (r, a, ev)" by (metis prod_cases3)
  from persist_run have r: "r = Inr ()" unfolding run by (cases r) simp_all
  obtain b where b: "find_bead ''gc-1'' (aStore ?a) = Some b"
    unfolding loop_adapter_sels by (rule case_SomeE [OF loop_find(1)])
  have "in_int64 (grDuration failed_gate)" "in_int64 (grRetryCount failed_gate)" "\<forall>c. grExitCode failed_gate = Some c \<longrightarrow> in_int64 c"
    "Milliseconds (grDuration failed_gate) * 1000000 = 1000000"
    by (simp_all add: failed_gate_def in_int64_def Milliseconds_def)
  with gate_outcome_roundtrip [OF loop_adapter_sels(2) b _ run [unfolded r]] run [unfolded r] show ?thesis by auto
qed

definition poured_adapter :: convergenceStoreAdapter where
  "poured_adapter = newConvergenceStoreAdapter (loop_created (loop_fields ConvStateActive GateModeManual)) []"

lemma pour_run:
  "case pourWisp loop_env False ''gc-1'' ''f'' (IdempotencyKey ''gc-1'' 1) Map.empty [] poured_adapter of (Inr w, a) \<Rightarrow> w = ''gc-2'' | _ \<Rightarrow> False"
  by code_simp

lemma poured_find: "case find_bead ''gc-1'' (aStore poured_adapter) of None \<Rightarrow> False | Some b \<Rightarrow> True"
  by code_simp

lemma poured_childless: "list_all (\<lambda>b. ParentID b \<noteq> ''gc-1'') (beads (aStore poured_adapter))"
  by code_simp

theorem pour_idempotent_witness:
  "\<exists>a. pourWisp loop_env False ''gc-1'' ''f'' (IdempotencyKey ''gc-1'' 1) Map.empty [] poured_adapter = (Inr ''gc-2'', a)
     \<and> pourWisp loop_env True ''gc-1'' ''g'' (IdempotencyKey ''gc-1'' 1) [''x'' \<mapsto> ''y''] ''again'' a = (Inr ''gc-2'', a)
     \<and> ID ` keyed_children ''gc-1'' (IdempotencyKey ''gc-1'' 1) (aStore a) = {''gc-2''}"
proof -
  obtain r a where run: "pourWisp loop_env False ''gc-1'' ''f'' (IdempotencyKey ''gc-1'' 1) Map.empty [] poured_adapter = (r, a)" by (meson surj_pair)
  from pour_run have r: "r = Inr ''gc-2''" unfolding run by (cases r) simp_all
  have "mem_reachable (aStore poured_adapter)"
    by (simp add: poured_adapter_def newConvergenceStoreAdapter_def loop_reachable)
  moreover obtain b where "find_bead ''gc-1'' (aStore poured_adapter) = Some b" by (rule case_SomeE [OF poured_find])
  moreover have "aeIsGraphV2 loop_env ''f'' (formulaSearchPaths poured_adapter) = Inr g"
    if "aeFrontEnd loop_env ''f'' (formulaSearchPaths poured_adapter) vs = Inr (fm, g)" for vs fm g
    using that by (simp add: loop_env_def)
  moreover have "''gc-1'' \<noteq> []" "CHR '':'' \<notin> set ''gc-1''" by simp_all
  ultimately have "pourWisp loop_env True ''gc-1'' ''g'' (IdempotencyKey ''gc-1'' 1) [''x'' \<mapsto> ''y''] ''again'' a = (Inr ''gc-2'', a)
     \<and> (keyed_children ''gc-1'' (IdempotencyKey ''gc-1'' 1) (aStore poured_adapter) = {}
         \<longrightarrow> ID ` keyed_children ''gc-1'' (IdempotencyKey ''gc-1'' 1) (aStore a) = {''gc-2''})"
    using pour_idempotent [where a = poured_adapter and root = "''gc-1''" and env = loop_env and f = "''f''", OF _ _ _ _ refl _ run [unfolded r]] by blast
  moreover have "keyed_children ''gc-1'' (IdempotencyKey ''gc-1'' 1) (aStore poured_adapter) = {}"
    using poured_childless by (auto simp: keyed_children_def list_all_iff)
  ultimately show ?thesis using run r by blast
qed

theorem speculative_step_becomes_task_witness:
  "Type (planned_bead (make_plan sample_recipe zero_Options []) no_cooking (plain_step ''f.a'')) = ''step''
   \<and> Type (apply_update 7 (activation_update (planned_bead (make_plan sample_recipe (zero_Options\<lparr>oDeferAssignees := True\<rparr>) []) no_cooking (plain_step ''f.a'')))
       (planned_bead (make_plan sample_recipe (zero_Options\<lparr>oDeferAssignees := True\<rparr>) []) no_cooking (plain_step ''f.a''))) = ''task''"
proof -
  have hyps: "rsType (plain_step ''f.a'') = ''task''" "\<not> rsIsRoot (plain_step ''f.a'')" by (simp_all add: plain_step_def)
  have g: "\<not> preservesGraphActionTypes sample_recipe"
    "\<not> HasReadyExcludedLabel (planned_bead (make_plan sample_recipe (zero_Options\<lparr>oDeferAssignees := False\<rparr>) []) no_cooking (plain_step ''f.a''))"
    by code_simp+
  have z: "zero_Options\<lparr>oDeferAssignees := False\<rparr> = zero_Options" by (simp add: zero_Options_def)
  show ?thesis using speculative_step_becomes_task [OF hyps g(1) refl refl g(2), of 7] unfolding z by blast
qed

end
