(* ===== verification/Store_Prog.thy ===== *)
theory Store_Prog
  imports Molecule
begin

text \<open>
  Programs as trees of store calls.  The store serialises its operations behind one mutex
  (\<^verbatim>\<open>src/internal/beads/memstore.go\<close>), so what several processors do to it is an interleaving of single
  calls.  A program is the next call together with what follows each reply; a schedule says whose call
  comes next, and a processor that is never scheduled again has crashed.  Run alone, a program is a
  function on the store; the instantiation of a recipe is written here call by call, and shown to be, run
  alone, the function of theory Molecule.
\<close>

section \<open>Calls and replies\<close>

datatype storeCall =
    CGet string
  | CList ListQuery
  | CDepList string string
  | CCreate Bead
  | CUpdate string UpdateOpts
  | CSetMetadata string string string
  | CSetMetadataBatch string kvs
  | CCompareAndSet string string string string
  | CDepAdd string string string
  | CDepRemove string string

datatype reply =
    RBead "Bead result"
  | RBeads "Bead list result"
  | RDeps "Dep list result"
  | RUnit "unit result"
  | RBool "bool result"

fun exec_call :: "gtime \<Rightarrow> storeCall \<Rightarrow> MemStore \<Rightarrow> reply \<times> MemStore" where
  "exec_call now (CGet i) m = (RBead (Get i m), m)"
| "exec_call now (CList q) m = (RBeads (List' q m), m)"
| "exec_call now (CDepList i dir) m = (RDeps (DepList i dir m), m)"
| "exec_call now (CCreate b) m = map_prod RBead id (Create now b m)"
| "exec_call now (CUpdate i upd) m = map_prod RUnit id (Update now i upd m)"
| "exec_call now (CSetMetadata i k v) m = map_prod RUnit id (SetMetadata now i k v m)"
| "exec_call now (CSetMetadataBatch i batch) m = map_prod RUnit id (SetMetadataBatch now i batch m)"
| "exec_call now (CCompareAndSet i k old new) m = map_prod RBool id (CompareAndSetMetadataKey now i k old new m)"
| "exec_call now (CDepAdd i j t) m = map_prod RUnit id (DepAdd i j t m)"
| "exec_call now (CDepRemove i j) m = map_prod RUnit id (DepRemove i j m)"

definition reads :: "storeCall \<Rightarrow> bool" where
  "reads c = (case c of CGet i \<Rightarrow> True | CList q \<Rightarrow> True | CDepList i d \<Rightarrow> True | _ \<Rightarrow> False)"

definition exec_at :: "clock \<Rightarrow> storeCall \<Rightarrow> timedStore \<Rightarrow> reply \<times> timedStore" where
  "exec_at clk c s =
     (case exec_call (clk (snd s)) c (fst s) of (r, m) \<Rightarrow> (r, m, if reads c then snd s else Suc (snd s)))"

section \<open>Programs\<close>

datatype 'a prog = Return 'a | Call storeCall "reply \<Rightarrow> 'a prog"

primrec bindP :: "'a prog \<Rightarrow> ('a \<Rightarrow> 'b prog) \<Rightarrow> 'b prog" where
  "bindP (Return x) f = f x"
| "bindP (Call c k) f = Call c (\<lambda>r. bindP (k r) f)"

primrec run_prog :: "clock \<Rightarrow> 'a prog \<Rightarrow> timedStore \<Rightarrow> 'a \<times> timedStore" where
  "run_prog clk (Return x) = (\<lambda>s. (x, s))"
| "run_prog clk (Call c k) = (\<lambda>s. case exec_at clk c s of (r, s') \<Rightarrow> run_prog clk (k r) s')"

text \<open>The reply of a call has the type of the call; the other cases do not arise.\<close>

definition getP :: "string \<Rightarrow> Bead result prog" where
  "getP i = Call (CGet i) (\<lambda>r. Return (case r of RBead x \<Rightarrow> x | _ \<Rightarrow> Inl (ErrDisk [])))"

definition listP :: "ListQuery \<Rightarrow> Bead list result prog" where
  "listP q = Call (CList q) (\<lambda>r. Return (case r of RBeads x \<Rightarrow> x | _ \<Rightarrow> Inl (ErrDisk [])))"

definition depListP :: "string \<Rightarrow> string \<Rightarrow> Dep list result prog" where
  "depListP i dir = Call (CDepList i dir) (\<lambda>r. Return (case r of RDeps x \<Rightarrow> x | _ \<Rightarrow> Inl (ErrDisk [])))"

definition createP :: "Bead \<Rightarrow> Bead result prog" where
  "createP b = Call (CCreate b) (\<lambda>r. Return (case r of RBead x \<Rightarrow> x | _ \<Rightarrow> Inl (ErrDisk [])))"

definition unitP :: "storeCall \<Rightarrow> unit result prog" where
  "unitP c = Call c (\<lambda>r. Return (case r of RUnit x \<Rightarrow> x | _ \<Rightarrow> Inl (ErrDisk [])))"

definition casP :: "string \<Rightarrow> string \<Rightarrow> string \<Rightarrow> string \<Rightarrow> bool result prog" where
  "casP i k old new = Call (CCompareAndSet i k old new) (\<lambda>r. Return (case r of RBool x \<Rightarrow> x | _ \<Rightarrow> Inl (ErrDisk [])))"

text \<open>Go's \<open>if err != nil\<close>: stop with the error, or go on with the value.\<close>

definition thenP :: "('e + 'a) prog \<Rightarrow> ('a \<Rightarrow> ('e + 'b) prog) \<Rightarrow> ('e + 'b) prog" where
  "thenP p f = bindP p (\<lambda>r. case r of Inl e \<Rightarrow> Return (Inl e) | Inr x \<Rightarrow> f x)"

definition storeP :: "'a result prog \<Rightarrow> (ConvError + 'a) prog" where
  "storeP p = bindP p (\<lambda>r. Return (storeResult r))"

definition wrapP :: "string \<Rightarrow> (ConvError + 'a) prog \<Rightarrow> (ConvError + 'a) prog" where
  "wrapP msg p = bindP p (\<lambda>r. Return (case r of Inl e \<Rightarrow> Inl (ConvWrap msg e) | Inr x \<Rightarrow> Inr x))"

fun eachP :: "('a \<Rightarrow> (ConvError + unit) prog) \<Rightarrow> 'a list \<Rightarrow> (ConvError + unit) prog" where
  "eachP f [] = Return (Inr ())"
| "eachP f (x # xs) = thenP (f x) (\<lambda>_. eachP f xs)"

section \<open>Instantiation, call by call\<close>

fun markFailedP :: "string list \<Rightarrow> unit prog" where
  "markFailedP [] = Return ()"
| "markFailedP (i # ids) = bindP (unitP (CSetMetadataBatch i failed_batch)) (\<lambda>_. markFailedP ids)"

definition activateFencedP :: "string \<Rightarrow> (ConvError + unit) prog" where
  "activateFencedP i =
     thenP (storeP (getP i)) (\<lambda>b.
       let upd = deferredRoutingActivationUpdate b in
       if uAssignee upd = None \<and> uType upd = None \<and> length (uMetadata upd) = 0 then Return (Inr ())
       else storeP (unitP (CUpdate i upd)))"

fun create_stepsP :: "plan \<Rightarrow> RecipeStep list \<Rightarrow> cooking \<Rightarrow> ((ConvError + unit) \<times> cooking) prog" where
  "create_stepsP pl [] st = Return (Inr (), st)"
| "create_stepsP pl (step # steps) st =
     (let b = planned_bead pl st step in
      case validate_bead step b of
        Inl e \<Rightarrow> Return (Inl e, st)
      | Inr _ \<Rightarrow>
          bindP (storeP (createP b)) (\<lambda>r. case r of
             Inl e \<Rightarrow> Return (Inl (ConvWrap (''creating bead for step '' @ quoted (rsID step)) e), st)
           | Inr created \<Rightarrow> create_stepsP pl steps (record_step pl step created st)))"

definition wire_parentP :: "RecipeDep \<Rightarrow> string \<Rightarrow> string \<Rightarrow> strmap \<Rightarrow> (ConvError + strmap) prog" where
  "wire_parentP d fromID toID parents =
     (if depType d = ''parent-child'' \<and> mget parents (depStepID d) \<noteq> toID
      then thenP (wrapP ''setting parent for dep'' (storeP (unitP (CUpdate fromID (zero_UpdateOpts\<lparr>uParentID := Some toID\<rparr>)))))
             (\<lambda>_. Return (Inr (parents(depStepID d \<mapsto> toID))))
      else Return (Inr parents))"

fun wire_allP :: "cooking \<Rightarrow> RecipeDep list \<Rightarrow> strmap \<Rightarrow> (ConvError + unit) prog" where
  "wire_allP st [] parents = Return (Inr ())"
| "wire_allP st (d # ds) parents =
     (case (ckMapping st (depStepID d), ckMapping st (depDependsOnID d)) of
        (Some fromID, Some toID) \<Rightarrow>
          if dep_key d \<in> set (ckEmbedded st) then wire_allP st ds parents
          else thenP (wire_parentP d fromID toID parents) (\<lambda>parents'.
                 thenP (wrapP ''wiring dep'' (storeP (unitP (CDepAdd fromID toID (depType d))))) (\<lambda>_.
                   wire_allP st ds parents'))
      | _ \<Rightarrow> wire_allP st ds parents)"

definition wire_externalP :: "plan \<Rightarrow> cooking \<Rightarrow> string \<times> ExternalDep list \<Rightarrow> (ConvError + unit) prog" where
  "wire_externalP pl st e =
     (if mget (recipeParentDeps (rcDeps (plRecipe pl))) (fst e) \<noteq> [] then Return (Inr ())
      else case ckMapping st (fst e) of
             None \<Rightarrow> Return (Inr ())
           | Some fromID \<Rightarrow>
               eachP (\<lambda>d. if edType d \<noteq> ''parent-child'' then Return (Inr ())
                  else wrapP ''wiring external dep'' (storeP (unitP (CDepAdd fromID (edDependsOnID d) (edType d))))) (snd e))"

definition assign_pendingP :: "cooking \<Rightarrow> string \<times> string \<Rightarrow> (ConvError + unit) prog" where
  "assign_pendingP st e =
     (if snd e = [] \<or> mget (ckMapping st) (fst e) = [] then Return (Inr ())
      else wrapP (''assigning graph step '' @ quoted (fst e))
             (storeP (unitP (CUpdate (mget (ckMapping st) (fst e)) (zero_UpdateOpts\<lparr>uAssignee := Some (snd e)\<rparr>)))))"

definition activate_stepP :: "cooking \<Rightarrow> RecipeStep \<Rightarrow> (ConvError + unit) prog" where
  "activate_stepP st step =
     (let beadID = mget (ckMapping st) (rsID step) in
      if beadID = [] then Return (Inr ())
      else wrapP (''activating graph step '' @ quoted (rsID step)) (activateFencedP beadID))"

definition finish_graphP :: "plan \<Rightarrow> cooking \<Rightarrow> (ConvError + unit) prog" where
  "finish_graphP pl st =
     thenP (if rcRootOnly (plRecipe pl) then Return (Inr ()) else wire_allP st (rcDeps (plRecipe pl)) (ckParents st)) (\<lambda>_.
       thenP (eachP (wire_externalP pl st) (plExternals pl)) (\<lambda>_.
         thenP (if plGraph pl then eachP (assign_pendingP st) (ckPending st) else Return (Inr ())) (\<lambda>_.
           if plFence pl then eachP (activate_stepP st) (rcSteps (plRecipe pl)) else Return (Inr ()))))"

definition instantiateP :: "Recipe \<Rightarrow> Options \<Rightarrow> (ConvError + Result) prog" where
  "instantiateP recipe opts =
     (if rcSteps recipe = [] then Return (Inl (ConvErrorf ''recipe has no steps'' [rcName recipe]))
      else case groupExternalDeps (oExternalDeps opts) of
        Inl e \<Rightarrow> Return (Inl e)
      | Inr exts \<Rightarrow>
          let pl = make_plan recipe opts exts in
          bindP (create_stepsP pl (created_steps recipe) no_cooking) (\<lambda>(r, st).
            case r of
              Inl e \<Rightarrow> bindP (markFailedP (ckCreated st)) (\<lambda>_. Return (Inl e))
            | Inr _ \<Rightarrow>
                bindP (finish_graphP pl st) (\<lambda>r'.
                  case r' of
                    Inl e \<Rightarrow> bindP (markFailedP (ckCreated st)) (\<lambda>_. Return (Inl e))
                  | Inr _ \<Rightarrow> Return (Inr (cooked pl st)))))"

section \<open>Schedules\<close>

text \<open>The processors' programs and the store they share.  A step is one call of one processor.\<close>

definition proc_step :: "clock \<Rightarrow> nat \<Rightarrow> 'a prog list \<times> timedStore \<Rightarrow> 'a prog list \<times> timedStore" where
  "proc_step clk i c =
     (if i < length (fst c)
      then (case fst c ! i of
              Return x \<Rightarrow> c
            | Call call k \<Rightarrow> (case exec_at clk call (snd c) of (r, s') \<Rightarrow> ((fst c)[i := k r], s')))
      else c)"

fun interleave :: "clock \<Rightarrow> nat list \<Rightarrow> 'a prog list \<times> timedStore \<Rightarrow> 'a prog list \<times> timedStore" where
  "interleave clk [] c = c"
| "interleave clk (i # sched) c = interleave clk sched (proc_step clk i c)"

text \<open>What a schedule makes the processors call, with the replies.\<close>

fun trace :: "clock \<Rightarrow> nat list \<Rightarrow> 'a prog list \<times> timedStore \<Rightarrow> (nat \<times> storeCall \<times> reply) list" where
  "trace clk [] c = []"
| "trace clk (i # sched) c =
     (if i < length (fst c)
      then (case fst c ! i of
              Return x \<Rightarrow> []
            | Call call k \<Rightarrow> [(i, call, fst (exec_at clk call (snd c)))])
      else []) @ trace clk sched (proc_step clk i c)"

section \<open>Laws\<close>

lemma run_bind [simp]: "run_prog clk (bindP p f) s = (case run_prog clk p s of (x, s') \<Rightarrow> run_prog clk (f x) s')"
  by (induction p arbitrary: s) (simp_all split: prod.split)

lemma run_then [simp]:
  "run_prog clk (thenP p f) s = (case run_prog clk p s of (Inl e, s') \<Rightarrow> (Inl e, s') | (Inr x, s') \<Rightarrow> run_prog clk (f x) s')"
  by (simp add: thenP_def split: prod.split sum.split)

lemma run_wrap [simp]: "run_prog clk (wrapP msg p) s = wrapf msg (run_prog clk p s)"
  by (simp add: wrapP_def wrapf_def split: prod.split sum.split)

lemma run_calls [simp]:
  "run_prog clk (storeP (getP i)) s = (storeResult (Get i (fst s)), s)"
  "run_prog clk (storeP (createP b)) s = timed clk (\<lambda>now. Create now b) s"
  "run_prog clk (storeP (unitP (CUpdate i upd))) s = timed clk (\<lambda>now. Update now i upd) s"
  "run_prog clk (storeP (unitP (CDepAdd i j t))) s = timed clk (\<lambda>now. DepAdd i j t) s"
  "snd (run_prog clk (unitP (CSetMetadataBatch i batch)) s) = snd (timed clk (\<lambda>now. SetMetadataBatch now i batch) s)"
  by (simp_all add: storeP_def getP_def createP_def unitP_def timed_def exec_at_def reads_def split: prod.split)

lemma run_markFailed [simp]: "run_prog clk (markFailedP ids) s = ((), markFailed clk ids s)"
  by (induction ids arbitrary: s) (simp_all add: case_prod_unfold)

lemma run_each: "(\<And>x s. run_prog clk (f x) s = g x s) \<Longrightarrow> run_prog clk (eachP f xs) s = each_until g xs s"
  by (induction xs arbitrary: s) (simp_all split: prod.split sum.split)

lemma run_activateFenced [simp]: "run_prog clk (activateFencedP i) s = activateFencedGraphWorkflowBead clk i s"
  by (simp add: activateFencedP_def activateFencedGraphWorkflowBead_def storeResult_def Let_def split: sum.split)

lemma run_create_steps [simp]:
  "run_prog clk (create_stepsP pl steps st) s = (case create_steps clk pl steps st s of (r, st', s') \<Rightarrow> ((r, st'), s'))"
  by (induction steps arbitrary: st s) (simp_all add: Let_def split: prod.split sum.split)

lemma run_wire_parent:
  "run_prog clk (wire_parentP d fromID toID parents) s =
     (case wire_parent clk d fromID toID (parents, s) of
        (Inl e, ps) \<Rightarrow> (Inl e, snd ps) | (Inr _, ps) \<Rightarrow> (Inr (fst ps), snd ps))"
  by (simp add: wire_parentP_def wire_parent_def wrapf_def split: prod.split sum.split)

lemma run_wire_all:
  "run_prog clk (wire_allP st ds parents) s =
     (case each_until (wire_dep clk st) ds (parents, s) of (r, ps) \<Rightarrow> (r, snd ps))"
  by (induction ds arbitrary: parents s)
    (simp_all add: wire_dep_def run_wire_parent wrapf_def split: prod.split sum.split option.split)

lemma run_wire_external: "run_prog clk (wire_externalP pl st e) s = wire_external clk pl st e s"
  by (simp add: wire_externalP_def wire_external_def split: option.split) (intro allI impI run_each, simp)

lemma run_assign_pending: "run_prog clk (assign_pendingP st e) s = assign_pending clk st e s"
  by (simp add: assign_pendingP_def assign_pending_def)

lemma run_activate_step: "run_prog clk (activate_stepP st step) s = activate_step clk st step s"
  by (simp add: activate_stepP_def activate_step_def Let_def)

lemma run_finish_graph: "run_prog clk (finish_graphP pl st) s = finish_graph clk pl st s"
  by (simp add: finish_graphP_def finish_graph_def andThen_def wire_deps_def run_wire_all
      run_each [OF run_wire_external] run_each [OF run_assign_pending] run_each [OF run_activate_step]
      split: prod.split sum.split)

lemma run_instantiateP: "run_prog clk (instantiateP recipe opts) s = Instantiate clk recipe opts s"
  by (simp add: instantiateP_def Instantiate_def instantiateSequential_def run_finish_graph Let_def
      split: prod.split sum.split)

end
