(* ===== verification/Attach.thy ===== *)
theory Attach
  imports Store_Prog
begin

text \<open>
  Late expansion of a workflow: \<open>Attach\<close> (\<^verbatim>\<open>src/internal/molecule/molecule.go\<close>) grafts a recipe onto a
  bead as a sub-DAG, under an idempotency key and an epoch fence, with the resolution of conditional
  writes (\<^verbatim>\<open>src/internal/beads/conditional_writes_resolve.go\<close>, \<^verbatim>\<open>src/internal/rollout/gate/gate.go\<close>) and of the
  run root (\<^verbatim>\<open>src/internal/beadmeta/runid.go\<close>).  Each operation is a program of store calls, so that several
  processors can be interleaved.  The mode stamped on the store and the answer of its capability probe do
  not change while the store is open; they are parameters, and so is the regular-expression library.  The
  loops over an ID mapping run over the step IDs of the recipe, which are its keys.
\<close>

section \<open>Modes and capabilities\<close>

definition ModeUnset :: string where "ModeUnset = []"
definition Off :: string where "Off = ''off''"
definition Auto :: string where "Auto = ''auto''"
definition Require :: string where "Require = ''require''"

datatype Decision = UseLegacy | UseNew | DegradeLoud | RefuseClosed

definition ResolveCapability :: "string \<Rightarrow> (bool \<times> string) option \<Rightarrow> Decision \<times> string" where
  "ResolveCapability mode pred =
     (if mode = ModeUnset then (UseLegacy, ''mode unset; defaulted to off'')
      else if mode = Off then (UseLegacy, ''mode off'')
      else if mode = Auto \<or> mode = Require then
        let (capable, reason) = (case pred of None \<Rightarrow> (True, ''no capability predicate'') | Some answer \<Rightarrow> answer) in
        if capable then (UseNew, reason)
        else if mode = Require then (RefuseClosed, reason)
        else (DegradeLoud, reason)
      else (UseLegacy, ''unrecognized mode '' @ mode @ ''; defaulted to off''))"

record BeadsDiagnostic =
  bdStore :: string
  bdPreflightGate :: string
  bdPreflightReason :: string

text \<open>Whether there is a writer, the diagnostic, the refusal.\<close>

type_synonym resolution = "bool \<times> BeadsDiagnostic option \<times> ConvError option"

definition refuseOrDegrade :: "string \<Rightarrow> string \<Rightarrow> resolution" where
  "refuseOrDegrade mode reason =
     (False,
      Some \<lparr>bdStore = ''MemStore'', bdPreflightGate = ''conditional_writes'',
            bdPreflightReason = ''mode='' @ mode @ '': '' @ reason\<rparr>,
      if mode = Require then Some (ConvErrorf ''conditional_writes refused'' [''MemStore'', reason]) else None)"

definition ResolveConditionalWriter :: "string \<Rightarrow> bool \<times> string \<Rightarrow> resolution" where
  "ResolveConditionalWriter mode capability =
     (if mode = ModeUnset \<or> mode = Off then (False, None, None)
      else case ResolveCapability mode (Some capability) of (decision, reason) \<Rightarrow>
        (case decision of
           UseNew \<Rightarrow> (True, None, None)
         | DegradeLoud \<Rightarrow> refuseOrDegrade mode reason
         | RefuseClosed \<Rightarrow> refuseOrDegrade mode reason
         | UseLegacy \<Rightarrow> (False, None, None)))"

record attachEnv =
  aeMode :: string
  aeCapability :: "bool \<times> string"
  aeRegexp :: regexp

definition conditionalWriter :: "attachEnv \<Rightarrow> ConvError + bool" where
  "conditionalWriter env =
     (case ResolveConditionalWriter (aeMode env) (aeCapability env) of
        (writer, diag, Some e) \<Rightarrow> Inl e
      | (writer, diag, None) \<Rightarrow> Inr writer)"

section \<open>Keys, options and results\<close>

definition ControlEpochMetadataKey :: string where "ControlEpochMetadataKey = ''gc.control_epoch''"
definition AttachFencePendingMetadataKey :: string where "AttachFencePendingMetadataKey = ''gc.attach_fence_pending''"
definition IdempotencyKeyMetadataKey :: string where "IdempotencyKeyMetadataKey = ''gc.idempotency_key''"
definition RootStoreRefMetadataKey :: string where "RootStoreRefMetadataKey = ''gc.root_store_ref''"
definition attachFencePendingUnclaimed :: string where "attachFencePendingUnclaimed = ''true''"
definition attachFencePendingActivating :: string where "attachFencePendingActivating = ''activating''"
definition attachFencePendingFailed :: string where "attachFencePendingFailed = ''failed''"

lemmas attach_keys = ControlEpochMetadataKey_def AttachFencePendingMetadataKey_def IdempotencyKeyMetadataKey_def
  RootStoreRefMetadataKey_def attachFencePendingUnclaimed_def attachFencePendingActivating_def attachFencePendingFailed_def

record AttachOptions =
  aoTitle :: string
  aoVars :: strmap
  aoIdempotencyKey :: string
  aoExpectedEpoch :: int

record AttachResult =
  arRootID :: string
  arWorkflowRootID :: string
  arCreated :: nat
  arIDMapping :: strmap
  arDuplicate :: bool

definition ErrEpochConflict :: ConvError where
  "ErrEpochConflict = ConvErrorf ''attach epoch conflict'' []"

definition runIDChainKeys :: "string list" where
  "runIDChainKeys = [''workflow_id'', ''molecule_id'', RootBeadIDMetadataKey]"

definition ResolveRunID :: "strmap \<Rightarrow> string \<Rightarrow> string \<Rightarrow> string" where
  "ResolveRunID md selfID fallbackID =
     (case find (\<lambda>v. v \<noteq> []) (map (\<lambda>k. TrimSpace (mget md k)) runIDChainKeys) of
        Some v \<Rightarrow> v
      | None \<Rightarrow> if TrimSpace selfID \<noteq> [] then TrimSpace selfID else TrimSpace fallbackID)"

text \<open>The value \<open>strconv.Atoi\<close> returns when its error is dropped: 0 for what is not a number, the nearest
  int64 for what is out of range.\<close>

definition atoi_value :: "string \<Rightarrow> int" where
  "atoi_value s =
     (case atoi s of
        Some n \<Rightarrow> n
      | None \<Rightarrow>
          let (neg, ds) =
            (case s of [] \<Rightarrow> (False, [])
             | c # cs \<Rightarrow> if c = CHR ''-'' then (True, cs) else if c = CHR ''+'' then (False, cs) else (False, s))
          in case atoi_abs ds of None \<Rightarrow> 0 | Some n \<Rightarrow> if neg then - (2 ^ 63) else 2 ^ 63 - 1)"

lemma atoi_value_code [code]:
  "atoi_value [] = 0"
  "atoi_value (c # cs) =
     (case atoi (c # cs) of
        Some n \<Rightarrow> n
      | None \<Rightarrow>
          let (neg, ds) = (if c = CHR ''-'' then (True, cs) else if c = CHR ''+'' then (False, cs) else (False, c # cs))
          in case atoi_abs ds of None \<Rightarrow> 0 | Some n \<Rightarrow> if neg then - (2 ^ 63) else 2 ^ 63 - 1)"
  by (simp add: atoi_value_def atoi_def atoi_abs_def, simp only: atoi_value_def list.case)

definition marker :: "Bead \<Rightarrow> string" where
  "marker b = mget (Metadata b) AttachFencePendingMetadataKey"

definition mapping_ids :: "string list \<Rightarrow> strmap \<Rightarrow> string list" where
  "mapping_ids steps idMapping = map (mget idMapping) (filter (\<lambda>i. idMapping i \<noteq> None) (remdups steps))"

definition by_ID :: "Bead \<Rightarrow> Bead \<Rightarrow> bool" where
  "by_ID a b \<longleftrightarrow> ID a < ID b"

section \<open>Settling a candidate\<close>

definition claimAttachCandidate :: "string \<Rightarrow> string \<Rightarrow> string \<Rightarrow> bool result prog" where
  "claimAttachCandidate rootID old new = casP rootID AttachFencePendingMetadataKey old new"

fun markFailedReporting :: "string list \<Rightarrow> ConvError option \<Rightarrow> (ConvError + unit) prog" where
  "markFailedReporting [] firstErr = Return (case firstErr of None \<Rightarrow> Inr () | Some e \<Rightarrow> Inl e)"
| "markFailedReporting (i # ids) firstErr =
     bindP (storeP (unitP (CSetMetadataBatch i failed_batch))) (\<lambda>r.
       markFailedReporting ids
         (case (r, firstErr) of (Inl e, None) \<Rightarrow> Some (ConvWrap (''marking '' @ i @ '' molecule_failed'') e) | _ \<Rightarrow> firstErr))"

definition detachP :: "string \<Rightarrow> string \<Rightarrow> (ConvError + unit) prog" where
  "detachP attachBeadID rootID =
     bindP (storeP (unitP (CDepRemove attachBeadID rootID))) (\<lambda>r.
       Return (case r of Inl e \<Rightarrow> if IsNotFound e then Inr () else Inl e | Inr _ \<Rightarrow> Inr ()))"

definition finish_activation :: "string \<Rightarrow> (ConvError + unit) prog" where
  "finish_activation rootID =
     bindP (claimAttachCandidate rootID attachFencePendingActivating []) (\<lambda>r. case r of
        Inl e \<Rightarrow> Return (Inl (ConvWrap (''clearing fence-pending marker on '' @ rootID) (storeError e)))
      | Inr True \<Rightarrow> Return (Inr ())
      | Inr False \<Rightarrow>
          thenP (wrapP (''re-reading attach candidate '' @ rootID @ '' after activation'') (storeP (getP rootID))) (\<lambda>b.
            if marker b \<noteq> []
            then Return (Inl (ConvWrap (''attach candidate '' @ rootID @ '' marker moved to '' @ quoted (marker b)
                   @ '' during activation'') ErrEpochConflict))
            else Return (Inr ())))"

definition activate_ids :: "string \<Rightarrow> string list \<Rightarrow> (ConvError + unit) prog" where
  "activate_ids rootID ids =
     thenP (eachP (\<lambda>i. wrapP (''activating '' @ i) (activateFencedP i)) (sort_slice (<) (filter (\<lambda>i. i \<noteq> []) ids)))
       (\<lambda>_. finish_activation rootID)"

definition activateAttachCandidate :: "string \<Rightarrow> string list \<Rightarrow> (ConvError + unit) prog" where
  "activateAttachCandidate rootID ids =
     bindP (claimAttachCandidate rootID attachFencePendingUnclaimed attachFencePendingActivating) (\<lambda>r. case r of
        Inl e \<Rightarrow> Return (Inl (ConvWrap (''claiming attach candidate '' @ rootID @ '' for activation'') (storeError e)))
      | Inr True \<Rightarrow> activate_ids rootID ids
      | Inr False \<Rightarrow>
          thenP (wrapP (''re-reading contested attach candidate '' @ rootID) (storeP (getP rootID))) (\<lambda>b.
            if marker b = [] then Return (Inr ())
            else if marker b = attachFencePendingActivating then activate_ids rootID ids
            else Return (Inl (ConvWrap (''attach candidate '' @ rootID @ '' was neutralized before activation'') ErrEpochConflict))))"

section \<open>The steps of an existing sub-DAG\<close>

definition attachStepRefs :: "RecipeStep \<Rightarrow> string list" where
  "attachStepRefs step =
     (let ref = TrimSpace (mget (rsMetadata step) StepRefMetadataKey); i = TrimSpace (rsID step);
          refs = (if ref \<noteq> [] then [ref] else [])
      in if i \<noteq> [] \<and> i \<notin> set refs then refs @ [i] else refs)"

definition root_steps :: "Recipe \<Rightarrow> RecipeStep list" where
  "root_steps recipe = take 1 (rcSteps recipe) @ filter rsIsRoot (drop 1 (rcSteps recipe))"

definition wanted_steps :: "Recipe \<Rightarrow> RecipeStep list" where
  "wanted_steps recipe = filter (\<lambda>s. \<not> rsIsRoot s) (drop 1 (rcSteps recipe))"

definition bead_ref :: "Bead \<Rightarrow> string" where
  "bead_ref b = (let ref = TrimSpace (mget (Metadata b) StepRefMetadataKey) in if ref = [] then TrimSpace (Ref b) else ref)"

definition take_ref :: "Recipe \<Rightarrow> Bead \<Rightarrow> strmap \<Rightarrow> strmap" where
  "take_ref recipe b idMapping =
     (if mget (Metadata b) MoleculeFailedMetadataKey = ''true'' \<or> bead_ref b = [] then idMapping
      else foldl (\<lambda>im step. if bead_ref b \<in> set (attachStepRefs step) \<and> mget im (rsID step) = []
                            then im(rsID step \<mapsto> ID b) else im) idMapping (wanted_steps recipe))"

definition existingAttachIDMapping :: "Recipe \<Rightarrow> string \<Rightarrow> string \<Rightarrow> (ConvError + strmap) prog" where
  "existingAttachIDMapping recipe rootBeadID rootID =
     (let idMapping = foldl (\<lambda>im step. im(rsID step \<mapsto> rootID)) Map.empty (root_steps recipe) in
      if list_all (\<lambda>step. attachStepRefs step = []) (wanted_steps recipe) then Return (Inr idMapping)
      else thenP (storeP (listP (zero_ListQuery\<lparr>qMetadata := [(RootBeadIDMetadataKey, rootBeadID)], qTierMode := TierBoth\<rparr>)))
             (\<lambda>all. Return (Inr (foldl (\<lambda>im b. take_ref recipe b im) idMapping all))))"

section \<open>Advancing the epoch\<close>

definition current_epoch :: "Bead \<Rightarrow> int" where
  "current_epoch b = atoi_value (TrimSpace (mget (Metadata b) ControlEpochMetadataKey))"

definition advance_cas :: "string \<Rightarrow> int \<Rightarrow> bool result prog" where
  "advance_cas attachBeadID expectedEpoch =
     casP attachBeadID ControlEpochMetadataKey (itoa expectedEpoch) (itoa (wrap64 (expectedEpoch + 1)))"

definition lost_cleanly :: "bool result \<Rightarrow> bool" where
  "lost_cleanly r = (case r of Inl e \<Rightarrow> IsPreconditionFailed e | Inr ok \<Rightarrow> \<not> ok)"

definition advanceAttachEpochIfNeeded :: "attachEnv \<Rightarrow> string \<Rightarrow> int \<Rightarrow> (ConvError + unit) prog" where
  "advanceAttachEpochIfNeeded env attachBeadID expectedEpoch =
     (if expectedEpoch \<le> 0 then Return (Inr ())
      else thenP (storeP (getP attachBeadID)) (\<lambda>attachBead.
        if current_epoch attachBead \<noteq> expectedEpoch then Return (Inr ())
        else case conditionalWriter env of
          Inl e \<Rightarrow> Return (Inl (ConvWrap (''advancing epoch on '' @ attachBeadID) e))
        | Inr False \<Rightarrow> storeP (unitP (CSetMetadata attachBeadID ControlEpochMetadataKey (itoa (wrap64 (expectedEpoch + 1)))))
        | Inr True \<Rightarrow>
            bindP (advance_cas attachBeadID expectedEpoch) (\<lambda>r.
              if lost_cleanly r then
                thenP (storeP (getP attachBeadID)) (\<lambda>refreshed.
                  if current_epoch refreshed \<noteq> expectedEpoch then Return (Inr ())
                  else bindP (advance_cas attachBeadID expectedEpoch) (\<lambda>r2.
                    if lost_cleanly r2 then Return (Inr ())
                    else Return (case r2 of Inl e \<Rightarrow> Inl (storeError e) | Inr _ \<Rightarrow> Inr ())))
              else Return (case r of Inl e \<Rightarrow> Inl (storeError e) | Inr _ \<Rightarrow> Inr ()))))"

definition neutralize_lost :: "string \<Rightarrow> string \<Rightarrow> string list \<Rightarrow> (ConvError + unit) prog" where
  "neutralize_lost attachBeadID rootID createdIDs =
     bindP (claimAttachCandidate rootID attachFencePendingUnclaimed attachFencePendingFailed) (\<lambda>r. case r of
        Inl e \<Rightarrow> Return (Inl (ConvWrap (''epoch conflict on '' @ attachBeadID @ '' (claiming losing sub-DAG failed)'') ErrEpochConflict))
      | Inr False \<Rightarrow> Return (Inl ErrEpochConflict)
      | Inr True \<Rightarrow>
          bindP (markFailedReporting createdIDs None) (\<lambda>rm. case rm of
             Inl e \<Rightarrow> Return (Inl (ConvWrap (''epoch conflict on '' @ attachBeadID @ '' (neutralizing losing sub-DAG failed)'') ErrEpochConflict))
           | Inr _ \<Rightarrow>
               bindP (detachP attachBeadID rootID) (\<lambda>rd. Return (Inl (case rd of
                  Inl e \<Rightarrow> ConvWrap (''epoch conflict on '' @ attachBeadID @ '' (detaching losing sub-DAG failed)'') ErrEpochConflict
                | Inr _ \<Rightarrow> ErrEpochConflict)))))"

definition advanceAttachEpochFence :: "bool \<Rightarrow> string \<Rightarrow> int \<Rightarrow> string \<Rightarrow> string list \<Rightarrow> (ConvError + unit) prog" where
  "advanceAttachEpochFence writer attachBeadID expectedEpoch rootID createdIDs =
     (if \<not> writer
      then wrapP (''incrementing epoch on '' @ attachBeadID)
             (storeP (unitP (CSetMetadata attachBeadID ControlEpochMetadataKey (itoa (wrap64 (expectedEpoch + 1))))))
      else bindP (advance_cas attachBeadID expectedEpoch) (\<lambda>r.
        if lost_cleanly r then neutralize_lost attachBeadID rootID createdIDs
        else Return (case r of Inl e \<Rightarrow> Inl (ConvWrap (''incrementing epoch on '' @ attachBeadID) (storeError e)) | Inr _ \<Rightarrow> Inr ())))"

section \<open>Adopting an existing sub-DAG\<close>

definition adoptExistingAttach :: "attachEnv \<Rightarrow> Recipe \<Rightarrow> string \<Rightarrow> string \<Rightarrow> int \<Rightarrow> string \<Rightarrow> (ConvError + AttachResult) prog" where
  "adoptExistingAttach env recipe rootBeadID attachBeadID expectedEpoch existingID =
     thenP (storeP (depListP attachBeadID ''down'')) (\<lambda>ds.
       thenP (if list_ex (\<lambda>d. DependsOnID d = existingID \<and> DepType d = ''blocks'') ds then Return (Inr ())
              else storeP (unitP (CDepAdd attachBeadID existingID ''blocks''))) (\<lambda>_.
         thenP (advanceAttachEpochIfNeeded env attachBeadID expectedEpoch) (\<lambda>_.
           thenP (existingAttachIDMapping recipe rootBeadID existingID) (\<lambda>idMapping.
             Return (Inr \<lparr>arRootID = existingID, arWorkflowRootID = rootBeadID, arCreated = 0, arIDMapping = idMapping,
               arDuplicate = True\<rparr>)))))"

definition settle_and_adopt :: "attachEnv \<Rightarrow> Recipe \<Rightarrow> string \<Rightarrow> string \<Rightarrow> int \<Rightarrow> string \<Rightarrow> string \<Rightarrow> (ConvError + AttachResult) prog" where
  "settle_and_adopt env recipe rootBeadID attachBeadID expectedEpoch what candidateID =
     thenP (existingAttachIDMapping recipe rootBeadID candidateID) (\<lambda>idMapping.
       thenP (wrapP (what @ candidateID) (activateAttachCandidate candidateID (mapping_ids (map rsID (rcSteps recipe)) idMapping))) (\<lambda>_.
         adoptExistingAttach env recipe rootBeadID attachBeadID expectedEpoch candidateID))"

definition neutralize_loser :: "string \<Rightarrow> string \<Rightarrow> (ConvError + unit) prog" where
  "neutralize_loser attachBeadID loserID =
     bindP (claimAttachCandidate loserID attachFencePendingUnclaimed attachFencePendingFailed) (\<lambda>r. case r of
        Inl e \<Rightarrow> Return (Inl (ConvWrap (''claiming stale attach candidate '' @ loserID) (storeError e)))
      | Inr False \<Rightarrow> Return (Inl (ConvWrap (''attach recovery lost the claim on '' @ loserID @ '' (settled concurrently)'') ErrEpochConflict))
      | Inr True \<Rightarrow>
          thenP (wrapP (''neutralizing stale attach candidate '' @ loserID) (markFailedReporting [loserID] None)) (\<lambda>_.
            wrapP (''detaching stale attach candidate '' @ loserID) (detachP attachBeadID loserID)))"

definition is_candidate :: "string \<Rightarrow> string \<Rightarrow> Bead \<Rightarrow> bool" where
  "is_candidate key rootBeadID b \<longleftrightarrow>
     mget (Metadata b) IdempotencyKeyMetadataKey = key \<and> mget (Metadata b) RootBeadIDMetadataKey = rootBeadID"

definition is_neutralized :: "Bead \<Rightarrow> bool" where
  "is_neutralized b \<longleftrightarrow> mget (Metadata b) MoleculeFailedMetadataKey = ''true'' \<or> marker b = attachFencePendingFailed"

definition findExistingAttach :: "attachEnv \<Rightarrow> Recipe \<Rightarrow> string \<Rightarrow> string \<Rightarrow> string \<Rightarrow> int \<Rightarrow> (ConvError + AttachResult option) prog" where
  "findExistingAttach env recipe rootBeadID attachBeadID key expectedEpoch =
     thenP (storeP (listP (zero_ListQuery\<lparr>qMetadata := [(IdempotencyKeyMetadataKey, key), (RootBeadIDMetadataKey, rootBeadID)],
         qTierMode := TierBoth\<rparr>))) (\<lambda>all.
       let mine = filter (is_candidate key rootBeadID) all;
           standing = filter (\<lambda>b. \<not> is_neutralized b) mine;
           pending = filter (\<lambda>b. marker b = attachFencePendingUnclaimed) standing;
           activating = filter (\<lambda>b. marker b = attachFencePendingActivating) standing
       in case find (\<lambda>b. marker b \<notin> {attachFencePendingUnclaimed, attachFencePendingActivating}) standing of
            Some b \<Rightarrow> thenP (adoptExistingAttach env recipe rootBeadID attachBeadID expectedEpoch (ID b)) (\<lambda>r. Return (Inr (Some r)))
          | None \<Rightarrow>
              (case sort_slice by_ID activating of
                 survivor # _ \<Rightarrow>
                   thenP (settle_and_adopt env recipe rootBeadID attachBeadID expectedEpoch ''finishing claimed attach candidate '' (ID survivor))
                     (\<lambda>r. Return (Inr (Some r)))
               | [] \<Rightarrow>
                   (case sort_slice by_ID pending of
                      winner # losers \<Rightarrow>
                        thenP (eachP (neutralize_loser attachBeadID) (map ID losers)) (\<lambda>_.
                          thenP (settle_and_adopt env recipe rootBeadID attachBeadID expectedEpoch ''activating recovered attach candidate '' (ID winner))
                            (\<lambda>r. Return (Inr (Some r))))
                    | [] \<Rightarrow>
                        (case find is_neutralized mine of
                           Some b \<Rightarrow> Return (Inl (ConvErrorf ''existing attach root is marked molecule_failed'' [ID b, key]))
                         | None \<Rightarrow> Return (Inr None)))))"

section \<open>Attach\<close>

definition fence_writer :: "attachEnv \<Rightarrow> string \<Rightarrow> int \<Rightarrow> Bead \<Rightarrow> ConvError + bool" where
  "fence_writer env attachBeadID expectedEpoch parentBead =
     (if expectedEpoch > 0 then
        let raw = mget (Metadata parentBead) ControlEpochMetadataKey;
            currentEpoch = (if raw \<noteq> [] then atoi_value raw else 0)
        in if currentEpoch \<noteq> expectedEpoch then Inl ErrEpochConflict
           else (case conditionalWriter env of
                   Inl e \<Rightarrow> Inl (ConvWrap (''epoch fence on '' @ attachBeadID) e)
                 | Inr w \<Rightarrow> Inr w)
      else Inr False)"

definition stamp_step :: "string \<Rightarrow> string \<Rightarrow> RecipeStep \<Rightarrow> RecipeStep" where
  "stamp_step rootBeadID rootStoreRef step =
     (let md = (rsMetadata step)(RootBeadIDMetadataKey \<mapsto> rootBeadID) in
      step\<lparr>rsMetadata := (if rootStoreRef \<noteq> [] then md(RootStoreRefMetadataKey \<mapsto> rootStoreRef) else md)\<rparr>)"

definition stamp_root :: "string \<Rightarrow> bool \<Rightarrow> RecipeStep \<Rightarrow> RecipeStep" where
  "stamp_root key fencedDeferred step =
     (let md1 = (if key \<noteq> [] then (rsMetadata step)(IdempotencyKeyMetadataKey \<mapsto> key) else rsMetadata step) in
      step\<lparr>rsMetadata := (if fencedDeferred then md1(AttachFencePendingMetadataKey \<mapsto> ''true'') else md1)\<rparr>)"

definition stamp_recipe :: "string \<Rightarrow> string \<Rightarrow> string \<Rightarrow> bool \<Rightarrow> Recipe \<Rightarrow> Recipe" where
  "stamp_recipe rootBeadID rootStoreRef key fencedDeferred recipe =
     recipe\<lparr>rcSteps := (case map (stamp_step rootBeadID rootStoreRef) (rcSteps recipe) of
        [] \<Rightarrow> []
      | root # steps \<Rightarrow> stamp_root key fencedDeferred root # steps)\<rparr>"

definition attach_new :: "attachEnv \<Rightarrow> Recipe \<Rightarrow> string \<Rightarrow> AttachOptions \<Rightarrow> Bead \<Rightarrow> string \<Rightarrow> bool \<Rightarrow> (ConvError + AttachResult) prog" where
  "attach_new env recipe attachBeadID opts parentBead rootBeadID writer =
     (let fencedDeferred = (aoExpectedEpoch opts > 0 \<and> writer);
          stamped = stamp_recipe rootBeadID (mget (Metadata parentBead) RootStoreRefMetadataKey) (aoIdempotencyKey opts) fencedDeferred recipe;
          ids = (\<lambda>result. mapping_ids (map rsID (rcSteps recipe)) (resIDMapping result))
      in thenP (wrapP ''instantiate'' (instantiateP stamped (zero_Options\<lparr>oTitle := aoTitle opts, oVars := aoVars opts,
             oPriorityOverride := Priority parentBead, oPreserveRootType := True, oDeferAssignees := fencedDeferred\<rparr>))) (\<lambda>result.
           thenP (wrapP (''dep '' @ attachBeadID @ '' -> '' @ resRootID result)
               (storeP (unitP (CDepAdd attachBeadID (resRootID result) ''blocks'')))) (\<lambda>_.
             thenP (if aoExpectedEpoch opts > 0
                    then thenP (advanceAttachEpochFence writer attachBeadID (aoExpectedEpoch opts) (resRootID result) (ids result)) (\<lambda>_.
                           if fencedDeferred
                           then wrapP (''activating fenced attach '' @ resRootID result)
                                  (activateAttachCandidate (resRootID result) (ids result))
                           else Return (Inr ()))
                    else Return (Inr ())) (\<lambda>_.
               Return (Inr \<lparr>arRootID = resRootID result, arWorkflowRootID = rootBeadID, arCreated = resCreated result,
                 arIDMapping = resIDMapping result, arDuplicate = False\<rparr>)))))"

definition Attach :: "attachEnv \<Rightarrow> Recipe \<Rightarrow> string \<Rightarrow> AttachOptions \<Rightarrow> (ConvError + AttachResult) prog" where
  "Attach env recipe attachBeadID opts =
     (if attachBeadID = [] then Return (Inl (ConvErrorf ''attach bead ID is required'' []))
      else thenP (wrapP (''attach bead '' @ attachBeadID) (storeP (getP attachBeadID))) (\<lambda>parentBead.
        let rootBeadID = ResolveRunID (Metadata parentBead) attachBeadID [] in
        thenP (if aoIdempotencyKey opts \<noteq> []
               then wrapP ''idempotency check''
                      (findExistingAttach env recipe rootBeadID attachBeadID (aoIdempotencyKey opts) (aoExpectedEpoch opts))
               else Return (Inr None)) (\<lambda>existing.
          case existing of
            Some r \<Rightarrow> Return (Inr r)
          | None \<Rightarrow>
              (case fence_writer env attachBeadID (aoExpectedEpoch opts) parentBead of
                 Inl e \<Rightarrow> Return (Inl e)
               | Inr writer \<Rightarrow>
                   (case ValidateRecipeRuntimeVars (aeRegexp env) recipe (zero_Options\<lparr>oTitle := aoTitle opts, oVars := aoVars opts\<rparr>) of
                      Inl e \<Rightarrow> Return (Inl (ConvWrap ''validate runtime vars'' e))
                    | Inr _ \<Rightarrow> attach_new env recipe attachBeadID opts parentBead rootBeadID writer)))))"

end
