(* ===== verification/Attach_Laws.thy ===== *)
theory Attach_Laws
  imports Attach Molecule_Laws Mem_Ready
begin

text \<open>
  Reasoning about programs of store calls.  \<open>all_calls\<close> says which calls a program can make, whatever the
  replies; a relation that every such call respects is respected by a run of the program alone and by
  every interleaving of such programs (locale \<open>call_rel\<close>).  \<open>must\<close> says that a program cannot return
  certain results unless a certain call got a certain reply.  The instances for \<open>Attach\<close> follow.
\<close>

section \<open>What a program can call\<close>

primrec all_calls :: "(storeCall \<Rightarrow> bool) \<Rightarrow> 'a prog \<Rightarrow> bool" where
  "all_calls P (Return x) = True"
| "all_calls P (Call c k) = (P c \<and> (\<forall>r. all_calls P (k r)))"

lemma all_bind: "all_calls P p \<Longrightarrow> (\<And>x. all_calls P (f x)) \<Longrightarrow> all_calls P (bindP p f)"
  by (induction p) auto

lemma all_then: "all_calls P p \<Longrightarrow> (\<And>x. all_calls P (f x)) \<Longrightarrow> all_calls P (thenP p f)"
  unfolding thenP_def by (rule all_bind) (auto split: sum.split)

lemma all_store: "all_calls P p \<Longrightarrow> all_calls P (storeP p)"
  unfolding storeP_def by (rule all_bind) auto

lemma all_wrap: "all_calls P p \<Longrightarrow> all_calls P (wrapP msg p)"
  unfolding wrapP_def by (rule all_bind) auto

lemma all_each: "(\<And>x. x \<in> set xs \<Longrightarrow> all_calls P (f x)) \<Longrightarrow> all_calls P (eachP f xs)"
  by (induction xs) (auto intro: all_then)

lemma all_call [simp]:
  "all_calls P (getP i) = P (CGet i)"
  "all_calls P (listP q) = P (CList q)"
  "all_calls P (depListP i dir) = P (CDepList i dir)"
  "all_calls P (createP b) = P (CCreate b)"
  "all_calls P (unitP c) = P c"
  "all_calls P (casP i k old new) = P (CCompareAndSet i k old new)"
  by (simp_all add: getP_def listP_def depListP_def createP_def unitP_def casP_def)

lemma all_mono: "all_calls P p \<Longrightarrow> (\<And>c. P c \<Longrightarrow> Q c) \<Longrightarrow> all_calls Q p"
  by (induction p) auto

lemmas all_intros = all_then all_store all_wrap all_each all_bind

locale call_rel =
  fixes P :: "storeCall \<Rightarrow> bool" and R :: "MemStore \<Rightarrow> MemStore \<Rightarrow> bool"
  assumes same: "R m m"
    and chain: "R m m' \<Longrightarrow> R m' m'' \<Longrightarrow> R m m''"
    and call: "P c \<Longrightarrow> R m (snd (exec_call now c m))"
begin

lemma exec: "P c \<Longrightarrow> exec_at clk c s = (r, s') \<Longrightarrow> R (fst s) (fst s')"
  using call [of c "fst s" "clk (snd s)"] by (auto simp: exec_at_def split: prod.splits)

lemma run: "all_calls P p \<Longrightarrow> run_prog clk p s = (x, s') \<Longrightarrow> R (fst s) (fst s')"
proof (induction p arbitrary: s)
  case (Call c k)
  obtain r s1 where e: "exec_at clk c s = (r, s1)" by (meson surj_pair)
  with Call have "R (fst s1) (fst s')" by (auto intro: Call.IH [OF rangeI])
  with exec [OF _ e] Call.prems(1) show ?case by (auto intro: chain)
qed (simp add: same)

lemma step:
  assumes "\<forall>p \<in> set (fst c). all_calls P p"
  shows "R (fst (snd c)) (fst (snd (proc_step clk i c))) \<and> (\<forall>p \<in> set (fst (proc_step clk i c)). all_calls P p)"
proof (cases "i < length (fst c)")
  case True
  then have p: "all_calls P (fst c ! i)" using assms by simp
  show ?thesis
  proof (cases "fst c ! i")
    case (Call d k)
    obtain r s' where e: "exec_at clk d (snd c) = (r, s')" by (meson surj_pair)
    have "\<forall>q \<in> set ((fst c)[i := k r]). all_calls P q"
      using assms p Call set_update_subset_insert [of "fst c" i "k r"] by auto
    with exec [OF _ e] p Call e True show ?thesis by (simp add: proc_step_def)
  qed (use assms True in \<open>simp add: proc_step_def same\<close>)
qed (use assms in \<open>simp add: proc_step_def same\<close>)

lemma interleaved:
  assumes "\<forall>p \<in> set (fst c). all_calls P p" and "interleave clk sched c = c'"
  shows "R (fst (snd c)) (fst (snd c')) \<and> (\<forall>p \<in> set (fst c'). all_calls P p)"
  using assms
proof (induction sched arbitrary: c)
  case (Cons i sched)
  from step [OF Cons.prems(1), of clk i] Cons.IH [of "proc_step clk i c"] Cons.prems(2) show ?case
    by (auto intro: chain)
qed (simp add: same)

end

section \<open>What a result takes\<close>

primrec must :: "(storeCall \<Rightarrow> reply \<Rightarrow> bool) \<Rightarrow> ('a \<Rightarrow> bool) \<Rightarrow> 'a prog \<Rightarrow> bool" where
  "must E Q (Return x) = (\<not> Q x)"
| "must E Q (Call c k) = (\<forall>r. E c r \<or> must E Q (k r))"

lemma must_bind: "must E (\<lambda>x. \<not> must E Q (f x)) p \<Longrightarrow> must E Q (bindP p f)"
  by (induction p) auto

lemma must_never: "(\<And>x. \<not> Q x) \<Longrightarrow> must E Q p"
  by (induction p) auto

lemma must_tail: "(\<And>x. must E Q (f x)) \<Longrightarrow> must E Q (bindP p f)"
  by (rule must_bind, rule must_never) simp

lemma must_mono: "must E Q p \<Longrightarrow> (\<And>x. Q' x \<Longrightarrow> Q x) \<Longrightarrow> must E Q' p"
  by (induction p) auto

lemma must_then:
  assumes "must E (\<lambda>x. \<exists>y. x = Inr y \<and> \<not> must E Q (f y)) p" and "\<And>e. \<not> Q (Inl e)"
  shows "must E Q (thenP p f)"
proof -
  have "must E (\<lambda>x. \<not> must E Q (case x of Inl e \<Rightarrow> Return (Inl e) | Inr y \<Rightarrow> f y)) p"
    using assms(1) by (rule must_mono) (use assms(2) in \<open>auto split: sum.splits\<close>)
  then show ?thesis unfolding thenP_def by (rule must_bind)
qed

lemma must_wrap:
  assumes "must E (\<lambda>x. \<exists>y. x = Inr y \<and> Q (Inr y)) p" and "\<And>e. \<not> Q (Inl e)"
  shows "must E Q (wrapP msg p)"
proof -
  have "must E (\<lambda>x. \<not> must E Q (Return (case x of Inl e \<Rightarrow> Inl (ConvWrap msg e) | Inr y \<Rightarrow> Inr y))) p"
    using assms(1) by (rule must_mono) (use assms(2) in \<open>auto split: sum.splits\<close>)
  then show ?thesis unfolding wrapP_def by (rule must_bind)
qed

lemma must_then_tail: "(\<And>y. must E Q (f y)) \<Longrightarrow> (\<And>e. \<not> Q (Inl e)) \<Longrightarrow> must E Q (thenP p f)"
  by (rule must_then, rule must_never) auto

text \<open>The calls of one processor in a trace lead from its program to what is left of it.\<close>

inductive path :: "'a prog \<Rightarrow> (storeCall \<times> reply) list \<Rightarrow> 'a prog \<Rightarrow> bool" where
  path_here: "path p [] p"
| path_call: "path (k r) es q \<Longrightarrow> path (Call c k) ((c, r) # es) q"

lemma path_must: "path p es q \<Longrightarrow> q = Return x \<Longrightarrow> must E Q p \<Longrightarrow> Q x \<Longrightarrow> \<exists>(c, r) \<in> set es. E c r"
  by (induction rule: path.induct) auto

definition calls_of :: "nat \<Rightarrow> (nat \<times> storeCall \<times> reply) list \<Rightarrow> (storeCall \<times> reply) list" where
  "calls_of i es = map snd (filter (\<lambda>e. fst e = i) es)"

lemma calls_of_simps [simp]:
  "calls_of i [] = []"
  "calls_of i (e # es) = (if fst e = i then snd e # calls_of i es else calls_of i es)"
  by (simp_all add: calls_of_def)

lemma trace_path:
  assumes "interleave clk sched c = c'" and "i < length (fst c)"
  shows "path (fst c ! i) (calls_of i (trace clk sched c)) (fst c' ! i)"
  using assms
proof (induction sched arbitrary: c)
  case (Cons j sched)
  have "length (fst (proc_step clk j c)) = length (fst c)"
    by (cases "fst c ! j") (simp_all add: proc_step_def case_prod_unfold)
  with Cons have IH: "path (fst (proc_step clk j c) ! i) (calls_of i (trace clk sched (proc_step clk j c))) (fst c' ! i)" by simp
  show ?case
  proof (cases "fst c ! j")
    case (Return x)
    with IH show ?thesis by (simp add: proc_step_def split: if_splits)
  next
    case (Call d k)
    obtain r s' where e: "exec_at clk d (snd c) = (r, s')" by (meson surj_pair)
    show ?thesis
    proof (cases "i = j")
      case True
      with IH Cons.prems Call e have "path (k r) (calls_of i (trace clk sched (proc_step clk j c))) (fst c' ! i)"
        by (simp add: proc_step_def)
      then show ?thesis using True Cons.prems Call e by (simp add: path_call)
    next
      case False
      then have "fst (proc_step clk j c) ! i = fst c ! i" using Call e by (simp add: proc_step_def)
      moreover have "calls_of i (trace clk (j # sched) c) = calls_of i (trace clk sched (proc_step clk j c))"
        using False Call by simp
      ultimately show ?thesis using IH by (simp only:)
    qed
  qed
qed (simp add: path_here)

section \<open>The beads under the calls of Attach\<close>

definition each_bead :: "(Bead \<Rightarrow> Bead \<Rightarrow> bool) \<Rightarrow> MemStore \<Rightarrow> MemStore \<Rightarrow> bool" where
  "each_bead Q m m' \<longleftrightarrow> (\<forall>i b. find_bead i m = Some b \<longrightarrow> (\<exists>b'. find_bead i m' = Some b' \<and> Q b b'))"

lemma each_bead_same: "(\<And>b. Q b b) \<Longrightarrow> each_bead Q m m"
  by (simp add: each_bead_def)

lemma each_bead_chain:
  assumes "\<And>a b c. Q a b \<Longrightarrow> Q b c \<Longrightarrow> Q a c" and "each_bead Q m m'" and "each_bead Q m' m''"
  shows "each_bead Q m m''"
  using assms unfolding each_bead_def by meson

lemma each_bead_modify:
  assumes "\<And>b. Q b b" and "\<And>b. ID (f b) = ID b" and "\<And>b. find_bead i m = Some b \<Longrightarrow> Q b (f b)"
  shows "each_bead Q m (modify_bead i f m)"
  using assms by (auto simp: each_bead_def)

lemma each_bead_exec:
  assumes same: "\<And>b. Q b b"
    and update: "\<And>i upd b. c = CUpdate i upd \<Longrightarrow> Q b (apply_update now upd b)"
    and set: "\<And>i k v b. c = CSetMetadata i k v \<Longrightarrow> Q b (cas_bead now k v b)"
    and batch: "\<And>i kvs b. c = CSetMetadataBatch i kvs \<Longrightarrow>
      Q b (b\<lparr>Metadata := mput_all (Metadata b) kvs, UpdatedAt := now, Revision := Revision b + 1\<rparr>)"
    and cas: "\<And>i k old new b. c = CCompareAndSet i k old new \<Longrightarrow> mget (Metadata b) k = old \<Longrightarrow> Q b (cas_bead now k new b)"
  shows "each_bead Q m (snd (exec_call now c m))"
proof (cases c)
  case (CCreate b)
  with same show ?thesis by (auto simp: each_bead_def Create_def Let_def find_bead_def find_append_Some)
next
  case (CUpdate i upd)
  with same update show ?thesis by (auto simp: Update_find each_bead_same intro!: each_bead_modify split: option.split)
next
  case (CSetMetadata i k v)
  with same set show ?thesis
    by (auto simp: SetMetadata_def each_bead_same cas_bead_def intro!: each_bead_modify split: option.split)
next
  case (CSetMetadataBatch i kvs)
  with same batch show ?thesis
    by (auto simp: SetMetadataBatch_def each_bead_same intro!: each_bead_modify split: option.split)
next
  case (CCompareAndSet i k old new)
  with same cas show ?thesis
    by (auto simp: CompareAndSetMetadataKey_find each_bead_same cas_bead_def intro!: each_bead_modify split: option.split)
next
  case (CDepAdd i j t)
  with same show ?thesis by (auto simp: each_bead_def DepAdd_def find_bead_def split: option.split)
qed (use same in \<open>auto simp: each_bead_def DepRemove_def find_bead_def\<close>)

text \<open>The calls \<open>Attach\<close> can make, when it is asked for epochs in \<open>E\<close>; \<open>legacy\<close> when it has no conditional writer.  Only a
  positive epoch is advanced, to its successor as a 64-bit integer.\<close>

definition fence_keys :: "string set" where
  "fence_keys = {AttachFencePendingMetadataKey, ControlEpochMetadataKey}"

definition settles :: "string \<Rightarrow> string \<Rightarrow> bool" where
  "settles a b \<longleftrightarrow> a = b
     \<or> a = attachFencePendingUnclaimed \<and> b \<in> {attachFencePendingActivating, attachFencePendingFailed, []}
     \<or> a = attachFencePendingActivating \<and> b = []"

definition epoch_step :: "int set \<Rightarrow> string \<Rightarrow> string \<Rightarrow> bool" where
  "epoch_step E s t \<longleftrightarrow> (\<exists>n \<in> E. 0 < n \<and> s = itoa n \<and> t = itoa (wrap64 (n + 1)))"

definition attach_call :: "int set \<Rightarrow> bool \<Rightarrow> storeCall \<Rightarrow> bool" where
  "attach_call E legacy c = (case c of
     CUpdate i upd \<Rightarrow> uStatus upd = None \<and> fst ` set (uMetadata upd) \<inter> fence_keys = {}
   | CSetMetadata i k v \<Rightarrow> legacy
   | CSetMetadataBatch i kvs \<Rightarrow> fst ` set kvs \<inter> fence_keys = {}
   | CCompareAndSet i k old new \<Rightarrow> k = AttachFencePendingMetadataKey \<and> settles old new
       \<or> k = ControlEpochMetadataKey \<and> epoch_step E old new
   | _ \<Rightarrow> True)"

lemma attach_call_simps [simp]:
  "attach_call E l (CGet i)" "attach_call E l (CList q)" "attach_call E l (CDepList i d)" "attach_call E l (CCreate b)"
  "attach_call E l (CDepAdd i j t)" "attach_call E l (CDepRemove i j)"
  "attach_call E l (CSetMetadata i k v) = l"
  "attach_call E l (CSetMetadataBatch i failed_batch)"
  "attach_call E l (CUpdate i (zero_UpdateOpts\<lparr>uParentID := p\<rparr>))"
  "attach_call E l (CUpdate i (zero_UpdateOpts\<lparr>uAssignee := p\<rparr>))"
  "attach_call E l (CUpdate i (deferredRoutingActivationUpdate b))"
  "n \<in> E \<Longrightarrow> 0 < n \<Longrightarrow> attach_call E l (CCompareAndSet i ControlEpochMetadataKey (itoa n) (itoa (wrap64 (n + 1))))"
  by (auto simp: attach_call_def epoch_step_def failed_batch_def fence_keys_def zero_UpdateOpts_def deferredRoutingActivationUpdate_def Let_def
      attach_keys molecule_keys)

lemma claim_calls [simp]:
  "all_calls (attach_call E l) (claimAttachCandidate i attachFencePendingUnclaimed attachFencePendingActivating)"
  "all_calls (attach_call E l) (claimAttachCandidate i attachFencePendingUnclaimed attachFencePendingFailed)"
  "all_calls (attach_call E l) (claimAttachCandidate i attachFencePendingActivating [])"
  by (simp_all add: claimAttachCandidate_def attach_call_def settles_def)

lemma markFailed_calls [simp]: "all_calls (attach_call E l) (markFailedP ids)"
  by (induction ids) (simp_all add: all_bind)

lemma reporting_calls [simp]: "all_calls (attach_call E l) (markFailedReporting ids e)"
  by (induction ids arbitrary: e) (simp_all add: all_bind all_store)

lemma activateFenced_calls [simp]: "all_calls (attach_call E l) (activateFencedP i)"
  unfolding activateFencedP_def Let_def by (intro all_then all_store) (auto intro: all_store)

lemma create_steps_calls [simp]: "all_calls (attach_call E l) (create_stepsP pl steps st)"
  by (induction steps arbitrary: st) (auto simp: Let_def intro!: all_bind all_store split: sum.split)

lemma wire_calls [simp]: "all_calls (attach_call E l) (wire_allP st ds parents)"
  by (induction ds arbitrary: parents)
    (auto simp: wire_parentP_def intro!: all_then all_wrap all_store split: option.split)

lemma instantiate_calls [simp]: "all_calls (attach_call E l) (instantiateP recipe opts)"
  by (auto simp: instantiateP_def finish_graphP_def wire_externalP_def assign_pendingP_def activate_stepP_def Let_def
      intro!: all_intros split: sum.split option.split)

lemma activate_calls [simp]: "all_calls (attach_call E l) (activateAttachCandidate i ids)"
  by (auto simp: activateAttachCandidate_def activate_ids_def finish_activation_def
      intro!: all_intros split: sum.split bool.split)

lemma mapping_calls [simp]: "all_calls (attach_call E l) (existingAttachIDMapping recipe root i)"
  by (auto simp: existingAttachIDMapping_def Let_def intro!: all_intros)

lemma advance_calls [simp]:
  "(conditionalWriter env = Inr False \<Longrightarrow> l) \<Longrightarrow> (0 < e \<Longrightarrow> e \<in> E) \<Longrightarrow> all_calls (attach_call E l) (advanceAttachEpochIfNeeded env att e)"
  by (auto simp: advanceAttachEpochIfNeeded_def advance_cas_def intro!: all_intros split: sum.split bool.split)

lemma detach_calls [simp]: "all_calls (attach_call E l) (detachP att i)"
  by (simp add: detachP_def all_bind all_store)

lemma fence_calls [simp]: "(\<not> w \<Longrightarrow> l) \<Longrightarrow> e \<in> E \<Longrightarrow> 0 < e \<Longrightarrow> all_calls (attach_call E l) (advanceAttachEpochFence w att e i ids)"
  by (auto simp: advanceAttachEpochFence_def neutralize_lost_def advance_cas_def intro!: all_intros split: sum.split bool.split)

lemma adopt_calls [simp]:
  "(conditionalWriter env = Inr False \<Longrightarrow> l) \<Longrightarrow> (0 < e \<Longrightarrow> e \<in> E) \<Longrightarrow> all_calls (attach_call E l) (adoptExistingAttach env recipe root att e i)"
  by (auto simp: adoptExistingAttach_def intro!: all_intros)

lemma settle_calls [simp]:
  "(conditionalWriter env = Inr False \<Longrightarrow> l) \<Longrightarrow> (0 < e \<Longrightarrow> e \<in> E) \<Longrightarrow> all_calls (attach_call E l) (settle_and_adopt env recipe root att e what i)"
  by (auto simp: settle_and_adopt_def intro!: all_intros)

lemma loser_calls [simp]: "all_calls (attach_call E l) (neutralize_loser att i)"
  by (auto simp: neutralize_loser_def intro!: all_intros split: sum.split bool.split)

lemma find_calls [simp]:
  "(conditionalWriter env = Inr False \<Longrightarrow> l) \<Longrightarrow> (0 < e \<Longrightarrow> e \<in> E) \<Longrightarrow> all_calls (attach_call E l) (findExistingAttach env recipe root att key e)"
  by (auto simp: findExistingAttach_def Let_def intro!: all_intros split: option.split list.split)

lemma attach_new_calls:
  "(aoExpectedEpoch opts > 0 \<Longrightarrow> \<not> w \<Longrightarrow> l) \<Longrightarrow> (aoExpectedEpoch opts > 0 \<Longrightarrow> aoExpectedEpoch opts \<in> E) \<Longrightarrow> all_calls (attach_call E l) (attach_new env recipe att opts parent root w)"
  by (auto simp: attach_new_def Let_def intro!: all_intros fence_calls)

lemma attach_calls:
  "(conditionalWriter env = Inr False \<Longrightarrow> l) \<Longrightarrow> (aoExpectedEpoch opts > 0 \<Longrightarrow> aoExpectedEpoch opts \<in> E) \<Longrightarrow> all_calls (attach_call E l) (Attach env recipe att opts)"
  by (auto simp: Attach_def Let_def fence_writer_def intro!: all_intros attach_new_calls find_calls split: sum.splits option.split if_splits)

section \<open>What the calls of Attach respect\<close>

definition epoch_text :: "Bead \<Rightarrow> string" where
  "epoch_text b = mget (Metadata b) ControlEpochMetadataKey"

definition later :: "string \<Rightarrow> string \<Rightarrow> bool" where
  "later s t \<longleftrightarrow> s = t \<or> (\<exists>n k. n < k \<and> s = itoa n \<and> t = itoa k)"

definition fence_order :: "int set \<Rightarrow> Bead \<Rightarrow> Bead \<Rightarrow> bool" where
  "fence_order E b b' \<longleftrightarrow> settles (marker b) (marker b') \<and> (epoch_step E)\<^sup>*\<^sup>* (epoch_text b) (epoch_text b')"

lemma settles_trans: "settles a b \<Longrightarrow> settles b c \<Longrightarrow> settles a c"
  by (auto simp: settles_def attach_keys)

lemma later_trans: "later a b \<Longrightarrow> later b c \<Longrightarrow> later a c"
  unfolding later_def by (metis itoa_inj less_trans)

text \<open>Below the largest 64-bit integer an advanced epoch has grown.\<close>

lemma later_steps:
  assumes "(epoch_step E)\<^sup>*\<^sup>* s t" and "\<forall>n \<in> E. n < 2 ^ 63 - 1"
  shows "later s t"
  using assms(1)
proof (induction rule: rtranclp_induct)
  case (step t u)
  then obtain n where "n \<in> E" "0 < n" "t = itoa n" "u = itoa (wrap64 (n + 1))" by (auto simp: epoch_step_def)
  moreover from this assms(2) have "wrap64 (n + 1) = n + 1" by (intro wrap64_id) (auto simp: in_int64_def)
  ultimately have "later t u" by (auto simp: later_def intro!: exI [of _ n] exI [of _ "n + 1"])
  with step(3) show ?case by (rule later_trans)
qed (simp add: later_def)

lemma mget_other: "k \<notin> fst ` set kvs \<Longrightarrow> mget (mput_all md kvs) k = mget md k"
  by (simp add: mget_def mput_all_other)

lemma fence_keys_kept:
  assumes "fst ` set kvs \<inter> fence_keys = {}" and "Metadata b' = mput_all (Metadata b) kvs"
  shows "fence_order E b b'"
proof -
  have "AttachFencePendingMetadataKey \<notin> fst ` set kvs" "ControlEpochMetadataKey \<notin> fst ` set kvs"
    using assms(1) unfolding fence_keys_def by blast+
  then show ?thesis by (simp add: fence_order_def marker_def epoch_text_def assms(2) mget_other settles_def)
qed

lemma update_Metadata [simp]:
  "Metadata (apply_update now upd b) = mput_all (Metadata b) (uMetadata upd)"
  "uStatus upd = None \<Longrightarrow> Status (apply_update now upd b) = Status b"
  by (simp_all add: apply_update_def set_opt_def)

interpretation reached: call_rel "\<lambda>c. True" "mem_step\<^sup>*\<^sup>*"
proof unfold_locales
  fix c now and m :: MemStore
  show "mem_step\<^sup>*\<^sup>* m (snd (exec_call now c m))"
    by (cases c) (auto intro: mem_step.intros)
qed auto

interpretation standing: call_rel "attach_call E l" "each_bead (\<lambda>b b'. Status b' = Status b)" for E l
  by unfold_locales (auto simp: each_bead_same attach_call_def cas_bead_def intro!: each_bead_exec elim: each_bead_chain [rotated])

interpretation fenced: call_rel "attach_call E False" "each_bead (fence_order E)" for E
proof unfold_locales
  fix c now m assume c: "attach_call E False c"
  show "each_bead (fence_order E) m (snd (exec_call now c m))"
  proof (rule each_bead_exec)
    fix i upd and b :: Bead assume "c = CUpdate i upd"
    with c show "fence_order E b (apply_update now upd b)"
      by (intro fence_keys_kept) (auto simp: attach_call_def)
  next
    fix i kvs and b :: Bead assume "c = CSetMetadataBatch i kvs"
    with c show "fence_order E b (b\<lparr>Metadata := mput_all (Metadata b) kvs, UpdatedAt := now, Revision := Revision b + 1\<rparr>)"
      by (intro fence_keys_kept) (auto simp: attach_call_def)
  next
    fix i k old new and b :: Bead assume cas: "c = CCompareAndSet i k old new" "mget (Metadata b) k = old"
    show "fence_order E b (cas_bead now k new b)"
    proof (cases "k = ControlEpochMetadataKey")
      case True
      then have "(epoch_step E)\<^sup>*\<^sup>* old new" using c cas by (auto simp: attach_call_def attach_keys)
      with True cas show ?thesis
        by (simp add: fence_order_def marker_def epoch_text_def cas_bead_def settles_def attach_keys mget_def)
    next
      case False
      with c cas show ?thesis
        by (auto simp: attach_call_def fence_order_def marker_def epoch_text_def cas_bead_def attach_keys mget_def)
    qed
  qed (use c in \<open>auto simp: attach_call_def fence_order_def settles_def\<close>)
next
  fix m m' m'' assume "each_bead (fence_order E) m m'" "each_bead (fence_order E) m' m''"
  then show "each_bead (fence_order E) m m''"
    by (rule each_bead_chain [rotated]) (auto simp: fence_order_def intro: settles_trans rtranclp_trans)
qed (auto intro!: each_bead_same simp: fence_order_def settles_def)

section \<open>The fence\<close>

definition wins :: "string \<Rightarrow> int \<Rightarrow> storeCall \<Rightarrow> reply \<Rightarrow> bool" where
  "wins att e c r \<longleftrightarrow> c = CCompareAndSet att ControlEpochMetadataKey (itoa e) (itoa (wrap64 (e + 1))) \<and> r = RBool (Inr True)"

text \<open>A new sub-DAG is returned only by the winner of the fence.\<close>

lemma fence_must: "must (wins att e) (\<lambda>x. \<exists>y. x = Inr y) (advanceAttachEpochFence True att e i ids)"
proof -
  have lost: "must (wins att e) (\<lambda>x. \<exists>y. x = Inr y) (neutralize_lost att i ids)"
    unfolding neutralize_lost_def by (auto split: sum.split bool.split intro!: must_tail)
  show ?thesis
    using lost by (auto simp: advanceAttachEpochFence_def advance_cas_def casP_def lost_cleanly_def wins_def split: reply.splits sum.splits)
qed

lemma new_must:
  assumes "aoExpectedEpoch opts > 0"
  shows "must (wins att (aoExpectedEpoch opts)) (\<lambda>x. \<exists>r. x = Inr r \<and> \<not> arDuplicate r) (attach_new env recipe att opts parent root True)"
proof -
  have "must (wins att (aoExpectedEpoch opts)) (\<lambda>x. \<exists>y. x = Inr y)
      (thenP (advanceAttachEpochFence True att (aoExpectedEpoch opts) i ids) f)" for i ids and f :: "unit \<Rightarrow> (ConvError + unit) prog"
    by (rule must_then, rule must_mono [OF fence_must]) auto
  then have "must (wins att (aoExpectedEpoch opts)) (\<lambda>x. \<exists>r. x = Inr r \<and> \<not> arDuplicate r)
      (thenP (thenP (advanceAttachEpochFence True att (aoExpectedEpoch opts) i ids) f) g)"
    for i ids f and g :: "unit \<Rightarrow> (ConvError + AttachResult) prog"
    by (rule must_then [OF must_mono]) auto
  with assms show ?thesis by (simp add: attach_new_def Let_def must_then_tail)
qed

text \<open>What is found is a duplicate.\<close>

lemma adopt_must: "must E (\<lambda>x. \<exists>r. x = Inr r \<and> \<not> arDuplicate r) (adoptExistingAttach env recipe root att e i)"
  by (auto simp: adoptExistingAttach_def intro!: must_then_tail)

lemma settle_must: "must E (\<lambda>x. \<exists>r. x = Inr r \<and> \<not> arDuplicate r) (settle_and_adopt env recipe root att e what i)"
  by (auto simp: settle_and_adopt_def intro!: must_then_tail adopt_must)

lemma find_must:
  "must E (\<lambda>x. \<exists>r. x = Inr (Some r) \<and> \<not> arDuplicate r) (findExistingAttach env recipe root att key e)"
proof -
  have some: "must E (\<lambda>x. \<exists>r. x = Inr (Some r) \<and> \<not> arDuplicate r) (thenP p (\<lambda>r. Return (Inr (Some r))))"
    if "must E (\<lambda>x. \<exists>r. x = Inr r \<and> \<not> arDuplicate r) p" for p :: "(ConvError + AttachResult) prog"
    by (rule must_then [OF must_mono [OF that]]) auto
  show ?thesis
    by (auto simp: findExistingAttach_def Let_def intro!: must_then_tail some adopt_must settle_must split: option.split list.split)
qed

lemma attach_must:
  assumes "conditionalWriter env = Inr True" and "aoExpectedEpoch opts > 0"
  shows "must (wins att (aoExpectedEpoch opts)) (\<lambda>x. \<exists>r. x = Inr r \<and> \<not> arDuplicate r) (Attach env recipe att opts)"
proof -
  let ?Q = "\<lambda>x. \<exists>r. x = Inr r \<and> \<not> arDuplicate r"
  have rest: "must (wins att (aoExpectedEpoch opts)) ?Q (case fence_writer env att (aoExpectedEpoch opts) parent of
      Inl e \<Rightarrow> Return (Inl e)
    | Inr w \<Rightarrow> (case v of Inl e \<Rightarrow> Return (Inl (ConvWrap msg e)) | Inr _ \<Rightarrow> attach_new env recipe att opts parent root w))"
    for parent root msg and v :: "ConvError + unit"
    using assms new_must [OF assms(2)] by (auto simp: fence_writer_def Let_def split: sum.splits if_splits)
  have found: "must (wins att (aoExpectedEpoch opts)) (\<lambda>x. \<exists>y. x = Inr y \<and> (\<exists>r. y = Some r \<and> \<not> arDuplicate r))
      (if b then wrapP ''idempotency check'' (findExistingAttach env recipe root att key e) else Return (Inr None))" for b root key e
    by (auto intro!: must_wrap must_mono [OF find_must])
  show ?thesis unfolding Attach_def Let_def
    by (auto intro!: must_then_tail must_then [OF must_mono [OF found]] simp: rest split: option.splits)
qed

text \<open>The fence is passed at most once per epoch: the calls that win it in a trace.  An epoch never comes back, although it wraps: every
  call that advances it raises its rank, and no call advances an epoch that has wrapped to a negative number.\<close>

definition epoch_rank :: "int \<Rightarrow> int" where
  "epoch_rank n = (if 2 ^ 63 \<le> n then 0 else if n \<le> 0 then 2 ^ 63 else n)"

lemma epoch_rank_next: "0 < n \<Longrightarrow> epoch_rank n < epoch_rank (wrap64 (n + 1))"
  using wrap64_in_int64 [of "n + 1"] wrap64_id [of "n + 1"]
  by (cases "n < 2 ^ 63 - 1"; cases "n = 2 ^ 63 - 1") (auto simp: epoch_rank_def in_int64_def wrap64_def)

lemma epoch_rank_steps: "(epoch_step E)\<^sup>*\<^sup>* (itoa n) t \<Longrightarrow> \<exists>k. t = itoa k \<and> epoch_rank n \<le> epoch_rank k"
proof (induction rule: rtranclp_induct)
  case (step t u)
  then obtain k where "t = itoa k" "epoch_rank n \<le> epoch_rank k" by blast
  with step(2) epoch_rank_next [of k] show ?case by (auto simp: epoch_step_def itoa_inj)
qed blast

definition past :: "string \<Rightarrow> int \<Rightarrow> MemStore \<Rightarrow> bool" where
  "past att e m \<longleftrightarrow> (\<exists>b n. find_bead att m = Some b \<and> epoch_text b = itoa n \<and> epoch_rank e < epoch_rank n)"

lemma past_kept: "past att e m \<Longrightarrow> each_bead (fence_order E) m m' \<Longrightarrow> past att e m'"
  unfolding past_def each_bead_def fence_order_def by (metis epoch_rank_steps order_less_le_trans)

lemma wins_past:
  assumes "wins att e c (fst (exec_at clk c s))" and "0 < e"
  shows "\<not> past att e (fst s) \<and> past att e (fst (snd (exec_at clk c s)))"
  using assms epoch_rank_next [OF assms(2)]
  by (auto simp: wins_def exec_at_def past_def epoch_text_def CompareAndSetMetadataKey_find cas_bead_def mget_def
      split: option.splits if_splits)

lemma fence_once:
  assumes "\<forall>p \<in> set (fst c). all_calls (attach_call E False) p" and e: "0 < e"
  shows "length (filter (\<lambda>(i, d, r). wins att e d r) (trace clk sched c)) \<le> (if past att e (fst (snd c)) then 0 else 1)"
  using assms(1)
proof (induction sched arbitrary: c)
  case (Cons i sched)
  note step = fenced.step [OF Cons.prems, of clk i]
  then have IH: "length (filter (\<lambda>(i, d, r). wins att e d r) (trace clk sched (proc_step clk i c)))
      \<le> (if past att e (fst (snd (proc_step clk i c))) then 0 else 1)" using Cons.IH by blast
  have kept: "past att e (fst (snd c)) \<Longrightarrow> past att e (fst (snd (proc_step clk i c)))" using step past_kept by blast
  show ?case
  proof (cases "i < length (fst c) \<and> (\<exists>d k. fst c ! i = Call d k \<and> wins att e d (fst (exec_at clk d (snd c))))")
    case True
    then obtain d k where d: "fst c ! i = Call d k" "wins att e d (fst (exec_at clk d (snd c)))" and i: "i < length (fst c)" by blast
    from wins_past [OF d(2) e] have "\<not> past att e (fst (snd c))" "past att e (fst (snd (proc_step clk i c)))"
      using d i by (simp_all add: proc_step_def case_prod_unfold)
    with IH d i show ?thesis by simp
  next
    case False
    then have "filter (\<lambda>(i, d, r). wins att e d r) (trace clk (i # sched) c) = filter (\<lambda>(i, d, r). wins att e d r) (trace clk sched (proc_step clk i c))"
      by (cases "i < length (fst c)"; cases "fst c ! i") simp_all
    with IH have "length (filter (\<lambda>(i, d, r). wins att e d r) (trace clk (i # sched) c))
        \<le> (if past att e (fst (snd (proc_step clk i c))) then 0 else 1)" by (simp only:)
    also have "\<dots> \<le> (if past att e (fst (snd c)) then 0 else 1)" using kept by simp
    finally show ?thesis .
  qed
qed simp

section \<open>The blocking edge\<close>

definition is_open :: "string \<Rightarrow> MemStore \<Rightarrow> bool" where
  "is_open i m \<longleftrightarrow> (\<exists>b. find_bead i m = Some b \<and> Status b \<noteq> ''closed'')"

definition blocked_on :: "string \<Rightarrow> string \<Rightarrow> MemStore \<Rightarrow> bool" where
  "blocked_on att i m \<longleftrightarrow> is_open i m \<and> (\<exists>d \<in> set (deps m). IssueID d = att \<and> DependsOnID d = i \<and> DepType d = ''blocks'')"

definition quiet_call :: "storeCall \<Rightarrow> bool" where
  "quiet_call c = (case c of CDepAdd i j t \<Rightarrow> False | CDepRemove i j \<Rightarrow> False | _ \<Rightarrow> True)"

interpretation edges: call_rel quiet_call "\<lambda>m m'. set (deps m) \<subseteq> set (deps m')"
proof unfold_locales
  fix c now and m :: MemStore assume "quiet_call c"
  then show "set (deps m) \<subseteq> set (deps (snd (exec_call now c m)))"
    by (cases c) (auto simp: quiet_call_def Create_def Let_def Update_find SetMetadata_def SetMetadataBatch_def
        CompareAndSetMetadataKey_find split: option.split)
qed auto

text \<open>What a program run alone guarantees of its result.\<close>

definition holds :: "(MemStore \<Rightarrow> bool) \<Rightarrow> 'a prog \<Rightarrow> ('a \<Rightarrow> MemStore \<Rightarrow> bool) \<Rightarrow> bool" where
  "holds I p Q \<longleftrightarrow> (\<forall>clk s x s'. I (fst s) \<longrightarrow> run_prog clk p s = (x, s') \<longrightarrow> Q x (fst s'))"

definition ensures :: "(MemStore \<Rightarrow> bool) \<Rightarrow> ('e + 'a) prog \<Rightarrow> ('a \<Rightarrow> MemStore \<Rightarrow> bool) \<Rightarrow> bool" where
  "ensures I p Q \<longleftrightarrow> holds I p (\<lambda>x m. \<forall>y. x = Inr y \<longrightarrow> Q y m)"

lemma ensures_then: "ensures I p J \<Longrightarrow> (\<And>y. ensures (J y) (f y) Q) \<Longrightarrow> ensures I (thenP p f) Q"
  unfolding ensures_def holds_def by (fastforce split: prod.splits sum.splits)

lemma ensures_wrap: "ensures I p Q \<Longrightarrow> ensures I (wrapP msg p) Q"
  unfolding ensures_def holds_def by (fastforce simp: wrapf_def split: prod.splits sum.splits)

lemma ensures_Return: "(\<And>y m. x = Inr y \<Longrightarrow> I m \<Longrightarrow> Q y m) \<Longrightarrow> ensures I (Return x) Q"
  by (simp add: ensures_def holds_def)

lemma ensures_weaken: "ensures I p Q \<Longrightarrow> (\<And>m. I' m \<Longrightarrow> I m) \<Longrightarrow> (\<And>y m. Q y m \<Longrightarrow> Q' y m) \<Longrightarrow> ensures I' p Q'"
  unfolding ensures_def holds_def by blast

lemma ensures_conj: "ensures I p Q \<Longrightarrow> ensures J p R \<Longrightarrow> ensures (\<lambda>m. I m \<and> J m) p (\<lambda>y m. Q y m \<and> R y m)"
  unfolding ensures_def holds_def by blast

lemma must_run: "must (\<lambda>c r. False) N p \<Longrightarrow> run_prog clk p s = (x, s') \<Longrightarrow> \<not> N x"
  by (induction p arbitrary: s) (fastforce split: prod.splits)+

lemma ensures_never:
  assumes "must (\<lambda>c r. False) (\<lambda>x. \<exists>y. x = Inr y) p"
  shows "ensures I p Q"
  unfolding ensures_def holds_def
proof (intro allI impI)
  fix clk s x s' y assume "run_prog clk p s = (x, s')" and "x = Inr y"
  then show "Q y (fst s')" using must_run [OF assms, of clk s x s'] by simp
qed

lemma ensuresI: "(\<And>clk s y s'. I (fst s) \<Longrightarrow> run_prog clk p s = (Inr y, s') \<Longrightarrow> Q y (fst s')) \<Longrightarrow> ensures I p Q"
  unfolding ensures_def holds_def by blast

lemma ensuresD: "ensures I p Q \<Longrightarrow> I (fst s) \<Longrightarrow> run_prog clk p s = (Inr y, s') \<Longrightarrow> Q y (fst s')"
  unfolding ensures_def holds_def by blast

lemma wf_run: "mem_step\<^sup>*\<^sup>* m m' \<Longrightarrow> mem_wf m \<Longrightarrow> mem_wf m'"
  by (induction rule: rtranclp_induct) (auto intro: mem_wf_step)

lemma reached_run: "run_prog clk p s = (x, s') \<Longrightarrow> mem_step\<^sup>*\<^sup>* (fst s) (fst s')"
proof -
  have "all_calls (\<lambda>c. True) p" by (induction p) auto
  then show "run_prog clk p s = (x, s') \<Longrightarrow> mem_step\<^sup>*\<^sup>* (fst s) (fst s')" by (rule reached.run)
qed

lemma ensures_wf: "ensures mem_wf p (\<lambda>y. mem_wf)"
  by (rule ensuresI) (rule wf_run [OF reached_run])

lemma ensures_open:
  assumes "all_calls (attach_call E l) p"
  shows "ensures (is_open i) p (\<lambda>y. is_open i)"
proof (rule ensuresI)
  fix clk s y s' assume o: "is_open i (fst s)" and "run_prog clk p s = (Inr y, s')"
  then have "each_bead (\<lambda>b b'. Status b' = Status b) (fst s) (fst s')" using standing.run [OF assms] by simp
  with o show "is_open i (fst s')" unfolding is_open_def each_bead_def by fastforce
qed

lemma ensures_blocked:
  assumes "all_calls (attach_call E l) p" and "all_calls quiet_call p"
  shows "ensures (blocked_on att i) p (\<lambda>y. blocked_on att i)"
proof (rule ensuresI)
  fix clk s y s' assume b: "blocked_on att i (fst s)" and r: "run_prog clk p s = (Inr y, s')"
  then show "blocked_on att i (fst s')"
    using ensuresD [OF ensures_open [OF assms(1)] _ r] edges.run [OF assms(2) r] unfolding blocked_on_def by blast
qed

lemma depAdd_edge: "depAdd_loop i j t ds = Some ds' \<Longrightarrow> \<exists>d \<in> set ds'. IssueID d = i \<and> DependsOnID d = j \<and> DepType d = t"
  by (induction i j t ds arbitrary: ds' rule: depAdd_loop.induct) (auto split: if_splits)

lemma ensures_edge: "ensures (is_open i) (storeP (unitP (CDepAdd att i ''blocks''))) (\<lambda>y. blocked_on att i)"
  unfolding ensures_def holds_def run_calls
  by (auto simp: timed_def DepAdd_def blocked_on_def is_open_def find_bead_def dest: depAdd_edge split: option.splits)

lemma adopt_blocks: "ensures (is_open i) (adoptExistingAttach env recipe root att e i) (\<lambda>r m. blocked_on att (arRootID r) m)"
proof -
  have listed: "ensures (is_open i) (storeP (depListP att ''down''))
      (\<lambda>ds m. is_open i m \<and> (list_ex (\<lambda>d. DependsOnID d = i \<and> DepType d = ''blocks'') ds \<longrightarrow> blocked_on att i m))"
    by (auto simp: ensures_def holds_def storeP_def depListP_def exec_at_def DepList_def blocked_on_def storeResult_def list_ex_iff
        split: prod.splits)
  have wired: "ensures (\<lambda>m. is_open i m \<and> (c \<longrightarrow> blocked_on att i m))
      (if c then Return (Inr ()) else storeP (unitP (CDepAdd att i ''blocks''))) (\<lambda>y. blocked_on att i)" for c
    by (auto intro: ensures_Return ensures_weaken [OF ensures_edge])
  have advance: "ensures (blocked_on att i) (advanceAttachEpochIfNeeded env att e) (\<lambda>y. blocked_on att i)"
    by (rule ensures_blocked [of UNIV True])
      (auto simp: advanceAttachEpochIfNeeded_def advance_cas_def quiet_call_def intro!: all_intros split: sum.split bool.split)
  have mapping: "ensures (blocked_on att i) (existingAttachIDMapping recipe root i) (\<lambda>y. blocked_on att i)"
    by (rule ensures_blocked [of UNIV True])
      (auto simp: existingAttachIDMapping_def Let_def quiet_call_def intro!: all_intros)
  show ?thesis unfolding adoptExistingAttach_def
    by (rule ensures_then [OF listed] ensures_then [OF wired] ensures_then [OF advance] ensures_then [OF mapping] ensures_Return)+ auto
qed

lemma settle_blocks: "ensures (is_open i) (settle_and_adopt env recipe root att e what i) (\<lambda>r m. blocked_on att (arRootID r) m)"
  unfolding settle_and_adopt_def
  by (rule ensures_then [OF ensures_open] ensures_then [OF ensures_wrap [OF ensures_open]] adopt_blocks mapping_calls activate_calls)+

lemma listed_open:
  assumes "qStatus q = []" and "\<not> qIncludeClosed q"
  shows "ensures mem_wf (storeP (listP q)) (\<lambda>all m. \<forall>b \<in> set all. is_open (ID b) m)"
proof -
  have "is_open (ID b) m" if l: "List' q m = Inr all" and b: "b \<in> set all" and wf: "mem_wf m" for all b m
  proof -
    have "b \<in> set (beads m)" "Status b \<noteq> ''closed''"
      using List'_in [OF l b] assms by (auto simp: Matches_def split: if_splits)
    then show ?thesis using wf by (auto simp: is_open_def find_bead_iff mem_wf_def)
  qed
  then show ?thesis
    by (auto simp: ensures_def holds_def storeP_def listP_def exec_at_def storeResult_def split: prod.splits sum.splits)
qed

lemma find_blocks:
  "ensures mem_wf (findExistingAttach env recipe root att key e) (\<lambda>x m. \<forall>r. x = Some r \<longrightarrow> blocked_on att (arRootID r) m)"
proof -
  let ?Q = "\<lambda>x m. \<forall>r. x = Some r \<longrightarrow> blocked_on att (arRootID r) m"
  have some: "ensures I (thenP p (\<lambda>r. Return (Inr (Some r)))) ?Q" if "ensures I p (\<lambda>r m. blocked_on att (arRootID r) m)"
    for I and p :: "(ConvError + AttachResult) prog"
    by (rule ensures_then [OF that]) (auto intro: ensures_Return)
  have settle: "ensures (is_open i) (thenP (settle_and_adopt env recipe root att e what i) (\<lambda>r. Return (Inr (Some r)))) ?Q" for what i
    by (rule some, rule settle_blocks)
  have losers: "ensures (is_open i) (thenP (eachP (neutralize_loser att) ids)
      (\<lambda>_. thenP (settle_and_adopt env recipe root att e what i) (\<lambda>r. Return (Inr (Some r))))) ?Q" for what i ids
    by (rule ensures_then [OF ensures_open settle], rule all_each, rule loser_calls)
  show ?thesis
    unfolding findExistingAttach_def Let_def
  proof (rule ensures_then [OF listed_open], goal_cases)
    case (3 all)
    have one: "ensures (\<lambda>m. \<forall>b \<in> set all. is_open (ID b) m) p Q"
      if "ensures (is_open (ID b)) p Q" "b \<in> set all" for b p and Q :: "AttachResult option \<Rightarrow> MemStore \<Rightarrow> bool"
      using that by (auto intro: ensures_weaken)
    have sorted: "b \<in> set xs" if "sort_slice by_ID xs = b # bs" for b bs and xs :: "Bead list"
      using that set_sort_slice [of by_ID xs] by auto
    have found: "b \<in> set xs" if "find P xs = Some b" for b P and xs :: "Bead list"
      using that by (auto simp: find_Some_iff)
    show ?case
      by (auto split: option.split list.split intro!: ensures_Return
          intro: one [OF some [OF adopt_blocks]] one [OF settle] one [OF losers] dest!: sorted found)
  qed (simp_all add: zero_ListQuery_def)
qed

text \<open>Every bead a recipe creates stays open while it is instantiated.\<close>

interpretation opened: planned "recipe\<lparr>rcSteps := root # rest\<rparr>" opts root rest i0 "\<lambda>b. Status b = ''open''" "{}"
  for recipe opts root rest i0
  by unfold_locales (auto simp: made_def pass_ok_def deferredRoutingActivationUpdate_def Let_def zero_UpdateOpts_def)

lemma instantiate_opens: "ensures mem_wf (instantiateP recipe opts) (\<lambda>res. is_open (resRootID res))"
proof (rule ensuresI)
  fix clk s res s' assume wf: "mem_wf (fst s)" and "run_prog clk (instantiateP recipe opts) s = (Inr res, s')"
  then have run: "Instantiate clk recipe opts (fst s, snd s) = (Inr res, s')" by (simp add: run_instantiateP)
  then obtain root rest where "rcSteps recipe = root # rest" by (cases "rcSteps recipe") (auto simp: Instantiate_def)
  then have r: "recipe = recipe\<lparr>rcSteps := root # rest\<rparr>" using same_steps by metis
  then have "Instantiate clk (recipe\<lparr>rcSteps := root # rest\<rparr>) opts (fst s, snd s) = (Inr res, s')" using run by simp
  from opened.instantiate_grown [OF this wf refl empty_subsetI]
  obtain ids where g: "grown (fst s) ids (\<lambda>b. Status b = ''open'') (fst s')" and "ids \<noteq> []" "hd ids = resRootID res" by auto
  then have "resRootID res \<in> set ids" by (metis list.set_sel(1))
  from grown_find [OF g this] show "is_open (resRootID res) (fst s')" by (auto simp: is_open_def)
qed

lemma activation_blocked: "ensures (blocked_on att i) (activateAttachCandidate j ids) (\<lambda>y. blocked_on att i)"
proof (rule ensures_blocked [OF activate_calls [of UNIV True]])
  have "all_calls quiet_call (activateFencedP k)" for k
    by (auto simp: activateFencedP_def Let_def quiet_call_def intro!: all_intros)
  then show "all_calls quiet_call (activateAttachCandidate j ids)"
    by (auto simp: activateAttachCandidate_def activate_ids_def finish_activation_def claimAttachCandidate_def quiet_call_def
        intro!: all_intros split: sum.split bool.split)
qed

lemma fence_blocked:
  assumes "0 < e"
  shows "ensures (blocked_on att i) (advanceAttachEpochFence w att e i ids) (\<lambda>y. blocked_on att i)"
proof (cases w)
  case False
  then show ?thesis unfolding advanceAttachEpochFence_def
    by (auto simp: quiet_call_def intro!: ensures_wrap ensures_blocked [of UNIV True] all_intros)
next
  case True
  have lost: "must (\<lambda>c r. False) (\<lambda>x. \<exists>y. x = Inr y) (neutralize_lost att i ids)"
    unfolding neutralize_lost_def by (auto split: sum.split bool.split intro!: must_tail)
  show ?thesis
  proof (rule ensuresI)
    fix clk s y s' assume b: "blocked_on att i (fst s)"
      and "run_prog clk (advanceAttachEpochFence w att e i ids) s = (Inr y, s')"
    then have run: "run_prog clk (bindP (advance_cas att e) (\<lambda>r. if lost_cleanly r then neutralize_lost att i ids
        else Return (case r of Inl e \<Rightarrow> Inl (ConvWrap (''incrementing epoch on '' @ att) (storeError e)) | Inr _ \<Rightarrow> Inr ()))) s = (Inr y, s')"
      using True by (simp add: advanceAttachEpochFence_def)
    obtain r s1 where c: "run_prog clk (advance_cas att e) s = (r, s1)" by (meson surj_pair)
    have "\<not> lost_cleanly r"
    proof
      assume "lost_cleanly r"
      with run c have "run_prog clk (neutralize_lost att i ids) s1 = (Inr y, s')" by simp
      from must_run [OF lost this] show False by simp
    qed
    with run c have r: "run_prog clk (advance_cas att e) s = (Inr y', s')" if "r = Inr y'" for y' using that by (auto split: sum.splits)
    moreover from \<open>\<not> lost_cleanly r\<close> run c obtain y' where "r = Inr y'" by (auto split: sum.splits)
    ultimately show "blocked_on att i (fst s')"
      using ensuresD [OF ensures_blocked [of UNIV True "advance_cas att e"] b] assms by (simp add: advance_cas_def quiet_call_def)
  qed
qed

lemma new_blocks: "ensures mem_wf (attach_new env recipe att opts parent root w) (\<lambda>r m. blocked_on att (arRootID r) m)"
proof -
  have fence: "ensures (blocked_on att i) (if 0 < e then thenP (advanceAttachEpochFence w att e i ids)
      (\<lambda>_. if d then wrapP msg (activateAttachCandidate i ids) else Return (Inr ())) else Return (Inr ())) (\<lambda>y. blocked_on att i)"
    for i d e ids msg
    by (auto intro: ensures_Return ensures_then [OF fence_blocked] ensures_wrap activation_blocked)
  show ?thesis unfolding attach_new_def Let_def
    by (rule ensures_then [OF ensures_wrap [OF instantiate_opens]] ensures_then [OF ensures_wrap [OF ensures_edge]] ensures_then [OF fence])+
      (auto intro: ensures_Return)
qed

lemma attach_blocks: "ensures mem_wf (Attach env recipe att opts) (\<lambda>r m. blocked_on att (arRootID r) m)"
proof -
  have found: "ensures mem_wf (if b then wrapP msg (findExistingAttach env recipe root att key e) else Return (Inr None))
      (\<lambda>x m. mem_wf m \<and> (\<forall>r. x = Some r \<longrightarrow> blocked_on att (arRootID r) m))" for b msg root key e
    by (auto intro!: ensures_Return ensures_wrap ensures_weaken [OF ensures_conj [OF ensures_wf find_blocks]])
  have rest: "ensures (\<lambda>m. mem_wf m \<and> (\<forall>r. existing = Some r \<longrightarrow> blocked_on att (arRootID r) m))
      (case existing of Some r \<Rightarrow> Return (Inr r)
       | None \<Rightarrow> (case w of Inl e \<Rightarrow> Return (Inl e) | Inr w' \<Rightarrow>
          (case v of Inl e \<Rightarrow> Return (Inl (ConvWrap msg e)) | Inr _ \<Rightarrow> attach_new env recipe att opts parent root w')))
      (\<lambda>r m. blocked_on att (arRootID r) m)" for existing parent root msg and w :: "ConvError + bool" and v :: "ConvError + unit"
    by (auto split: option.split sum.split intro!: ensures_Return intro: ensures_weaken [OF new_blocks])
  have start: "ensures mem_wf (wrapP msg (storeP (getP att))) (\<lambda>y. mem_wf)" for msg by (rule ensures_wf)
  show ?thesis unfolding Attach_def Let_def
    by (cases "att = []") (auto intro!: ensures_Return ensures_then [OF start] ensures_then [OF found] rest)
qed

end
