(* ===== verification/Attach_Properties.thy ===== *)
theory Attach_Properties
  imports Attach_Laws
begin

text \<open>
  The properties of \<open>Attach\<close> under any interleaving of any number of processors, crashes included: the fence
  has one winner per epoch and a candidate settles once.  Run alone, an attached sub-DAG holds its bead back
  from the ready queue.  Three concrete schedules show what the protocol does not exclude.
\<close>

section \<open>Processors\<close>

type_synonym attachRequest = "Recipe \<times> string \<times> AttachOptions"

definition attach_procs :: "attachEnv \<Rightarrow> attachRequest list \<Rightarrow> (ConvError + AttachResult) prog list" where
  "attach_procs env reqs = map (\<lambda>(recipe, att, opts). Attach env recipe att opts) reqs"

text \<open>The processors that were asked to attach to the bead at the epoch and returned a new sub-DAG.\<close>

definition is_winner :: "string \<Rightarrow> int \<Rightarrow> attachRequest \<Rightarrow> (ConvError + AttachResult) prog \<Rightarrow> bool" where
  "is_winner att e req p \<longleftrightarrow>
     fst (snd req) = att \<and> aoExpectedEpoch (snd (snd req)) = e \<and> (case p of Return (Inr r) \<Rightarrow> \<not> arDuplicate r | _ \<Rightarrow> False)"

definition winners :: "string \<Rightarrow> int \<Rightarrow> attachRequest list \<Rightarrow> (ConvError + AttachResult) prog list \<Rightarrow> nat list" where
  "winners att e reqs ps = filter (\<lambda>i. is_winner att e (reqs ! i) (ps ! i)) [0..<length reqs]"

section \<open>A small workflow\<close>

definition demo_step :: "string \<Rightarrow> bool \<Rightarrow> RecipeStep" where
  "demo_step i root = \<lparr>rsID = i, rsTitle = i, rsDescription = [], rsNotes = [], rsType = ''task'', rsPriority = None, rsLabels = [],
     rsAssignee = (if root then [] else ''worker''), rsIsRoot = root, rsMetadata = Map.empty, rsGate = None\<rparr>"

definition demo_recipe :: "string list \<Rightarrow> Recipe" where
  "demo_recipe steps = \<lparr>rcName = ''fix'', rcDescription = [], rcSteps = demo_step ''fix'' True # map (\<lambda>i. demo_step i False) steps,
     rcDeps = [], rcVars = [], rcPhase = [], rcPour = False, rcRootOnly = False, rcContentHash = [], rcFormulaSource = []\<rparr>"

definition demo_env :: attachEnv where
  "demo_env = \<lparr>aeMode = Require, aeCapability = (True, []), aeRegexp = (\<lambda>p t. Some True)\<rparr>"

definition demo_request :: "string list \<Rightarrow> attachRequest" where
  "demo_request steps = (demo_recipe steps, ''gc-1'', \<lparr>aoTitle = [], aoVars = Map.empty, aoIdempotencyKey = ''k'', aoExpectedEpoch = 1\<rparr>)"

definition demo_control :: MemStore where
  "demo_control = snd (Create 10 (zero_Bead\<lparr>Title := ''control'', Type := ''task'', Metadata := [ControlEpochMetadataKey \<mapsto> ''1'']\<rparr>) NewMemStore)"

definition demo_clock :: clock where
  "demo_clock n = 100 + int n"

text \<open>What is seen of a bead: its id, its type, its marker, whether it is marked failed and its key.\<close>

definition bead_view :: "Bead \<Rightarrow> string \<times> string \<times> string \<times> bool \<times> string" where
  "bead_view b = (ID b, Type b, marker b, mget (Metadata b) MoleculeFailedMetadataKey = ''true'', mget (Metadata b) IdempotencyKeyMetadataKey)"

definition outcome_view :: "(ConvError + AttachResult) prog \<Rightarrow> (ConvError + string \<times> bool) option" where
  "outcome_view p = (case p of Call c k \<Rightarrow> None | Return (Inl e) \<Rightarrow> Some (Inl e) | Return (Inr r) \<Rightarrow> Some (Inr (arRootID r, arDuplicate r)))"

definition attach_run :: "string list \<Rightarrow> nat list \<Rightarrow> nat \<Rightarrow> MemStore \<Rightarrow> (ConvError + string \<times> bool) option list \<times> (string \<times> string \<times> string \<times> bool \<times> string) list" where
  "attach_run steps sched n m = (case interleave demo_clock sched (attach_procs demo_env (replicate n (demo_request steps)), m, 0) of
     (ps, s) \<Rightarrow> (map outcome_view ps, map bead_view (beads (fst s))))"

lemma demo_conditional: "conditionalWriter demo_env = Inr True"
  by code_simp

text \<open>Two processors race: the second passes the fence while the first has only looked.\<close>

lemma demo_race:
  "attach_run [] (replicate 2 0 @ replicate 9 1 @ replicate 7 0) 2 demo_control =
     ([Some (Inl ErrEpochConflict), Some (Inr (''gc-2'', False))],
      [(''gc-1'', ''task'', [], False, []), (''gc-2'', ''task'', [], False, ''k''), (''gc-3'', ''gate'', ''failed'', True, ''k'')])"
  by code_simp

section \<open>Every interleaving\<close>

text \<open>C3: the epoch fence elects one winner.  Let any number of processors run \<open>Attach\<close>, each with its own recipe,
  key and expected epoch, with their store calls interleaved in any way and any of them stopping for good
  anywhere, on a store with conditional writes.  Then at most one of those that expect the same positive epoch
  of the same bead returns a sub-DAG of its own; the others return a conflict, another error or the sub-DAG of
  somebody else.\<close>

theorem attach_one_winner:
  assumes "conditionalWriter env = Inr True" and "0 < e"
  shows "length (winners att e reqs (fst (interleave clk sched (attach_procs env reqs, s)))) \<le> 1"
proof (rule ccontr)
  let ?c = "(attach_procs env reqs, s)"
  let ?ps = "fst (interleave clk sched ?c)" and ?es = "filter (\<lambda>(i, d, r). wins att e d r) (trace clk sched ?c)"
  assume many: "\<not> ?thesis"
  have event: "\<exists>d r. (i, d, r) \<in> set ?es" if "i \<in> set (winners att e reqs ?ps)" for i
  proof -
    from that have i: "i < length reqs" and w: "is_winner att e (reqs ! i) (?ps ! i)"
      by (auto simp: winners_def)
    obtain recipe opts where q: "reqs ! i = (recipe, att, opts)" "aoExpectedEpoch opts = e"
      using w by (cases "reqs ! i") (auto simp: is_winner_def)
    obtain r where r: "?ps ! i = Return (Inr r)" "\<not> arDuplicate r"
      using w by (auto simp: is_winner_def split: prog.splits sum.splits)
    have p: "fst ?c ! i = Attach env recipe att opts" using i q by (simp add: attach_procs_def)
    have "must (wins att e) (\<lambda>x. \<exists>r. x = Inr r \<and> \<not> arDuplicate r) (fst ?c ! i)"
      unfolding p using attach_must [OF assms(1), of opts att recipe] q assms(2) by simp
    from path_must [OF trace_path [OF refl, of i ?c clk sched] r(1) this] r(2) i
    obtain d rep where "(d, rep) \<in> set (calls_of i (trace clk sched ?c))" "wins att e d rep" by (auto simp: attach_procs_def)
    then show ?thesis by (intro exI [of _ d] exI [of _ rep]) (auto simp: calls_of_def)
  qed
  have "\<forall>p \<in> set (fst ?c). all_calls (attach_call UNIV False) p"
    using assms(1) by (auto simp: attach_procs_def intro: attach_calls)
  from fence_once [OF this assms(2), of att clk sched] have "length ?es \<le> 1" by (auto split: if_splits)
  then obtain ev where ev: "set ?es \<subseteq> {ev}" by (cases ?es) auto
  have "set (winners att e reqs ?ps) \<subseteq> {fst ev}" using event ev by fastforce
  then have "length (winners att e reqs ?ps) \<le> card {fst ev}"
    using card_mono [of "{fst ev}" "set (winners att e reqs ?ps)"] distinct_card [of "winners att e reqs ?ps"] by (simp add: winners_def)
  with many show False by simp
qed

theorem attach_one_winner_witness:
  "let ps = fst (interleave demo_clock (replicate 2 0 @ replicate 9 1 @ replicate 7 0) (attach_procs demo_env (replicate 2 (demo_request [])), demo_control, 0))
   in conditionalWriter demo_env = Inr True \<and> length (winners ''gc-1'' 1 (replicate 2 (demo_request [])) ps) \<le> 1
     \<and> map outcome_view ps = [Some (Inl ErrEpochConflict), Some (Inr (''gc-2'', False))]"
  using attach_one_winner [OF demo_conditional, of 1 "''gc-1''" "replicate 2 (demo_request [])" demo_clock
      "replicate 2 0 @ replicate 9 1 @ replicate 7 0" "(demo_control, 0)"] demo_race demo_conditional
  unfolding attach_run_def Let_def case_prod_unfold by simp

text \<open>C8: a candidate settles once.  In every such interleaving every bead keeps its status and its fence marker moves
  only one way (\<open>true\<close> to \<open>activating\<close> or \<open>failed\<close>, \<open>activating\<close> to cleared), so that a neutralized candidate is
  never activated and an activated one never neutralized.  As long as no processor expects the largest 64-bit integer, after which the
  counter wraps, the control epoch of every bead only grows.\<close>

theorem attach_settles_once:
  assumes "conditionalWriter env = Inr True"
    and "interleave clk sched (attach_procs env reqs, s) = c" and "interleave clk sched' c = c'"
    and "find_bead i (fst (snd c)) = Some b"
  shows "\<exists>b'. find_bead i (fst (snd c')) = Some b' \<and> Status b' = Status b \<and> settles (marker b) (marker b')
     \<and> ((\<forall>r \<in> set reqs. aoExpectedEpoch (snd (snd r)) < 2 ^ 63 - 1) \<longrightarrow> later (epoch_text b) (epoch_text b'))"
proof -
  let ?E = "(\<lambda>r. aoExpectedEpoch (snd (snd r))) ` set reqs"
  have calls: "\<forall>p \<in> set (fst (attach_procs env reqs, s)). all_calls (attach_call ?E False) p"
    using assms(1) by (force simp: attach_procs_def intro!: attach_calls)
  then have c: "\<forall>p \<in> set (fst c). all_calls (attach_call ?E False) p" using fenced.interleaved [OF calls assms(2)] by blast
  obtain b' where b': "find_bead i (fst (snd c')) = Some b'" "fence_order ?E b b'"
    using fenced.interleaved [OF c assms(3)] assms(4) unfolding each_bead_def by blast
  moreover have "Status b' = Status b"
    using standing.interleaved [OF c assms(3)] assms(4) b'(1) unfolding each_bead_def by fastforce
  moreover have "later (epoch_text b) (epoch_text b')" if "\<forall>r \<in> set reqs. aoExpectedEpoch (snd (snd r)) < 2 ^ 63 - 1"
    using b'(2) that by (intro later_steps [of ?E]) (auto simp: fence_order_def)
  ultimately show ?thesis by (auto simp: fence_order_def)
qed

theorem attach_settles_once_witness:
  "\<exists>b b'. find_bead ''gc-1'' demo_control = Some b
     \<and> find_bead ''gc-1'' (fst (snd (interleave demo_clock (replicate 2 0 @ replicate 9 1 @ replicate 7 0)
         (attach_procs demo_env (replicate 2 (demo_request [])), demo_control, 0)))) = Some b'
     \<and> epoch_text b = ''1'' \<and> later ''1'' (epoch_text b') \<and> Status b' = ''open'' \<and> settles (marker b) (marker b')"
proof -
  have "find_bead ''gc-1'' (fst (snd (interleave demo_clock [] (attach_procs demo_env (replicate 2 (demo_request [])), demo_control, 0))))
      = Some (hd (beads demo_control))"
    by (simp add: find_bead_def demo_control_def Create_def NewMemStore_def NewMemStoreFrom_def Let_def itoa_def show_nat.simps)
  from attach_settles_once [OF demo_conditional refl refl this, of "replicate 2 0 @ replicate 9 1 @ replicate 7 0"] this show ?thesis
    by (auto simp: demo_control_def demo_request_def Create_def NewMemStore_def NewMemStoreFrom_def Let_def epoch_text_def mget_def)
qed

section \<open>One processor\<close>

text \<open>C13: an attached sub-DAG holds its bead back.  When \<open>Attach\<close> returns, whether it made the sub-DAG or found it,
  and whatever the mode of the store, the root it reports is in the store and open, and the ready queue, asked
  in any way at any time, does not offer the bead it was attached to.\<close>

theorem attach_blocks_parent:
  assumes "mem_reachable m" and "run_prog clk (Attach env recipe att opts) (m, n) = (Inr res, m', n')"
  shows "is_open (arRootID res) m' \<and> (\<exists>out. Ready now queries m' = Inr out \<and> att \<notin> ID ` set out)"
proof -
  have wf: "mem_wf m" using assms(1) by (rule mem_reachable_wf)
  from ensuresD [OF attach_blocks _ assms(2)] wf have b: "blocked_on att (arRootID res) m'" by simp
  then obtain d where d: "d \<in> set (deps m')" "IssueID d = att" "DependsOnID d = arRootID res" "DepType d = ''blocks''"
    and root: "is_open (arRootID res) m'" by (auto simp: blocked_on_def)
  have wf': "mem_wf m'" using ensuresD [OF ensures_wf _ assms(2)] wf by simp
  have "att \<notin> ID ` set (ready_spec now (readyQueryFromArgs queries) m')"
  proof
    assume "att \<in> ID ` set (ready_spec now (readyQueryFromArgs queries) m')"
    then obtain c where "c \<in> set (ready_spec now (readyQueryFromArgs queries) m')" "ID c = att" by auto
    then have "unblocked m' c" using limit_slice_set unfolding ready_spec_def ready_pred_def by fastforce
    with d \<open>ID c = att\<close> have "edge_satisfied m' c d" by (auto simp: unblocked_def list_all_iff blocking_type_iff)
    with d root show False
      by (auto simp: edge_satisfied_def is_open_def IsReadyBlockingDependencySatisfiedFor_def split: option.splits if_splits)
  qed
  with root Ready_spec [OF wf'] show ?thesis by blast
qed

definition plain_opts :: AttachOptions where
  "plain_opts = \<lparr>aoTitle = [], aoVars = Map.empty, aoIdempotencyKey = [], aoExpectedEpoch = 0\<rparr>"

lemma demo_attached:
  "case run_prog demo_clock (Attach demo_env (demo_recipe [''run'']) ''gc-1'' plain_opts) (demo_control, 0) of
     (Inl e, s) \<Rightarrow> False | (Inr r, s) \<Rightarrow> arRootID r = ''gc-2'' \<and> \<not> arDuplicate r"
  by code_simp

lemma demo_control_reachable: "mem_reachable demo_control"
proof -
  have "NewMemStore\<lparr>DisableConditionalWrites := False\<rparr> = NewMemStore" by (simp add: NewMemStore_def)
  then show ?thesis unfolding demo_control_def
    using mem_reachable.step [OF mem_reachable.start [of False] st_Create] by simp
qed

theorem attach_blocks_parent_witness:
  "\<exists>r m n. run_prog demo_clock (Attach demo_env (demo_recipe [''run'']) ''gc-1'' plain_opts) (demo_control, 0) = (Inr r, m, n)
     \<and> arRootID r = ''gc-2'' \<and> is_open ''gc-2'' m \<and> (\<exists>out. Ready 200 [] m = Inr out \<and> ''gc-1'' \<notin> ID ` set out)"
proof -
  let ?p = "Attach demo_env (demo_recipe [''run'']) ''gc-1'' plain_opts"
  obtain q m n where q: "run_prog demo_clock ?p (demo_control, 0) = (q, m, n)" by (metis prod_cases3)
  with demo_attached obtain r where r: "q = Inr r" "arRootID r = ''gc-2''"
    by (cases q) simp_all
  from attach_blocks_parent [OF demo_control_reachable q [unfolded r(1)], of 200 "[]"] q r show ?thesis by auto
qed

section \<open>Schedules the protocol does not exclude\<close>

text \<open>Recovery can race the fence.  A processor crashes with its candidate made and the fence not yet passed; its
  retry claims that candidate; before the retry advances the epoch, a slower processor that had looked before the
  candidate existed passes the fence with a candidate of its own.  Both candidates are then live, under the same
  idempotency key and for the same epoch, and the steps of both are runnable.\<close>

lemma attach_recovery_two_live:
  "attach_run [''run''] (replicate 2 0 @ replicate 5 1 @ replicate 4 2 @ replicate 10 0 @ replicate 8 2) 3 demo_control =
     ([Some (Inr (''gc-4'', False)), None, Some (Inr (''gc-2'', True))],
      [(''gc-1'', ''task'', [], False, []), (''gc-2'', ''task'', [], False, ''k''), (''gc-3'', ''task'', [], False, []),
       (''gc-4'', ''task'', [], False, ''k''), (''gc-5'', ''task'', [], False, [])])"
  by code_simp

text \<open>A processor that crashes after it created the root and before it created the step leaves a candidate
  that the retry activates and adopts as complete: the attachment succeeds without its step.\<close>

lemma attach_partial_adopted:
  "attach_run [''run''] (replicate 3 0 @ replicate 12 1) 2 demo_control =
     ([None, Some (Inr (''gc-2'', True))], [(''gc-1'', ''task'', [], False, []), (''gc-2'', ''task'', [], False, ''k'')])"
  by code_simp

text \<open>Two candidates are left pending.  Recovery keeps the one whose id is smaller as a string, here the
  younger one, and marks only the root of the other as failed; looking for the steps of the survivor it finds
  the older step first, which belongs to the neutralized candidate, activates it, and leaves the survivor's own
  step deferred.\<close>

lemma attach_recovery_wrong_steps:
  "attach_run [''run''] (replicate 2 0 @ replicate 5 1 @ replicate 3 0 @ replicate 17 2) 3 (demo_control\<lparr>seq := 8\<rparr>) =
     ([None, None, Some (Inr (''gc-11'', True))],
      [(''gc-1'', ''task'', [], False, []), (''gc-9'', ''gate'', ''failed'', True, ''k''), (''gc-10'', ''task'', [], False, []),
       (''gc-11'', ''task'', [], False, ''k''), (''gc-12'', ''gate'', [], False, [])])"
  by code_simp

end
