(* ===== verification/Spec2Isabelle.thy ===== *)
theory Spec2Isabelle
  imports Bead_Properties Session_Properties Pool_Plan Breaker Close_Order Conv_Properties Attach_Properties
begin

text \<open>
  \<^bold>\<open>A verification library for the work-tracking core of gascity.\<close>

  Gascity runs teams of coding agents.  Work items are beads, kept in a bead store with dependency
  edges; a ready query offers the beads nothing blocks.  Workflows are formulas: a compiler turns a formula into a
  recipe of steps and edges, and the molecule package creates the beads of a recipe in the store.  Agents run
  in sessions, whose lifecycle is written into the metadata of a session bead.  A convergence loop repeats a workflow (a wisp per
  iteration) until a gate script passes, with its whole state in the metadata of a root bead, so that it survives a crash of the
  controller.  Shared resources are guarded by a create budget and by circuit breakers.

  \<^bold>\<open>Parts, theories and code\<close> (paths under \<^verbatim>\<open>src/\<close>)

  \<^item> \<open>GC_Prelude\<close>, \<open>Go_Time\<close>: what the code uses of Go.  Strings are byte lists, decimal numbers, maps read with a
    default, stable sorting, 64-bit durations with their wrap-around, RFC 3339 times in the proleptic calendar, trimming of Unicode space.

  \<^item> \<open>Bead_Types\<close>, \<open>Bead_Query\<close>, \<open>Ready_Sort\<close>: \<^verbatim>\<open>internal/beads/beads.go\<close> and \<^verbatim>\<open>query.go\<close>: the bead record, the readiness predicates, list
    queries with seek pagination, and the ready order with its cancellable in-place merge sort.

  \<^item> \<open>Mem_Store\<close>, \<open>Mem_Store_Laws\<close>, \<open>Mem_Ready\<close>, \<open>Store_Contracts\<close>, \<open>Bead_Properties\<close>: \<^verbatim>\<open>internal/beads/memstore.go\<close> and
    \<^verbatim>\<open>memstore_conditional.go\<close>.  The store is a record (beads, edges, id counter, clone-local strings); every
    method is a function to a result and a new store, with the clock reading as an argument.  \<open>mem_step\<close> and \<open>mem_reachable\<close>
    are its transition system.  Two interfaces are locales interpreted on the store: versioned beads with
    optimistic writes, and ownership fences.

  \<^item> \<open>Close_Order\<close>: \<^verbatim>\<open>internal/beads/closeorder/closeorder.go\<close>, over the dependency listing of a store.

  \<^item> \<open>Session_State\<close>, \<open>Session_Patches\<close>, \<open>Session_Projection\<close>, \<open>Session_Decide\<close>, \<open>Session_Properties\<close>: \<^verbatim>\<open>internal/session\<close>:
    the command table, the metadata patches of the lifecycle, the projection that reads them back, the timer and
    exit deciders and the pending-create lease, with the two callers in \<^verbatim>\<open>cmd/gc/session_lifecycle_parallel.go\<close> that commit a start.

  \<^item> \<open>Pool_Plan\<close>: \<^verbatim>\<open>internal/poolplan/create_budget.go\<close>.  \<open>Breaker\<close>: \<^verbatim>\<open>internal/resilience\<close>, with the clock and the random draw as arguments.

  \<^item> \<open>Recipe\<close>, \<open>Recipe_Order\<close>: the back end of the formula compiler (\<^verbatim>\<open>internal/formula/compile.go\<close>, \<^verbatim>\<open>selfclose.go\<close>).

  \<^item> \<open>Molecule\<close>, \<open>Molecule_Laws\<close>, \<open>Molecule_Properties\<close>: \<^verbatim>\<open>internal/molecule/molecule.go\<close> and the template variables of
    \<^verbatim>\<open>internal/formula/parser.go\<close>.  The local variables of the instantiation are the record \<open>cooking\<close>; each of its passes is a definition.

  \<^item> \<open>Store_Prog\<close>, \<open>Attach\<close>, \<open>Attach_Laws\<close>, \<open>Attach_Properties\<close>: \<open>Attach\<close> of the same file, which expands a running workflow by a sub-DAG under an
    idempotency key and an epoch fence, with \<^verbatim>\<open>internal/beads/conditional_writes_resolve.go\<close>, \<^verbatim>\<open>internal/rollout/gate/gate.go\<close> and \<^verbatim>\<open>internal/beadmeta/runid.go\<close>.
    Here an operation is a tree of store calls, and a schedule interleaves the calls of any number of processors; a processor that is not
    scheduled again has crashed.  The locale \<open>call_rel\<close> lifts what each call respects to runs and interleavings; it is interpreted on the
    calls of \<open>Attach\<close> for reachability, status, edges and the fence.  \<open>run_instantiateP\<close> says that the instantiation written call by call is,
    run alone, the one of \<open>Molecule\<close>.

  \<^item> \<open>Conv_Meta\<close>, \<open>Conv_Handler\<close>, \<open>Conv_Manual\<close>, \<open>Conv_Reconcile\<close>: \<^verbatim>\<open>internal/convergence\<close>.  The Go interface \<open>Store\<close> is a record of
    operations over a store state of any type; a handler is an action on that state and the emitted events, built from calls that may fail.

  \<^item> \<open>Conv_Contract\<close>, \<open>Conv_Invariant\<close>, \<open>Conv_Process\<close>, \<open>Conv_Safety\<close>, \<open>Conv_Entry\<close>: the locale \<open>conv_store\<close>, what a convergence store
    promises (any call may fail; a failed write either happened or changed nothing), a small
    program logic of triples for actions, and the invariants of the handlers proved once for every store with these promises.

  \<^item> \<open>Conv_Adapter\<close>, \<open>Conv_Adapter_Laws\<close>, \<open>Conv_Properties\<close>: \<^verbatim>\<open>cmd/gc/convergence_store.go\<close>, the implementation of that interface over the bead
    store and the molecule package, the interpretation of \<open>conv_store\<close> on it, and the properties of convergence loops.

  \<^bold>\<open>What is shown\<close>

  \<^item> Store: an invariant of all reachable stores; revisions never decrease and an equal revision means an equal bead; of
    concurrent conditional writers one wins; a bead's assignee changes only with its ownership fence; ids are never reused;
    the loops of the ready query compute its specification, and the controller's per-bead check agrees with it.

  \<^item> Sorting and order: the in-place merge sort equals the stable sort; the close order is a permutation that puts
    blockers first; the order of a compiled graph workflow is topological and fails exactly on a cycle.

  \<^item> Sessions: invariants of the metadata over any sequence of patches, with starts committed as their callers do, what the projection
    promises about them, and when a late start result is committed.

  \<^item> Budget and breaker: claims never exceed the limit, shares add up and starve nobody; the back-off doubles up to its maximum
    without overflow, the breaker opens exactly at its threshold and rations its probes.

  \<^item> Molecules: an instantiation leaves existing beads alone and either succeeds or marks all it made as failed; deferred
    work is never ready; lifting a fence gives the bead back.

  \<^item> Attachments: in every interleaving the fence of an epoch has at most one winner, and a candidate settles once, as activated or as neutralized;
    when an attachment returns, its bead is held back from the ready queue.

  \<^item> Convergence: a loop is live or properly ended after any sequence of operations with any failures; termination is final; the
    marker of a processed wisp is written only after the transition it stands for is complete; decisions follow the gate; a persisted
    gate outcome is read back and replayed; gate retries are bounded; a repeated pour returns the wisp of the first one.

  \<^item> Five lemmas and theorems show, on concrete runs or in general, that the code does not do what it means to: \<open>adapter_iteration_restarts\<close> (iterations are
    not counted), \<open>speculative_step_becomes_task\<close> (a hidden step becomes visible work), \<open>attach_recovery_two_live\<close> (recovery races the fence),
    \<open>attach_partial_adopted\<close> (a half-made sub-DAG is adopted) and \<open>attach_recovery_wrong_steps\<close> (the steps of the wrong candidate are activated).

  \<^bold>\<open>Bounds and fuel\<close>

  Loops are recursion over their data, or \<open>function\<close> with a measure.  Three recursions follow data the code does not bound: the
  deletion of a bead tree (\<open>hDepth\<close>), the activation of a bead tree (\<open>aeDepth\<close>; \<open>activation_returns\<close> says that any depth above the height of
  the tree is enough) and the topological loop, whose fuel is the number of steps, each of which it takes at most once.  Running out of
  depth is an error value like any other, so the invariants hold for every depth.  Durations, control epochs, the elastic
  demand of the budget and the counters of failed starts wrap as in Go; where a property needs that a sum stays below \<open>2 ^ 63\<close> it says so.  Iteration
  numbers, revisions and fences are integers that the code keeps in 64 bits too; the model does not wrap them, which differs only after
  \<open>2 ^ 63\<close> events.

  \<^bold>\<open>Parameters\<close>

  The clock, random draws, gate scripts (\<open>GateRunner\<close>), the front end of the formula compiler (\<open>frontEnd\<close>), \<open>graphv2.IsGraphV2Formula\<close>
  and the regular-expression library; for attachments the conditional-writes mode stamped on the store and the answer of its capability
  probe, neither of which changes while a store is open.  The hex digest of a configuration and the JSON texts stored with a start are arguments too.  The only assumption on all of these is that of \<open>pour_idempotent\<close>: the two readings of a formula agree on
  whether it is a graph workflow.  Each theorem with hypotheses has a witness that instantiates it.

  \<^bold>\<open>Not modelled\<close>

  The persistent stores (files, the \<^verbatim>\<open>bd\<close> command, Dolt), the reconciler loops over real sessions, runtimes, the HTTP API, configuration, events on disk and
  telemetry: their behaviour is that of processes, files and networks.  The formula front end and the parts of
  \<^verbatim>\<open>internal/formula/range.go\<close> that compute with floating-point numbers.  The instantiation path through stores that apply a graph in one
  call, which the in-memory store does not offer, and the instantiation of fragments.  The wrappers of stores that conditional writes are
  resolved through.  Starting gate scripts, resolving their paths, and the token file.
  Mutexes are not modelled: each method of the store, breaker and budget holds its lock throughout, so it is one step.
  Loops over Go maps whose order shows only in the order of writes run in the order in which the entries were made.
\<close>

end
